(* ===== verification/Prelude.thy ===== *)
theory Prelude
  imports Main "HOL-Library.Word" "HOL-Library.AList" "HOL-Library.Multiset"
begin

text \<open>
  Shared material: the machine types of the crate (\<open>u64\<close> ids and ticks, 128-bit UUIDs), the
  saturating operations of \<open>core\<close> the source calls on them, and the list idioms the source
  uses on its \<open>Vec\<close>s (find-and-replace-or-push, remove-the-first, drain-into-an-archive,
  push-if-unseen), each with the lemmas the components share.
\<close>

named_theorems ledger_simps
  \<open>facts on the operations that act on one ledger list\<close>

section \<open>Machine types\<close>

type_synonym u64 = "64 word"
type_synonym uuid = "128 word"

text \<open>Rust's \<open>u64::MAX\<close> and the nil UUID.\<close>

abbreviation u64_max :: u64 where
  "u64_max \<equiv> - 1"

abbreviation uuid_nil :: uuid where
  "uuid_nil \<equiv> 0"

definition sat_add :: "u64 \<Rightarrow> u64 \<Rightarrow> u64" where
  "sat_add a b = (if unat a + unat b < 2 ^ 64 then a + b else u64_max)"

definition sat_sub :: "u64 \<Rightarrow> u64 \<Rightarrow> u64" where
  "sat_sub a b = (if a < b then 0 else a - b)"

definition sat_mul :: "u64 \<Rightarrow> u64 \<Rightarrow> u64" where
  "sat_mul a b = (if unat a * unat b < 2 ^ 64 then a * b else u64_max)"

lemma unat_u64_lt: "unat (a :: u64) < 2 ^ 64"
  using unsigned_less [of a] by simp

lemma unat_u64_max: "unat u64_max = 2 ^ 64 - 1"
  by (simp add: unsigned_minus_1_eq_mask mask_eq_exp_minus_1)

lemma unat_sat_add: "unat (sat_add a b) = min (2 ^ 64 - 1) (unat a + unat b)"
  by (auto simp: sat_add_def unat_word_ariths unat_u64_max)

lemma sat_add_ge: "a \<le> sat_add a b"
  using unat_u64_lt [of a] by (simp add: word_le_nat_alt unat_sat_add)

lemma sat_add_mono: "a \<le> a' \<Longrightarrow> sat_add a b \<le> sat_add a' b"
  by (simp add: word_le_nat_alt unat_sat_add)

lemma u64_le_max [simp]: "a \<le> u64_max"
  by simp

lemma sat_add_1_gt: "a \<noteq> u64_max \<Longrightarrow> a < sat_add a 1"
proof -
  assume "a \<noteq> u64_max"
  then have "unat a \<noteq> 2 ^ 64 - 1"
    by (metis unat_u64_max word_eq_iff_unsigned)
  then have "unat a < 2 ^ 64 - 1"
    using unat_u64_lt [of a] by simp
  then show ?thesis
    by (simp add: word_less_nat_alt unat_sat_add)
qed

lemma sat_add_1_max [simp]: "sat_add u64_max 1 = u64_max"
  by (simp add: sat_add_def unat_u64_max)

text \<open>\<open>Iterator::max\<close> over ids: \<open>None\<close> on an empty iterator.\<close>

definition max_opt :: "u64 list \<Rightarrow> u64 option" where
  "max_opt xs = (if xs = [] then None else Some (foldr max xs 0))"

lemma foldr_max_ge: "x \<in> set xs \<Longrightarrow> x \<le> foldr max xs (0 :: u64)"
  by (induction xs) (auto simp: le_max_iff_disj)

lemma max_opt_ge: "max_opt xs = Some m \<Longrightarrow> x \<in> set xs \<Longrightarrow> x \<le> m"
  by (auto simp: max_opt_def foldr_max_ge split: if_splits)

lemma foldr_max_in: "xs \<noteq> [] \<Longrightarrow> foldr max xs (0 :: u64) \<in> set xs"
proof (induction xs)
  case Nil
  then show ?case by simp
next
  case (Cons x xs)
  then show ?case by (cases "xs = []") (auto simp: max_def)
qed

section \<open>List idioms of the ledgers\<close>

text \<open>\<open>iter_mut().find(p)\<close> then \<open>*slot = x\<close>, else \<open>push(x)\<close>.\<close>

fun replace_or_push :: "('a \<Rightarrow> bool) \<Rightarrow> 'a \<Rightarrow> 'a list \<Rightarrow> 'a list" where
  "replace_or_push p x [] = [x]"
| "replace_or_push p x (y # ys) = (if p y then x # ys else y # replace_or_push p x ys)"

text \<open>\<open>iter_mut().find(p)\<close> then an update in place, nothing otherwise.\<close>

fun update_first :: "('a \<Rightarrow> bool) \<Rightarrow> ('a \<Rightarrow> 'a) \<Rightarrow> 'a list \<Rightarrow> 'a list" where
  "update_first p f [] = []"
| "update_first p f (y # ys) = (if p y then f y # ys else y # update_first p f ys)"

text \<open>\<open>iter().position(p)\<close> then \<open>remove(pos)\<close>.\<close>

fun remove_first :: "('a \<Rightarrow> bool) \<Rightarrow> 'a list \<Rightarrow> 'a list" where
  "remove_first p [] = []"
| "remove_first p (y # ys) = (if p y then ys else y # remove_first p ys)"

fun position :: "('a \<Rightarrow> bool) \<Rightarrow> 'a list \<Rightarrow> nat option" where
  "position p [] = None"
| "position p (x # xs) = (if p x then Some 0 else map_option Suc (position p xs))"

lemma position_Some: "position p xs = Some i \<Longrightarrow> i < length xs \<and> p (xs ! i)"
  by (induction xs arbitrary: i) (auto split: if_splits)

lemma position_None: "position p xs = None \<longleftrightarrow> (\<forall>x \<in> set xs. \<not> p x)"
  by (induction xs) auto

lemma set_replace_or_push: "set (replace_or_push p x xs) \<subseteq> insert x (set xs)"
  by (induction xs) auto

lemma in_replace_or_push [simp]: "x \<in> set (replace_or_push p x xs)"
  by (induction xs) auto

lemma kept_replace_or_push: "y \<in> set xs \<Longrightarrow> \<not> p y \<Longrightarrow> y \<in> set (replace_or_push p x xs)"
  by (induction xs) auto

lemma length_replace_or_push:
  "length (replace_or_push p x xs) = (if \<exists>y \<in> set xs. p y then length xs else Suc (length xs))"
  by (induction xs) auto

lemma set_remove_first: "set (remove_first p xs) \<subseteq> set xs"
  by (induction xs) auto

lemma mset_remove_first:
  "find p xs = Some x \<Longrightarrow> mset xs = add_mset x (mset (remove_first p xs))"
  by (induction xs) (auto split: if_splits)

lemma remove_first_none: "find p xs = None \<Longrightarrow> remove_first p xs = xs"
  by (induction xs) (auto split: if_splits)

lemma map_key_replace_or_push [ledger_simps]:
  "map k (replace_or_push (\<lambda>y. k y = k x) x xs) =
     (if k x \<in> k ` set xs then map k xs else map k xs @ [k x])"
  by (induction xs) auto

lemma distinct_map_remove_first: "distinct (map k xs) \<Longrightarrow> distinct (map k (remove_first p xs))"
  by (induction xs) (use set_remove_first in \<open>auto, fastforce\<close>)

lemma map_key_update_first [ledger_simps]:
  "(\<And>y. k (f y) = k y) \<Longrightarrow> map k (update_first p f xs) = map k xs"
  by (induction xs) auto

text \<open>
  The archive loop of \<open>release_leases_for_robot\<close> and \<open>expire_leases\<close>: walk the list by index,
  remove a matching element in place (the index stays), archive it, count it.
\<close>

function drain_loop ::
  "('a \<Rightarrow> bool) \<Rightarrow> ('a \<Rightarrow> 'a) \<Rightarrow> nat \<Rightarrow> 'a list \<Rightarrow> 'a list \<Rightarrow> u64 \<Rightarrow> 'a list \<times> 'a list \<times> u64"
where
  "drain_loop p f i act rel n =
     (if i < length act then
        (if p (act ! i)
         then drain_loop p f i (take i act @ drop (Suc i) act) (rel @ [f (act ! i)]) (n + 1)
         else drain_loop p f (Suc i) act rel n)
      else (act, rel, n))"
  by pat_completeness auto
termination
  by (relation "measure (\<lambda>(p, f, i, act, rel, n). length act - i)") auto

declare drain_loop.simps [simp del]

text \<open>The loop is a partition of the list: what stays keeps its order, what goes is archived.\<close>

lemma drain_loop_eq:
  "drain_loop p f i act rel n =
     (take i act @ filter (\<lambda>x. \<not> p x) (drop i act),
      rel @ map f (filter p (drop i act)),
      n + of_nat (length (filter p (drop i act))))"
proof (induction p f i act rel n rule: drain_loop.induct)
  case (1 p f i act rel n)
  show ?case
  proof (cases "i < length act")
    case False
    then show ?thesis by (simp add: drain_loop.simps [of p f i act rel n])
  next
    case True
    then have split: "drop i act = act ! i # drop (Suc i) act"
      by (simp add: Cons_nth_drop_Suc)
    show ?thesis
    proof (cases "p (act ! i)")
      case hit: True
      with True "1.IH"(1) show ?thesis
        by (simp add: drain_loop.simps [of p f i act rel n] split min_absorb2)
    next
      case miss: False
      with True "1.IH"(2) show ?thesis
        by (simp add: drain_loop.simps [of p f i act rel n] split take_Suc_conv_app_nth)
    qed
  qed
qed

lemma drain_loop_0:
  "drain_loop p f 0 act rel n =
     (filter (\<lambda>x. \<not> p x) act, rel @ map f (filter p act), n + of_nat (length (filter p act)))"
  by (simp add: drain_loop_eq)

section \<open>Hash maps and sets\<close>

text \<open>
  A \<open>HashMap\<close> or \<open>BTreeMap\<close> is an association list with distinct keys: lookup is \<open>map_of\<close>,
  insertion is \<open>AList.update\<close>. A \<open>HashSet\<close> is a list with \<open>List.insert\<close>.
\<close>

definition push_entry :: "'k \<Rightarrow> 'v \<Rightarrow> ('k \<times> 'v list) list \<Rightarrow> ('k \<times> 'v list) list" where
  \<comment> \<open>\<open>map.entry(k).or_default().push(v)\<close>\<close>
  "push_entry k v m = AList.update k ((case map_of m k of None \<Rightarrow> [] | Some vs \<Rightarrow> vs) @ [v]) m"

definition lookup_list :: "('k \<times> 'v list) list \<Rightarrow> 'k \<Rightarrow> 'v list" where
  "lookup_list m k = (case map_of m k of None \<Rightarrow> [] | Some vs \<Rightarrow> vs)"

lemma lookup_push_entry:
  "lookup_list (push_entry k v m) k' = (if k' = k then lookup_list m k @ [v] else lookup_list m k')"
  by (simp add: lookup_list_def push_entry_def update_conv')

lemma map_of_update: "map_of (AList.update k v m) k' = (if k' = k then Some v else map_of m k')"
  by (simp add: update_conv')

text \<open>\<open>if seen.insert(x) { out.push(x) }\<close> over a list.\<close>

fun push_unseen :: "'a list \<Rightarrow> 'a list \<Rightarrow> 'a list" where
  "push_unseen out [] = out"
| "push_unseen out (x # xs) = push_unseen (if x \<in> set out then out else out @ [x]) xs"

lemma set_push_unseen [simp]: "set (push_unseen out xs) = set out \<union> set xs"
  by (induction out xs rule: push_unseen.induct) auto

lemma distinct_push_unseen: "distinct out \<Longrightarrow> distinct (push_unseen out xs)"
  by (induction out xs rule: push_unseen.induct) auto

lemma push_unseen_append: "push_unseen out (xs @ ys) = push_unseen (push_unseen out xs) ys"
  by (induction out xs rule: push_unseen.induct) auto

end
