(* ===== verification/F64.thy ===== *)
theory F64
  imports Complex_Main Prelude
begin

text \<open>
  The \<open>f64\<close> of the source: IEEE 754 binary64 with round-to-nearest-even, as the language defines
  it. A finite value is the rational it stands for; every operation is the exact rational one
  followed by the rounding \<open>rnd\<close>, which also overflows to the infinities. The sign of zero is the
  one thing not represented: no code that is modelled reads it (it compares, adds, multiplies and
  divides by values it has checked to be positive).

  The lemmas give what the planners rest on: rounding is monotone and leaves representable
  values alone, so adding a nonnegative cost never decreases a distance.
\<close>

section \<open>Rounding a rational to 53 bits\<close>

text \<open>Round half to even, to an integer.\<close>

definition rne :: "rat \<Rightarrow> int" where
  "rne q = (let n = \<lfloor>q\<rfloor>; r = q - of_int n in
     if r < 1 / 2 then n else if 1 / 2 < r then n + 1 else if even n then n else n + 1)"

lemma rne_of_int [simp]: "rne (of_int n) = n"
  by (simp add: rne_def)

lemma rne_0 [simp]: "rne 0 = 0"
  by (simp add: rne_def)

lemma rne_bounds: "\<lfloor>q\<rfloor> \<le> rne q" "rne q \<le> \<lfloor>q\<rfloor> + 1"
  by (auto simp: rne_def Let_def)

lemma rne_mono:
  assumes "p \<le> q"
  shows "rne p \<le> rne q"
proof (cases "\<lfloor>p\<rfloor> = \<lfloor>q\<rfloor>")
  case True
  with assms show ?thesis by (auto simp: rne_def Let_def)
next
  case False
  with assms have "\<lfloor>p\<rfloor> + 1 \<le> \<lfloor>q\<rfloor>"
    by (meson floor_mono le_less zless_imp_add1_zle)
  with rne_bounds [of p] rne_bounds [of q] show ?thesis by linarith
qed

text \<open>Bit length and the binary logarithm of a positive rational.\<close>

fun bit_len :: "nat \<Rightarrow> nat" where
  "bit_len n = (if n = 0 then 0 else Suc (bit_len (n div 2)))"

declare bit_len.simps [simp del]

lemma bit_len_bounds: "n \<noteq> 0 \<Longrightarrow> 2 ^ bit_len n \<le> 2 * n \<and> n < 2 ^ bit_len n"
proof (induction n rule: bit_len.induct)
  case (1 n)
  show ?case
  proof (cases "n div 2 = 0")
    case True
    with 1 have "n = 1" by arith
    then show ?thesis by (simp add: bit_len.simps)
  next
    case False
    with 1 have "2 ^ bit_len (n div 2) \<le> 2 * (n div 2)" "n div 2 < 2 ^ bit_len (n div 2)"
      by blast+
    moreover have "bit_len n = Suc (bit_len (n div 2))"
      using 1 by (subst bit_len.simps) simp
    ultimately show ?thesis by simp arith
  qed
qed

lemma bit_len_rat:
  assumes "0 < a"
  shows "(2 :: rat) ^ bit_len (nat a) \<le> 2 * of_int a \<and> of_int a < (2 :: rat) ^ bit_len (nat a)"
proof -
  have nz: "nat a \<noteq> 0" using assms by simp
  have eq: "(of_nat (nat a) :: rat) = of_int a" using assms by simp
  have "(of_nat (2 ^ bit_len (nat a)) :: rat) \<le> of_nat (2 * nat a)"
    using bit_len_bounds [OF nz] by (simp only: of_nat_le_iff)
  moreover have "(of_nat (nat a) :: rat) < of_nat (2 ^ bit_len (nat a))"
    using bit_len_bounds [OF nz] by (simp only: of_nat_less_iff)
  ultimately show ?thesis by (simp add: eq)
qed

definition flog2 :: "rat \<Rightarrow> int" where
  "flog2 q = (let (a, b) = quotient_of q; e = int (bit_len (nat a)) - int (bit_len (nat b)) in
     if 2 powi e \<le> q then e else e - 1)"

lemma flog2_bounds:
  assumes "0 < q"
  shows "2 powi flog2 q \<le> q" and "q < 2 powi (flog2 q + 1)"
proof -
  obtain a b where ab: "quotient_of q = (a, b)" by fastforce
  then have b: "0 < b" by (rule quotient_of_denom_pos)
  have q: "q = of_int a / of_int b" using ab by (rule quotient_of_div)
  with assms b have a: "0 < a"
    by (metis of_int_0_less_iff zero_less_divide_iff not_less_iff_gr_or_eq)
  let ?la = "bit_len (nat a)" and ?lb = "bit_len (nat b)"
  let ?e = "int ?la - int ?lb"
  have la': "(2 :: rat) ^ ?la \<le> 2 * of_int a" "of_int a < (2 :: rat) ^ ?la"
    using bit_len_rat [OF a] by auto
  have lb': "(2 :: rat) ^ ?lb \<le> 2 * of_int b" "of_int b < (2 :: rat) ^ ?lb"
    using bit_len_rat [OF b] by auto
  have pe: "(2 :: rat) powi ?e = 2 ^ ?la / 2 ^ ?lb"
    by (simp add: power_int_diff)
  have pe1: "(2 :: rat) powi (?e + 1) = 2 * (2 ^ ?la / 2 ^ ?lb)"
    unfolding pe [symmetric] by (simp add: power_int_add_1)
  have pm1: "(2 :: rat) powi (?e - 1) = (2 ^ ?la / 2 ^ ?lb) / 2"
    unfolding pe [symmetric] using power_int_diff [of "2 :: rat" ?e 1] by simp
  have pb: "0 < (of_int b :: rat)" using b by simp
  have up: "q < 2 powi (?e + 1)"
  proof -
    have "of_int a * (2 :: rat) ^ ?lb < 2 ^ ?la * (2 * of_int b)"
      using la'(2) lb'(1) a by (intro mult_less_le_imp_less) auto
    then show ?thesis
      using pb unfolding q pe1 by (simp add: field_simps)
  qed
  have lo: "2 powi (?e - 1) \<le> q"
  proof -
    have "(2 :: rat) ^ ?la * of_int b \<le> 2 * of_int a * 2 ^ ?lb"
      using la'(1) lb'(2) a b by (intro mult_mono) auto
    then show ?thesis
      using pb unfolding q pm1 by (simp add: field_simps)
  qed
  have fl: "flog2 q = (if 2 powi ?e \<le> q then ?e else ?e - 1)"
    by (simp add: flog2_def ab Let_def)
  show "2 powi flog2 q \<le> q" using lo by (simp add: fl)
  show "q < 2 powi (flog2 q + 1)" using up by (simp add: fl not_le)
qed

lemma powi_less_imp: "(2 :: rat) powi m < 2 powi n \<Longrightarrow> m < n"
  by (meson not_less power_int_increasing one_le_numeral)

lemma flog2_mono:
  assumes "0 < p" "p \<le> q"
  shows "flog2 p \<le> flog2 q"
proof -
  have "(2 :: rat) powi flog2 p \<le> p" "q < 2 powi (flog2 q + 1)"
    using flog2_bounds [of p] flog2_bounds [of q] assms by auto
  with assms have "(2 :: rat) powi flog2 p < 2 powi (flog2 q + 1)" by linarith
  then show ?thesis using powi_less_imp by fastforce
qed

text \<open>
  The exponent of the last place of \<open>q\<close> (53 significant bits, not below the subnormals), and
  the rounding of a positive rational to that place.
\<close>

definition ulp_exp :: "rat \<Rightarrow> int" where
  "ulp_exp q = max (flog2 q - 52) (- 1074)"

definition rnd_pos :: "rat \<Rightarrow> rat" where
  "rnd_pos q = of_int (rne (q / 2 powi ulp_exp q)) * 2 powi ulp_exp q"

lemma powi_int_quot:
  assumes "k \<le> e"
  shows "(2 :: rat) powi e / 2 powi k = of_int (2 ^ nat (e - k))"
proof -
  have "(2 :: rat) powi e / 2 powi k = 2 powi (e - k)" by (simp add: power_int_diff)
  also have "\<dots> = 2 ^ nat (e - k)" using assms by (simp add: power_int_def)
  finally show ?thesis by simp
qed

lemma rnd_pos_le_powi:
  assumes "q \<le> 2 powi e" "ulp_exp q \<le> e"
  shows "rnd_pos q \<le> 2 powi e"
proof -
  let ?u = "(2 :: rat) powi ulp_exp q"
  have "rne (q / ?u) \<le> rne (of_int (2 ^ nat (e - ulp_exp q)))"
    using assms by (intro rne_mono) (simp add: powi_int_quot [symmetric] divide_right_mono del: of_int_power)
  then have "(of_int (rne (q / ?u)) :: rat) \<le> 2 powi e / ?u"
    unfolding powi_int_quot [OF assms(2)] by (simp only: rne_of_int of_int_le_iff)
  then show ?thesis by (simp add: rnd_pos_def pos_le_divide_eq)
qed

lemma rnd_pos_ge_powi:
  assumes "2 powi e \<le> q" "ulp_exp q \<le> e"
  shows "2 powi e \<le> rnd_pos q"
proof -
  let ?u = "(2 :: rat) powi ulp_exp q"
  have "rne (of_int (2 ^ nat (e - ulp_exp q))) \<le> rne (q / ?u)"
    using assms by (intro rne_mono) (simp add: powi_int_quot [symmetric] divide_right_mono del: of_int_power)
  then have "2 powi e / ?u \<le> (of_int (rne (q / ?u)) :: rat)"
    unfolding powi_int_quot [OF assms(2)] by (simp only: rne_of_int of_int_le_iff)
  then show ?thesis by (simp add: rnd_pos_def pos_divide_le_eq)
qed

lemma rnd_pos_mono:
  assumes "0 < p" "p \<le> q"
  shows "rnd_pos p \<le> rnd_pos q"
proof -
  have q: "0 < q" using assms by simp
  have k: "ulp_exp p \<le> ulp_exp q"
    using flog2_mono [OF assms] by (auto simp: ulp_exp_def)
  show ?thesis
  proof (cases "ulp_exp p = ulp_exp q")
    case True
    with assms show ?thesis
      by (simp add: rnd_pos_def rne_mono divide_right_mono)
  next
    case False
    with k have kq: "ulp_exp q = flog2 q - 52" and less: "flog2 p + 1 \<le> flog2 q"
      by (auto simp: ulp_exp_def max_def split: if_splits)
    have "p \<le> 2 powi (flog2 p + 1)" using flog2_bounds(2) [OF assms(1)] by simp
    also have "\<dots> \<le> 2 powi flog2 q" using less by (simp add: power_int_increasing)
    finally have "rnd_pos p \<le> 2 powi flog2 q"
      using k kq by (intro rnd_pos_le_powi) auto
    also have "\<dots> \<le> rnd_pos q"
      using flog2_bounds(1) [OF q] kq by (intro rnd_pos_ge_powi) auto
    finally show ?thesis .
  qed
qed

lemma rnd_pos_nonneg: "0 < q \<Longrightarrow> 0 \<le> rnd_pos q"
proof -
  assume "0 < q"
  then have "rne (of_int 0) \<le> rne (q / 2 powi ulp_exp q)" by (intro rne_mono) simp
  then show ?thesis by (simp add: rnd_pos_def)
qed

text \<open>A multiple of the last place is left alone; so rounding twice is rounding once.\<close>

lemma rnd_pos_exact:
  assumes "q = of_int m * 2 powi k" "ulp_exp q \<le> k"
  shows "rnd_pos q = q"
proof -
  have "q / 2 powi ulp_exp q = of_int (m * 2 ^ nat (k - ulp_exp q))"
    using powi_int_quot [OF assms(2)] by (simp add: assms(1) field_simps)
  then show ?thesis by (simp only: rnd_pos_def rne_of_int) (simp add: field_simps)
qed

lemma rnd_pos_idem:
  assumes "0 < q" "0 < rnd_pos q"
  shows "rnd_pos (rnd_pos q) = rnd_pos q"
proof -
  let ?r = "rnd_pos q" and ?m = "rne (q / 2 powi ulp_exp q)"
  have r: "?r = of_int ?m * 2 powi ulp_exp q" by (simp add: rnd_pos_def)
  show ?thesis
  proof (cases "ulp_exp ?r \<le> ulp_exp q")
    case True
    with r show ?thesis by (rule rnd_pos_exact)
  next
    case False
    then have kr: "ulp_exp ?r = flog2 ?r - 52" and up: "flog2 q + 1 \<le> flog2 ?r"
      by (auto simp: ulp_exp_def max_def split: if_splits)
    have "ulp_exp q \<le> flog2 q + 1 \<or> flog2 q + 1 < - 1074"
      by (auto simp: ulp_exp_def)
    then have "?r \<le> 2 powi flog2 ?r"
    proof
      assume "ulp_exp q \<le> flog2 q + 1"
      then have "?r \<le> 2 powi (flog2 q + 1)"
        using flog2_bounds(2) [OF assms(1)] by (intro rnd_pos_le_powi) auto
      also have "\<dots> \<le> 2 powi flog2 ?r" using up by (simp add: power_int_increasing)
      finally show ?thesis .
    next
      assume tiny: "flog2 q + 1 < - 1074"
      then have "q \<le> 2 powi (- 1074)"
        using flog2_bounds(2) [OF assms(1)] power_int_increasing [of "flog2 q + 1" "- 1074" "2 :: rat"]
        by simp
      then have "?r \<le> 2 powi (- 1074)"
        using tiny by (intro rnd_pos_le_powi) (auto simp: ulp_exp_def)
      also have "\<dots> \<le> 2 powi flog2 ?r"
        using False kr by (intro power_int_increasing) (auto simp: ulp_exp_def)
      finally show ?thesis .
    qed
    with flog2_bounds(1) [OF assms(2)] have "?r = of_int 1 * 2 powi flog2 ?r" by simp
    then show ?thesis by (rule rnd_pos_exact) (simp add: kr)
  qed
qed

section \<open>Values and operations\<close>

datatype f64 = NaN | PInf | NInf | Fin rat

definition f64_limit :: rat where
  "f64_limit = 2 ^ 1024"

lemma f64_limit_pos [simp]: "0 < f64_limit"
  by (simp only: f64_limit_def zero_less_power zero_less_numeral)

lemma f64_limit_simps [simp]:
  "\<not> f64_limit \<le> 0" "\<not> 0 \<le> - f64_limit" "f64_limit \<le> r \<Longrightarrow> \<not> r \<le> - f64_limit"
  using f64_limit_pos by linarith+

definition rnd :: "rat \<Rightarrow> f64" where
  "rnd q =
     (if q = 0 then Fin 0
      else let r = (if 0 < q then rnd_pos q else - rnd_pos (- q)) in
        if f64_limit \<le> r then PInf else if r \<le> - f64_limit then NInf else Fin r)"

fun f64_neg :: "f64 \<Rightarrow> f64" where
  "f64_neg NaN = NaN"
| "f64_neg PInf = NInf"
| "f64_neg NInf = PInf"
| "f64_neg (Fin q) = Fin (- q)"

fun f64_add :: "f64 \<Rightarrow> f64 \<Rightarrow> f64" where
  "f64_add (Fin a) (Fin b) = rnd (a + b)"
| "f64_add NaN _ = NaN"
| "f64_add _ NaN = NaN"
| "f64_add PInf NInf = NaN"
| "f64_add NInf PInf = NaN"
| "f64_add PInf _ = PInf"
| "f64_add NInf _ = NInf"
| "f64_add (Fin _) x = x"

definition f64_sub :: "f64 \<Rightarrow> f64 \<Rightarrow> f64" where
  "f64_sub a b = f64_add a (f64_neg b)"

definition signed_inf :: "rat \<Rightarrow> f64" where
  "signed_inf q = (if 0 < q then PInf else if q < 0 then NInf else NaN)"

fun f64_mul :: "f64 \<Rightarrow> f64 \<Rightarrow> f64" where
  "f64_mul (Fin a) (Fin b) = rnd (a * b)"
| "f64_mul NaN _ = NaN"
| "f64_mul _ NaN = NaN"
| "f64_mul PInf PInf = PInf"
| "f64_mul PInf NInf = NInf"
| "f64_mul NInf PInf = NInf"
| "f64_mul NInf NInf = PInf"
| "f64_mul PInf (Fin b) = signed_inf b"
| "f64_mul NInf (Fin b) = signed_inf (- b)"
| "f64_mul (Fin a) PInf = signed_inf a"
| "f64_mul (Fin a) NInf = signed_inf (- a)"

text \<open>Division by a zero gives the infinity of the dividend's sign (a positive zero).\<close>

fun f64_div :: "f64 \<Rightarrow> f64 \<Rightarrow> f64" where
  "f64_div (Fin a) (Fin b) = (if b = 0 then signed_inf a else rnd (a / b))"
| "f64_div NaN _ = NaN"
| "f64_div _ NaN = NaN"
| "f64_div PInf (Fin b) = (if b < 0 then NInf else PInf)"
| "f64_div NInf (Fin b) = (if b < 0 then PInf else NInf)"
| "f64_div (Fin _) _ = Fin 0"
| "f64_div _ _ = NaN"

text \<open>IEEE comparison: false on NaN.\<close>

fun f64_le :: "f64 \<Rightarrow> f64 \<Rightarrow> bool" where
  "f64_le NaN _ = False"
| "f64_le _ NaN = False"
| "f64_le NInf _ = True"
| "f64_le _ PInf = True"
| "f64_le (Fin a) (Fin b) = (a \<le> b)"
| "f64_le _ _ = False"

definition f64_lt :: "f64 \<Rightarrow> f64 \<Rightarrow> bool" where
  "f64_lt a b = (f64_le a b \<and> \<not> f64_le b a)"

definition f64_eq :: "f64 \<Rightarrow> f64 \<Rightarrow> bool" where
  "f64_eq a b = (f64_le a b \<and> f64_le b a)"

text \<open>\<open>f64::min\<close> and \<open>f64::max\<close>: the other argument when one is NaN.\<close>

definition f64_min :: "f64 \<Rightarrow> f64 \<Rightarrow> f64" where
  "f64_min a b = (if a = NaN then b else if b = NaN then a else if f64_le a b then a else b)"

definition f64_max :: "f64 \<Rightarrow> f64 \<Rightarrow> f64" where
  "f64_max a b = (if a = NaN then b else if b = NaN then a else if f64_le a b then b else a)"

definition f64_of_u64 :: "u64 \<Rightarrow> f64" where
  "f64_of_u64 n = rnd (of_nat (unat n))"

abbreviation f64_zero :: f64 where
  "f64_zero \<equiv> Fin 0"

section \<open>Order\<close>

lemma f64_le_refl [simp]: "f64_le a a \<longleftrightarrow> a \<noteq> NaN"
  by (cases a) auto

lemma f64_le_trans: "f64_le a b \<Longrightarrow> f64_le b c \<Longrightarrow> f64_le a c"
  by (cases a; cases b; cases c) auto

lemma f64_le_antisym: "f64_le a b \<Longrightarrow> f64_le b a \<Longrightarrow> a = b"
  by (cases a; cases b) auto

lemma f64_le_total: "a \<noteq> NaN \<Longrightarrow> b \<noteq> NaN \<Longrightarrow> f64_le a b \<or> f64_le b a"
  by (cases a; cases b) auto

lemma f64_le_not_nan: "f64_le a b \<Longrightarrow> a \<noteq> NaN \<and> b \<noteq> NaN"
  by (cases a; cases b) auto

lemma f64_le_PInf [simp]: "f64_le a PInf \<longleftrightarrow> a \<noteq> NaN"
  by (cases a) auto

lemma f64_lt_irrefl [simp]: "\<not> f64_lt a a"
  by (simp add: f64_lt_def)

lemma f64_not_lt: "a \<noteq> NaN \<Longrightarrow> b \<noteq> NaN \<Longrightarrow> \<not> f64_lt a b \<longleftrightarrow> f64_le b a"
  using f64_le_total [of a b] by (auto simp: f64_lt_def)

lemma f64_lt_Fin [simp]: "f64_lt (Fin a) (Fin b) \<longleftrightarrow> a < b"
  by (auto simp: f64_lt_def)

section \<open>Rounding is monotone and exact on its results\<close>

lemma rnd_0 [simp]: "rnd 0 = Fin 0"
  by (simp add: rnd_def)

lemma rnd_not_nan [simp]: "rnd q \<noteq> NaN"
  by (simp add: rnd_def Let_def)

lemma rnd_neg: "rnd (- q) = f64_neg (rnd q)"
proof -
  have "\<not> (f64_limit \<le> r \<and> f64_limit \<le> - r)" for r
    using f64_limit_pos by linarith
  then show ?thesis
    by (auto simp: rnd_def Let_def)
qed

lemma rnd_mono_pos:
  assumes "0 < p" "p \<le> q"
  shows "f64_le (rnd p) (rnd q)"
  using rnd_pos_mono [OF assms] rnd_pos_nonneg [OF assms(1)] assms by (auto simp: rnd_def Let_def)

lemma rnd_nonneg: "0 \<le> q \<Longrightarrow> f64_le (Fin 0) (rnd q)"
  using rnd_pos_nonneg [of q] by (cases "q = 0") (auto simp: rnd_def Let_def)

lemma f64_le_neg: "f64_le (f64_neg a) (f64_neg b) \<longleftrightarrow> f64_le b a"
  by (cases a; cases b) auto

lemma rnd_mono:
  assumes "p \<le> q"
  shows "f64_le (rnd p) (rnd q)"
proof (cases "0 < p")
  case True
  then show ?thesis using assms by (rule rnd_mono_pos)
next
  case p: False
  show ?thesis
  proof (cases "0 \<le> q")
    case True
    have "f64_le (f64_neg (rnd (- p))) (f64_neg (Fin 0))"
      using p by (simp only: f64_le_neg) (simp add: rnd_nonneg)
    then have "f64_le (rnd p) (Fin 0)" by (simp add: rnd_neg [symmetric])
    then show ?thesis using rnd_nonneg [OF True] by (rule f64_le_trans)
  next
    case False
    with assms have "f64_le (rnd (- q)) (rnd (- p))" by (intro rnd_mono_pos) auto
    then show ?thesis by (simp add: rnd_neg f64_le_neg)
  qed
qed

text \<open>A representable value is one rounding leaves alone; every operation returns one.\<close>

definition f64_ok :: "f64 \<Rightarrow> bool" where
  "f64_ok x = (case x of Fin q \<Rightarrow> rnd q = Fin q | _ \<Rightarrow> True)"

lemma f64_ok_simps [simp]: "f64_ok NaN" "f64_ok PInf" "f64_ok NInf" "f64_ok (Fin 0)"
  by (simp_all add: f64_ok_def)

lemma rnd_idem: "rnd q = Fin r \<Longrightarrow> rnd r = Fin r"
proof -
  assume q: "rnd q = Fin r"
  consider "q = 0" | "0 < q" | "q < 0" by linarith
  then show ?thesis
  proof cases
    case 1
    with q show ?thesis by simp
  next
    case 2
    with q have r: "r = rnd_pos q" "r < f64_limit"
      by (auto simp: rnd_def Let_def split: if_splits)
    then show ?thesis
      using rnd_pos_idem [OF 2] rnd_pos_nonneg [OF 2] by (cases "r = 0") (auto simp: rnd_def Let_def)
  next
    case 3
    then have q': "0 < - q" by simp
    from q 3 have r: "- r = rnd_pos (- q)" "- r < f64_limit"
      by (auto simp: rnd_def Let_def split: if_splits)
    then show ?thesis
      using rnd_pos_idem [OF q'] rnd_pos_nonneg [OF q'] by (cases "r = 0") (auto simp: rnd_def Let_def)
  qed
qed

lemma f64_ok_rnd [simp]: "f64_ok (rnd q)"
  by (cases "rnd q") (auto simp: f64_ok_def dest: rnd_idem)

lemma f64_ok_add: "f64_ok a \<Longrightarrow> f64_ok b \<Longrightarrow> f64_ok (f64_add a b)"
  by (cases "(a, b)" rule: f64_add.cases) auto

lemma f64_ok_neg: "f64_ok a \<Longrightarrow> f64_ok (f64_neg a)"
  by (cases a) (auto simp: f64_ok_def rnd_neg)

lemma f64_add_zero_right: "f64_ok a \<Longrightarrow> f64_add a (Fin 0) = a"
  by (cases a) (auto simp: f64_ok_def)

lemma f64_add_zero_left: "f64_ok a \<Longrightarrow> f64_add (Fin 0) a = a"
  by (cases a) (auto simp: f64_ok_def)

text \<open>Adding a nonnegative cost never decreases, and addition is monotone in the distance.\<close>

lemma f64_add_nonneg:
  assumes "f64_ok d" "f64_le (Fin 0) d" "f64_le (Fin 0) w"
  shows "f64_le d (f64_add d w)"
proof (cases "\<exists>a b. d = Fin a \<and> w = Fin b")
  case True
  then obtain a b where ab: "d = Fin a" "w = Fin b" by blast
  with assms have "f64_le (rnd a) (rnd (a + b))" by (intro rnd_mono) simp
  with assms ab show ?thesis by (simp add: f64_ok_def)
next
  case False
  with assms show ?thesis by (cases d; cases w) auto
qed

lemma f64_add_mono:
  assumes "f64_le a b" "f64_le (Fin 0) a" "f64_le (Fin 0) w"
  shows "f64_le (f64_add a w) (f64_add b w)"
  using assms by (cases a; cases b; cases w) (auto simp: rnd_mono)

lemma f64_add_nonneg_result:
  "f64_le (Fin 0) a \<Longrightarrow> f64_le (Fin 0) b \<Longrightarrow> f64_le (Fin 0) (f64_add a b)"
  by (cases a; cases b) (auto simp: rnd_nonneg)

text \<open>Small integers are exact, so a witness on integer costs evaluates by simplification.\<close>

lemma bit_len_le: "n < 2 ^ k \<Longrightarrow> bit_len n \<le> k"
proof (rule ccontr)
  assume n: "n < 2 ^ k" and "\<not> bit_len n \<le> k"
  then have k: "Suc k \<le> bit_len n" by simp
  then have "n \<noteq> 0" by (cases n) (auto simp: bit_len.simps [of 0])
  then have "2 ^ Suc k \<le> 2 * n"
    using bit_len_bounds [of n] k by (meson le_trans one_le_numeral power_increasing)
  with n show False by simp
qed

lemma rnd_pos_of_nat:
  assumes "0 < n" "n < 2 ^ 53"
  shows "rnd_pos (of_nat n) = of_nat n"
proof -
  have "(2 :: rat) powi flog2 (of_nat n) \<le> of_nat n"
    using assms by (intro flog2_bounds) simp
  also have "(of_nat n :: rat) < of_nat (2 ^ 53)"
    using assms(2) by (simp only: of_nat_less_iff)
  also have "\<dots> = 2 powi 53" by simp
  finally have "flog2 (of_nat n) < 53" by (rule powi_less_imp)
  then have "ulp_exp (of_nat n) \<le> 0" by (simp add: ulp_exp_def)
  then show ?thesis
    by (intro rnd_pos_exact [where m = "int n" and k = 0]) simp_all
qed

lemma rnd_of_nat: "n < 2 ^ 53 \<Longrightarrow> rnd (of_nat n) = Fin (of_nat n)"
proof -
  assume n: "n < 2 ^ 53"
  then have "(of_nat n :: rat) < of_nat (2 ^ 1024)"
    unfolding of_nat_less_iff by (rule less_le_trans) (rule power_increasing, simp_all)
  then have lt: "(of_nat n :: rat) < f64_limit" by (simp only: f64_limit_def of_nat_power of_nat_numeral)
  have nn: "- f64_limit < (of_nat n :: rat)"
    by (rule less_le_trans [of _ 0]) simp_all
  show ?thesis
  proof (cases "n = 0")
    case False
    then show ?thesis
      using rnd_pos_of_nat [of n] n lt nn by (simp add: rnd_def Let_def del: one_add_one)
  qed simp
qed

lemma rnd_numeral [simp]:
  "numeral k < (2 ^ 53 :: nat) \<Longrightarrow> rnd (numeral k) = Fin (numeral k)"
  using rnd_of_nat [of "numeral k"] by simp

lemma rnd_1 [simp]: "rnd 1 = Fin 1"
  using rnd_of_nat [of 1] by simp

lemma rnd_small:
  assumes "2 powi (- 10) \<le> q" "q \<le> 1"
  shows "\<exists>r. rnd q = Fin r \<and> 0 < r"
proof -
  have q: "0 < q" using assms(1) by (rule less_le_trans [rotated]) simp
  have "2 powi flog2 q \<le> (2 :: rat) powi 0" using flog2_bounds(1) [OF q] assms(2) by simp
  then have "flog2 q < 1" using powi_less_imp [of "flog2 q" 1] by (simp add: power_int_def)
  then have e: "ulp_exp q \<le> - 10" by (simp add: ulp_exp_def)
  have lo: "2 powi (- 10) \<le> rnd_pos q" by (rule rnd_pos_ge_powi [OF assms(1) e])
  have hi: "rnd_pos q \<le> 1" using rnd_pos_le_powi [of q 0] assms(2) e by simp
  have "(1 :: rat) < 2 ^ 1024" by (rule one_less_power) simp_all
  then have "\<not> f64_limit \<le> rnd_pos q"
    using hi by (simp only: f64_limit_def not_le)
  moreover have pos: "0 < rnd_pos q" by (rule less_le_trans [OF _ lo]) simp
  moreover from pos have "\<not> rnd_pos q \<le> - f64_limit" using f64_limit_pos by linarith
  ultimately show ?thesis using q by (simp add: rnd_def)
qed

lemma f64_max_nonneg: "f64_le f64_zero (f64_max x f64_zero)"
  by (cases x) (auto simp: f64_max_def)

lemma f64_add_ok [simp]: "f64_ok (f64_add a b)"
  by (cases "(a, b)" rule: f64_add.cases) auto

end
