(* ===== verification/Text.thy ===== *)
theory Text
  imports F64 "HOL-Library.Char_ord" "HOL-Library.List_Lexorder" "HOL-Library.Product_Lexorder"
begin

text \<open>
  The \<open>str\<close> operations of the standard library that the source calls. A \<open>String\<close> is its UTF-8
  bytes (\<open>char\<close> is a byte), so the byte-lexicographic order of \<open>List_Lexorder\<close> is the order of a
  \<open>BTreeMap<String, _>\<close>. Messages built by \<open>format!\<close> are kept as the format string and its
  arguments (\<^term>\<open>Format\<close> below): rendering an \<open>f64\<close> or a UUID to text is never read back.
\<close>

section \<open>Trimming and case\<close>

text \<open>The UTF-8 encodings of the code points with the property White_Space.\<close>

definition ws_encodings :: "string list" where
  "ws_encodings =
     [[CHR 0x09], [CHR 0x0A], [CHR 0x0B], [CHR 0x0C], [CHR 0x0D], [CHR 0x20],
      [CHR 0xC2, CHR 0x85], [CHR 0xC2, CHR 0xA0], [CHR 0xE1, CHR 0x9A, CHR 0x80],
      [CHR 0xE2, CHR 0x80, CHR 0x80], [CHR 0xE2, CHR 0x80, CHR 0x81], [CHR 0xE2, CHR 0x80, CHR 0x82],
      [CHR 0xE2, CHR 0x80, CHR 0x83], [CHR 0xE2, CHR 0x80, CHR 0x84], [CHR 0xE2, CHR 0x80, CHR 0x85],
      [CHR 0xE2, CHR 0x80, CHR 0x86], [CHR 0xE2, CHR 0x80, CHR 0x87], [CHR 0xE2, CHR 0x80, CHR 0x88],
      [CHR 0xE2, CHR 0x80, CHR 0x89], [CHR 0xE2, CHR 0x80, CHR 0x8A], [CHR 0xE2, CHR 0x80, CHR 0xA8],
      [CHR 0xE2, CHR 0x80, CHR 0xA9], [CHR 0xE2, CHR 0x80, CHR 0xAF], [CHR 0xE2, CHR 0x81, CHR 0x9F],
      [CHR 0xE3, CHR 0x80, CHR 0x80]]"

fun strip_prefix :: "string \<Rightarrow> string \<Rightarrow> string option" where
  "strip_prefix [] s = Some s"
| "strip_prefix (c # cs) [] = None"
| "strip_prefix (c # cs) (d # ds) = (if c = d then strip_prefix cs ds else None)"

fun strip_any :: "string list \<Rightarrow> string \<Rightarrow> string option" where
  "strip_any [] s = None"
| "strip_any (w # ws) s = (case strip_prefix w s of None \<Rightarrow> strip_any ws s | Some t \<Rightarrow> Some t)"

function trim_with :: "string list \<Rightarrow> string \<Rightarrow> string" where
  "trim_with ws s =
     (case strip_any ws s of
        None \<Rightarrow> s
      | Some t \<Rightarrow> if length t < length s then trim_with ws t else s)"
  by pat_completeness auto
termination
  by (relation "measure (\<lambda>(ws, s). length s)") auto

declare trim_with.simps [simp del]

definition str_trim :: "string \<Rightarrow> string" where
  "str_trim s = rev (trim_with (map rev ws_encodings) (rev (trim_with ws_encodings s)))"

definition ascii_lower :: "char \<Rightarrow> char" where
  "ascii_lower c = (let n = (of_char c :: nat) in if 65 \<le> n \<and> n \<le> 90 then char_of (n + 32) else c)"

definition to_ascii_lowercase :: "string \<Rightarrow> string" where
  "to_ascii_lowercase s = map ascii_lower s"

lemma ascii_lower_idem [simp]: "ascii_lower (ascii_lower c) = ascii_lower c"
  by (auto simp: ascii_lower_def Let_def)

lemma to_ascii_lowercase_idem [simp]:
  "to_ascii_lowercase (to_ascii_lowercase s) = to_ascii_lowercase s"
  by (simp add: to_ascii_lowercase_def)

definition starts_with :: "string \<Rightarrow> string \<Rightarrow> bool" where
  "starts_with s p = (strip_prefix p s \<noteq> None)"

text \<open>A string whose first and last characters are no part of a blank is its own trim.\<close>

lemma trim_with_none: "strip_any ws s = None \<Longrightarrow> trim_with ws s = s"
  by (simp add: trim_with.simps)

section \<open>Parsing numbers\<close>

definition is_digit :: "char \<Rightarrow> bool" where
  "is_digit c = (let n = (of_char c :: nat) in 48 \<le> n \<and> n \<le> 57)"

definition digits_val :: "string \<Rightarrow> nat" where
  "digits_val ds = foldl (\<lambda>n c. 10 * n + (of_char c - 48)) 0 ds"

definition parse_u64_str :: "string \<Rightarrow> u64 option" where
  \<comment> \<open>\<open>str::parse::<u64>\<close>: an optional plus, then digits, no overflow\<close>
  "parse_u64_str s =
     (let ds = (case s of [] \<Rightarrow> [] | c # cs \<Rightarrow> if c = CHR ''+'' then cs else s) in
      if ds = [] \<or> \<not> list_all is_digit ds then None
      else if digits_val ds < 2 ^ 64 then Some (of_nat (digits_val ds)) else None)"

definition take_sign :: "string \<Rightarrow> bool \<times> string" where
  "take_sign s =
     (case s of
        [] \<Rightarrow> (False, [])
      | c # cs \<Rightarrow> if c = CHR ''-'' then (True, cs) else if c = CHR ''+'' then (False, cs) else (False, s))"

definition parse_exponent :: "string \<Rightarrow> int option" where
  "parse_exponent s =
     (case s of
        [] \<Rightarrow> Some 0
      | c # cs \<Rightarrow>
          if c = CHR ''e'' \<or> c = CHR ''E'' then
            (let (neg, ds) = take_sign cs in
             if ds = [] \<or> \<not> list_all is_digit ds then None
             else Some (if neg then - int (digits_val ds) else int (digits_val ds)))
          else None)"

definition parse_decimal :: "string \<Rightarrow> rat option" where
  "parse_decimal s =
     (let ip = takeWhile is_digit s; r = dropWhile is_digit s;
          (fp, r') = (case r of
                        [] \<Rightarrow> ([], [])
                      | c # cs \<Rightarrow> if c = CHR ''.'' then (takeWhile is_digit cs, dropWhile is_digit cs)
                                 else ([], r)) in
      if ip = [] \<and> fp = [] then None
      else case parse_exponent r' of
             None \<Rightarrow> None
           | Some e \<Rightarrow> Some (of_nat (digits_val (ip @ fp)) * 10 powi (e - int (length fp))))"

definition parse_f64_str :: "string \<Rightarrow> f64 option" where
  \<comment> \<open>\<open>str::parse::<f64>\<close>: a signed decimal, correctly rounded, or inf, infinity, nan\<close>
  "parse_f64_str s =
     (let (neg, body) = take_sign s in
      case parse_decimal body of
        Some q \<Rightarrow> Some (rnd (if neg then - q else q))
      | None \<Rightarrow>
          (let w = to_ascii_lowercase body in
           if w = ''inf'' \<or> w = ''infinity'' then Some (if neg then NInf else PInf)
           else if w = ''nan'' then Some NaN
           else None))"

section \<open>Messages\<close>

datatype fmt_arg = AStr string | AU64 u64 | AF64 f64 | AUuid uuid | AMsg msg
  and msg = Lit string | Format string "fmt_arg list"

text \<open>The crate's error type (\<open>core::error::Error\<close>); the payloads of foreign errors are dropped.\<close>

datatype error =
    InvalidArgument msg
  | NotFound msg
  | ParseError msg
  | ZoneoutError
  | IoError
  | JsonError
  | ErrorMsg msg

definition ok_or_else :: "'a option \<Rightarrow> error \<Rightarrow> error + 'a" where
  "ok_or_else r e = (case r of None \<Rightarrow> Inl e | Some v \<Rightarrow> Inr v)"

definition on_ok :: "error + 'a \<Rightarrow> ('a \<Rightarrow> 's \<Rightarrow> 's) \<Rightarrow> 's \<Rightarrow> 's" where
  \<comment> \<open>\<open>if let Ok(v) = r { ... }\<close> on the state\<close>
  "on_ok r f s = (case r of Inl _ \<Rightarrow> s | Inr v \<Rightarrow> f v s)"

definition and_then :: "error + 'a \<Rightarrow> ('a \<Rightarrow> error + 'b) \<Rightarrow> error + 'b" where
  \<comment> \<open>the operator \<open>?\<close>\<close>
  "and_then r f = (case r of Inl e \<Rightarrow> Inl e | Inr v \<Rightarrow> f v)"

text \<open>\<open>Error::to_string\<close>.\<close>

fun error_display :: "error \<Rightarrow> msg" where
  "error_display (InvalidArgument m) = Format ''invalid argument: {0}'' [AMsg m]"
| "error_display (NotFound m) = Format ''not found: {0}'' [AMsg m]"
| "error_display (ParseError m) = Format ''parse error: {0}'' [AMsg m]"
| "error_display ZoneoutError = Lit ''zoneout: ''"
| "error_display IoError = Lit ''io: ''"
| "error_display JsonError = Lit ''json: ''"
| "error_display (ErrorMsg m) = m"

definition is_err :: "error + 'a \<Rightarrow> bool" where
  "is_err r = (case r of Inl _ \<Rightarrow> True | Inr _ \<Rightarrow> False)"

definition ok_or :: "error + 'a \<Rightarrow> 'a \<Rightarrow> 'a" where
  \<comment> \<open>\<open>r.ok().unwrap_or(d)\<close>\<close>
  "ok_or r d = (case r of Inl _ \<Rightarrow> d | Inr v \<Rightarrow> v)"

definition unwrap_or :: "'a option \<Rightarrow> 'a \<Rightarrow> 'a" where
  "unwrap_or r d = (case r of None \<Rightarrow> d | Some v \<Rightarrow> v)"

lemma unwrap_or_simps [simp]: "unwrap_or None d = d" "unwrap_or (Some v) d = v"
  by (simp_all add: unwrap_or_def)

lemma on_ok_simps [simp]: "on_ok (Inl e) f s = s" "on_ok (Inr v) f s = f v s"
  by (simp_all add: on_ok_def)

lemma and_then_simps [simp]: "and_then (Inl e) f = Inl e" "and_then (Inr v) f = f v"
  by (simp_all add: and_then_def)

lemma and_then_Inr: "and_then r f = Inr w \<longleftrightarrow> (\<exists>v. r = Inr v \<and> f v = Inr w)"
  by (cases r) simp_all

lemma is_err_simps [simp]: "is_err (Inl e)" "\<not> is_err (Inr v)"
  by (simp_all add: is_err_def)

text \<open>A \<open>match\<close> on string literals that yields a value per literal.\<close>

fun match_key :: "'k \<Rightarrow> ('k \<times> 'v) list \<Rightarrow> 'v option" where
  "match_key k [] = None"
| "match_key k ((k', v) # m) = (if k = k' then Some v else match_key k m)"

lemma match_key_SomeD: "match_key k m = Some v \<Longrightarrow> (k, v) \<in> set m"
  by (induction k m rule: match_key.induct) (auto split: if_splits)

lemma match_key_None: "match_key k m = None \<longleftrightarrow> k \<notin> fst ` set m"
  by (induction k m rule: match_key.induct) auto

section \<open>Ordered maps\<close>

text \<open>A \<open>BTreeMap\<close> is an association list in increasing order of its keys.\<close>

fun bt_insert :: "'k :: linorder \<Rightarrow> 'v \<Rightarrow> ('k \<times> 'v) list \<Rightarrow> ('k \<times> 'v) list" where
  "bt_insert k v [] = [(k, v)]"
| "bt_insert k v ((k', v') # m) =
     (if k < k' then (k, v) # (k', v') # m
      else if k = k' then (k, v) # m
      else (k', v') # bt_insert k v m)"

definition bt_ok :: "('k :: linorder \<times> 'v) list \<Rightarrow> bool" where
  "bt_ok m = sorted_wrt (<) (map fst m)"

lemma fst_bt_insert: "fst ` set (bt_insert k v m) = insert k (fst ` set m)"
  by (induction k v m rule: bt_insert.induct) auto

lemma bt_ok_insert: "bt_ok m \<Longrightarrow> bt_ok (bt_insert k v m)"
proof (induction k v m rule: bt_insert.induct)
  case (2 k v k' v' m)
  have "fst ` set (bt_insert k v m) = insert k (fst ` set m)"
    by (rule fst_bt_insert)
  with 2 show ?case by (auto simp: bt_ok_def)
qed (simp add: bt_ok_def)

lemma bt_ok_distinct: "bt_ok m \<Longrightarrow> distinct (map fst m)"
  by (simp add: bt_ok_def strict_sorted_iff)

lemma map_of_bt_insert: "map_of (bt_insert k v m) = (map_of m)(k \<mapsto> v)"
  by (induction k v m rule: bt_insert.induct) auto

lemma bt_insert_last:
  "\<forall>k' \<in> fst ` set m. k' < k \<Longrightarrow> bt_insert k v m = m @ [(k, v)]"
  by (induction k v m rule: bt_insert.induct) auto

text \<open>Copying an ordered map entry by entry rebuilds it.\<close>

lemma bt_copy:
  "bt_ok (acc @ m) \<Longrightarrow> foldl (\<lambda>a (k, v). bt_insert k v a) acc m = acc @ m"
proof (induction m arbitrary: acc)
  case (Cons kv m)
  obtain k v where kv: "kv = (k, v)" by force
  have "bt_insert k v acc = acc @ [(k, v)]"
    using Cons.prems by (intro bt_insert_last) (auto simp: bt_ok_def kv sorted_wrt_append)
  with Cons show ?case by (simp add: kv)
qed simp

lemma bt_copy_nil: "bt_ok m \<Longrightarrow> foldl (\<lambda>a (k, v). bt_insert k v a) [] m = m"
  using bt_copy [of "[]"] by simp

text \<open>Two ordered maps with the same lookups are the same list.\<close>

lemma bt_ext: "bt_ok m \<Longrightarrow> bt_ok m' \<Longrightarrow> map_of m = map_of m' \<Longrightarrow> m = m'"
proof -
  assume m: "bt_ok m" "bt_ok m'" "map_of m = map_of m'"
  then have "set m = set m'"
    using map_of_inject_set [OF bt_ok_distinct [OF m(1)] bt_ok_distinct [OF m(2)]] by simp
  moreover have "sorted (map fst m)" "sorted (map fst m')"
    using m by (auto simp: bt_ok_def strict_sorted_iff)
  ultimately show "m = m'"
    using m(1,2) by (metis bt_ok_distinct map_sorted_distinct_set_unique
        distinct_map inj_on_Un sup.idem)
qed

end
