(* ===== verification/Policy.thy ===== *)
theory Policy
  imports Text
begin

text \<open>
  \<open>policy.rs\<close>: the typed traffic policy of a zone and the traffic semantics of an edge, both read
  from \<open>traffic.*\<close> string properties; the two validators; the merge of a zone's policy with its
  parent's; and the edge semantics derived under the policies of the zones that hold the edge.
\<close>

section \<open>Data\<close>

datatype zone_policy_kind =
    Informational | ExclusiveAccess | SharedAccess | CapacityLimited | Corridor
  | Replanning | Restricted | NoStop | Slowdown

datatype severity = Warning | Error

text \<open>Severities are compared through their discriminants (\<open>severity as u8\<close>).\<close>

fun severity_u8 :: "severity \<Rightarrow> nat" where
  "severity_u8 Warning = 0"
| "severity_u8 Error = 1"

instantiation severity :: linorder
begin

definition less_eq_severity :: "severity \<Rightarrow> severity \<Rightarrow> bool" where
  "less_eq_severity a b = (severity_u8 a \<le> severity_u8 b)"

definition less_severity :: "severity \<Rightarrow> severity \<Rightarrow> bool" where
  "less_severity a b = (severity_u8 a < severity_u8 b)"

instance
proof
  fix x y z :: severity
  show "(x < y) = (x \<le> y \<and> \<not> y \<le> x)"
    by (auto simp: less_severity_def less_eq_severity_def)
  show "x \<le> x"
    by (simp add: less_eq_severity_def)
  show "x \<le> y \<Longrightarrow> y \<le> z \<Longrightarrow> x \<le> z"
    by (simp add: less_eq_severity_def)
  show "x \<le> y \<Longrightarrow> y \<le> x \<Longrightarrow> x = y"
    by (cases x; cases y) (simp_all add: less_eq_severity_def)
  show "x \<le> y \<or> y \<le> x"
    by (auto simp: less_eq_severity_def)
qed

end

type_synonym props = "(string \<times> string) list"

record issue =
  ti_severity :: severity
  ti_key :: string
  ti_message :: string

record zone_policy =
  zp_kind :: zone_policy_kind
  zp_capacity :: u64
  zp_capacity_is_explicit :: bool
  zp_requires_claim :: bool
  zp_blocks_traversal :: bool
  zp_blocks_entry :: bool
  zp_priority :: "f64 option"
  zp_speed_limit :: "f64 option"
  zp_waiting_allowed :: "bool option"
  zp_stop_allowed :: "bool option"
  zp_blocked :: "bool option"
  zp_replan_trigger :: "bool option"
  zp_entry_rule :: "string option"
  zp_exit_rule :: "string option"
  zp_robot_class :: "string option"
  zp_schedule_window :: "string option"
  zp_access_group :: "string option"
  zp_properties :: props

definition zone_policy_empty :: zone_policy where
  "zone_policy_empty =
     \<lparr>zp_kind = Informational, zp_capacity = 1, zp_capacity_is_explicit = False,
      zp_requires_claim = False, zp_blocks_traversal = False, zp_blocks_entry = False,
      zp_priority = None, zp_speed_limit = None, zp_waiting_allowed = None,
      zp_stop_allowed = None, zp_blocked = None, zp_replan_trigger = None,
      zp_entry_rule = None, zp_exit_rule = None, zp_robot_class = None,
      zp_schedule_window = None, zp_access_group = None, zp_properties = []\<rparr>"

record edge_semantics =
  es_directed :: bool
  es_speed_limit :: "f64 option"
  es_lane_type :: "string option"
  es_reversible :: "bool option"
  es_passing_allowed :: "bool option"
  es_requires_claim :: "bool option"
  es_waiting_allowed :: "bool option"
  es_stop_allowed :: "bool option"
  es_blocked :: "bool option"
  es_priority :: "f64 option"
  es_capacity :: "u64 option"
  es_capacity_is_explicit :: bool
  es_clearance_width :: "f64 option"
  es_clearance_height :: "f64 option"
  es_surface_type :: "string option"
  es_robot_class :: "string option"
  es_allowed_payload :: "string option"
  es_cost_bias :: "f64 option"
  es_no_stop :: "bool option"
  es_preferred_direction :: "string option"
  es_schedule_window :: "string option"
  es_access_group :: "string option"
  es_properties :: props

definition edge_semantics_default :: edge_semantics where
  "edge_semantics_default =
     \<lparr>es_directed = False, es_speed_limit = None, es_lane_type = None, es_reversible = None,
      es_passing_allowed = None, es_requires_claim = None, es_waiting_allowed = None,
      es_stop_allowed = None, es_blocked = None, es_priority = None, es_capacity = None,
      es_capacity_is_explicit = False, es_clearance_width = None, es_clearance_height = None,
      es_surface_type = None, es_robot_class = None, es_allowed_payload = None,
      es_cost_bias = None, es_no_stop = None, es_preferred_direction = None,
      es_schedule_window = None, es_access_group = None, es_properties = []\<rparr>"

section \<open>Scalar parsers\<close>

definition parse_bool :: "string \<Rightarrow> bool option" where
  "parse_bool value =
     (let w = to_ascii_lowercase (str_trim value) in
      if w \<in> {''true'', ''1'', ''yes'', ''on''} then Some True
      else if w \<in> {''false'', ''0'', ''no'', ''off''} then Some False
      else None)"

definition parse_u64 :: "string \<Rightarrow> u64 option" where
  "parse_u64 value = parse_u64_str (str_trim value)"

definition parse_f64 :: "string \<Rightarrow> f64 option" where
  "parse_f64 value = parse_f64_str (str_trim value)"

definition parse_zone_policy_kind :: "string \<Rightarrow> zone_policy_kind" where
  "parse_zone_policy_kind value =
     (let w = to_ascii_lowercase (str_trim value) in
      if w = ''exclusive'' then ExclusiveAccess
      else if w = ''shared'' then SharedAccess
      else if w = ''corridor'' then Corridor
      else if w = ''restricted'' then Restricted
      else if w = ''slow'' then Slowdown
      else if w = ''replanning'' then Replanning
      else if w = ''no_stop'' then NoStop
      else Informational)"

definition is_known_zone_policy_kind :: "string \<Rightarrow> bool" where
  "is_known_zone_policy_kind value =
     (to_ascii_lowercase (str_trim value) \<in>
        {''informational'', ''exclusive'', ''shared'', ''corridor'', ''restricted'', ''slow'',
         ''replanning'', ''no_stop''})"

definition is_known_lane_type :: "string \<Rightarrow> bool" where
  "is_known_lane_type value =
     (to_ascii_lowercase (str_trim value) \<in>
        {''corridor'', ''service'', ''shared'', ''restricted'', ''passing'', ''staging''})"

definition is_known_preferred_direction :: "string \<Rightarrow> bool" where
  "is_known_preferred_direction value =
     (to_ascii_lowercase (str_trim value) \<in>
        {''forward'', ''reverse'', ''bidirectional'', ''source_to_target'', ''target_to_source'',
         ''eastbound'', ''westbound'', ''northbound'', ''southbound''})"

definition parse_traffic_bool :: "string \<Rightarrow> error + bool" where
  "parse_traffic_bool value =
     ok_or_else (parse_bool value)
       (ParseError (Format ''invalid boolean traffic value: {value}'' [AStr value]))"

definition parse_traffic_u64 :: "string \<Rightarrow> error + u64" where
  "parse_traffic_u64 value =
     ok_or_else (parse_u64 value)
       (ParseError (Format ''invalid unsigned traffic value: {value}'' [AStr value]))"

definition parse_traffic_f64 :: "string \<Rightarrow> error + f64" where
  "parse_traffic_f64 value =
     ok_or_else (parse_f64 value)
       (ParseError (Format ''invalid numeric traffic value: {value}'' [AStr value]))"

definition parse_traffic_string :: "string \<Rightarrow> error + string" where
  "parse_traffic_string value =
     (let trimmed = str_trim value in
      if trimmed = [] then Inl (ParseError (Lit ''traffic string value must not be empty''))
      else Inr trimmed)"

section \<open>Keys\<close>

definition zone_traffic_keys :: "string list" where
  "zone_traffic_keys =
     [''traffic.policy'', ''traffic.mode'', ''traffic.capacity'', ''traffic.max_occupancy'',
      ''traffic.maxOccupancy'', ''traffic.priority'', ''traffic.claim_required'',
      ''traffic.claimRequired'', ''traffic.entry_rule'', ''traffic.entryRule'',
      ''traffic.exit_rule'', ''traffic.exitRule'', ''traffic.speed_limit'',
      ''traffic.speedLimit'', ''traffic.waiting_allowed'', ''traffic.waitingAllowed'',
      ''traffic.stop_allowed'', ''traffic.stopAllowed'', ''traffic.no_stop'', ''traffic.noStop'',
      ''traffic.replan_trigger'', ''traffic.replanTrigger'', ''traffic.blocked'',
      ''traffic.robot_class'', ''traffic.robotClass'', ''traffic.schedule_window'',
      ''traffic.scheduleWindow'', ''traffic.access_group'', ''traffic.accessGroup'',
      ''traffic.blocks_entry_without_grant'', ''traffic.blocksEntryWithoutGrant'',
      ''traffic.blocks_traversal_without_grant'', ''traffic.blocksTraversalWithoutGrant'']"

definition is_known_zone_traffic_key :: "string \<Rightarrow> bool" where
  "is_known_zone_traffic_key key = (key \<in> set zone_traffic_keys)"

definition edge_traffic_keys :: "string list" where
  "edge_traffic_keys =
     [''traffic.speed_limit'', ''traffic.speedLimit'', ''traffic.lane_type'', ''traffic.laneType'',
      ''traffic.lane_kind'', ''traffic.laneKind'', ''traffic.reversible'',
      ''traffic.passing_allowed'', ''traffic.passingAllowed'', ''traffic.blocked'',
      ''traffic.priority'', ''traffic.capacity'', ''traffic.max_occupancy'',
      ''traffic.maxOccupancy'', ''traffic.clearance_width'', ''traffic.clearanceWidth'',
      ''traffic.clearance_height'', ''traffic.clearanceHeight'', ''traffic.surface_type'',
      ''traffic.surfaceType'', ''traffic.robot_class'', ''traffic.robotClass'',
      ''traffic.allowed_payload'', ''traffic.allowedPayload'', ''traffic.cost_bias'',
      ''traffic.costBias'', ''traffic.no_stop'', ''traffic.noStop'',
      ''traffic.preferred_direction'', ''traffic.preferredDirection'', ''traffic.direction'',
      ''traffic.claim_required'', ''traffic.claimRequired'', ''traffic.waiting_allowed'',
      ''traffic.waitingAllowed'', ''traffic.stop_allowed'', ''traffic.stopAllowed'',
      ''traffic.schedule_window'', ''traffic.scheduleWindow'', ''traffic.access_group'',
      ''traffic.accessGroup'']"

definition is_known_edge_traffic_key :: "string \<Rightarrow> bool" where
  "is_known_edge_traffic_key key = (key \<in> set edge_traffic_keys)"

definition zone_key_aliases :: "(string \<times> string) list" where
  "zone_key_aliases =
     [(''traffic.maxOccupancy'', ''traffic.max_occupancy''),
      (''traffic.claimRequired'', ''traffic.claim_required''),
      (''traffic.entryRule'', ''traffic.entry_rule''),
      (''traffic.exitRule'', ''traffic.exit_rule''),
      (''traffic.speedLimit'', ''traffic.speed_limit''),
      (''traffic.waitingAllowed'', ''traffic.waiting_allowed''),
      (''traffic.stopAllowed'', ''traffic.stop_allowed''),
      (''traffic.noStop'', ''traffic.no_stop''),
      (''traffic.replanTrigger'', ''traffic.replan_trigger''),
      (''traffic.robotClass'', ''traffic.robot_class''),
      (''traffic.scheduleWindow'', ''traffic.schedule_window''),
      (''traffic.accessGroup'', ''traffic.access_group''),
      (''traffic.blocksEntryWithoutGrant'', ''traffic.blocks_entry_without_grant''),
      (''traffic.blocksTraversalWithoutGrant'', ''traffic.blocks_traversal_without_grant'')]"

definition canonical_zone_traffic_key :: "string \<Rightarrow> string" where
  "canonical_zone_traffic_key key = unwrap_or (match_key key zone_key_aliases) key"

definition edge_key_aliases :: "(string \<times> string) list" where
  "edge_key_aliases =
     [(''traffic.speedLimit'', ''traffic.speed_limit''),
      (''traffic.laneType'', ''traffic.lane_type''),
      (''traffic.laneKind'', ''traffic.lane_kind''),
      (''traffic.passingAllowed'', ''traffic.passing_allowed''),
      (''traffic.maxOccupancy'', ''traffic.max_occupancy''),
      (''traffic.clearanceWidth'', ''traffic.clearance_width''),
      (''traffic.clearanceHeight'', ''traffic.clearance_height''),
      (''traffic.surfaceType'', ''traffic.surface_type''),
      (''traffic.robotClass'', ''traffic.robot_class''),
      (''traffic.allowedPayload'', ''traffic.allowed_payload''),
      (''traffic.costBias'', ''traffic.cost_bias''),
      (''traffic.noStop'', ''traffic.no_stop''),
      (''traffic.preferredDirection'', ''traffic.preferred_direction''),
      (''traffic.claimRequired'', ''traffic.claim_required''),
      (''traffic.waitingAllowed'', ''traffic.waiting_allowed''),
      (''traffic.stopAllowed'', ''traffic.stop_allowed''),
      (''traffic.scheduleWindow'', ''traffic.schedule_window''),
      (''traffic.accessGroup'', ''traffic.access_group'')]"

definition canonical_edge_traffic_key :: "string \<Rightarrow> string" where
  "canonical_edge_traffic_key key = unwrap_or (match_key key edge_key_aliases) key"

section \<open>Parsing a zone policy\<close>

text \<open>One iteration of the loop over the properties: the \<open>match canonical\<close>.\<close>

definition zone_match :: "string \<Rightarrow> string \<Rightarrow> zone_policy \<Rightarrow> zone_policy" where
  "zone_match canonical value p =
     (if canonical \<in> {''traffic.policy'', ''traffic.mode''} then
        p\<lparr>zp_kind := parse_zone_policy_kind value\<rparr>
      else if canonical \<in> {''traffic.capacity'', ''traffic.max_occupancy''} then
        on_ok (parse_traffic_u64 value) (\<lambda>n p.
          if n \<ge> 1 then
            p\<lparr>zp_capacity := n, zp_capacity_is_explicit := True,
              zp_kind := if n > 1 \<and> zp_kind p = Informational then CapacityLimited
                         else zp_kind p\<rparr>
          else p) p
      else if canonical = ''traffic.claim_required'' then
        on_ok (parse_traffic_bool value) (\<lambda>b p. p\<lparr>zp_requires_claim := b, zp_blocks_entry := b\<rparr>) p
      else if canonical = ''traffic.blocked'' then
        on_ok (parse_traffic_bool value) (\<lambda>b p.
          if b then p\<lparr>zp_blocked := Some b, zp_kind := Restricted, zp_blocks_entry := True,
                      zp_blocks_traversal := True\<rparr>
          else p\<lparr>zp_blocked := Some b\<rparr>) p
      else if canonical = ''traffic.blocks_entry_without_grant'' then
        on_ok (parse_traffic_bool value) (\<lambda>b p. p\<lparr>zp_blocks_entry := b\<rparr>) p
      else if canonical = ''traffic.blocks_traversal_without_grant'' then
        on_ok (parse_traffic_bool value) (\<lambda>b p. p\<lparr>zp_blocks_traversal := b\<rparr>) p
      else if canonical = ''traffic.priority'' then
        on_ok (parse_traffic_f64 value) (\<lambda>v p. p\<lparr>zp_priority := Some v\<rparr>) p
      else if canonical = ''traffic.speed_limit'' then
        on_ok (parse_traffic_f64 value) (\<lambda>v p. p\<lparr>zp_speed_limit := Some v\<rparr>) p
      else if canonical = ''traffic.waiting_allowed'' then
        on_ok (parse_traffic_bool value) (\<lambda>b p. p\<lparr>zp_waiting_allowed := Some b\<rparr>) p
      else if canonical = ''traffic.stop_allowed'' then
        on_ok (parse_traffic_bool value) (\<lambda>b p. p\<lparr>zp_stop_allowed := Some b\<rparr>) p
      else if canonical = ''traffic.no_stop'' then
        on_ok (parse_traffic_bool value) (\<lambda>b p.
          p\<lparr>zp_stop_allowed := Some (\<not> b), zp_kind := if b then NoStop else zp_kind p\<rparr>) p
      else if canonical = ''traffic.replan_trigger'' then
        (let p' = on_ok (parse_traffic_bool value) (\<lambda>b p. p\<lparr>zp_replan_trigger := Some b\<rparr>) p in
         if unwrap_or (zp_replan_trigger p') False then p'\<lparr>zp_kind := Replanning\<rparr> else p')
      else if canonical = ''traffic.entry_rule'' then
        on_ok (parse_traffic_string value) (\<lambda>s p. p\<lparr>zp_entry_rule := Some s\<rparr>) p
      else if canonical = ''traffic.exit_rule'' then
        on_ok (parse_traffic_string value) (\<lambda>s p. p\<lparr>zp_exit_rule := Some s\<rparr>) p
      else if canonical = ''traffic.robot_class'' then
        on_ok (parse_traffic_string value) (\<lambda>s p. p\<lparr>zp_robot_class := Some s\<rparr>) p
      else if canonical = ''traffic.schedule_window'' then
        on_ok (parse_traffic_string value) (\<lambda>s p. p\<lparr>zp_schedule_window := Some s\<rparr>) p
      else if canonical = ''traffic.access_group'' then
        on_ok (parse_traffic_string value) (\<lambda>s p. p\<lparr>zp_access_group := Some s\<rparr>) p
      else p)"

definition zone_property_step :: "zone_policy \<Rightarrow> string \<times> string \<Rightarrow> zone_policy" where
  "zone_property_step p kv =
     (let (key, value) = kv;
          p = p\<lparr>zp_properties := bt_insert key value (zp_properties p)\<rparr> in
      zone_match (canonical_zone_traffic_key key) value p)"

definition finish_zone_policy :: "zone_policy \<Rightarrow> zone_policy" where
  "finish_zone_policy p =
     (if unwrap_or (zp_blocked p) False then
        p\<lparr>zp_kind := Restricted, zp_blocks_entry := True, zp_blocks_traversal := True\<rparr>
      else if unwrap_or (zp_replan_trigger p) False then p\<lparr>zp_kind := Replanning\<rparr>
      else if zp_kind p \<noteq> Restricted \<and> zp_stop_allowed p = Some False then p\<lparr>zp_kind := NoStop\<rparr>
      else p)"

definition parse_zone_policy :: "props \<Rightarrow> zone_policy" where
  "parse_zone_policy properties =
     finish_zone_policy (foldl zone_property_step zone_policy_empty properties)"

section \<open>Parsing edge semantics\<close>

definition edge_match :: "string \<Rightarrow> string \<Rightarrow> edge_semantics \<Rightarrow> edge_semantics" where
  "edge_match canonical value s =
     (if canonical = ''traffic.speed_limit'' then
        on_ok (parse_traffic_f64 value) (\<lambda>v s. s\<lparr>es_speed_limit := Some v\<rparr>) s
      else if canonical \<in> {''traffic.lane_type'', ''traffic.lane_kind''} then
        on_ok (parse_traffic_string value) (\<lambda>t s. s\<lparr>es_lane_type := Some (to_ascii_lowercase t)\<rparr>) s
      else if canonical = ''traffic.reversible'' then
        on_ok (parse_traffic_bool value) (\<lambda>b s. s\<lparr>es_reversible := Some b\<rparr>) s
      else if canonical = ''traffic.passing_allowed'' then
        on_ok (parse_traffic_bool value) (\<lambda>b s. s\<lparr>es_passing_allowed := Some b\<rparr>) s
      else if canonical = ''traffic.claim_required'' then
        on_ok (parse_traffic_bool value) (\<lambda>b s. s\<lparr>es_requires_claim := Some b\<rparr>) s
      else if canonical = ''traffic.waiting_allowed'' then
        on_ok (parse_traffic_bool value) (\<lambda>b s. s\<lparr>es_waiting_allowed := Some b\<rparr>) s
      else if canonical = ''traffic.stop_allowed'' then
        on_ok (parse_traffic_bool value) (\<lambda>b s. s\<lparr>es_stop_allowed := Some b\<rparr>) s
      else if canonical = ''traffic.blocked'' then
        on_ok (parse_traffic_bool value) (\<lambda>b s. s\<lparr>es_blocked := Some b\<rparr>) s
      else if canonical = ''traffic.priority'' then
        on_ok (parse_traffic_f64 value) (\<lambda>v s. s\<lparr>es_priority := Some v\<rparr>) s
      else if canonical \<in> {''traffic.capacity'', ''traffic.max_occupancy''} then
        on_ok (parse_traffic_u64 value)
          (\<lambda>n s. s\<lparr>es_capacity := Some n, es_capacity_is_explicit := True\<rparr>) s
      else if canonical = ''traffic.clearance_width'' then
        on_ok (parse_traffic_f64 value) (\<lambda>v s. s\<lparr>es_clearance_width := Some v\<rparr>) s
      else if canonical = ''traffic.clearance_height'' then
        on_ok (parse_traffic_f64 value) (\<lambda>v s. s\<lparr>es_clearance_height := Some v\<rparr>) s
      else if canonical = ''traffic.surface_type'' then
        on_ok (parse_traffic_string value) (\<lambda>t s. s\<lparr>es_surface_type := Some t\<rparr>) s
      else if canonical = ''traffic.robot_class'' then
        on_ok (parse_traffic_string value) (\<lambda>t s. s\<lparr>es_robot_class := Some t\<rparr>) s
      else if canonical = ''traffic.allowed_payload'' then
        on_ok (parse_traffic_string value) (\<lambda>t s. s\<lparr>es_allowed_payload := Some t\<rparr>) s
      else if canonical = ''traffic.cost_bias'' then
        on_ok (parse_traffic_f64 value) (\<lambda>v s. s\<lparr>es_cost_bias := Some v\<rparr>) s
      else if canonical = ''traffic.no_stop'' then
        on_ok (parse_traffic_bool value) (\<lambda>b s. s\<lparr>es_no_stop := Some b\<rparr>) s
      else if canonical \<in> {''traffic.preferred_direction'', ''traffic.direction''} then
        on_ok (parse_traffic_string value)
          (\<lambda>t s. s\<lparr>es_preferred_direction := Some (to_ascii_lowercase t)\<rparr>) s
      else if canonical = ''traffic.schedule_window'' then
        on_ok (parse_traffic_string value) (\<lambda>t s. s\<lparr>es_schedule_window := Some t\<rparr>) s
      else if canonical = ''traffic.access_group'' then
        on_ok (parse_traffic_string value) (\<lambda>t s. s\<lparr>es_access_group := Some t\<rparr>) s
      else s)"

definition edge_property_step :: "edge_semantics \<Rightarrow> string \<times> string \<Rightarrow> edge_semantics" where
  "edge_property_step s kv =
     (let (key, value) = kv;
          s = s\<lparr>es_properties := bt_insert key value (es_properties s)\<rparr> in
      edge_match (canonical_edge_traffic_key key) value s)"

definition parse_edge_traffic_semantics :: "props \<Rightarrow> bool \<Rightarrow> edge_semantics" where
  "parse_edge_traffic_semantics properties directed =
     (let s = foldl edge_property_step (edge_semantics_default\<lparr>es_directed := directed\<rparr>) properties in
      if unwrap_or (es_no_stop s) False then s\<lparr>es_stop_allowed := Some False\<rparr> else s)"

section \<open>Validation\<close>

definition sort_traffic_issues :: "issue list \<Rightarrow> issue list" where
  "sort_traffic_issues issues = sort_key (\<lambda>i. (ti_key i, ti_severity i, ti_message i)) issues"

definition mk_issue :: "severity \<Rightarrow> string \<Rightarrow> string \<Rightarrow> issue" where
  "mk_issue s k m = \<lparr>ti_severity = s, ti_key = k, ti_message = m\<rparr>"

text \<open>
  The issues one property adds: none or one, by the first branch that applies. The branches on the
  canonical key are a definition of their own.
\<close>

definition zone_value_issues :: "string \<Rightarrow> string \<Rightarrow> string \<Rightarrow> issue list" where
  "zone_value_issues canonical key value =
     (if canonical = ''traffic.policy'' \<or> canonical = ''traffic.mode'' then
        (if \<not> is_known_zone_policy_kind value
         then [mk_issue Warning key ''unknown zone policy keyword''] else [])
      else if canonical = ''traffic.capacity'' \<or> canonical = ''traffic.max_occupancy'' then
        (let parsed = parse_traffic_u64 value in
         if is_err parsed \<or> ok_or parsed 0 < 1
         then [mk_issue Error key ''traffic.capacity must be an integer >= 1''] else [])
      else if canonical = ''traffic.priority'' then
        (if is_err (parse_traffic_f64 value)
         then [mk_issue Error key ''traffic.priority must be numeric''] else [])
      else if canonical = ''traffic.speed_limit'' then
        (let parsed = parse_traffic_f64 value in
         if is_err parsed \<or> f64_le (ok_or parsed f64_zero) f64_zero
         then [mk_issue Error key ''traffic.speed_limit must be positive''] else [])
      else if canonical \<in>
          {''traffic.claim_required'', ''traffic.waiting_allowed'', ''traffic.stop_allowed'',
           ''traffic.blocked'', ''traffic.replan_trigger'', ''traffic.no_stop'',
           ''traffic.blocks_entry_without_grant'', ''traffic.blocks_traversal_without_grant''} then
        (if is_err (parse_traffic_bool value)
         then [mk_issue Error key ''traffic boolean key must parse as true/false''] else [])
      else if canonical \<in>
          {''traffic.entry_rule'', ''traffic.exit_rule'', ''traffic.robot_class'',
           ''traffic.schedule_window'', ''traffic.access_group''} then
        (if is_err (parse_traffic_string value)
         then [mk_issue Error key ''traffic string key must not be empty''] else [])
      else [])"

definition zone_key_issues :: "string \<times> string \<Rightarrow> issue list" where
  "zone_key_issues kv =
     (let (key, value) = kv; canonical = canonical_zone_traffic_key key in
      if starts_with key ''traffic.'' \<and> \<not> is_known_zone_traffic_key key then
        [mk_issue Warning key ''unknown zone traffic key'']
      else zone_value_issues canonical key value)"

definition stop_conflict_issues :: "props \<Rightarrow> issue list" where
  "stop_conflict_issues properties =
     (case map_of properties ''traffic.no_stop'' of
        None \<Rightarrow> []
      | Some no_stop \<Rightarrow>
          if unwrap_or (parse_bool no_stop) False then
            (case map_of properties ''traffic.stop_allowed'' of
               None \<Rightarrow> []
             | Some stop_allowed \<Rightarrow>
                 if parse_bool stop_allowed = Some True
                 then [mk_issue Warning ''traffic.stop_allowed''
                         ''traffic.stop_allowed=true conflicts with traffic.no_stop=true'']
                 else [])
          else [])"

definition validate_zone_traffic_properties :: "props \<Rightarrow> issue list" where
  "validate_zone_traffic_properties properties =
     sort_traffic_issues (concat (map zone_key_issues properties) @ stop_conflict_issues properties)"

definition edge_value_issues :: "string \<Rightarrow> string \<Rightarrow> string \<Rightarrow> issue list" where
  "edge_value_issues canonical key value =
     (if canonical = ''traffic.capacity'' \<or> canonical = ''traffic.max_occupancy'' then
        (let parsed = parse_traffic_u64 value in
         if is_err parsed \<or> ok_or parsed 0 < 1
         then [mk_issue Error key ''traffic.capacity must be an integer >= 1''] else [])
      else if canonical \<in>
          {''traffic.speed_limit'', ''traffic.priority'', ''traffic.clearance_width'',
           ''traffic.clearance_height'', ''traffic.cost_bias''} then
        (let parsed = parse_traffic_f64 value in
         if is_err parsed then [mk_issue Error key ''traffic numeric key must parse as number'']
         else if canonical \<in>
             {''traffic.speed_limit'', ''traffic.clearance_width'', ''traffic.clearance_height''}
             \<and> f64_le (ok_or parsed f64_zero) f64_zero
         then [mk_issue Error key ''traffic positive numeric key must be > 0''] else [])
      else if canonical \<in>
          {''traffic.reversible'', ''traffic.passing_allowed'', ''traffic.no_stop'',
           ''traffic.blocked'', ''traffic.claim_required'', ''traffic.waiting_allowed'',
           ''traffic.stop_allowed''} then
        (if is_err (parse_traffic_bool value)
         then [mk_issue Error key ''traffic boolean key must parse as true/false''] else [])
      else if canonical \<in>
          {''traffic.lane_type'', ''traffic.lane_kind'', ''traffic.surface_type'',
           ''traffic.robot_class'', ''traffic.allowed_payload'', ''traffic.preferred_direction'',
           ''traffic.direction'', ''traffic.schedule_window'', ''traffic.access_group''} then
        (if is_err (parse_traffic_string value)
         then [mk_issue Error key ''traffic string key must not be empty'']
         else if canonical \<in> {''traffic.lane_type'', ''traffic.lane_kind''}
                 \<and> \<not> is_known_lane_type value
         then [mk_issue Warning key ''unknown lane type keyword'']
         else if canonical \<in> {''traffic.preferred_direction'', ''traffic.direction''}
                 \<and> \<not> is_known_preferred_direction value
         then [mk_issue Warning key ''unknown preferred direction keyword''] else [])
      else [])"

definition edge_key_issues :: "string \<times> string \<Rightarrow> issue list" where
  "edge_key_issues kv =
     (let (key, value) = kv; canonical = canonical_edge_traffic_key key in
      if starts_with key ''traffic.'' \<and> \<not> is_known_edge_traffic_key key then
        [mk_issue Warning key ''unknown edge traffic key'']
      else edge_value_issues canonical key value)"

definition validate_edge_traffic_properties :: "props \<Rightarrow> issue list" where
  "validate_edge_traffic_properties properties =
     sort_traffic_issues (concat (map edge_key_issues properties) @ stop_conflict_issues properties)"

section \<open>Merge and derivation\<close>

definition or_override :: "'a option \<Rightarrow> 'a option \<Rightarrow> 'a option" where
  \<comment> \<open>\<open>if child.f.is_some() { merged.f = child.f }\<close>\<close>
  "or_override parent child = (if child = None then parent else child)"

definition merge_kind :: "zone_policy_kind \<Rightarrow> zone_policy_kind \<Rightarrow> zone_policy_kind" where
  "merge_kind parent child =
     (if parent = Restricted \<or> child = Restricted then Restricted
      else if parent = ExclusiveAccess \<or> child = ExclusiveAccess then ExclusiveAccess
      else if child \<noteq> Informational then child
      else parent)"

definition merge_capacity :: "zone_policy \<Rightarrow> zone_policy \<Rightarrow> u64 \<times> bool" where
  "merge_capacity parent child =
     (if zp_capacity_is_explicit parent \<and> zp_capacity_is_explicit child
      then (min (zp_capacity parent) (zp_capacity child), True)
      else if zp_capacity_is_explicit child then (zp_capacity child, True)
      else if zp_capacity_is_explicit parent then (zp_capacity parent, True)
      else (zp_capacity child, False))"

definition merge_adjust :: "zone_policy \<Rightarrow> zone_policy" where
  \<comment> \<open>the last lines of \<open>merge_zone_policy\<close>\<close>
  "merge_adjust m =
     (if zp_kind m = Restricted then
        m\<lparr>zp_blocks_entry := True, zp_blocks_traversal := True,
          zp_waiting_allowed := Some False, zp_stop_allowed := Some False\<rparr>
      else if zp_kind m = NoStop then m\<lparr>zp_stop_allowed := Some False\<rparr>
      else m)"

definition merge_zone_policy :: "zone_policy \<Rightarrow> zone_policy \<Rightarrow> zone_policy" where
  "merge_zone_policy parent child =
     merge_adjust
       \<lparr>zp_kind = merge_kind (zp_kind parent) (zp_kind child),
        zp_capacity = fst (merge_capacity parent child),
        zp_capacity_is_explicit = snd (merge_capacity parent child),
        zp_requires_claim = (zp_requires_claim parent \<or> zp_requires_claim child),
        zp_blocks_traversal = (zp_blocks_traversal parent \<or> zp_blocks_traversal child),
        zp_blocks_entry = (zp_blocks_entry parent \<or> zp_blocks_entry child),
        zp_priority = or_override (zp_priority parent) (zp_priority child),
        zp_speed_limit = or_override (zp_speed_limit parent) (zp_speed_limit child),
        zp_waiting_allowed = or_override (zp_waiting_allowed parent) (zp_waiting_allowed child),
        zp_stop_allowed = or_override (zp_stop_allowed parent) (zp_stop_allowed child),
        zp_blocked = or_override (zp_blocked parent) (zp_blocked child),
        zp_replan_trigger = or_override (zp_replan_trigger parent) (zp_replan_trigger child),
        zp_entry_rule = or_override (zp_entry_rule parent) (zp_entry_rule child),
        zp_exit_rule = or_override (zp_exit_rule parent) (zp_exit_rule child),
        zp_robot_class = or_override (zp_robot_class parent) (zp_robot_class child),
        zp_schedule_window = or_override (zp_schedule_window parent) (zp_schedule_window child),
        zp_access_group = or_override (zp_access_group parent) (zp_access_group child),
        zp_properties =
          foldl (\<lambda>m (k, v). bt_insert k v m) (zp_properties parent) (zp_properties child)\<rparr>"

definition or_inherit :: "'a option \<Rightarrow> 'a option \<Rightarrow> 'a option" where
  \<comment> \<open>\<open>if s.f.is_none() && z.f.is_some() { s.f = z.f }\<close>\<close>
  "or_inherit own zone = (if own = None \<and> zone \<noteq> None then zone else own)"

text \<open>The loop body of \<open>derive_effective_edge_semantics\<close>, one definition per group of statements.\<close>

definition derive_speed :: "zone_policy \<Rightarrow> edge_semantics \<Rightarrow> edge_semantics" where
  "derive_speed z s =
     (case zp_speed_limit z of
        None \<Rightarrow> s
      | Some zsl \<Rightarrow>
          s\<lparr>es_speed_limit := Some (case es_speed_limit s of
              None \<Rightarrow> zsl | Some own \<Rightarrow> f64_min own zsl)\<rparr>)"

definition derive_capacity :: "zone_policy \<Rightarrow> edge_semantics \<Rightarrow> edge_semantics" where
  "derive_capacity z s =
     (if zp_capacity_is_explicit z \<or> zp_kind z = CapacityLimited then
        s\<lparr>es_capacity := Some (case es_capacity s of
            None \<Rightarrow> zp_capacity z | Some own \<Rightarrow> min own (zp_capacity z)),
          es_capacity_is_explicit := True\<rparr>
      else s)"

definition derive_inherit :: "zone_policy \<Rightarrow> edge_semantics \<Rightarrow> edge_semantics" where
  "derive_inherit z s =
     s\<lparr>es_robot_class := or_inherit (es_robot_class s) (zp_robot_class z),
       es_schedule_window := or_inherit (es_schedule_window s) (zp_schedule_window z),
       es_access_group := or_inherit (es_access_group s) (zp_access_group z),
       es_waiting_allowed := or_inherit (es_waiting_allowed s) (zp_waiting_allowed z),
       es_stop_allowed := or_inherit (es_stop_allowed s) (zp_stop_allowed z),
       es_requires_claim :=
         (if es_requires_claim s = None then Some (zp_requires_claim z) else es_requires_claim s),
       es_priority := or_inherit (es_priority s) (zp_priority z)\<rparr>"

definition derive_closed :: "zone_policy \<Rightarrow> edge_semantics \<Rightarrow> edge_semantics" where
  "derive_closed z s =
     (let s = (if zp_kind z = NoStop \<or> unwrap_or (zp_blocked z) False \<or> zp_kind z = Restricted
               then s\<lparr>es_no_stop := Some True, es_stop_allowed := Some False\<rparr> else s)
      in if unwrap_or (zp_blocked z) False \<or> zp_kind z = Restricted
         then s\<lparr>es_blocked := Some True\<rparr> else s)"

definition derive_bias :: "zone_policy \<Rightarrow> edge_semantics \<Rightarrow> edge_semantics" where
  "derive_bias z s =
     (if zp_kind z = Slowdown
      then s\<lparr>es_cost_bias := Some (f64_add (unwrap_or (es_cost_bias s) f64_zero) (Fin 1))\<rparr>
      else s)"

definition derive_step :: "edge_semantics \<Rightarrow> zone_policy \<Rightarrow> edge_semantics" where
  "derive_step s z =
     derive_bias z (derive_closed z (derive_inherit z (derive_capacity z (derive_speed z s))))"

definition derive_effective_edge_semantics ::
  "props \<Rightarrow> bool \<Rightarrow> zone_policy list \<Rightarrow> edge_semantics" where
  "derive_effective_edge_semantics properties directed zone_policies =
     foldl derive_step
       ((parse_edge_traffic_semantics properties directed)\<lparr>es_directed := directed\<rparr>) zone_policies"

section \<open>A parsed policy is consistent\<close>

lemma unwrap_or_False [simp]: "unwrap_or x False \<longleftrightarrow> x = Some True"
  by (cases x) auto

definition zone_cap_ok :: "zone_policy \<Rightarrow> bool" where
  "zone_cap_ok p = (1 \<le> zp_capacity p \<and> (zp_capacity_is_explicit p \<or> zp_capacity p = 1))"

lemma zone_match_properties [simp]: "zp_properties (zone_match c v p) = zp_properties p"
  unfolding zone_match_def
  by (simp split: if_split add: on_ok_def split: sum.split)

lemma zone_cap_ok_properties [simp]: "zone_cap_ok (p\<lparr>zp_properties := x\<rparr>) = zone_cap_ok p"
  by (simp add: zone_cap_ok_def)

lemma zone_match_cap: "zone_cap_ok p \<Longrightarrow> zone_cap_ok (zone_match c v p)"
  unfolding zone_match_def
  by (simp split: if_split add: zone_cap_ok_def on_ok_def Let_def split: sum.split)

lemma zone_fold_cap: "zone_cap_ok p \<Longrightarrow> zone_cap_ok (foldl zone_property_step p m)"
proof (induction m arbitrary: p)
  case (Cons kv m)
  have "zone_cap_ok (zone_property_step p kv)"
    using Cons.prems
    by (cases kv) (simp add: zone_property_step_def Let_def zone_match_cap zone_cap_ok_properties)
  then show ?case using Cons.IH by simp
qed simp

lemma zone_fold_properties:
  "zp_properties (foldl zone_property_step p m) = foldl (\<lambda>a (k, v). bt_insert k v a) (zp_properties p) m"
  by (induction m arbitrary: p) (auto simp: zone_property_step_def Let_def)

text \<open>What \<^const>\<open>finish_zone_policy\<close> leaves of every policy.\<close>

definition policy_wf :: "zone_policy \<Rightarrow> bool" where
  "policy_wf p =
     (zone_cap_ok p
      \<and> (zp_blocked p = Some True \<longrightarrow> zp_kind p = Restricted \<and> zp_blocks_entry p \<and> zp_blocks_traversal p)
      \<and> (zp_blocked p \<noteq> Some True \<and> zp_replan_trigger p = Some True \<longrightarrow> zp_kind p = Replanning)
      \<and> (zp_blocked p \<noteq> Some True \<and> zp_replan_trigger p \<noteq> Some True \<and> zp_stop_allowed p = Some False \<longrightarrow>
           zp_kind p = Restricted \<or> zp_kind p = NoStop))"

text \<open>
  C40: a parsed zone policy is consistent whatever the properties: the capacity is at least one and
  is one unless a property set it; a blocked zone is restricted and closed to entry and traversal
  without a grant; an unblocked zone with a replan trigger is a replanning zone; a zone where
  stopping is not allowed is restricted or a no-stop zone, unless blocked or a replan trigger.
\<close>

theorem parse_zone_policy_wf: "policy_wf (parse_zone_policy m)"
proof -
  have "zone_cap_ok (foldl zone_property_step zone_policy_empty m)"
    by (rule zone_fold_cap) (simp add: zone_cap_ok_def zone_policy_empty_def)
  then show ?thesis
    by (auto simp: parse_zone_policy_def finish_zone_policy_def policy_wf_def zone_cap_ok_def)
qed

section \<open>The validators\<close>

text \<open>
  What the validators check, stated on its own: each canonical key has a type of values, and a
  property is well typed when its value is one. \<open>not (x <= 0)\<close> is how the code states positivity,
  so a NaN is a positive number here.
\<close>

datatype key_type = KeyWord | KeyCapacity | KeyNumber | KeyPositive | KeyBool | KeyText | KeyOther

fun well_typed :: "key_type \<Rightarrow> string \<Rightarrow> bool" where
  "well_typed KeyCapacity v = (case parse_u64 v of None \<Rightarrow> False | Some n \<Rightarrow> 1 \<le> n)"
| "well_typed KeyNumber v = (parse_f64 v \<noteq> None)"
| "well_typed KeyPositive v = (case parse_f64 v of None \<Rightarrow> False | Some x \<Rightarrow> \<not> f64_le x f64_zero)"
| "well_typed KeyBool v = (parse_bool v \<noteq> None)"
| "well_typed KeyText v = (str_trim v \<noteq> [])"
| "well_typed KeyWord v = True"
| "well_typed KeyOther v = True"

definition zone_key_types :: "(string \<times> key_type) list" where
  "zone_key_types =
     [(''traffic.policy'', KeyWord), (''traffic.mode'', KeyWord),
      (''traffic.capacity'', KeyCapacity), (''traffic.max_occupancy'', KeyCapacity),
      (''traffic.priority'', KeyNumber), (''traffic.speed_limit'', KeyPositive),
      (''traffic.claim_required'', KeyBool), (''traffic.waiting_allowed'', KeyBool),
      (''traffic.stop_allowed'', KeyBool), (''traffic.blocked'', KeyBool),
      (''traffic.replan_trigger'', KeyBool), (''traffic.no_stop'', KeyBool),
      (''traffic.blocks_entry_without_grant'', KeyBool),
      (''traffic.blocks_traversal_without_grant'', KeyBool),
      (''traffic.entry_rule'', KeyText), (''traffic.exit_rule'', KeyText),
      (''traffic.robot_class'', KeyText), (''traffic.schedule_window'', KeyText),
      (''traffic.access_group'', KeyText)]"

definition zone_key_type :: "string \<Rightarrow> key_type" where
  "zone_key_type key = unwrap_or (match_key (canonical_zone_traffic_key key) zone_key_types) KeyOther"

definition has_error :: "issue list \<Rightarrow> bool" where
  "has_error issues = list_ex (\<lambda>i. ti_severity i = Error) issues"

lemma u64_ge_1: "(1 :: u64) \<le> n \<longleftrightarrow> n \<noteq> 0"
  by (simp add: not_less [symmetric])

lemma is_err_parsers:
  "is_err (parse_traffic_bool v) = (parse_bool v = None)"
  "is_err (parse_traffic_u64 v) = (parse_u64 v = None)"
  "is_err (parse_traffic_f64 v) = (parse_f64 v = None)"
  "is_err (parse_traffic_string v) = (str_trim v = [])"
  by (auto simp: parse_traffic_bool_def parse_traffic_u64_def parse_traffic_f64_def
      parse_traffic_string_def ok_or_else_def is_err_def Let_def split: option.split)

lemma ok_or_parsers:
  "ok_or (parse_traffic_u64 v) n = unwrap_or (parse_u64 v) n"
  "ok_or (parse_traffic_f64 v) x = unwrap_or (parse_f64 v) x"
  by (auto simp: parse_traffic_u64_def parse_traffic_f64_def ok_or_else_def ok_or_def
      unwrap_or_def split: option.split)

lemma well_typed_alt:
  "well_typed KeyCapacity v \<longleftrightarrow> \<not> (parse_u64 v = None \<or> unwrap_or (parse_u64 v) 0 < 1)"
  "well_typed KeyPositive v \<longleftrightarrow>
     \<not> (parse_f64 v = None \<or> f64_le (unwrap_or (parse_f64 v) f64_zero) f64_zero)"
  by (simp_all add: u64_ge_1 split: option.split)

lemma has_error_sort: "has_error (sort_traffic_issues is) = has_error is"
  by (simp add: has_error_def sort_traffic_issues_def list_ex_iff)

lemma has_error_append: "has_error (a @ b) = (has_error a \<or> has_error b)"
  by (simp add: has_error_def)

lemma has_error_concat: "has_error (concat xss) = list_ex has_error xss"
  by (induction xss) (simp_all add: has_error_append, simp add: has_error_def)

lemma has_error_stop: "\<not> has_error (stop_conflict_issues m)"
  by (simp add: stop_conflict_issues_def has_error_def mk_issue_def split: option.split)

lemma canonical_unknown_zone:
  "\<not> is_known_zone_traffic_key k \<Longrightarrow> canonical_zone_traffic_key k = k"
  by (simp add: is_known_zone_traffic_key_def zone_traffic_keys_def canonical_zone_traffic_key_def
        zone_key_aliases_def)

lemma zone_value_issues_error:
  "has_error (zone_value_issues c k v) = (\<not> well_typed (unwrap_or (match_key c zone_key_types) KeyOther) v)"
proof (cases "c \<in> fst ` set zone_key_types")
  case False
  then show ?thesis by (simp add: zone_key_types_def zone_value_issues_def has_error_def)
next
  case True
  then show ?thesis
    unfolding zone_key_types_def list.set image_insert image_empty fst_conv
    by (elim insertE emptyE)
      (simp_all add: zone_value_issues_def has_error_def mk_issue_def is_err_parsers ok_or_parsers
        well_typed_alt Let_def del: well_typed.simps(1,3))
qed

lemma zone_key_issues_error:
  "has_error (zone_key_issues (k, v)) = (\<not> well_typed (zone_key_type k) v)"
proof (cases "is_known_zone_traffic_key k")
  case True
  then show ?thesis
    by (simp add: zone_key_issues_def zone_key_type_def zone_value_issues_error Let_def)
next
  case False
  then have "match_key k zone_key_types = None"
    by (simp add: is_known_zone_traffic_key_def zone_traffic_keys_def zone_key_types_def)
  with False show ?thesis
    using zone_value_issues_error [of k k v]
    by (simp add: zone_key_issues_def zone_key_type_def canonical_unknown_zone Let_def)
      (simp add: has_error_def mk_issue_def)
qed

text \<open>
  The zone validator reports an issue of severity \<open>Error\<close> exactly when some property's value
  is not of its key's type.
\<close>

theorem validate_zone_ok_iff:
  "(\<not> has_error (validate_zone_traffic_properties m)) =
     list_all (\<lambda>(k, v). well_typed (zone_key_type k) v) m"
  by (induction m) (auto simp: validate_zone_traffic_properties_def has_error_sort has_error_append
      has_error_concat has_error_stop zone_key_issues_error)

definition edge_key_types :: "(string \<times> key_type) list" where
  "edge_key_types =
     [(''traffic.speed_limit'', KeyPositive), (''traffic.clearance_width'', KeyPositive),
      (''traffic.clearance_height'', KeyPositive), (''traffic.priority'', KeyNumber),
      (''traffic.cost_bias'', KeyNumber),
      (''traffic.capacity'', KeyCapacity), (''traffic.max_occupancy'', KeyCapacity),
      (''traffic.reversible'', KeyBool), (''traffic.passing_allowed'', KeyBool),
      (''traffic.no_stop'', KeyBool), (''traffic.blocked'', KeyBool),
      (''traffic.claim_required'', KeyBool), (''traffic.waiting_allowed'', KeyBool),
      (''traffic.stop_allowed'', KeyBool),
      (''traffic.lane_type'', KeyText), (''traffic.lane_kind'', KeyText),
      (''traffic.surface_type'', KeyText), (''traffic.robot_class'', KeyText),
      (''traffic.allowed_payload'', KeyText), (''traffic.preferred_direction'', KeyText),
      (''traffic.direction'', KeyText), (''traffic.schedule_window'', KeyText),
      (''traffic.access_group'', KeyText)]"

definition edge_key_type :: "string \<Rightarrow> key_type" where
  "edge_key_type key = unwrap_or (match_key (canonical_edge_traffic_key key) edge_key_types) KeyOther"

lemma edge_value_issues_error:
  "has_error (edge_value_issues c k v) = (\<not> well_typed (unwrap_or (match_key c edge_key_types) KeyOther) v)"
proof (cases "c \<in> fst ` set edge_key_types")
  case False
  then show ?thesis by (simp add: edge_key_types_def edge_value_issues_def has_error_def)
next
  case True
  then show ?thesis
    unfolding edge_key_types_def list.set image_insert image_empty fst_conv
    by (elim insertE emptyE)
      (simp_all add: edge_value_issues_def has_error_def mk_issue_def is_err_parsers ok_or_parsers
        well_typed_alt Let_def del: well_typed.simps(1,3))
qed

lemma edge_key_issues_error:
  "has_error (edge_key_issues (k, v)) = (\<not> well_typed (edge_key_type k) v)"
proof (cases "is_known_edge_traffic_key k")
  case True
  then show ?thesis
    by (simp add: edge_key_issues_def edge_key_type_def edge_value_issues_error Let_def)
next
  case False
  then have "match_key k edge_key_types = None" "canonical_edge_traffic_key k = k"
    by (simp_all add: is_known_edge_traffic_key_def edge_traffic_keys_def edge_key_types_def
      canonical_edge_traffic_key_def edge_key_aliases_def)
  with False show ?thesis
    using edge_value_issues_error [of k k v]
    by (simp add: edge_key_issues_def edge_key_type_def Let_def)
      (simp add: has_error_def mk_issue_def)
qed

text \<open>
  The edge validator reports an issue of severity \<open>Error\<close> exactly when some property's value
  is not of its key's type.
\<close>

theorem validate_edge_ok_iff:
  "(\<not> has_error (validate_edge_traffic_properties m)) =
     list_all (\<lambda>(k, v). well_typed (edge_key_type k) v) m"
  by (induction m) (auto simp: validate_edge_traffic_properties_def has_error_sort has_error_append
      has_error_concat has_error_stop edge_key_issues_error)

lemma aliases_flat:
  "list_all (\<lambda>(a, c). match_key c zone_key_aliases = None) zone_key_aliases"
  "list_all (\<lambda>(a, c). match_key c edge_key_aliases = None) edge_key_aliases"
  by (simp_all add: zone_key_aliases_def edge_key_aliases_def)

text \<open>A canonical key is its own canonical key.\<close>

lemma canonical_zone_idem:
  "canonical_zone_traffic_key (canonical_zone_traffic_key k) = canonical_zone_traffic_key k"
  using aliases_flat(1)
  by (cases "match_key k zone_key_aliases")
    (auto simp: canonical_zone_traffic_key_def list_all_iff dest!: match_key_SomeD)

lemma canonical_edge_idem:
  "canonical_edge_traffic_key (canonical_edge_traffic_key k) = canonical_edge_traffic_key k"
  using aliases_flat(2)
  by (cases "match_key k edge_key_aliases")
    (auto simp: canonical_edge_traffic_key_def list_all_iff dest!: match_key_SomeD)

text \<open>The parser reads no key that the validator does not know.\<close>

lemma zone_unknown_ignored:
  "\<not> is_known_zone_traffic_key k \<Longrightarrow> zone_match (canonical_zone_traffic_key k) v p = p"
proof -
  assume k: "\<not> is_known_zone_traffic_key k"
  then have c: "canonical_zone_traffic_key k = k"
    by (rule canonical_unknown_zone)
  from k show ?thesis
    by (simp only: c) (simp add: is_known_zone_traffic_key_def zone_traffic_keys_def zone_match_def)
qed

section \<open>Derived semantics and merged policies\<close>

definition zone_closed :: "zone_policy \<Rightarrow> bool" where
  "zone_closed z = (zp_blocked z = Some True \<or> zp_kind z = Restricted)"

definition zone_limits :: "zone_policy \<Rightarrow> bool" where
  "zone_limits z = (zp_capacity_is_explicit z \<or> zp_kind z = CapacityLimited)"

lemma derive_speed_frame [simp]:
  "es_blocked (derive_speed z s) = es_blocked s"
  "es_no_stop (derive_speed z s) = es_no_stop s"
  "es_stop_allowed (derive_speed z s) = es_stop_allowed s"
  "es_capacity_is_explicit (derive_speed z s) = es_capacity_is_explicit s"
  "es_capacity (derive_speed z s) = es_capacity s"
  "es_requires_claim (derive_speed z s) = es_requires_claim s"
  by (simp_all add: derive_speed_def Let_def split: option.split)

lemma derive_capacity_frame [simp]:
  "es_blocked (derive_capacity z s) = es_blocked s"
  "es_no_stop (derive_capacity z s) = es_no_stop s"
  "es_stop_allowed (derive_capacity z s) = es_stop_allowed s"
  "es_speed_limit (derive_capacity z s) = es_speed_limit s"
  "es_requires_claim (derive_capacity z s) = es_requires_claim s"
  by (simp_all add: derive_capacity_def Let_def split: option.split)

lemma derive_inherit_frame [simp]:
  "es_blocked (derive_inherit z s) = es_blocked s"
  "es_no_stop (derive_inherit z s) = es_no_stop s"
  "es_capacity_is_explicit (derive_inherit z s) = es_capacity_is_explicit s"
  "es_capacity (derive_inherit z s) = es_capacity s"
  "es_speed_limit (derive_inherit z s) = es_speed_limit s"
  by (simp_all add: derive_inherit_def Let_def split: option.split)

lemma derive_closed_frame [simp]:
  "es_capacity_is_explicit (derive_closed z s) = es_capacity_is_explicit s"
  "es_capacity (derive_closed z s) = es_capacity s"
  "es_speed_limit (derive_closed z s) = es_speed_limit s"
  "es_requires_claim (derive_closed z s) = es_requires_claim s"
  by (simp_all add: derive_closed_def Let_def split: option.split)

lemma derive_bias_frame [simp]:
  "es_blocked (derive_bias z s) = es_blocked s"
  "es_no_stop (derive_bias z s) = es_no_stop s"
  "es_stop_allowed (derive_bias z s) = es_stop_allowed s"
  "es_capacity_is_explicit (derive_bias z s) = es_capacity_is_explicit s"
  "es_capacity (derive_bias z s) = es_capacity s"
  "es_speed_limit (derive_bias z s) = es_speed_limit s"
  "es_requires_claim (derive_bias z s) = es_requires_claim s"
  by (simp_all add: derive_bias_def Let_def split: option.split)

lemma derive_step_fields:
  "es_blocked (derive_step s z) = (if zone_closed z then Some True else es_blocked s)"
  "es_no_stop (derive_step s z) =
     (if zone_closed z \<or> zp_kind z = NoStop then Some True else es_no_stop s)"
  "es_stop_allowed (derive_step s z) =
     (if zone_closed z \<or> zp_kind z = NoStop then Some False
      else or_inherit (es_stop_allowed s) (zp_stop_allowed z))"
  "es_capacity_is_explicit (derive_step s z) = (zone_limits z \<or> es_capacity_is_explicit s)"
  "es_capacity (derive_step s z) =
     (if zone_limits z then Some (case es_capacity s of None \<Rightarrow> zp_capacity z | Some c \<Rightarrow> min c (zp_capacity z))
      else es_capacity s)"
  "es_speed_limit (derive_step s z) =
     (case zp_speed_limit z of None \<Rightarrow> es_speed_limit s
      | Some v \<Rightarrow> Some (case es_speed_limit s of None \<Rightarrow> v | Some x \<Rightarrow> f64_min x v))"
  "es_requires_claim (derive_step s z) =
     (if es_requires_claim s = None then Some (zp_requires_claim z) else es_requires_claim s)"
  unfolding derive_step_def zone_closed_def zone_limits_def
        apply (simp add: derive_closed_def Let_def)
       apply (simp add: derive_closed_def Let_def)
      apply (simp add: derive_closed_def derive_inherit_def Let_def)
     apply (simp add: derive_capacity_def)
    apply (simp add: derive_capacity_def)
   apply (simp add: derive_speed_def split: option.split)
  apply (simp add: derive_inherit_def)
  done

text \<open>The semantics \<open>s\<close> of an edge is at least as strict as the policy \<open>z\<close> of a zone.\<close>

definition no_looser_than :: "edge_semantics \<Rightarrow> zone_policy \<Rightarrow> bool" where
  "no_looser_than s z =
     ((zone_closed z \<longrightarrow> es_blocked s = Some True)
      \<and> (zone_closed z \<or> zp_kind z = NoStop \<longrightarrow> es_no_stop s = Some True \<and> es_stop_allowed s = Some False)
      \<and> (zone_limits z \<longrightarrow>
           es_capacity_is_explicit s
           \<and> (case es_capacity s of None \<Rightarrow> False | Some c \<Rightarrow> c \<le> zp_capacity z))
      \<and> (case zp_speed_limit z of None \<Rightarrow> True
         | Some v \<Rightarrow> (case es_speed_limit s of None \<Rightarrow> False
                    | Some x \<Rightarrow> v = NaN \<or> f64_le x v)))"

lemma f64_min_le: "f64_le a v \<Longrightarrow> f64_le (f64_min a b) v"
  using f64_le_total [of a b] by (auto simp: f64_min_def dest: f64_le_not_nan intro: f64_le_trans)

lemma f64_min_le2: "v \<noteq> NaN \<Longrightarrow> f64_le (f64_min a v) v"
  using f64_le_total [of a v] by (auto simp: f64_min_def)

lemma derive_step_keeps: "no_looser_than s z \<Longrightarrow> no_looser_than (derive_step s y) z"
  unfolding no_looser_than_def derive_step_fields
  by (auto simp: or_inherit_def min.coboundedI1 intro: f64_min_le split: option.splits)

lemma derive_step_no_looser: "no_looser_than (derive_step s z) z"
  unfolding no_looser_than_def derive_step_fields
  by (auto intro: f64_min_le2 split: option.splits)

lemma derive_fold_keeps: "no_looser_than s z \<Longrightarrow> no_looser_than (foldl derive_step s zs) z"
  by (induction zs arbitrary: s) (simp_all add: derive_step_keeps)

lemma derive_fold_no_looser: "list_all (no_looser_than (foldl derive_step s zs)) zs"
  by (induction zs arbitrary: s) (simp_all add: derive_fold_keeps derive_step_no_looser)

lemma derive_fold_blocked:
  "es_blocked (foldl derive_step s zs) = (if list_ex zone_closed zs then Some True else es_blocked s)"
  by (induction zs arbitrary: s) (simp_all add: derive_step_fields)

text \<open>
  The semantics derived for an edge is at least as strict as every zone that holds it (blocked
  and no-stop where the zone is, capacity and speed limit at most the zone's), and the edge is
  blocked only by a closed zone or by its own properties.
\<close>

theorem derive_restrictive:
  "list_all (no_looser_than (derive_effective_edge_semantics m d zs)) zs
   \<and> es_blocked (derive_effective_edge_semantics m d zs) =
       (if list_ex zone_closed zs then Some True else es_blocked (parse_edge_traffic_semantics m d))"
  by (simp add: derive_effective_edge_semantics_def derive_fold_no_looser derive_fold_blocked)

definition explicit_capacities :: "zone_policy list \<Rightarrow> u64 list" where
  "explicit_capacities ps = map zp_capacity (filter zp_capacity_is_explicit ps)"

definition chain_capacity :: "zone_policy list \<Rightarrow> u64" where
  "chain_capacity ps =
     (if explicit_capacities ps = [] then zp_capacity (last ps) else Min (set (explicit_capacities ps)))"

text \<open>The kind nearest the end of the list that is not \<open>Informational\<close>.\<close>

fun last_kind :: "zone_policy_kind list \<Rightarrow> zone_policy_kind" where
  "last_kind [] = Informational"
| "last_kind (k # ks) = (if last_kind ks = Informational then k else last_kind ks)"

definition chain_kind :: "zone_policy list \<Rightarrow> zone_policy_kind" where
  "chain_kind ps =
     (let ks = map zp_kind ps in
      if Restricted \<in> set ks then Restricted
      else if ExclusiveAccess \<in> set ks then ExclusiveAccess
      else last_kind ks)"

lemma merge_adjust_fields:
  "zp_kind (merge_adjust p) = zp_kind p"
  "zp_capacity (merge_adjust p) = zp_capacity p"
  "zp_capacity_is_explicit (merge_adjust p) = zp_capacity_is_explicit p"
  "zp_requires_claim (merge_adjust p) = zp_requires_claim p"
  "zp_blocks_entry (merge_adjust p) = (zp_blocks_entry p \<or> zp_kind p = Restricted)"
  "zp_blocks_traversal (merge_adjust p) = (zp_blocks_traversal p \<or> zp_kind p = Restricted)"
  by (simp_all add: merge_adjust_def)

lemma merge_fields:
  "zp_kind (merge_zone_policy a b) = merge_kind (zp_kind a) (zp_kind b)"
  "zp_capacity (merge_zone_policy a b) = fst (merge_capacity a b)"
  "zp_capacity_is_explicit (merge_zone_policy a b) = snd (merge_capacity a b)"
  "zp_requires_claim (merge_zone_policy a b) = (zp_requires_claim a \<or> zp_requires_claim b)"
  "zp_blocks_entry (merge_zone_policy a b) =
     ((zp_blocks_entry a \<or> zp_blocks_entry b) \<or> merge_kind (zp_kind a) (zp_kind b) = Restricted)"
  "zp_blocks_traversal (merge_zone_policy a b) =
     ((zp_blocks_traversal a \<or> zp_blocks_traversal b) \<or> merge_kind (zp_kind a) (zp_kind b) = Restricted)"
  unfolding merge_zone_policy_def merge_adjust_fields zone_policy.select_convs by (rule refl)+

lemma last_kind_snoc:
  "last_kind (ks @ [k]) = (if k = Informational then last_kind ks else k)"
  by (induction ks) auto

lemma last_kind_in: "last_kind ks \<in> insert Informational (set ks)"
  by (induction ks) auto

lemma chain_kind_snoc: "chain_kind (xs @ [b]) = merge_kind (chain_kind xs) (zp_kind b)"
  using last_kind_in [of "map zp_kind xs"]
  by (auto simp: chain_kind_def merge_kind_def Let_def last_kind_snoc)

lemma chain_capacity_snoc:
  "chain_capacity (xs @ [b]) =
     (if zp_capacity_is_explicit b
      then (if explicit_capacities xs \<noteq> [] then min (chain_capacity xs) (zp_capacity b) else zp_capacity b)
      else if explicit_capacities xs \<noteq> [] then chain_capacity xs else zp_capacity b)"
proof -
  have "Min (set (cs @ [c])) = (if cs = [] then c else min (Min (set cs)) c)" for cs :: "u64 list" and c
    by (cases "cs = []") (simp_all add: min.commute)
  then show ?thesis
    by (simp add: chain_capacity_def explicit_capacities_def del: set_append)
qed

text \<open>
  Merging the policies of a chain of zones from the root down gives a restricted policy when
  any of them is restricted, else an exclusive one when any is exclusive, else the innermost kind
  that says something; the capacity is the least of the explicit ones; a claim is required when any
  zone of the chain requires one.
\<close>

theorem merge_chain:
  "zp_kind (foldl merge_zone_policy p ps) = chain_kind (p # ps)
   \<and> zp_capacity (foldl merge_zone_policy p ps) = chain_capacity (p # ps)
   \<and> zp_capacity_is_explicit (foldl merge_zone_policy p ps) = list_ex zp_capacity_is_explicit (p # ps)
   \<and> zp_requires_claim (foldl merge_zone_policy p ps) = list_ex zp_requires_claim (p # ps)"
proof (induction ps rule: rev_induct)
  case Nil
  show ?case
    by (cases "zp_kind p") (simp_all add: chain_kind_def chain_capacity_def explicit_capacities_def)
next
  case (snoc b ps)
  have e: "explicit_capacities (p # ps) \<noteq> [] \<longleftrightarrow> list_ex zp_capacity_is_explicit (p # ps)"
    by (auto simp: explicit_capacities_def filter_empty_conv list_ex_iff)
  show ?case
    using snoc e chain_kind_snoc [of "p # ps" b] chain_capacity_snoc [of "p # ps" b]
    by (simp add: merge_fields merge_capacity_def)
qed

text \<open>
  Both validators report their issues in the order of key, severity, message, and sorting
  neither loses nor adds an issue.
\<close>

theorem validate_zone_sorted:
  "sorted (map (\<lambda>i. (ti_key i, ti_severity i, ti_message i)) (validate_zone_traffic_properties m))
   \<and> mset (validate_zone_traffic_properties m) =
       mset (concat (map zone_key_issues m)) + mset (stop_conflict_issues m)"
  by (simp add: validate_zone_traffic_properties_def sort_traffic_issues_def)

end
