(* ===== verification/Index.thy ===== *)
theory Index
  imports Policy
begin

text \<open>
  \<open>index.rs\<close>: the lookup layer over a workspace. The workspace itself (its zone tree, its graph of
  nodes and edges, its datum) belongs to the crates \<open>zoneout\<close> and \<open>graphix\<close>; here it is a record of
  what their accessors return, and what is relied on is stated as a predicate on it. A hash map is
  an association list read through \<^const>\<open>map_of\<close>; where the source iterates over a hash set or map
  whose order is unspecified, the order is a parameter \<open>ho\<close>.
\<close>

section \<open>The workspace, as its accessors show it\<close>

type_synonym vid = nat
type_synonym eid = nat

datatype zone =
  Zone (z_id: uuid) (z_name: string) (z_kind: string) (z_properties: props)
       (z_node_ids: "uuid list") (z_children: "zone list")

record node_data =
  nd_id :: uuid
  nd_zone_ids :: "uuid list"
  nd_properties :: props

record edge_data =
  ed_id :: uuid
  ed_zone_ids :: "uuid list"
  ed_properties :: props

datatype coord_mode = Local | Global

record geo =
  geo_lat :: f64
  geo_lon :: f64
  geo_alt :: f64

record point =
  pt_x :: f64
  pt_y :: f64
  pt_z :: f64

record workspace =
  ws_root_zone :: zone
  ws_find_zone :: "uuid \<Rightarrow> zone option"
  ws_vertices :: "vid list"
  ws_get_vertex :: "vid \<Rightarrow> node_data option"
  ws_find_node :: "uuid \<Rightarrow> vid option"
  ws_edges :: "eid list"
  ws_edge_property :: "eid \<Rightarrow> edge_data option"
  ws_source :: "eid \<Rightarrow> vid option"
  ws_target :: "eid \<Rightarrow> vid option"
  ws_get_weight :: "eid \<Rightarrow> f64 option"
  ws_get_edge :: "vid \<Rightarrow> vid \<Rightarrow> eid option"
  ws_coord_mode :: coord_mode
  ws_datum :: "geo option"

fun zone_tree :: "zone \<Rightarrow> zone list" where
  "zone_tree (Zone i n k p ns cs) = Zone i n k p ns cs # concat (map zone_tree cs)"

text \<open>The zone lookup of \<open>zoneout\<close>: it finds a zone of the tree by its id, when there is one.\<close>

definition find_zone_ok :: "workspace \<Rightarrow> bool" where
  "find_zone_ok w =
     ((\<forall>i z. ws_find_zone w i = Some z \<longrightarrow> z_id z = i \<and> z \<in> set (zone_tree (ws_root_zone w)))
      \<and> (\<forall>z \<in> set (zone_tree (ws_root_zone w)). ws_find_zone w (z_id z) \<noteq> None))"

section \<open>The index\<close>

record adjacency =
  adj_node_id :: uuid
  adj_edge_id :: uuid
  adj_weight :: f64
  adj_from_source :: bool

record index =
  ix_workspace :: workspace
  ix_adjacency :: "(uuid \<times> adjacency list) list"
  ix_zone_policies :: "(uuid \<times> zone_policy) list"
  ix_edge_semantics :: "(uuid \<times> edge_semantics) list"
  ix_zone_ancestors :: "(uuid \<times> uuid list) list"
  ix_zone_ids :: "uuid list"
  ix_nodes :: "(uuid \<times> vid) list"
  ix_edges :: "(uuid \<times> eid) list"
  ix_parents :: "(uuid \<times> uuid) list"
  ix_children :: "(uuid \<times> uuid list) list"
  ix_nodes_by_zone :: "(uuid \<times> vid list) list"
  ix_zones_by_numeric_id :: "(u64 \<times> uuid) list"
  ix_nodes_by_numeric_id :: "(u64 \<times> uuid) list"
  ix_edges_by_numeric_id :: "(u64 \<times> uuid) list"
  ix_duplicate_zone_ids :: "uuid list"
  ix_duplicate_node_ids :: "uuid list"
  ix_duplicate_edge_ids :: "uuid list"
  ix_duplicate_zone_numeric_ids :: "u64 list"
  ix_duplicate_node_numeric_ids :: "u64 list"
  ix_duplicate_edge_numeric_ids :: "u64 list"

definition empty_index :: "workspace \<Rightarrow> index" where
  "empty_index w =
     \<lparr>ix_workspace = w, ix_adjacency = [], ix_zone_policies = [], ix_edge_semantics = [],
      ix_zone_ancestors = [], ix_zone_ids = [], ix_nodes = [], ix_edges = [], ix_parents = [],
      ix_children = [], ix_nodes_by_zone = [], ix_zones_by_numeric_id = [],
      ix_nodes_by_numeric_id = [], ix_edges_by_numeric_id = [], ix_duplicate_zone_ids = [],
      ix_duplicate_node_ids = [], ix_duplicate_edge_ids = [], ix_duplicate_zone_numeric_ids = [],
      ix_duplicate_node_numeric_ids = [], ix_duplicate_edge_numeric_ids = []\<rparr>"

section \<open>Building the index\<close>

definition numeric_id_property :: string where
  "numeric_id_property = ''external.numeric_id''"

definition parse_numeric_id :: "string option \<Rightarrow> u64 option" where
  "parse_numeric_id raw = (case raw of None \<Rightarrow> None | Some s \<Rightarrow> parse_u64_str (str_trim s))"

definition push_new :: "'a \<Rightarrow> 'a list \<Rightarrow> 'a list" where
  \<comment> \<open>\<open>if !xs.contains(&x) { xs.push(x) }\<close>\<close>
  "push_new x xs = (if x \<in> set xs then xs else xs @ [x])"

definition insert_numeric_id ::
  "u64 \<Rightarrow> uuid \<Rightarrow> (u64 \<times> uuid) list \<times> u64 list \<Rightarrow> (u64 \<times> uuid) list \<times> u64 list" where
  "insert_numeric_id n u mdup =
     (let (m, dup) = mdup in
      case map_of m n of
        Some existing \<Rightarrow> (m, if existing \<noteq> u \<and> n \<notin> set dup then dup @ [n] else dup)
      | None \<Rightarrow> (AList.update n u m, dup))"

text \<open>
  \<open>index_zone_tree\<close>: the worklist is a stack, so the last child pushed is the first popped. Its
  outputs are the four collections it is handed.
\<close>

record zone_links =
  zl_zone_ids :: "uuid list"
  zl_parents :: "(uuid \<times> uuid) list"
  zl_children :: "(uuid \<times> uuid list) list"
  zl_duplicates :: "uuid list"

definition link_zone :: "uuid \<Rightarrow> uuid option \<Rightarrow> zone_links \<Rightarrow> zone_links" where
  "link_zone zid parent l =
     (let l = (if zid \<in> set (zl_zone_ids l)
               then l\<lparr>zl_duplicates := push_new zid (zl_duplicates l)\<rparr>
               else l\<lparr>zl_zone_ids := zl_zone_ids l @ [zid]\<rparr>)
      in case parent of
           None \<Rightarrow> l
         | Some parent_id \<Rightarrow>
             l\<lparr>zl_parents := AList.update zid parent_id (zl_parents l),
               zl_children := push_entry parent_id zid (zl_children l)\<rparr>)"

lemma size_zone_children: "sum_list (map size (z_children z)) < size z"
  by (cases z) (simp add: size_list_conv_sum_list)

function index_zone_tree :: "(zone \<times> uuid option) list \<Rightarrow> zone_links \<Rightarrow> zone_links" where
  "index_zone_tree [] l = l"
| "index_zone_tree ((z, parent) # pending) l =
     index_zone_tree (rev (map (\<lambda>c. (c, Some (z_id z))) (z_children z)) @ pending)
       (link_zone (z_id z) parent l)"
  by pat_completeness auto
termination
  by (relation "measure (\<lambda>(pending, l). sum_list (map (size \<circ> fst) pending))")
    (auto simp: rev_map [symmetric] sum_list_rev o_def size_zone_children)

definition index_node :: "workspace \<Rightarrow> index \<Rightarrow> vid \<Rightarrow> index" where
  "index_node w ix v =
     (case ws_get_vertex w v of
        None \<Rightarrow> ix
      | Some node \<Rightarrow>
          (let nid = nd_id node;
               ix = (if nid \<noteq> uuid_nil \<and> map_of (ix_nodes ix) nid \<noteq> None
                     then ix\<lparr>ix_duplicate_node_ids := push_new nid (ix_duplicate_node_ids ix)\<rparr>
                     else ix\<lparr>ix_nodes := AList.update nid v (ix_nodes ix)\<rparr>);
               ix = ix\<lparr>ix_nodes_by_zone :=
                      foldl (\<lambda>m zid. push_entry zid v m) (ix_nodes_by_zone ix) (nd_zone_ids node)\<rparr>
           in case parse_numeric_id (map_of (nd_properties node) numeric_id_property) of
                None \<Rightarrow> ix
              | Some n \<Rightarrow>
                  (let (m, dup) = insert_numeric_id n nid
                         (ix_nodes_by_numeric_id ix, ix_duplicate_node_numeric_ids ix)
                   in ix\<lparr>ix_nodes_by_numeric_id := m, ix_duplicate_node_numeric_ids := dup\<rparr>)))"

definition index_edge :: "workspace \<Rightarrow> index \<Rightarrow> eid \<Rightarrow> index" where
  "index_edge w ix e =
     (case ws_edge_property w e of
        None \<Rightarrow> ix
      | Some prop \<Rightarrow>
          (let i = ed_id prop;
               ix = (if i \<noteq> uuid_nil \<and> map_of (ix_edges ix) i \<noteq> None
                     then ix\<lparr>ix_duplicate_edge_ids := push_new i (ix_duplicate_edge_ids ix)\<rparr>
                     else ix\<lparr>ix_edges := AList.update i e (ix_edges ix)\<rparr>)
           in case parse_numeric_id (map_of (ed_properties prop) numeric_id_property) of
                None \<Rightarrow> ix
              | Some n \<Rightarrow>
                  (let (m, dup) = insert_numeric_id n i
                         (ix_edges_by_numeric_id ix, ix_duplicate_edge_numeric_ids ix)
                   in ix\<lparr>ix_edges_by_numeric_id := m, ix_duplicate_edge_numeric_ids := dup\<rparr>)))"

text \<open>The steps one edge adds to the adjacency: out of its source, and out of its target.\<close>

definition adjacency_steps :: "workspace \<Rightarrow> eid \<Rightarrow> (uuid \<times> adjacency) list" where
  "adjacency_steps w e =
     (case (ws_source w e, ws_target w e) of
        (Some src, Some tgt) \<Rightarrow>
          (case (ws_get_vertex w src, ws_get_vertex w tgt) of
             (Some sn, Some tn) \<Rightarrow>
               (case ws_edge_property w e of
                  None \<Rightarrow> []
                | Some prop \<Rightarrow>
                    (let weight = unwrap_or (ws_get_weight w e) f64_zero in
                     (nd_id sn, \<lparr>adj_node_id = nd_id tn, adj_edge_id = ed_id prop,
                                 adj_weight = weight, adj_from_source = True\<rparr>)
                     # (if src \<noteq> tgt
                        then [(nd_id tn, \<lparr>adj_node_id = nd_id sn, adj_edge_id = ed_id prop,
                                          adj_weight = weight, adj_from_source = False\<rparr>)]
                        else [])))
           | _ \<Rightarrow> [])
      | _ \<Rightarrow> [])"

definition push_adjacency :: "workspace \<Rightarrow> index \<Rightarrow> eid \<Rightarrow> index" where
  "push_adjacency w ix e =
     ix\<lparr>ix_adjacency :=
         foldl (\<lambda>m (k, a). push_entry k a m) (ix_adjacency ix) (adjacency_steps w e)\<rparr>"

text \<open>The walk up the parents, stopped when it meets a zone again.\<close>

function ancestor_walk :: "(uuid \<times> uuid) list \<Rightarrow> uuid option \<Rightarrow> uuid list \<Rightarrow> uuid list" where
  "ancestor_walk parents None acc = acc"
| "ancestor_walk parents (Some p) acc =
     (if p \<in> set acc then acc else ancestor_walk parents (map_of parents p) (acc @ [p]))"
  by pat_completeness auto
termination
proof (relation "measure (\<lambda>(ps, c, acc). card (snd ` set ps \<union> set_option c - set acc))")
  fix ps :: "(uuid \<times> uuid) list" and p :: uuid and acc :: "uuid list"
  assume "p \<notin> set acc"
  then have "snd ` set ps \<union> set_option (map_of ps p) - set (acc @ [p])
             \<subset> snd ` set ps \<union> set_option (Some p) - set acc"
    by (auto dest: map_of_SomeD intro: rev_image_eqI)
  then show "((ps, map_of ps p, acc @ [p]), ps, Some p, acc)
             \<in> measure (\<lambda>(ps, c, acc). card (snd ` set ps \<union> set_option c - set acc))"
    by (auto intro: psubset_card_mono)
qed simp

definition index_zone :: "workspace \<Rightarrow> index \<Rightarrow> uuid \<Rightarrow> index" where
  "index_zone w ix zid =
     (case ws_find_zone w zid of
        None \<Rightarrow> ix
      | Some zone \<Rightarrow>
          (let ix = (case parse_numeric_id (map_of (z_properties zone) numeric_id_property) of
                       None \<Rightarrow> ix
                     | Some n \<Rightarrow>
                         (let (m, dup) = insert_numeric_id n zid
                                (ix_zones_by_numeric_id ix, ix_duplicate_zone_numeric_ids ix)
                          in ix\<lparr>ix_zones_by_numeric_id := m, ix_duplicate_zone_numeric_ids := dup\<rparr>))
           in ix\<lparr>ix_zone_policies :=
                  AList.update zid (parse_zone_policy (z_properties zone)) (ix_zone_policies ix),
                ix_zone_ancestors :=
                  AList.update zid (ancestor_walk (ix_parents ix) (map_of (ix_parents ix) zid) [])
                    (ix_zone_ancestors ix)\<rparr>))"

definition index_semantics :: "workspace \<Rightarrow> index \<Rightarrow> uuid \<times> eid \<Rightarrow> index" where
  "index_semantics w ix ue =
     (case ws_edge_property w (snd ue) of
        None \<Rightarrow> ix
      | Some prop \<Rightarrow>
          ix\<lparr>ix_edge_semantics :=
              AList.update (fst ue) (parse_edge_traffic_semantics (ed_properties prop) False)
                (ix_edge_semantics ix)\<rparr>)"

definition index_zones :: "workspace \<Rightarrow> index \<Rightarrow> index" where
  "index_zones w ix =
     (let l = index_zone_tree [(ws_root_zone w, None)]
            \<lparr>zl_zone_ids = [], zl_parents = [], zl_children = [], zl_duplicates = []\<rparr>
      in ix\<lparr>ix_zone_ids := zl_zone_ids l, ix_parents := zl_parents l, ix_children := zl_children l,
            ix_duplicate_zone_ids := zl_duplicates l\<rparr>)"

definition rebuild :: "(uuid list \<Rightarrow> uuid list) \<Rightarrow> workspace \<Rightarrow> index" where
  "rebuild ho w =
     (let ix = index_zones w (empty_index w);
          ix = foldl (index_node w) ix (ws_vertices w);
          ix = foldl (index_edge w) ix (ws_edges w);
          ix = foldl (push_adjacency w) ix (ws_edges w);
          ix = foldl (index_zone w) ix (ho (ix_zone_ids ix))
      in foldl (index_semantics w) ix (ix_edges ix))"

section \<open>Lookups\<close>

definition ix_zone :: "index \<Rightarrow> uuid \<Rightarrow> zone option" where
  "ix_zone ix zid =
     (if zid \<notin> set (ix_zone_ids ix) then None else ws_find_zone (ix_workspace ix) zid)"

definition ix_node :: "index \<Rightarrow> uuid \<Rightarrow> node_data option" where
  "ix_node ix nid =
     (case map_of (ix_nodes ix) nid of None \<Rightarrow> None | Some v \<Rightarrow> ws_get_vertex (ix_workspace ix) v)"

definition ix_edge :: "index \<Rightarrow> uuid \<Rightarrow> edge_data option" where
  "ix_edge ix i =
     (case map_of (ix_edges ix) i of None \<Rightarrow> None | Some e \<Rightarrow> ws_edge_property (ix_workspace ix) e)"

definition root_zone_id :: "index \<Rightarrow> uuid option" where
  "root_zone_id ix = Some (z_id (ws_root_zone (ix_workspace ix)))"

definition vertex_id :: "index \<Rightarrow> uuid \<Rightarrow> vid option" where
  "vertex_id ix nid = map_of (ix_nodes ix) nid"

definition edge_id :: "index \<Rightarrow> uuid \<Rightarrow> eid option" where
  "edge_id ix i = map_of (ix_edges ix) i"

definition parent_zone :: "index \<Rightarrow> uuid \<Rightarrow> zone option" where
  "parent_zone ix zid =
     (case map_of (ix_parents ix) zid of
        None \<Rightarrow> None | Some pid \<Rightarrow> ws_find_zone (ix_workspace ix) pid)"

definition child_zones :: "index \<Rightarrow> uuid \<Rightarrow> zone list" where
  "child_zones ix zid =
     (case map_of (ix_children ix) zid of
        None \<Rightarrow> []
      | Some ids \<Rightarrow> List.map_filter (ws_find_zone (ix_workspace ix)) ids)"

text \<open>
  \<open>ancestor_zones\<close> and \<open>descendant_zones\<close> have no guard against a cycle of the parent links:
  \<^term>\<open>None\<close> is the loop that does not end.
\<close>

partial_function (option) ancestor_loop ::
  "index \<Rightarrow> uuid option \<Rightarrow> zone list \<Rightarrow> zone list option"
where
  "ancestor_loop ix current out =
     (case current of
        None \<Rightarrow> Some out
      | Some pid \<Rightarrow>
          ancestor_loop ix (map_of (ix_parents ix) pid)
            (case ws_find_zone (ix_workspace ix) pid of None \<Rightarrow> out | Some z \<Rightarrow> out @ [z]))"

definition ancestor_zones :: "index \<Rightarrow> uuid \<Rightarrow> zone list option" where
  "ancestor_zones ix zid = ancestor_loop ix (map_of (ix_parents ix) zid) []"

partial_function (option) descendant_loop ::
  "index \<Rightarrow> uuid list \<Rightarrow> zone list \<Rightarrow> zone list option"
where
  "descendant_loop ix pending out =
     (case pending of
        [] \<Rightarrow> Some out
      | current # rest \<Rightarrow>
          (let cs = child_zones ix current in
           descendant_loop ix (rev (map z_id cs) @ rest) (out @ cs)))"

definition descendant_zones :: "index \<Rightarrow> uuid \<Rightarrow> zone list option" where
  "descendant_zones ix zid = descendant_loop ix [zid] []"

text \<open>The depth search: visited zones are skipped, so it ends on any links.\<close>

definition depth_universe :: "(uuid \<times> uuid list) list \<Rightarrow> (uuid \<times> nat) list \<Rightarrow> uuid set" where
  "depth_universe children pending = fst ` set pending \<union> (\<Union>cs \<in> snd ` set children. set cs)"

function depth_loop ::
  "(uuid \<times> uuid list) list \<Rightarrow> (uuid \<times> nat) list \<Rightarrow> uuid list \<Rightarrow> nat \<Rightarrow> nat"
where
  "depth_loop children [] visited deepest = deepest"
| "depth_loop children ((zid, depth) # pending) visited deepest =
     (if zid \<in> set visited then depth_loop children pending visited deepest
      else depth_loop children
             (rev (map (\<lambda>c. (c, depth + 1)) (lookup_list children zid)) @ pending)
             (zid # visited) (max deepest depth))"
  by pat_completeness auto
termination
proof (relation "measures [\<lambda>(cs, p, v, d). card (depth_universe cs p - set v), \<lambda>(cs, p, v, d). length p]")
  fix children :: "(uuid \<times> uuid list) list" and zid :: uuid and depth :: nat
  fix pending :: "(uuid \<times> nat) list" and visited :: "uuid list" and deepest :: nat
  let ?m = "measures [\<lambda>(cs, p, v, d). card (depth_universe cs p - set v), \<lambda>(cs, p, v, d). length p]"
  let ?a = "(children, (zid, depth) # pending, visited, deepest)"
  have fin: "finite (depth_universe children p)" for p
    by (simp add: depth_universe_def)
  show "zid \<in> set visited \<Longrightarrow> ((children, pending, visited, deepest), ?a) \<in> ?m"
  proof -
    assume "zid \<in> set visited"
    then have "depth_universe children pending - set visited
               = depth_universe children ((zid, depth) # pending) - set visited"
      by (auto simp: depth_universe_def)
    then show ?thesis by simp
  qed
  assume new: "zid \<notin> set visited"
  let ?p = "rev (map (\<lambda>c. (c, depth + 1)) (lookup_list children zid)) @ pending"
  have "set (lookup_list children zid) \<subseteq> (\<Union>cs \<in> snd ` set children. set cs)"
    by (cases "map_of children zid") (auto simp: lookup_list_def dest!: map_of_SomeD intro!: bexI)
  then have "depth_universe children ?p - set (zid # visited)
             \<subset> depth_universe children ((zid, depth) # pending) - set visited"
    using new by (auto simp: depth_universe_def image_Un image_image)
  then have "card (depth_universe children ?p - set (zid # visited))
             < card (depth_universe children ((zid, depth) # pending) - set visited)"
    using fin by (intro psubset_card_mono) auto
  then show "((children, ?p, zid # visited, max deepest depth), ?a) \<in> ?m"
    by simp
qed simp

definition max_zone_depth :: "index \<Rightarrow> nat" where
  "max_zone_depth ix =
     (case root_zone_id ix of
        None \<Rightarrow> 0
      | Some rid \<Rightarrow> depth_loop (ix_children ix) [(rid, 1)] [] 0)"

definition nodes_in_zone :: "index \<Rightarrow> uuid \<Rightarrow> node_data list" where
  "nodes_in_zone ix zid =
     (case map_of (ix_nodes_by_zone ix) zid of
        None \<Rightarrow> []
      | Some vids \<Rightarrow> List.map_filter (ws_get_vertex (ix_workspace ix)) vids)"

definition zones_of_node :: "index \<Rightarrow> uuid \<Rightarrow> zone list" where
  "zones_of_node ix nid =
     (case ix_node ix nid of
        None \<Rightarrow> []
      | Some node \<Rightarrow> List.map_filter (ws_find_zone (ix_workspace ix)) (nd_zone_ids node))"

definition zones_of_edge :: "index \<Rightarrow> uuid \<Rightarrow> zone list" where
  "zones_of_edge ix i =
     (case ix_edge ix i of
        None \<Rightarrow> []
      | Some edge \<Rightarrow> List.map_filter (ws_find_zone (ix_workspace ix)) (ed_zone_ids edge))"

definition neighbors :: "index \<Rightarrow> uuid \<Rightarrow> adjacency list" where
  "neighbors ix nid = lookup_list (ix_adjacency ix) nid"

definition ix_zone_policy :: "index \<Rightarrow> uuid \<Rightarrow> zone_policy option" where
  "ix_zone_policy ix zid = map_of (ix_zone_policies ix) zid"

definition ix_edge_traffic :: "index \<Rightarrow> uuid \<Rightarrow> edge_semantics option" where
  "ix_edge_traffic ix i = map_of (ix_edge_semantics ix) i"

definition node_zone_policies :: "index \<Rightarrow> uuid \<Rightarrow> zone_policy list" where
  "node_zone_policies ix nid =
     List.map_filter (\<lambda>z. ix_zone_policy ix (z_id z)) (zones_of_node ix nid)"

definition edge_zone_policies :: "index \<Rightarrow> uuid \<Rightarrow> zone_policy list" where
  "edge_zone_policies ix i =
     List.map_filter (\<lambda>z. ix_zone_policy ix (z_id z)) (zones_of_edge ix i)"

definition zone_contains :: "index \<Rightarrow> uuid \<Rightarrow> uuid \<Rightarrow> bool" where
  "zone_contains ix ancestor zid =
     (ancestor = zid
      \<or> (case map_of (ix_zone_ancestors ix) zid of
           None \<Rightarrow> False | Some ancestors \<Rightarrow> ancestor \<in> set ancestors))"

definition edge_between :: "index \<Rightarrow> uuid \<Rightarrow> uuid \<Rightarrow> edge_data option" where
  "edge_between ix a b =
     (case (map_of (ix_nodes ix) a, map_of (ix_nodes ix) b) of
        (Some va, Some vb) \<Rightarrow>
          (let w = ix_workspace ix in
           case ws_get_edge w va vb of
             Some e \<Rightarrow> ws_edge_property w e
           | None \<Rightarrow>
               (case ws_get_edge w vb va of Some e \<Rightarrow> ws_edge_property w e | None \<Rightarrow> None))
      | _ \<Rightarrow> None)"

text \<open>The conversions take the two functions of the crate \<open>concord\<close> as parameters.\<close>

definition local_to_global :: "(point \<Rightarrow> geo \<Rightarrow> geo) \<Rightarrow> index \<Rightarrow> point \<Rightarrow> error + geo" where
  "local_to_global to_wgs_from_enu ix p =
     (if ws_coord_mode (ix_workspace ix) \<noteq> Local
      then Inl (InvalidArgument (Lit ''local_to_global requires local coord_mode and a reference origin''))
      else case ws_datum (ix_workspace ix) of
             None \<Rightarrow> Inl (InvalidArgument (Lit ''local_to_global requires local coord_mode and a reference origin''))
           | Some reference \<Rightarrow> Inr (to_wgs_from_enu p reference))"

definition global_to_local :: "(geo \<Rightarrow> geo \<Rightarrow> point) \<Rightarrow> index \<Rightarrow> geo \<Rightarrow> error + point" where
  "global_to_local to_enu ix g =
     (if ws_coord_mode (ix_workspace ix) \<noteq> Local
      then Inl (InvalidArgument (Lit ''global_to_local requires local coord_mode and a reference origin''))
      else case ws_datum (ix_workspace ix) of
             None \<Rightarrow> Inl (InvalidArgument (Lit ''global_to_local requires local coord_mode and a reference origin''))
           | Some reference \<Rightarrow> Inr (to_enu reference g))"

definition pose_local_to_global :: "(point \<Rightarrow> geo \<Rightarrow> geo) \<Rightarrow> index \<Rightarrow> point \<Rightarrow> geo option" where
  "pose_local_to_global to_wgs_from_enu ix p =
     map_option (to_wgs_from_enu p) (ws_datum (ix_workspace ix))"

definition pose_global_to_local :: "(geo \<Rightarrow> geo \<Rightarrow> point) \<Rightarrow> index \<Rightarrow> geo \<Rightarrow> point option" where
  "pose_global_to_local to_enu ix g =
     map_option (\<lambda>reference. to_enu reference g) (ws_datum (ix_workspace ix))"

definition ix_zone_property :: "index \<Rightarrow> uuid \<Rightarrow> string \<Rightarrow> string option" where
  "ix_zone_property ix zid key =
     (case ix_zone ix zid of None \<Rightarrow> None | Some z \<Rightarrow> map_of (z_properties z) key)"

definition ix_edge_property :: "index \<Rightarrow> uuid \<Rightarrow> string \<Rightarrow> string option" where
  "ix_edge_property ix i key =
     (case ix_edge ix i of None \<Rightarrow> None | Some e \<Rightarrow> map_of (ed_properties e) key)"

definition zone_uuid_by_numeric_id :: "index \<Rightarrow> u64 \<Rightarrow> uuid option" where
  "zone_uuid_by_numeric_id ix n = map_of (ix_zones_by_numeric_id ix) n"

definition node_uuid_by_numeric_id :: "index \<Rightarrow> u64 \<Rightarrow> uuid option" where
  "node_uuid_by_numeric_id ix n = map_of (ix_nodes_by_numeric_id ix) n"

definition edge_uuid_by_numeric_id :: "index \<Rightarrow> u64 \<Rightarrow> uuid option" where
  "edge_uuid_by_numeric_id ix n = map_of (ix_edges_by_numeric_id ix) n"

section \<open>References on the wire\<close>

datatype resource_ref = RefUuid uuid | RefNumeric u64

text \<open>\<open>visit_str\<close>, with the crate \<open>uuid\<close>'s parser as a parameter.\<close>

definition visit_str :: "(string \<Rightarrow> uuid option) \<Rightarrow> string \<Rightarrow> msg + resource_ref" where
  "visit_str parse_uuid s =
     (let s = str_trim s in
      case parse_uuid s of
        Some u \<Rightarrow> Inr (RefUuid u)
      | None \<Rightarrow>
          (case parse_u64_str s of
             Some n \<Rightarrow> Inr (RefNumeric n)
           | None \<Rightarrow> Inl (Format ''resource id {s:?} is neither a UUID nor an unsigned integer'' [AStr s])))"

fun resolve_zone :: "resource_ref \<Rightarrow> index \<Rightarrow> uuid option" where
  "resolve_zone (RefUuid u) ix = map_option (\<lambda>_. u) (ix_zone ix u)"
| "resolve_zone (RefNumeric n) ix = zone_uuid_by_numeric_id ix n"

fun resolve_node :: "resource_ref \<Rightarrow> index \<Rightarrow> uuid option" where
  "resolve_node (RefUuid u) ix = map_option (\<lambda>_. u) (ix_node ix u)"
| "resolve_node (RefNumeric n) ix = node_uuid_by_numeric_id ix n"

fun resolve_edge :: "resource_ref \<Rightarrow> index \<Rightarrow> uuid option" where
  "resolve_edge (RefUuid u) ix = map_option (\<lambda>_. u) (ix_edge ix u)"
| "resolve_edge (RefNumeric n) ix = edge_uuid_by_numeric_id ix n"

section \<open>Structural validation\<close>

record validation_issue =
  vi_severity :: severity
  vi_category :: string
  vi_resource_kind :: string
  vi_resource_id :: "uuid option"
  vi_message :: msg

definition vissue :: "severity \<Rightarrow> string \<Rightarrow> string \<Rightarrow> uuid option \<Rightarrow> msg \<Rightarrow> validation_issue" where
  "vissue s c k i m =
     \<lparr>vi_severity = s, vi_category = c, vi_resource_kind = k, vi_resource_id = i, vi_message = m\<rparr>"

definition reference_issues :: "index \<Rightarrow> validation_issue list" where
  "reference_issues ix =
     (let w = ix_workspace ix in
      (if ws_coord_mode w = Local \<and> ws_datum w = None
       then [vissue Error ''invalid_reference'' ''workspace'' None
               (Lit ''workspace uses local coordinates without a reference origin'')] else [])
      @ (if ws_coord_mode w = Global \<and> ws_datum w \<noteq> None
         then [vissue Warning ''ignored_reference'' ''workspace'' None
                 (Lit ''workspace reference origin is set but coord_mode is global; concord conversions are disabled'')]
         else []))"

definition duplicate_issues :: "index \<Rightarrow> validation_issue list" where
  "duplicate_issues ix =
     map (\<lambda>i. vissue Error ''duplicate_id'' ''zone'' (Some i) (Lit ''multiple zones share the same UUID''))
       (ix_duplicate_zone_ids ix)
     @ map (\<lambda>i. vissue Error ''duplicate_id'' ''node'' (Some i) (Lit ''multiple nodes share the same UUID''))
         (ix_duplicate_node_ids ix)
     @ map (\<lambda>i. vissue Error ''duplicate_id'' ''edge'' (Some i) (Lit ''multiple edges share the same UUID''))
         (ix_duplicate_edge_ids ix)
     @ map (\<lambda>n. vissue Error ''duplicate_numeric_id'' ''zone'' None
                   (Format ''multiple zones share numeric id {n}'' [AU64 n]))
         (ix_duplicate_zone_numeric_ids ix)
     @ map (\<lambda>n. vissue Error ''duplicate_numeric_id'' ''node'' None
                   (Format ''multiple nodes share numeric id {n}'' [AU64 n]))
         (ix_duplicate_node_numeric_ids ix)
     @ map (\<lambda>n. vissue Error ''duplicate_numeric_id'' ''edge'' None
                   (Format ''multiple edges share numeric id {n}'' [AU64 n]))
         (ix_duplicate_edge_numeric_ids ix)"

definition traffic_issue :: "string \<Rightarrow> uuid \<Rightarrow> issue \<Rightarrow> validation_issue" where
  "traffic_issue kind i p =
     vissue (ti_severity p) ''traffic_property'' kind (Some i)
       (Format ''{}: {}'' [AStr (ti_key p), AStr (ti_message p)])"

definition zone_member_issues :: "index \<Rightarrow> uuid \<Rightarrow> uuid \<Rightarrow> validation_issue list" where
  "zone_member_issues ix zid nid =
     (case ix_node ix nid of
        None \<Rightarrow>
          [vissue Error ''broken_membership'' ''zone'' (Some zid)
             (Lit ''zone references node id that is not present in the workspace graph'')]
      | Some node \<Rightarrow>
          if zid \<notin> set (nd_zone_ids node)
          then [vissue Error ''inconsistent_membership'' ''zone'' (Some zid)
                  (Lit ''zone lists node membership but the node does not list the zone'')]
          else [])"

definition zone_issues :: "index \<Rightarrow> uuid \<Rightarrow> validation_issue list" where
  "zone_issues ix zid =
     (case ws_find_zone (ix_workspace ix) zid of
        None \<Rightarrow> []
      | Some z \<Rightarrow>
          (if z_id z = uuid_nil
           then [vissue Error ''missing_id'' ''zone'' None (Lit ''zone is missing a non-null id'')]
           else [])
          @ concat (map (zone_member_issues ix zid) (z_node_ids z))
          @ map (traffic_issue ''zone'' zid) (validate_zone_traffic_properties (z_properties z)))"

definition node_issues :: "index \<Rightarrow> uuid \<times> vid \<Rightarrow> validation_issue list" where
  "node_issues ix nv =
     (case ws_get_vertex (ix_workspace ix) (snd nv) of
        None \<Rightarrow> []
      | Some node \<Rightarrow>
          (if fst nv = uuid_nil
           then [vissue Error ''missing_id'' ''node'' None (Lit ''node is missing a non-null id'')]
           else [])
          @ concat (map (\<lambda>zid.
              if ix_zone ix zid = None
              then [vissue Error ''broken_membership'' ''node'' (Some (fst nv))
                      (Lit ''node references zone id that is not present in the workspace tree'')]
              else []) (nd_zone_ids node)))"

definition endpoint_in_zone :: "workspace \<Rightarrow> vid option \<Rightarrow> uuid \<Rightarrow> bool" where
  "endpoint_in_zone w v zid =
     (case v of
        None \<Rightarrow> False
      | Some v \<Rightarrow>
          (case ws_get_vertex w v of None \<Rightarrow> False | Some n \<Rightarrow> zid \<in> set (nd_zone_ids n)))"

definition edge_member_issues :: "index \<Rightarrow> uuid \<Rightarrow> eid \<Rightarrow> uuid \<Rightarrow> validation_issue list" where
  "edge_member_issues ix u e zid =
     (let w = ix_workspace ix in
      if ix_zone ix zid = None
      then [vissue Error ''broken_membership'' ''edge'' (Some u)
              (Lit ''edge references zone id that is not present in the workspace tree'')]
      else if \<not> endpoint_in_zone w (ws_source w e) zid \<and> \<not> endpoint_in_zone w (ws_target w e) zid
      then [vissue Warning ''inconsistent_membership'' ''edge'' (Some u)
              (Lit ''edge lists a zone that is not present on either endpoint node'')]
      else [])"

definition edge_issues :: "index \<Rightarrow> uuid \<times> eid \<Rightarrow> validation_issue list" where
  "edge_issues ix ue =
     (case ws_edge_property (ix_workspace ix) (snd ue) of
        None \<Rightarrow> []
      | Some edge \<Rightarrow>
          (if fst ue = uuid_nil
           then [vissue Error ''missing_id'' ''edge'' None (Lit ''edge is missing a non-null id'')]
           else [])
          @ concat (map (edge_member_issues ix (fst ue) (snd ue)) (ed_zone_ids edge))
          @ map (traffic_issue ''edge'' (fst ue))
              (validate_edge_traffic_properties (ed_properties edge)))"

text \<open>The three loops run over hash collections: \<open>ho\<close> and \<open>hm\<close> are their orders.\<close>

definition validation_issues ::
  "(uuid list \<Rightarrow> uuid list) \<Rightarrow> ((uuid \<times> nat) list \<Rightarrow> (uuid \<times> nat) list) \<Rightarrow> index
   \<Rightarrow> validation_issue list"
where
  "validation_issues ho hm ix =
     reference_issues ix @ duplicate_issues ix
     @ concat (map (zone_issues ix) (ho (ix_zone_ids ix)))
     @ concat (map (node_issues ix) (hm (ix_nodes ix)))
     @ concat (map (edge_issues ix) (hm (ix_edges ix)))"

definition ix_is_valid ::
  "(uuid list \<Rightarrow> uuid list) \<Rightarrow> ((uuid \<times> nat) list \<Rightarrow> (uuid \<times> nat) list) \<Rightarrow> index \<Rightarrow> bool"
where
  "ix_is_valid ho hm ix = (validation_issues ho hm ix = [])"

definition rebind :: "(uuid list \<Rightarrow> uuid list) \<Rightarrow> index \<Rightarrow> workspace \<Rightarrow> index" where
  "rebind ho ix w = rebuild ho w"

section \<open>What the phases of the build leave alone\<close>

lemma index_node_frame [simp]:
  "ix_workspace (index_node w ix v) = ix_workspace ix"
  "ix_parents (index_node w ix v) = ix_parents ix"
  "ix_children (index_node w ix v) = ix_children ix"
  "ix_zone_ids (index_node w ix v) = ix_zone_ids ix"
  "ix_duplicate_zone_ids (index_node w ix v) = ix_duplicate_zone_ids ix"
  "ix_adjacency (index_node w ix v) = ix_adjacency ix"
  "ix_edges (index_node w ix v) = ix_edges ix"
  "ix_zone_policies (index_node w ix v) = ix_zone_policies ix"
  "ix_zone_ancestors (index_node w ix v) = ix_zone_ancestors ix"
  "ix_edge_semantics (index_node w ix v) = ix_edge_semantics ix"
  by (simp_all add: index_node_def Let_def split: option.split prod.split)

lemma index_edge_frame [simp]:
  "ix_workspace (index_edge w ix v) = ix_workspace ix"
  "ix_parents (index_edge w ix v) = ix_parents ix"
  "ix_children (index_edge w ix v) = ix_children ix"
  "ix_zone_ids (index_edge w ix v) = ix_zone_ids ix"
  "ix_duplicate_zone_ids (index_edge w ix v) = ix_duplicate_zone_ids ix"
  "ix_adjacency (index_edge w ix v) = ix_adjacency ix"
  "ix_nodes (index_edge w ix v) = ix_nodes ix"
  "ix_zone_policies (index_edge w ix v) = ix_zone_policies ix"
  "ix_zone_ancestors (index_edge w ix v) = ix_zone_ancestors ix"
  "ix_edge_semantics (index_edge w ix v) = ix_edge_semantics ix"
  by (simp_all add: index_edge_def Let_def split: option.split prod.split)

lemma push_adjacency_frame [simp]:
  "ix_workspace (push_adjacency w ix v) = ix_workspace ix"
  "ix_parents (push_adjacency w ix v) = ix_parents ix"
  "ix_children (push_adjacency w ix v) = ix_children ix"
  "ix_zone_ids (push_adjacency w ix v) = ix_zone_ids ix"
  "ix_duplicate_zone_ids (push_adjacency w ix v) = ix_duplicate_zone_ids ix"
  "ix_nodes (push_adjacency w ix v) = ix_nodes ix"
  "ix_edges (push_adjacency w ix v) = ix_edges ix"
  "ix_zone_policies (push_adjacency w ix v) = ix_zone_policies ix"
  "ix_zone_ancestors (push_adjacency w ix v) = ix_zone_ancestors ix"
  "ix_edge_semantics (push_adjacency w ix v) = ix_edge_semantics ix"
  by (simp_all add: push_adjacency_def)

lemma index_zone_frame [simp]:
  "ix_workspace (index_zone w ix v) = ix_workspace ix"
  "ix_parents (index_zone w ix v) = ix_parents ix"
  "ix_children (index_zone w ix v) = ix_children ix"
  "ix_zone_ids (index_zone w ix v) = ix_zone_ids ix"
  "ix_duplicate_zone_ids (index_zone w ix v) = ix_duplicate_zone_ids ix"
  "ix_nodes (index_zone w ix v) = ix_nodes ix"
  "ix_edges (index_zone w ix v) = ix_edges ix"
  "ix_adjacency (index_zone w ix v) = ix_adjacency ix"
  "ix_edge_semantics (index_zone w ix v) = ix_edge_semantics ix"
  by (simp_all add: index_zone_def Let_def split: option.split prod.split)

lemma index_semantics_frame [simp]:
  "ix_workspace (index_semantics w ix v) = ix_workspace ix"
  "ix_parents (index_semantics w ix v) = ix_parents ix"
  "ix_children (index_semantics w ix v) = ix_children ix"
  "ix_zone_ids (index_semantics w ix v) = ix_zone_ids ix"
  "ix_duplicate_zone_ids (index_semantics w ix v) = ix_duplicate_zone_ids ix"
  "ix_nodes (index_semantics w ix v) = ix_nodes ix"
  "ix_edges (index_semantics w ix v) = ix_edges ix"
  "ix_adjacency (index_semantics w ix v) = ix_adjacency ix"
  "ix_zone_policies (index_semantics w ix v) = ix_zone_policies ix"
  "ix_zone_ancestors (index_semantics w ix v) = ix_zone_ancestors ix"
  by (simp_all add: index_semantics_def split: option.split)

text \<open>A field that a step leaves alone is left alone by the loop.\<close>

lemma fold_frame: "(\<And>s x. f (step s x) = f s) \<Longrightarrow> f (foldl step s xs) = f s"
  by (induction xs arbitrary: s) simp_all

lemmas index_fold_frame =
  fold_frame [where step = "index_node w" for w]
  fold_frame [where step = "index_edge w" for w]
  fold_frame [where step = "push_adjacency w" for w]
  fold_frame [where step = "index_zone w" for w]
  fold_frame [where step = "index_semantics w" for w]

definition zone_links_of :: "workspace \<Rightarrow> zone_links" where
  "zone_links_of w =
     index_zone_tree [(ws_root_zone w, None)]
       \<lparr>zl_zone_ids = [], zl_parents = [], zl_children = [], zl_duplicates = []\<rparr>"

lemma index_zones_simps [simp]:
  "ix_workspace (index_zones w ix) = ix_workspace ix"
  "ix_parents (index_zones w ix) = zl_parents (zone_links_of w)"
  "ix_children (index_zones w ix) = zl_children (zone_links_of w)"
  "ix_zone_ids (index_zones w ix) = zl_zone_ids (zone_links_of w)"
  "ix_duplicate_zone_ids (index_zones w ix) = zl_duplicates (zone_links_of w)"
  "ix_adjacency (index_zones w ix) = ix_adjacency ix"
  "ix_nodes (index_zones w ix) = ix_nodes ix"
  "ix_edges (index_zones w ix) = ix_edges ix"
  "ix_zone_policies (index_zones w ix) = ix_zone_policies ix"
  "ix_zone_ancestors (index_zones w ix) = ix_zone_ancestors ix"
  "ix_edge_semantics (index_zones w ix) = ix_edge_semantics ix"
  by (simp_all add: index_zones_def zone_links_of_def Let_def del: index_zone_tree.simps)

lemma empty_index_simps [simp]:
  "ix_workspace (empty_index w) = w"
  "ix_adjacency (empty_index w) = []"
  "ix_nodes (empty_index w) = []"
  "ix_edges (empty_index w) = []"
  "ix_zone_policies (empty_index w) = []"
  "ix_zone_ancestors (empty_index w) = []"
  "ix_edge_semantics (empty_index w) = []"
  by (simp_all add: empty_index_def)

lemma rebuild_workspace [simp]: "ix_workspace (rebuild ho w) = w"
  by (simp add: rebuild_def Let_def index_fold_frame [where f = ix_workspace])

lemma rebuild_links [simp]:
  "ix_parents (rebuild ho w) = zl_parents (zone_links_of w)"
  "ix_children (rebuild ho w) = zl_children (zone_links_of w)"
  "ix_zone_ids (rebuild ho w) = zl_zone_ids (zone_links_of w)"
  "ix_duplicate_zone_ids (rebuild ho w) = zl_duplicates (zone_links_of w)"
  by (simp_all add: rebuild_def Let_def index_fold_frame [where f = ix_parents]
      index_fold_frame [where f = ix_children] index_fold_frame [where f = ix_zone_ids]
      index_fold_frame [where f = ix_duplicate_zone_ids])

section \<open>Adjacency\<close>

lemma lookup_fold_push:
  "lookup_list (foldl (\<lambda>m (k, a). push_entry k a m) m xs) k =
     lookup_list m k @ map snd (filter (\<lambda>x. fst x = k) xs)"
  by (induction xs arbitrary: m) (auto simp: lookup_push_entry)

lemma neighbors_fold:
  "lookup_list (ix_adjacency (foldl (push_adjacency w) ix es)) a =
     lookup_list (ix_adjacency ix) a
     @ map snd (filter (\<lambda>x. fst x = a) (concat (map (adjacency_steps w) es)))"
  by (induction es arbitrary: ix) (simp_all add: push_adjacency_def lookup_fold_push)

lemma lookup_list_Nil [simp]: "lookup_list [] k = []"
  by (simp add: lookup_list_def)

lemma neighbors_rebuild:
  "neighbors (rebuild ho w) a =
     map snd (filter (\<lambda>x. fst x = a) (concat (map (adjacency_steps w) (ws_edges w))))"
  by (simp add: neighbors_def rebuild_def Let_def index_fold_frame [where f = ix_adjacency]
      neighbors_fold)

text \<open>
  The neighbours of a node are exactly the traversable steps of the graph's edges, in the order
  of the edges: each edge once out of its source and once out of its target, a self-loop once.
\<close>

theorem adjacency_complete:
  "neighbors (rebuild ho w) a =
     map snd (filter (\<lambda>x. fst x = a) (concat (map (adjacency_steps w) (ws_edges w))))"
  by (rule neighbors_rebuild)

text \<open>The pairs the worklist visits, as the tree gives them.\<close>

fun tree_visits :: "zone \<Rightarrow> uuid option \<Rightarrow> (uuid \<times> uuid option) list" where
  "tree_visits (Zone i n k p ns cs) parent =
     (i, parent) # concat (map (\<lambda>c. tree_visits c (Some i)) cs)"

definition link_pair :: "zone_links \<Rightarrow> uuid \<times> uuid option \<Rightarrow> zone_links" where
  "link_pair l v = link_zone (fst v) (snd v) l"

function visits :: "(zone \<times> uuid option) list \<Rightarrow> (uuid \<times> uuid option) list" where
  "visits [] = []"
| "visits ((z, parent) # pending) =
     (z_id z, parent) # visits (rev (map (\<lambda>c. (c, Some (z_id z))) (z_children z)) @ pending)"
  by pat_completeness auto
termination
  by (relation "measure (\<lambda>pending. sum_list (map (size \<circ> fst) pending))")
    (auto simp: rev_map [symmetric] sum_list_rev o_def size_zone_children)

lemma index_zone_tree_visits: "index_zone_tree pending l = foldl link_pair l (visits pending)"
  by (induction pending l rule: index_zone_tree.induct) (simp_all add: link_pair_def)

lemma tree_visits_unfold:
  "tree_visits z parent = (z_id z, parent) # concat (map (\<lambda>c. tree_visits c (Some (z_id z))) (z_children z))"
  by (cases z) simp

lemma mset_visits:
  "mset (visits pending) = (\<Sum>x \<in># mset pending. mset (tree_visits (fst x) (snd x)))"
proof (induction pending rule: visits.induct)
  case (2 z parent pending)
  have "mset (concat (map (\<lambda>c. tree_visits c (Some (z_id z))) cs)) =
        (\<Sum>c \<in># mset cs. mset (tree_visits c (Some (z_id z))))" for cs
    by (induction cs) simp_all
  with 2 show ?case
    by (simp add: tree_visits_unfold [of z parent] image_mset.compositionality o_def)
qed simp

definition links_of :: "(uuid \<times> uuid option) list \<Rightarrow> (uuid \<times> uuid) list" where
  "links_of vs = List.map_filter (\<lambda>(c, p). map_option (Pair c) p) vs"

lemma link_pair_simps [simp]:
  "set (zl_zone_ids (link_pair l v)) = insert (fst v) (set (zl_zone_ids l))"
  "map_of (zl_parents (link_pair l v)) =
     (case snd v of None \<Rightarrow> map_of (zl_parents l) | Some p \<Rightarrow> (map_of (zl_parents l))(fst v \<mapsto> p))"
  "zl_duplicates (link_pair l v) =
     (if fst v \<in> set (zl_zone_ids l) then push_new (fst v) (zl_duplicates l) else zl_duplicates l)"
  "distinct (zl_zone_ids (link_pair l v)) = distinct (zl_zone_ids l)"
  by (auto simp: link_pair_def link_zone_def Let_def update_conv split: option.split)

lemma push_new_not_Nil [simp]: "push_new x xs \<noteq> []"
  by (cases xs) (simp_all add: push_new_def)

lemma fold_link_ids:
  "set (zl_zone_ids (foldl link_pair l vs)) = set (zl_zone_ids l) \<union> fst ` set vs"
  "distinct (zl_zone_ids (foldl link_pair l vs)) = distinct (zl_zone_ids l)"
  by (induction vs arbitrary: l) simp_all

lemma fold_link_duplicates:
  "zl_duplicates (foldl link_pair l vs) = [] \<longleftrightarrow>
     zl_duplicates l = [] \<and> distinct (map fst vs) \<and> set (zl_zone_ids l) \<inter> fst ` set vs = {}"
  by (induction vs arbitrary: l) auto

lemma fold_link_parents:
  "distinct (map fst vs) \<Longrightarrow>
   map_of (zl_parents (foldl link_pair l vs)) c =
     (case map_of vs c of Some (Some p) \<Rightarrow> Some p | _ \<Rightarrow> map_of (zl_parents l) c)"
proof (induction vs arbitrary: l)
  case (Cons v vs)
  then show ?case
    by (cases v) (auto split: option.splits dest: map_of_SomeD simp: rev_image_eqI)
qed simp

lemma fst_tree_visits: "map fst (tree_visits z p) = map z_id (zone_tree z)"
  by (induction z p rule: tree_visits.induct) (simp add: map_concat o_def cong: map_cong)

abbreviation tree_ids :: "workspace \<Rightarrow> uuid list" where
  "tree_ids w \<equiv> map z_id (zone_tree (ws_root_zone w))"

definition root_visits :: "workspace \<Rightarrow> (uuid \<times> uuid option) list" where
  "root_visits w = visits [(ws_root_zone w, None)]"

lemma mset_root_visits: "mset (root_visits w) = mset (tree_visits (ws_root_zone w) None)"
  by (simp add: root_visits_def mset_visits del: visits.simps)

lemma zone_links_visits:
  "zone_links_of w = foldl link_pair
       \<lparr>zl_zone_ids = [], zl_parents = [], zl_children = [], zl_duplicates = []\<rparr> (root_visits w)"
  by (simp only: zone_links_of_def root_visits_def index_zone_tree_visits)

lemma root_visits_ids: "mset (map fst (root_visits w)) = mset (tree_ids w)"
  by (metis fst_tree_visits mset_map mset_root_visits)

lemma zone_ids_tree [simp]: "set (ix_zone_ids (rebuild ho w)) = set (tree_ids w)"
  using root_visits_ids [of w, THEN mset_eq_setD]
  by (simp add: zone_links_visits fold_link_ids)

text \<open>The index records a duplicate zone id exactly when two zones of the tree share one.\<close>

theorem duplicates_iff:
  "(ix_duplicate_zone_ids (rebuild ho w) = []) = distinct (tree_ids w)"
  using root_visits_ids [of w]
  by (simp add: zone_links_visits fold_link_duplicates del: mset_map) (metis mset_eq_imp_distinct_iff)

definition parent_rel :: "(uuid \<times> uuid) list \<Rightarrow> (uuid \<times> uuid) set" where
  "parent_rel ps = {(c, p). map_of ps c = Some p}"

lemma parent_rel_iff [simp]: "(c, p) \<in> parent_rel ps \<longleftrightarrow> map_of ps c = Some p"
  by (simp add: parent_rel_def)

text \<open>The guarded walk collects every proper ancestor, on any links.\<close>

lemma ancestor_walk_sound:
  "\<lbrakk> \<forall>a \<in> set acc. (z, a) \<in> (parent_rel ps)\<^sup>+; \<forall>p. cur = Some p \<longrightarrow> (z, p) \<in> (parent_rel ps)\<^sup>+;
     a \<in> set (ancestor_walk ps cur acc) \<rbrakk> \<Longrightarrow> (z, a) \<in> (parent_rel ps)\<^sup>+"
proof (induction ps cur acc rule: ancestor_walk.induct)
  case (2 ps p acc)
  show ?case
  proof (cases "p \<in> set acc")
    case False
    have "\<forall>q. map_of ps p = Some q \<longrightarrow> (z, q) \<in> (parent_rel ps)\<^sup>+"
      using 2(3) by (auto intro: trancl_into_trancl)
    with False 2 show ?thesis by auto
  qed (use 2 in auto)
qed simp

definition walk_closed :: "(uuid \<times> uuid) list \<Rightarrow> uuid option \<Rightarrow> uuid set \<Rightarrow> bool" where
  "walk_closed ps cur S =
     (\<forall>x \<in> S. \<forall>p. map_of ps x = Some p \<longrightarrow> p \<in> S \<or> cur = Some p)"

lemma ancestor_walk_closed:
  "walk_closed ps cur (set acc) \<Longrightarrow>
   walk_closed ps None (set (ancestor_walk ps cur acc))
   \<and> set acc \<subseteq> set (ancestor_walk ps cur acc)
   \<and> (\<forall>p. cur = Some p \<longrightarrow> p \<in> set (ancestor_walk ps cur acc))"
proof (induction ps cur acc rule: ancestor_walk.induct)
  case (2 ps p acc)
  show ?case
  proof (cases "p \<in> set acc")
    case False
    have "walk_closed ps (map_of ps p) (set (acc @ [p]))"
      using 2(2) by (auto simp: walk_closed_def)
    with 2(1) [OF False] False show ?thesis by auto
  qed (use 2(2) in \<open>auto simp: walk_closed_def\<close>)
qed simp

lemma set_ancestor_walk:
  "set (ancestor_walk ps (map_of ps z) []) = {a. (z, a) \<in> (parent_rel ps)\<^sup>+}"
proof (intro set_eqI iffI)
  fix a assume "a \<in> set (ancestor_walk ps (map_of ps z) [])"
  then have "(z, a) \<in> (parent_rel ps)\<^sup>+"
    by (rule ancestor_walk_sound [rotated 2]) auto
  then show "a \<in> {a. (z, a) \<in> (parent_rel ps)\<^sup>+}" by simp
next
  fix a assume "a \<in> {a. (z, a) \<in> (parent_rel ps)\<^sup>+}"
  then have "(z, a) \<in> (parent_rel ps)\<^sup>+" by simp
  moreover have c: "walk_closed ps None (set (ancestor_walk ps (map_of ps z) []))"
      "\<And>p. map_of ps z = Some p \<Longrightarrow> p \<in> set (ancestor_walk ps (map_of ps z) [])"
    using ancestor_walk_closed [of ps "map_of ps z" "[]"] by (auto simp: walk_closed_def)
  ultimately show "a \<in> set (ancestor_walk ps (map_of ps z) [])"
    by (induction rule: trancl_induct) (auto simp: walk_closed_def)
qed

text \<open>The unguarded walk returns exactly when no cycle lies above the zone, with the same zones.\<close>

lemma ancestor_loop_ends:
  assumes "\<And>a. \<lbrakk> cur = Some a \<or> (\<exists>c. cur = Some c \<and> (c, a) \<in> (parent_rel (ix_parents ix))\<^sup>+) \<rbrakk>
             \<Longrightarrow> (a, a) \<notin> (parent_rel (ix_parents ix))\<^sup>+"
    and "\<forall>a \<in> set acc. \<forall>p. cur = Some p \<longrightarrow> (a, p) \<in> (parent_rel (ix_parents ix))\<^sup>+"
  shows "\<exists>l. ancestor_walk (ix_parents ix) cur acc = acc @ l
           \<and> ancestor_loop ix cur out = Some (out @ List.map_filter (ws_find_zone (ix_workspace ix)) l)"
  using assms
proof (induction "ix_parents ix" cur acc arbitrary: out rule: ancestor_walk.induct)
  case (1 acc)
  show ?case by (simp add: ancestor_loop.simps map_filter_simps)
next
  case (2 p acc)
  let ?R = "parent_rel (ix_parents ix)" and ?f = "ws_find_zone (ix_workspace ix)"
  have p: "(p, p) \<notin> ?R\<^sup>+" using 2(2) by blast
  with 2(3) have new: "p \<notin> set acc" by auto
  have "\<exists>l. ancestor_walk (ix_parents ix) (map_of (ix_parents ix) p) (acc @ [p]) = (acc @ [p]) @ l
           \<and> ancestor_loop ix (map_of (ix_parents ix) p) out' = Some (out' @ List.map_filter ?f l)" for out'
  proof (rule 2(1) [OF new])
    fix a
    assume "map_of (ix_parents ix) p = Some a
            \<or> (\<exists>c. map_of (ix_parents ix) p = Some c \<and> (c, a) \<in> ?R\<^sup>+)"
    then have "(p, a) \<in> ?R\<^sup>+"
      by (auto intro: trancl_into_trancl2)
    then show "(a, a) \<notin> ?R\<^sup>+" using 2(2) by blast
  next
    show "\<forall>a \<in> set (acc @ [p]). \<forall>q. map_of (ix_parents ix) p = Some q \<longrightarrow> (a, q) \<in> ?R\<^sup>+"
      using 2(3) by (auto intro: trancl_into_trancl)
  qed
  then obtain l where l: "ancestor_walk (ix_parents ix) (map_of (ix_parents ix) p) (acc @ [p]) = (acc @ [p]) @ l"
    "ancestor_loop ix (map_of (ix_parents ix) p) (case ?f p of None \<Rightarrow> out | Some z \<Rightarrow> out @ [z])
     = Some ((case ?f p of None \<Rightarrow> out | Some z \<Rightarrow> out @ [z]) @ List.map_filter ?f l)"
    by metis
  show ?case
    using l new
    by (intro exI [of _ "p # l"])
      (auto simp: ancestor_loop.simps [of ix "Some p"] map_filter_simps split: option.split)
qed

lemma ancestor_loop_cycle:
  "ancestor_loop ix cur out = Some r \<Longrightarrow> cur = Some p \<Longrightarrow> (p, p) \<notin> (parent_rel (ix_parents ix))\<^sup>+"
proof (induction arbitrary: p rule: ancestor_loop.raw_induct [rotated, consumes 1, case_names step])
  case (step loop ix cur out r p)
  show ?case
  proof
    let ?R = "parent_rel (ix_parents ix)"
    assume "(p, p) \<in> ?R\<^sup>+"
    then obtain q where q: "(p, q) \<in> ?R" "(q, p) \<in> ?R\<^sup>*"
      by (blast dest: tranclD)
    then have "(q, q) \<in> ?R\<^sup>+"
      by (rule rtrancl_into_trancl1 [rotated]) 
    moreover have "loop ix (Some q) (case ws_find_zone (ix_workspace ix) p of None \<Rightarrow> out | Some z \<Rightarrow> out @ [z]) = Some r"
      using step(2,3) q(1) by simp
    ultimately show False using step(1) by blast
  qed
qed

lemma ancestor_zones_cases:
  "ancestor_zones ix z =
     (if \<exists>a. (z, a) \<in> (parent_rel (ix_parents ix))\<^sup>+ \<and> (a, a) \<in> (parent_rel (ix_parents ix))\<^sup>+
      then None
      else Some (List.map_filter (ws_find_zone (ix_workspace ix))
                   (ancestor_walk (ix_parents ix) (map_of (ix_parents ix) z) [])))"
proof (cases "\<exists>a. (z, a) \<in> (parent_rel (ix_parents ix))\<^sup>+ \<and> (a, a) \<in> (parent_rel (ix_parents ix))\<^sup>+")
  case False
  have "\<exists>l. ancestor_walk (ix_parents ix) (map_of (ix_parents ix) z) [] = [] @ l
          \<and> ancestor_loop ix (map_of (ix_parents ix) z) [] =
              Some ([] @ List.map_filter (ws_find_zone (ix_workspace ix)) l)"
    using False
    by (intro ancestor_loop_ends) (fastforce intro: r_into_trancl trancl_into_trancl2)+
  with False show ?thesis by (auto simp: ancestor_zones_def)
next
  case True
  let ?R = "parent_rel (ix_parents ix)"
  from True obtain a where a: "(z, a) \<in> ?R\<^sup>+" "(a, a) \<in> ?R\<^sup>+" by blast
  have "ancestor_zones ix z \<noteq> Some r" for r
  proof
    assume r: "ancestor_zones ix z = Some r"
    have "\<exists>out. ancestor_loop ix (Some b) out = Some r" if "(z, b) \<in> ?R\<^sup>+" for b
      using that
    proof (induction rule: trancl_induct)
      case (base b)
      with r show ?case by (auto simp: ancestor_zones_def)
    next
      case (step b c)
      then show ?case by (auto simp: ancestor_loop.simps [of ix "Some b"])
    qed
    with a ancestor_loop_cycle show False by blast
  qed
  with True show ?thesis by auto
qed

text \<open>
  \<open>ancestor_zones\<close> returns exactly when no zone above the given one lies on a cycle of the parent
  links (it has no guard of its own), and then it returns the zones of the guarded walk, nearest first.
\<close>

theorem ancestor_zones_returns:
  "ancestor_zones ix z =
     (if \<exists>a. (z, a) \<in> (parent_rel (ix_parents ix))\<^sup>+ \<and> (a, a) \<in> (parent_rel (ix_parents ix))\<^sup>+
      then None
      else Some (List.map_filter (ws_find_zone (ix_workspace ix))
                   (ancestor_walk (ix_parents ix) (map_of (ix_parents ix) z) [])))"
  by (rule ancestor_zones_cases)

section \<open>Containment\<close>

lemma index_zone_ancestors:
  "map_of (ix_zone_ancestors (foldl (index_zone w) ix zs)) z =
     (if z \<in> set zs \<and> ws_find_zone w z \<noteq> None
      then Some (ancestor_walk (ix_parents ix) (map_of (ix_parents ix) z) [])
      else map_of (ix_zone_ancestors ix) z)"
proof (induction zs arbitrary: ix)
  case (Cons a zs)
  have "map_of (ix_zone_ancestors (index_zone w ix a)) z =
     (if z = a \<and> ws_find_zone w a \<noteq> None
      then Some (ancestor_walk (ix_parents ix) (map_of (ix_parents ix) a) [])
      else map_of (ix_zone_ancestors ix) z)"
    by (simp add: index_zone_def Let_def map_of_update split: option.split prod.split)
  with Cons show ?case by auto
qed simp

definition hash_order :: "(uuid list \<Rightarrow> uuid list) \<Rightarrow> bool" where
  "hash_order ho = (\<forall>xs. mset (ho xs) = mset xs)"

lemma hash_order_set: "hash_order ho \<Longrightarrow> set (ho xs) = set xs"
  by (metis hash_order_def mset_eq_setD)

lemma rebuild_zone_ancestors:
  "hash_order ho \<Longrightarrow> map_of (ix_zone_ancestors (rebuild ho w)) z =
     (if z \<in> set (tree_ids w) \<and> ws_find_zone w z \<noteq> None
      then Some (ancestor_walk (zl_parents (zone_links_of w)) (map_of (zl_parents (zone_links_of w)) z) [])
      else None)"
  using zone_ids_tree [of ho w]
  by (simp add: rebuild_def Let_def index_fold_frame [where f = ix_zone_ancestors]
     index_zone_ancestors hash_order_set index_fold_frame [where f = ix_parents]
      index_fold_frame [where f = ix_zone_ids])

lemma zone_contains_iff_chain:
  assumes "hash_order ho" "find_zone_ok w" "z \<in> set (tree_ids w)"
  shows "zone_contains (rebuild ho w) a z \<longleftrightarrow>
           (z, a) \<in> (parent_rel (ix_parents (rebuild ho w)))\<^sup>*"
proof -
  have "ws_find_zone w z \<noteq> None"
    using assms(2,3) by (auto simp: find_zone_ok_def)
  with assms show ?thesis
    by (auto simp: zone_contains_def rebuild_zone_ancestors set_ancestor_walk
        rtrancl_eq_or_trancl)
qed

section \<open>The parent links of a tree with distinct ids\<close>

lemma zone_tree_refl [simp]: "z \<in> set (zone_tree z)"
  by (cases z) simp

lemma zone_tree_unfold: "zone_tree z = z # concat (map zone_tree (z_children z))"
  by (cases z) simp

lemma zone_tree_child: "c \<in> set (z_children z) \<Longrightarrow> c \<in> set (zone_tree z)"
  by (simp add: zone_tree_unfold [of z]) (blast intro: zone_tree_refl)

lemma zone_tree_trans: "y \<in> set (zone_tree z) \<Longrightarrow> x \<in> set (zone_tree y) \<Longrightarrow> x \<in> set (zone_tree z)"
  by (induction z rule: zone_tree.induct) auto

lemma tree_visits_link:
  "\<lbrakk> zp \<in> set (zone_tree z); c \<in> set (z_children zp) \<rbrakk> \<Longrightarrow> (z_id c, Some (z_id zp)) \<in> set (tree_visits z q)"
proof (induction z q rule: tree_visits.induct)
  case (1 i n k p ns cs parent)
  have "(z_id c, Some i) \<in> set (tree_visits c (Some i))"
    by (cases c) simp
  with 1 show ?case by auto
qed

lemma tree_visits_linkD:
  "(c, Some p) \<in> set (tree_visits z q) \<Longrightarrow>
   (c = z_id z \<and> q = Some p) \<or> (\<exists>zp \<in> set (zone_tree z). z_id zp = p \<and> c \<in> z_id ` set (z_children zp))"
proof (induction z q rule: tree_visits.induct)
  case (1 i n k ps ns cs parent)
  show ?case
  proof (cases "(c, Some p) = (i, parent)")
    case False
    with 1(2) obtain x where x: "x \<in> set cs" "(c, Some p) \<in> set (tree_visits x (Some i))"
      by auto
    with 1(1) [OF x] show ?thesis by force
  qed simp
qed

lemma root_visits_set: "set (root_visits w) = set (tree_visits (ws_root_zone w) None)"
  using mset_root_visits by (rule mset_eq_setD)

lemma tree_parent_iff:
  assumes "distinct (tree_ids w)"
  shows "map_of (zl_parents (zone_links_of w)) c = Some p \<longleftrightarrow>
    (\<exists>zp \<in> set (zone_tree (ws_root_zone w)). z_id zp = p \<and> c \<in> z_id ` set (z_children zp))"
proof -
  have d: "distinct (map fst (root_visits w))"
    using assms root_visits_ids [of w] by (metis mset_eq_imp_distinct_iff)
  have "map_of (zl_parents (zone_links_of w)) c = Some p \<longleftrightarrow> map_of (root_visits w) c = Some (Some p)"
    unfolding zone_links_visits fold_link_parents [OF d]
    by (cases "map_of (root_visits w) c") (simp_all split: option.split)
  also have "\<dots> \<longleftrightarrow> (c, Some p) \<in> set (root_visits w)"
    by (rule map_of_eq_Some_iff [OF d])
  also have "\<dots> \<longleftrightarrow> (\<exists>zp \<in> set (zone_tree (ws_root_zone w)). z_id zp = p \<and> c \<in> z_id ` set (z_children zp))"
    by (auto simp: root_visits_set dest: tree_visits_linkD intro: tree_visits_link)
  finally show ?thesis .
qed

lemma tree_id_inj:
  "\<lbrakk> distinct (tree_ids w); x \<in> set (zone_tree (ws_root_zone w)); y \<in> set (zone_tree (ws_root_zone w));
     z_id x = z_id y \<rbrakk> \<Longrightarrow> x = y"
  by (auto simp: distinct_map dest: inj_onD)

lemma size_child: "c \<in> set (z_children z) \<Longrightarrow> size c < size z"
  using size_zone_children [of z] member_le_sum_list [of "size c" "map size (z_children z)"] by simp

text \<open>Going up the links the zones grow, so no zone is above itself.\<close>

lemma tree_parent_grows:
  assumes "distinct (tree_ids w)" "(c, p) \<in> (parent_rel (zl_parents (zone_links_of w)))\<^sup>+"
  shows "\<exists>zc zp. zc \<in> set (zone_tree (ws_root_zone w)) \<and> zp \<in> set (zone_tree (ws_root_zone w))
           \<and> z_id zc = c \<and> z_id zp = p \<and> size zc < size zp"
  using assms(2)
proof (induction rule: trancl_induct)
  case (base p)
  then show ?case
    using assms(1) by (auto simp: tree_parent_iff dest: size_child zone_tree_child intro: zone_tree_trans)
next
  case (step p q)
  then obtain zp zq where z: "zp \<in> set (zone_tree (ws_root_zone w))" "zq \<in> set (zone_tree (ws_root_zone w))"
      "z_id zp = p" "z_id zq = q" "size zp < size zq"
    using assms(1) by (auto simp: tree_parent_iff dest: size_child zone_tree_child intro: zone_tree_trans)
  from step.IH z(1,3) obtain zc where "zc \<in> set (zone_tree (ws_root_zone w))" "z_id zc = c" "size zc < size zp"
    using tree_id_inj [OF assms(1)] by blast
  with z show ?case using less_trans by blast
qed

lemma tree_parent_acyclic:
  "distinct (tree_ids w) \<Longrightarrow> (a, a) \<notin> (parent_rel (zl_parents (zone_links_of w)))\<^sup>+"
  using tree_parent_grows [of w a a] tree_id_inj [of w] by fastforce

definition in_subtree :: "workspace \<Rightarrow> uuid \<Rightarrow> uuid \<Rightarrow> bool" where
  "in_subtree w a z =
     list_ex (\<lambda>za. z_id za = a \<and> z \<in> set (map z_id (zone_tree za))) (zone_tree (ws_root_zone w))"

lemma subtree_chain:
  assumes "distinct (tree_ids w)" "za \<in> set (zone_tree (ws_root_zone w))" "zz \<in> set (zone_tree za)"
  shows "(z_id zz, z_id za) \<in> (parent_rel (zl_parents (zone_links_of w)))\<^sup>*"
  using assms(2,3)
proof (induction za rule: zone_tree.induct)
  case (1 i n k p ns cs)
  show ?case
  proof (cases "zz = Zone i n k p ns cs")
    case False
    with 1(3) obtain c where c: "c \<in> set cs" "zz \<in> set (zone_tree c)" by auto
    then have "(z_id zz, z_id c) \<in> (parent_rel (zl_parents (zone_links_of w)))\<^sup>*"
      using zone_tree_trans [OF 1(2), of c] zone_tree_child [of c "Zone i n k p ns cs"]
      by (intro 1(1)) auto
    moreover have "(z_id c, i) \<in> parent_rel (zl_parents (zone_links_of w))"
      using 1(2) c(1) by (force simp: tree_parent_iff [OF assms(1)])
    ultimately have "(z_id zz, i) \<in> (parent_rel (zl_parents (zone_links_of w)))\<^sup>*"
      by (rule rtrancl_into_rtrancl)
    then show ?thesis by simp
  qed simp
qed

lemma chain_subtree:
  assumes "distinct (tree_ids w)" "zz \<in> set (zone_tree (ws_root_zone w))"
    and "(z_id zz, a) \<in> (parent_rel (zl_parents (zone_links_of w)))\<^sup>*"
  shows "\<exists>za \<in> set (zone_tree (ws_root_zone w)). z_id za = a \<and> zz \<in> set (zone_tree za)"
  using assms(3)
proof (induction rule: rtrancl_induct)
  case base
  with assms(2) show ?case by auto
next
  case (step b a)
  then obtain zb where zb: "zb \<in> set (zone_tree (ws_root_zone w))" "z_id zb = b" "zz \<in> set (zone_tree zb)"
    by blast
  from step(2) obtain zp c where zp: "zp \<in> set (zone_tree (ws_root_zone w))" "z_id zp = a"
      "c \<in> set (z_children zp)" "z_id c = b"
    using assms(1) by (auto simp: tree_parent_iff)
  then have "c \<in> set (zone_tree (ws_root_zone w))"
    by (blast intro: zone_tree_trans zone_tree_child)
  with zb zp have "c = zb" using tree_id_inj [OF assms(1)] by blast
  with zp zb show ?case by (blast intro: zone_tree_trans zone_tree_child)
qed

text \<open>
  C33: on a workspace without duplicate zone ids, \<open>zone_contains a z\<close> holds exactly when the zone \<open>z\<close>
  lies in the subtree of the zone \<open>a\<close>, whatever the order in which the hash sets are walked.
\<close>

theorem zone_contains_subtree:
  assumes "hash_order ho" "find_zone_ok w" "distinct (tree_ids w)" "z \<in> set (tree_ids w)"
  shows "zone_contains (rebuild ho w) a z = in_subtree w a z"
proof -
  from assms(4) obtain zz where zz: "zz \<in> set (zone_tree (ws_root_zone w))" "z = z_id zz" by auto
  have "zone_contains (rebuild ho w) a z \<longleftrightarrow> (z, a) \<in> (parent_rel (zl_parents (zone_links_of w)))\<^sup>*"
    using zone_contains_iff_chain [OF assms(1,2,4)] by simp
  also have "\<dots> \<longleftrightarrow> in_subtree w a z"
  proof
    assume "(z, a) \<in> (parent_rel (zl_parents (zone_links_of w)))\<^sup>*"
    with chain_subtree [OF assms(3) zz(1)] zz(2) show "in_subtree w a z"
      by (force simp: in_subtree_def list_ex_iff)
  next
    assume "in_subtree w a z"
    then show "(z, a) \<in> (parent_rel (zl_parents (zone_links_of w)))\<^sup>*"
      using subtree_chain [OF assms(3)] by (auto simp: in_subtree_def list_ex_iff)
  qed
  finally show ?thesis .
qed

lemma ancestor_zones_total:
  "distinct (tree_ids w) \<Longrightarrow> 
   ancestor_zones (rebuild ho w) z = Some (List.map_filter (ws_find_zone w)
      (ancestor_walk (ix_parents (rebuild ho w)) (map_of (ix_parents (rebuild ho w)) z) []))"
  using tree_parent_acyclic [of w] by (simp add: ancestor_zones_cases)

section \<open>The cached semantics of the edges\<close>

lemma semantics_fold:
  "distinct (map fst es) \<Longrightarrow>
     map_of (ix_edge_semantics (foldl (index_semantics w) ix es)) i =
       (case map_of es i of
          None \<Rightarrow> map_of (ix_edge_semantics ix) i
        | Some e \<Rightarrow>
            (case ws_edge_property w e of
               None \<Rightarrow> map_of (ix_edge_semantics ix) i
             | Some p \<Rightarrow> Some (parse_edge_traffic_semantics (ed_properties p) False)))"
proof (induction es arbitrary: ix)
  case (Cons ue es)
  have step: "map_of (ix_edge_semantics (index_semantics w ix ue)) i =
      (if i = fst ue
       then (case ws_edge_property w (snd ue) of
               None \<Rightarrow> map_of (ix_edge_semantics ix) i
             | Some p \<Rightarrow> Some (parse_edge_traffic_semantics (ed_properties p) False))
       else map_of (ix_edge_semantics ix) i)"
    by (simp add: index_semantics_def map_of_update split: option.split)
  show ?case
  proof (cases "i = fst ue")
    case True
    with Cons.prems have "map_of es i = None" by (auto simp: map_of_eq_None_iff)
    with Cons step True show ?thesis by (cases ue) simp
  next
    case False
    with Cons step show ?thesis by (cases ue) (simp split: option.split)
  qed
qed simp

lemma index_edges_distinct:
  "distinct (map fst (ix_edges ix)) \<Longrightarrow> distinct (map fst (ix_edges (foldl (index_edge w) ix es)))"
proof (induction es arbitrary: ix)
  case (Cons e es)
  have "distinct (map fst (ix_edges (index_edge w ix e)))"
    using Cons.prems
    by (simp add: index_edge_def Let_def distinct_update split: option.split prod.split)
  with Cons.IH show ?case by simp
qed simp

lemma edge_traffic_rebuild:
  "ix_edge_traffic (rebuild ho w) i =
     map_option (\<lambda>p. parse_edge_traffic_semantics (ed_properties p) False) (ix_edge (rebuild ho w) i)"
proof -
  define jx where "jx = foldl (index_zone w) (foldl (push_adjacency w) (foldl (index_edge w)
    (foldl (index_node w) (index_zones w (empty_index w)) (ws_vertices w)) (ws_edges w)) (ws_edges w))
    (ho (zl_zone_ids (zone_links_of w)))"
  have r: "rebuild ho w = foldl (index_semantics w) jx (ix_edges jx)"
    using rebuild_links(3) [of ho w]
    by (simp add: rebuild_def Let_def jx_def index_fold_frame [where f = ix_zone_ids])
  have "distinct (map fst (ix_edges (foldl (index_node w) (index_zones w (empty_index w)) (ws_vertices w))))"
    by (simp add: index_fold_frame [where f = ix_edges] index_zones_def empty_index_def Let_def)
  then have d: "distinct (map fst (ix_edges jx))"
    by (simp add: jx_def index_fold_frame [where f = ix_edges] index_edges_distinct)
  have jx: "ix_edge_semantics jx = []" "ix_edges (rebuild ho w) = ix_edges jx"
    by (simp_all add: r jx_def index_fold_frame [where f = ix_edge_semantics]
        index_fold_frame [where f = ix_edges] index_zones_def empty_index_def Let_def)
  then have "ix_edge (rebuild ho w) i =
      (case map_of (ix_edges jx) i of None \<Rightarrow> None | Some e \<Rightarrow> ws_edge_property w e)"
    by (simp add: ix_edge_def split: option.split)
  then show ?thesis
    by (simp only: ix_edge_traffic_def r semantics_fold [OF d] jx(1)) (simp split: option.split)
qed

end
