(* ===== verification/Claim.thy ===== *)
theory Claim
  imports Index
begin

text \<open>
  \<open>claim/mod.rs\<close> and the free functions of \<open>claim/manager.rs\<close>: claims, leases, their windows and
  targets, and the questions about pairs of them that the manager asks of the index. The id types
  of \<open>core/ids.rs\<close> are transparent wrappers of \<open>u64\<close>.
\<close>

section \<open>Data\<close>

type_synonym robot_id = u64
type_synonym claim_id = u64
type_synonym lease_id = u64
type_synonym mission_id = u64

datatype target_kind = TZone | TNode | TEdge

datatype access_mode = Shared | Exclusive

datatype decision = Grant | Deny

datatype disposition = LeaseActive | Released | Expired | Revoked

record claim_window =
  cw_start_tick :: "u64 option"
  cw_end_tick :: "u64 option"

definition window_default :: claim_window where
  "window_default = \<lparr>cw_start_tick = None, cw_end_tick = None\<rparr>"

record claim_target =
  ct_kind :: target_kind
  ct_resource_id :: uuid

record claim_request =
  cr_id :: claim_id
  cr_robot_id :: robot_id
  cr_mission_id :: mission_id
  cr_access_mode :: access_mode
  cr_priority :: "32 word"
  cr_requested_at_tick :: "u64 option"
  cr_window :: claim_window
  cr_targets :: "claim_target list"

definition request_default :: claim_request where
  "request_default =
     \<lparr>cr_id = 0, cr_robot_id = 0, cr_mission_id = 0, cr_access_mode = Exclusive, cr_priority = 0,
      cr_requested_at_tick = None, cr_window = window_default, cr_targets = []\<rparr>"

record lease =
  le_id :: lease_id
  le_claim_id :: claim_id
  le_robot_id :: robot_id
  le_access_mode :: access_mode
  le_targets :: "claim_target list"
  le_granted_at_tick :: "u64 option"
  le_expires_at_tick :: "u64 option"
  le_refreshed_at_tick :: "u64 option"
  le_released_at_tick :: "u64 option"
  le_revoked_at_tick :: "u64 option"
  le_revoke_reason :: "string option"
  le_disposition :: disposition
  le_active :: bool

definition lease_default :: lease where
  "lease_default =
     \<lparr>le_id = 0, le_claim_id = 0, le_robot_id = 0, le_access_mode = Exclusive, le_targets = [],
      le_granted_at_tick = None, le_expires_at_tick = None, le_refreshed_at_tick = None,
      le_released_at_tick = None, le_revoked_at_tick = None, le_revoke_reason = None,
      le_disposition = LeaseActive, le_active = True\<rparr>"

record evaluation =
  ev_decision :: decision
  ev_reason :: msg
  ev_conflicting_claim_id :: "claim_id option"
  ev_conflicting_lease_id :: "lease_id option"
  ev_conflicting_targets :: "claim_target list"
  ev_blocking_target :: "claim_target option"
  ev_diagnostics :: "msg list"
  ev_denied_by_capacity :: bool

section \<open>Windows and targets\<close>

definition claim_windows_overlap :: "claim_window \<Rightarrow> claim_window \<Rightarrow> bool" where
  "claim_windows_overlap lhs rhs =
     (let lhs_start = unwrap_or (cw_start_tick lhs) 0; rhs_start = unwrap_or (cw_start_tick rhs) 0;
          lhs_end = unwrap_or (cw_end_tick lhs) u64_max; rhs_end = unwrap_or (cw_end_tick rhs) u64_max
      in lhs_start \<le> rhs_end \<and> rhs_start \<le> lhs_end)"

definition lease_window :: "lease \<Rightarrow> claim_window" where
  "lease_window l = \<lparr>cw_start_tick = le_granted_at_tick l, cw_end_tick = le_expires_at_tick l\<rparr>"

definition lease_as_request_view :: "lease \<Rightarrow> claim_request" where
  "lease_as_request_view l =
     request_default\<lparr>cr_access_mode := le_access_mode l,
       cr_window := window_default\<lparr>cw_end_tick := le_expires_at_tick l\<rparr>,
       cr_targets := le_targets l\<rparr>"

definition same_target_set :: "claim_target list \<Rightarrow> claim_target list \<Rightarrow> bool" where
  "same_target_set lhs rhs =
     (list_all (\<lambda>t. t \<in> set rhs) lhs \<and> list_all (\<lambda>t. t \<in> set lhs) rhs)"

definition names_target :: "claim_target list \<Rightarrow> claim_target \<Rightarrow> bool" where
  \<comment> \<open>\<open>request_contains_target\<close> and \<open>lease_contains_target\<close>\<close>
  "names_target ts t =
     list_ex (\<lambda>x. ct_kind x = ct_kind t \<and> ct_resource_id x = ct_resource_id t) ts"

definition target_kind_compatible :: "claim_request \<Rightarrow> claim_request \<Rightarrow> target_kind \<Rightarrow> bool" where
  "target_kind_compatible lhs rhs kind =
     list_all (\<lambda>lt. ct_kind lt = kind \<longrightarrow>
       list_all (\<lambda>rt. ct_kind rt = kind \<and> ct_resource_id lt = ct_resource_id rt \<longrightarrow>
         \<not> (cr_access_mode lhs = Exclusive \<or> cr_access_mode rhs = Exclusive)) (cr_targets rhs))
       (cr_targets lhs)"

definition claims_compatible :: "claim_request \<Rightarrow> claim_request \<Rightarrow> bool" where
  "claims_compatible lhs rhs =
     (target_kind_compatible lhs rhs TZone \<and> target_kind_compatible lhs rhs TNode
      \<and> target_kind_compatible lhs rhs TEdge)"

definition conflicting_targets :: "claim_request \<Rightarrow> claim_request \<Rightarrow> claim_target list" where
  "conflicting_targets lhs rhs =
     concat (map (\<lambda>lt. concat (map (\<lambda>rt.
       if ct_kind lt = ct_kind rt \<and> ct_resource_id lt = ct_resource_id rt then [lt] else [])
       (cr_targets rhs))) (cr_targets lhs))"

fun target_kind_name :: "target_kind \<Rightarrow> string" where
  "target_kind_name TZone = ''zone''"
| "target_kind_name TNode = ''node''"
| "target_kind_name TEdge = ''edge''"

definition describe_conflict_reason :: "string \<Rightarrow> claim_target list \<Rightarrow> msg" where
  "describe_conflict_reason source conflicts =
     (case conflicts of
        [] \<Rightarrow> Format ''conflicts with {source}'' [AStr source]
      | t # _ \<Rightarrow> Format ''conflicts with {source} on {} target''
                  [AStr source, AStr (target_kind_name (ct_kind t))])"

section \<open>Questions to the index\<close>

text \<open>The zones directly containing a resource that is not a zone.\<close>

fun resource_zones :: "index \<Rightarrow> target_kind \<Rightarrow> uuid \<Rightarrow> zone list" where
  "resource_zones ix TNode r = zones_of_node ix r"
| "resource_zones ix TEdge r = zones_of_edge ix r"
| "resource_zones ix TZone r = []"

definition resource_in_zone :: "index \<Rightarrow> target_kind \<Rightarrow> uuid \<Rightarrow> uuid \<Rightarrow> bool" where
  "resource_in_zone ix kind r zid =
     list_ex (\<lambda>z. zone_contains ix zid (z_id z)) (resource_zones ix kind r)"

definition zones_overlap :: "index \<Rightarrow> uuid \<Rightarrow> uuid \<Rightarrow> bool" where
  "zones_overlap ix lhs rhs = (zone_contains ix rhs lhs \<or> zone_contains ix lhs rhs)"

definition targets_occupy_zone :: "index \<Rightarrow> claim_target list \<Rightarrow> uuid \<Rightarrow> bool" where
  "targets_occupy_zone ix targets zid =
     list_ex (\<lambda>t. case ct_kind t of
         TZone \<Rightarrow> zones_overlap ix (ct_resource_id t) zid
       | TNode \<Rightarrow> resource_in_zone ix TNode (ct_resource_id t) zid
       | TEdge \<Rightarrow> resource_in_zone ix TEdge (ct_resource_id t) zid) targets"

definition zone_occupancy_limit :: "zone_policy \<Rightarrow> u64 option" where
  "zone_occupancy_limit p =
     (if zp_kind p = ExclusiveAccess then Some 1
      else if zp_capacity_is_explicit p then Some (zp_capacity p)
      else None)"

fun targets_conflict_cross_level :: "index \<Rightarrow> claim_target \<Rightarrow> claim_target \<Rightarrow> bool" where
  "targets_conflict_cross_level ix a b =
     (case (ct_kind a, ct_kind b) of
        (TZone, TZone) \<Rightarrow> False
      | (TZone, k) \<Rightarrow> resource_in_zone ix k (ct_resource_id b) (ct_resource_id a)
      | (k, TZone) \<Rightarrow> resource_in_zone ix k (ct_resource_id a) (ct_resource_id b)
      | _ \<Rightarrow> False)"

text \<open>\<open>ZonePolicy::default()\<close> of the derive: like \<open>empty\<close>, with capacity zero.\<close>

definition zone_policy_default :: zone_policy where
  "zone_policy_default = zone_policy_empty\<lparr>zp_capacity := 0\<rparr>"

definition policy_or_default :: "index \<Rightarrow> uuid \<Rightarrow> zone_policy" where
  "policy_or_default ix zid = unwrap_or (ix_zone_policy ix zid) zone_policy_default"

definition is_parent_of :: "index \<Rightarrow> uuid \<Rightarrow> uuid \<Rightarrow> bool" where
  "is_parent_of ix p c =
     (ix_zone ix c \<noteq> None
      \<and> (case parent_zone ix c of None \<Rightarrow> False | Some parent \<Rightarrow> z_id parent = p))"

definition overlapping_zone_policy :: "index \<Rightarrow> uuid \<Rightarrow> uuid \<Rightarrow> zone_policy" where
  "overlapping_zone_policy ix lhs rhs =
     (if ix_zone ix lhs \<noteq> None \<and> lhs = rhs then policy_or_default ix lhs
      else if is_parent_of ix rhs lhs then policy_or_default ix lhs
      else if is_parent_of ix lhs rhs then policy_or_default ix rhs
      else zone_policy_empty)"

definition shared_constrained_zone :: "index \<Rightarrow> target_kind \<Rightarrow> uuid \<Rightarrow> uuid \<Rightarrow> bool" where
  "shared_constrained_zone ix kind lhs rhs =
     list_ex (\<lambda>lz. case ix_zone_policy ix (z_id lz) of
         None \<Rightarrow> False
       | Some lp \<Rightarrow>
           list_ex (\<lambda>rz.
             z_id lz = z_id rz
             \<and> (case ix_zone_policy ix (z_id rz) of
                  None \<Rightarrow> False
                | Some rp \<Rightarrow>
                    zp_kind lp = ExclusiveAccess \<or> zp_kind rp = ExclusiveAccess
                    \<or> ((zp_capacity_is_explicit lp \<or> zp_capacity_is_explicit rp)
                       \<and> min (zp_capacity lp) (zp_capacity rp) \<le> 1)))
             (resource_zones ix kind rhs))
       (resource_zones ix kind lhs)"

section \<open>Compatibility under an index\<close>

definition both_shared :: "claim_request \<Rightarrow> claim_request \<Rightarrow> bool" where
  "both_shared lhs rhs = (cr_access_mode lhs = Shared \<and> cr_access_mode rhs = Shared)"

definition zone_claims_compatible :: "index \<Rightarrow> claim_request \<Rightarrow> claim_request \<Rightarrow> bool" where
  "zone_claims_compatible ix lhs rhs =
     list_all (\<lambda>lt. ct_kind lt = TZone \<longrightarrow>
       list_all (\<lambda>rt.
         ct_kind rt = TZone \<and> zones_overlap ix (ct_resource_id lt) (ct_resource_id rt)
         \<and> claim_windows_overlap (cr_window lhs) (cr_window rhs) \<longrightarrow>
         both_shared lhs rhs
         \<and> 1 < zp_capacity (overlapping_zone_policy ix (ct_resource_id lt) (ct_resource_id rt)))
         (cr_targets rhs)) (cr_targets lhs)"

definition spatial_claims_compatible ::
  "index \<Rightarrow> claim_request \<Rightarrow> claim_request \<Rightarrow> target_kind \<Rightarrow> bool"
where
  "spatial_claims_compatible ix lhs rhs kind =
     list_all (\<lambda>lt. ct_kind lt = kind \<longrightarrow>
       list_all (\<lambda>rt.
         ct_kind rt = kind \<and> claim_windows_overlap (cr_window lhs) (cr_window rhs) \<longrightarrow>
         (if ct_resource_id lt = ct_resource_id rt
          then \<not> (cr_access_mode lhs = Exclusive \<or> cr_access_mode rhs = Exclusive)
          else \<not> shared_constrained_zone ix kind (ct_resource_id lt) (ct_resource_id rt)))
         (cr_targets rhs)) (cr_targets lhs)"

definition zone_vs_spatial_compatible :: "index \<Rightarrow> claim_request \<Rightarrow> claim_request \<Rightarrow> bool" where
  "zone_vs_spatial_compatible ix zside sside =
     list_all (\<lambda>zt. ct_kind zt = TZone \<longrightarrow>
       list_all (\<lambda>rt.
         ct_kind rt \<noteq> TZone
         \<and> resource_in_zone ix (ct_kind rt) (ct_resource_id rt) (ct_resource_id zt)
         \<and> claim_windows_overlap (cr_window zside) (cr_window sside) \<longrightarrow>
         both_shared zside sside \<and> 1 < zp_capacity (policy_or_default ix (ct_resource_id zt)))
         (cr_targets sside)) (cr_targets zside)"

definition claims_compatible_for_index ::
  "index option \<Rightarrow> claim_request \<Rightarrow> claim_request \<Rightarrow> bool"
where
  "claims_compatible_for_index oix lhs rhs =
     (case oix of
        None \<Rightarrow> claims_compatible lhs rhs
      | Some ix \<Rightarrow>
          zone_claims_compatible ix lhs rhs
          \<and> spatial_claims_compatible ix lhs rhs TNode
          \<and> spatial_claims_compatible ix lhs rhs TEdge
          \<and> zone_vs_spatial_compatible ix lhs rhs \<and> zone_vs_spatial_compatible ix rhs lhs)"

definition conflicts_including_cross_level ::
  "index option \<Rightarrow> claim_request \<Rightarrow> claim_request \<Rightarrow> claim_target list"
where
  "conflicts_including_cross_level oix request other =
     (let out = conflicting_targets request other in
      case oix of
        None \<Rightarrow> out
      | Some ix \<Rightarrow>
          foldl (\<lambda>out rt.
            if names_target out rt then out
            else if list_ex (targets_conflict_cross_level ix rt) (cr_targets other) then out @ [rt]
            else out) out (cr_targets request))"

section \<open>Diagnostics\<close>

definition zone_diagnostics :: "zone_policy \<Rightarrow> msg list" where
  "zone_diagnostics p =
     (if zp_blocks_entry p \<or> zp_blocks_traversal p \<or> unwrap_or (zp_blocked p) False
      then [Lit ''zone blocks traversal without a grant''] else [])
     @ (if zp_kind p = Corridor then [Lit ''zone is treated as a corridor''] else [])
     @ (if zp_waiting_allowed p = Some False then [Lit ''zone does not allow waiting''] else [])
     @ (if zp_stop_allowed p = Some False then [Lit ''zone does not allow stopping''] else [])
     @ (case zp_schedule_window p of
          None \<Rightarrow> [] | Some sw \<Rightarrow> [Format ''zone schedule window={sw}'' [AStr sw]])
     @ (case zp_speed_limit p of None \<Rightarrow> [] | Some s \<Rightarrow> [Format ''zone speed limit={s}'' [AF64 s]])"

definition edge_diagnostics :: "edge_semantics \<Rightarrow> msg list" where
  "edge_diagnostics s =
     (if unwrap_or (es_blocked s) False then [Lit ''edge is blocked by traffic policy''] else [])
     @ (if es_lane_type s = Some ''corridor'' then [Lit ''edge is treated as a corridor''] else [])
     @ (if es_waiting_allowed s = Some False then [Lit ''edge does not allow waiting''] else [])
     @ (if es_stop_allowed s = Some False then [Lit ''edge does not allow stopping''] else [])
     @ (case es_schedule_window s of
          None \<Rightarrow> [] | Some sw \<Rightarrow> [Format ''edge schedule window={sw}'' [AStr sw]])
     @ (case es_speed_limit s of None \<Rightarrow> [] | Some v \<Rightarrow> [Format ''edge speed limit={s}'' [AF64 v]])"

definition target_diagnostics :: "index option \<Rightarrow> claim_target \<Rightarrow> msg list" where
  "target_diagnostics oix t =
     (case oix of
        None \<Rightarrow> []
      | Some ix \<Rightarrow>
          (case ct_kind t of
             TZone \<Rightarrow>
               (case ix_zone_policy ix (ct_resource_id t) of None \<Rightarrow> [] | Some p \<Rightarrow> zone_diagnostics p)
           | TEdge \<Rightarrow>
               (case ix_edge ix (ct_resource_id t) of
                  None \<Rightarrow> []
                | Some edge \<Rightarrow>
                    edge_diagnostics (derive_effective_edge_semantics (ed_properties edge) False
                      (edge_zone_policies ix (ct_resource_id t))))
           | TNode \<Rightarrow> []))"

definition build_conflict_diagnostics :: "index option \<Rightarrow> string \<Rightarrow> claim_target list \<Rightarrow> msg list" where
  "build_conflict_diagnostics oix source conflicts =
     Format ''collision detected with {source}'' [AStr source]
     # (case conflicts of
          [] \<Rightarrow> []
        | t # _ \<Rightarrow>
            Format ''blocking {} id={}'' [AStr (target_kind_name (ct_kind t)), AUuid (ct_resource_id t)]
            # target_diagnostics oix t)"

end
