(* ===== verification/Frontier.thy ===== *)
theory Frontier
  imports F64 "HOL-Library.Multiset"
begin

text \<open>
  The priority queue under the route search. The locale \<open>frontier\<close> states the contract the search
  relies on (nothing is lost, and the popped element is greatest where the comparison is a total
  preorder); it is interpreted on \<open>std::collections::BinaryHeap\<close> as the standard library writes it:
  a vector, \<open>sift_up\<close>, \<open>sift_down_to_bottom\<close>.
\<close>

section \<open>The contract\<close>

definition preorder_on_set :: "('a \<Rightarrow> 'a \<Rightarrow> bool) \<Rightarrow> 'a set \<Rightarrow> bool" where
  "preorder_on_set le S =
     ((\<forall>x \<in> S. \<forall>y \<in> S. le x y \<or> le y x)
      \<and> (\<forall>x \<in> S. \<forall>y \<in> S. \<forall>z \<in> S. le x y \<longrightarrow> le y z \<longrightarrow> le x z))"

lemma preorder_total: "preorder_on_set le S \<Longrightarrow> x \<in> S \<Longrightarrow> y \<in> S \<Longrightarrow> le x y \<or> le y x"
  unfolding preorder_on_set_def by blast

lemma preorder_trans:
  "preorder_on_set le S \<Longrightarrow> x \<in> S \<Longrightarrow> y \<in> S \<Longrightarrow> z \<in> S \<Longrightarrow> le x y \<Longrightarrow> le y z \<Longrightarrow> le x z"
  unfolding preorder_on_set_def by blast

lemma preorder_subset: "preorder_on_set le S \<Longrightarrow> T \<subseteq> S \<Longrightarrow> preorder_on_set le T"
  unfolding preorder_on_set_def by blast

locale frontier =
  fixes empty :: 'q
    and push :: "('a \<Rightarrow> 'a \<Rightarrow> bool) \<Rightarrow> 'a \<Rightarrow> 'q \<Rightarrow> 'q"
    and pop :: "('a \<Rightarrow> 'a \<Rightarrow> bool) \<Rightarrow> 'q \<Rightarrow> ('a \<times> 'q) option"
    and elems :: "'q \<Rightarrow> 'a multiset"
    and ordered :: "('a \<Rightarrow> 'a \<Rightarrow> bool) \<Rightarrow> 'q \<Rightarrow> bool"
  assumes elems_empty: "elems empty = {#}"
    and elems_push: "elems (push le x q) = add_mset x (elems q)"
    and pop_None: "pop le q = None \<longleftrightarrow> elems q = {#}"
    and elems_pop: "pop le q = Some (x, q') \<Longrightarrow> elems q = add_mset x (elems q')"
    and ordered_empty: "ordered le empty"
    and ordered_push:
      "preorder_on_set le (insert x (set_mset (elems q))) \<Longrightarrow> ordered le q \<Longrightarrow> ordered le (push le x q)"
    and ordered_pop:
      "preorder_on_set le (set_mset (elems q)) \<Longrightarrow> ordered le q \<Longrightarrow> pop le q = Some (x, q')
       \<Longrightarrow> ordered le q'"
    and pop_greatest:
      "preorder_on_set le (set_mset (elems q)) \<Longrightarrow> ordered le q \<Longrightarrow> pop le q = Some (x, q')
       \<Longrightarrow> y \<in># elems q \<Longrightarrow> le y x"
begin

lemma pop_mem: "pop le q = Some (x, q') \<Longrightarrow> x \<in># elems q"
  by (drule elems_pop) simp

lemma pop_size: "pop le q = Some (x, q') \<Longrightarrow> size (elems q) = Suc (size (elems q'))"
  by (drule elems_pop) simp

lemma pop_mem_iff: "pop le q = Some (x, q') \<Longrightarrow> y \<in># elems q \<longleftrightarrow> y = x \<or> y \<in># elems q'"
  by (drule elems_pop) simp

lemma push_mem_iff: "y \<in># elems (push le x q) \<longleftrightarrow> y = x \<or> y \<in># elems q"
  by (simp add: elems_push)

lemma pop_push: "pop le (push le x q) \<noteq> None"
  by (simp add: pop_None elems_push)

end

section \<open>The binary heap\<close>

definition heap_swap :: "nat \<Rightarrow> nat \<Rightarrow> 'a list \<Rightarrow> 'a list" where
  "heap_swap i j h = h[i := h ! j, j := h ! i]"

definition heap_parent :: "nat \<Rightarrow> nat" where
  "heap_parent i = (i - 1) div 2"

lemma heap_parent_less: "0 < i \<Longrightarrow> heap_parent i < i"
  by (simp add: heap_parent_def)

function sift_up :: "('a \<Rightarrow> 'a \<Rightarrow> bool) \<Rightarrow> nat \<Rightarrow> 'a list \<Rightarrow> 'a list" where
  "sift_up le pos h =
     (if pos = 0 then h
      else if le (h ! pos) (h ! heap_parent pos) then h
      else sift_up le (heap_parent pos) (heap_swap pos (heap_parent pos) h))"
  by pat_completeness auto
termination
  by (relation "measure (\<lambda>(le, pos, h). pos)") (auto simp: heap_parent_less)

declare sift_up.simps [simp del]

text \<open>The greater child (the right one when they are equal) moves up until the hole is a leaf.\<close>

definition greater_child :: "('a \<Rightarrow> 'a \<Rightarrow> bool) \<Rightarrow> nat \<Rightarrow> 'a list \<Rightarrow> nat" where
  "greater_child le child h = (if le (h ! child) (h ! (child + 1)) then child + 1 else child)"

function sift_down_to_bottom :: "('a \<Rightarrow> 'a \<Rightarrow> bool) \<Rightarrow> nat \<Rightarrow> 'a list \<Rightarrow> 'a list \<times> nat" where
  "sift_down_to_bottom le pos h =
     (let child = 2 * pos + 1 in
      if child \<le> length h - 2
      then sift_down_to_bottom le (greater_child le child h) (heap_swap pos (greater_child le child h) h)
      else if child = length h - 1 then (heap_swap pos child h, child)
      else (h, pos))"
  by pat_completeness auto
termination
  by (relation "measure (\<lambda>(le, pos, h). length h - pos)")
    (auto simp: greater_child_def heap_swap_def split: if_splits)

declare sift_down_to_bottom.simps [simp del]

definition heap_push :: "('a \<Rightarrow> 'a \<Rightarrow> bool) \<Rightarrow> 'a \<Rightarrow> 'a list \<Rightarrow> 'a list" where
  "heap_push le x h = sift_up le (length h) (h @ [x])"

definition heap_pop :: "('a \<Rightarrow> 'a \<Rightarrow> bool) \<Rightarrow> 'a list \<Rightarrow> ('a \<times> 'a list) option" where
  "heap_pop le h =
     (if h = [] then None
      else let item = last h; rest = butlast h in
        if rest = [] then Some (item, [])
        else let (h', pos) = sift_down_to_bottom le 0 (rest[0 := item])
             in Some (rest ! 0, sift_up le pos h'))"

section \<open>Nothing is lost\<close>

lemma length_heap_swap [simp]: "length (heap_swap i j h) = length h"
  by (simp add: heap_swap_def)

lemma mset_heap_swap [simp]: "i < length h \<Longrightarrow> j < length h \<Longrightarrow> mset (heap_swap i j h) = mset h"
  by (simp add: heap_swap_def mset_swap)

lemma nth_heap_swap:
  "i < length h \<Longrightarrow> j < length h \<Longrightarrow> k < length h \<Longrightarrow>
     heap_swap i j h ! k = (if k = j then h ! i else if k = i then h ! j else h ! k)"
  by (simp add: heap_swap_def nth_list_update)

lemma mset_sift_up: "pos < length h \<Longrightarrow> mset (sift_up le pos h) = mset h"
proof (induction le pos h rule: sift_up.induct)
  case (1 le pos h)
  have "heap_parent pos < length h"
    using 1(2) heap_parent_less [of pos] by (cases "pos = 0") (auto simp: heap_parent_def)
  with 1 show ?case by (simp add: sift_up.simps [of le pos h])
qed

lemma sift_down_mset:
  "pos < length h \<Longrightarrow> sift_down_to_bottom le pos h = (h', pos') \<Longrightarrow>
     mset h' = mset h \<and> pos' < length h'"
proof (induction le pos h arbitrary: h' pos' rule: sift_down_to_bottom.induct)
  case (1 le pos h)
  let ?c = "2 * pos + 1"
  show ?case
  proof (cases "?c \<le> length h - 2")
    case True
    then have c: "greater_child le ?c h < length h"
      by (auto simp: greater_child_def)
    with 1(1) [OF refl True] 1(2,3) True show ?thesis
      by (simp add: sift_down_to_bottom.simps [of le pos h])
  next
    case False
    with 1(2,3) show ?thesis
      by (auto simp: sift_down_to_bottom.simps [of le pos h] Let_def split: if_splits)
  qed
qed

lemma mset_heap_push: "mset (heap_push le x h) = add_mset x (mset h)"
  by (simp add: heap_push_def mset_sift_up)

lemma mset_butlast: "h \<noteq> [] \<Longrightarrow> mset h = add_mset (last h) (mset (butlast h))"
  by (metis append_butlast_last_id mset.simps(2) mset_append union_mset_add_mset_right
      add.right_neutral mset.simps(1))

lemma mset_heap_pop:
  assumes "heap_pop le h = Some (x, h')"
  shows "mset h = add_mset x (mset h')"
proof (cases "butlast h")
  case Nil
  with assms show ?thesis
    using mset_butlast [of h] by (auto simp: heap_pop_def split: if_splits)
next
  case (Cons r rs)
  then have h: "h \<noteq> []" by auto
  obtain g pos where g: "sift_down_to_bottom le 0 (last h # rs) = (g, pos)" by force
  from sift_down_mset [OF _ g] have "mset g = add_mset (last h) (mset rs)" "pos < length g"
    by auto
  then show ?thesis
    using assms h Cons g mset_butlast [OF h]
    by (auto simp: heap_pop_def mset_sift_up)
qed

lemma heap_pop_None: "heap_pop le h = None \<longleftrightarrow> h = []"
  by (auto simp: heap_pop_def Let_def split: prod.split)

section \<open>The heap order\<close>

text \<open>
  \<open>heap_ordered\<close> is the invariant of the vector; \<open>up_ordered\<close> and \<open>hole_ordered\<close> weaken it at one
  position, on the way up and on the way down.
\<close>

definition heap_ordered :: "('a \<Rightarrow> 'a \<Rightarrow> bool) \<Rightarrow> 'a list \<Rightarrow> bool" where
  "heap_ordered le h = (\<forall>i < length h. 0 < i \<longrightarrow> le (h ! i) (h ! heap_parent i))"

definition grand_ordered :: "('a \<Rightarrow> 'a \<Rightarrow> bool) \<Rightarrow> nat \<Rightarrow> 'a list \<Rightarrow> bool" where
  "grand_ordered le pos h =
     (\<forall>i < length h. 0 < i \<longrightarrow> heap_parent i = pos \<longrightarrow> 0 < pos \<longrightarrow> le (h ! i) (h ! heap_parent pos))"

definition up_ordered :: "('a \<Rightarrow> 'a \<Rightarrow> bool) \<Rightarrow> nat \<Rightarrow> 'a list \<Rightarrow> bool" where
  "up_ordered le pos h =
     ((\<forall>i < length h. 0 < i \<longrightarrow> i \<noteq> pos \<longrightarrow> le (h ! i) (h ! heap_parent i)) \<and> grand_ordered le pos h)"

definition hole_ordered :: "('a \<Rightarrow> 'a \<Rightarrow> bool) \<Rightarrow> nat \<Rightarrow> 'a list \<Rightarrow> bool" where
  "hole_ordered le pos h =
     ((\<forall>i < length h. 0 < i \<longrightarrow> i \<noteq> pos \<longrightarrow> heap_parent i \<noteq> pos \<longrightarrow> le (h ! i) (h ! heap_parent i))
      \<and> grand_ordered le pos h)"

lemma set_heap_swap: "i < length h \<Longrightarrow> j < length h \<Longrightarrow> set (heap_swap i j h) = set h"
  using mset_heap_swap mset_eq_setD by blast

lemma up_ordered_swap:
  assumes ord: "preorder_on_set le (set h)" and pos: "pos < length h" "0 < pos"
    and up: "up_ordered le pos h" and not: "\<not> le (h ! pos) (h ! heap_parent pos)"
  shows "up_ordered le (heap_parent pos) (heap_swap pos (heap_parent pos) h)"
proof -
  let ?p = "heap_parent pos"
  have p: "?p < pos" "?p < length h"
    using heap_parent_less [OF pos(2)] pos(1) by auto
  have mem: "h ! i \<in> set h" if "i < length h" for i
    using that by simp
  have flip: "le (h ! ?p) (h ! pos)"
    using preorder_total [OF ord mem [OF pos(1)] mem [OF p(2)]] not by blast
  have nth: "heap_swap pos ?p h ! k = (if k = ?p then h ! pos else if k = pos then h ! ?p else h ! k)"
    if "k < length h" for k
    using nth_heap_swap [OF pos(1) p(2) that] by simp
  have old: "le (h ! i) (h ! heap_parent i)" if "i < length h" "0 < i" "i \<noteq> pos" for i
    using up that by (simp add: up_ordered_def)
  have grand: "le (h ! i) (h ! ?p)" if "i < length h" "0 < i" "heap_parent i = pos" for i
    using up that pos(2) by (simp add: up_ordered_def grand_ordered_def)
  have 1: "le (heap_swap pos ?p h ! i) (heap_swap pos ?p h ! heap_parent i)"
    if i: "i < length h" "0 < i" "i \<noteq> ?p" for i
  proof -
    have pi: "heap_parent i < length h" using heap_parent_less [OF i(2)] i(1) by simp
    consider "i = pos" | "i \<noteq> pos" "heap_parent i = pos" | "i \<noteq> pos" "heap_parent i = ?p"
      | "i \<noteq> pos" "heap_parent i \<noteq> pos" "heap_parent i \<noteq> ?p" by blast
    then show ?thesis
    proof cases
      case 3
      then have "le (h ! i) (h ! ?p)" using old [OF i(1,2)] by simp
      then have "le (h ! i) (h ! pos)"
        using preorder_trans [OF ord mem [OF i(1)] mem [OF p(2)] mem [OF pos(1)]] flip by blast
      with 3 i p pos show ?thesis by (simp add: nth)
    qed (use i p pos pi flip grand old in \<open>simp_all add: nth\<close>)
  qed
  have 2: "le (heap_swap pos ?p h ! i) (heap_swap pos ?p h ! heap_parent ?p)"
    if i: "i < length h" "0 < i" "heap_parent i = ?p" "0 < ?p" for i
  proof -
    have pp: "heap_parent ?p < ?p" "heap_parent ?p < length h"
      using heap_parent_less [OF i(4)] p by auto
    have ip: "i \<noteq> ?p" using heap_parent_less [OF i(2)] i(3) by auto
    have pg: "le (h ! ?p) (h ! heap_parent ?p)" using old [of ?p] p i(4) by simp
    show ?thesis
    proof (cases "i = pos")
      case True
      with pg pp p ip i show ?thesis by (simp add: nth)
    next
      case False
      then have "le (h ! i) (h ! ?p)" using old [OF i(1,2)] i(3) by simp
      then have "le (h ! i) (h ! heap_parent ?p)"
        using preorder_trans [OF ord mem [OF i(1)] mem [OF p(2)] mem [OF pp(2)]] pg by blast
      with False ip pp p i show ?thesis by (simp add: nth)
    qed
  qed
  from 1 2 show ?thesis by (simp add: up_ordered_def grand_ordered_def)
qed

lemma sift_up_ordered:
  "preorder_on_set le (set h) \<Longrightarrow> pos < length h \<Longrightarrow> up_ordered le pos h \<Longrightarrow>
     heap_ordered le (sift_up le pos h)"
proof (induction le pos h rule: sift_up.induct)
  case (1 le pos h)
  show ?case
  proof (cases "pos = 0 \<or> le (h ! pos) (h ! heap_parent pos)")
    case True
    with 1(4) show ?thesis
      by (auto simp: sift_up.simps [of le pos h] heap_ordered_def up_ordered_def)
  next
    case False
    then have p: "heap_parent pos < length h" using heap_parent_less [of pos] 1(3) by simp
    from False 1 p show ?thesis
      by (simp add: sift_up.simps [of le pos h] up_ordered_swap set_heap_swap)
  qed
qed

lemma heap_parent_child: "0 < i \<Longrightarrow> heap_parent i = pos \<longleftrightarrow> i = 2 * pos + 1 \<or> i = 2 * pos + 2"
  by (auto simp: heap_parent_def)

lemma greater_child_props:
  assumes "preorder_on_set le (set h)" "2 * pos + 1 \<le> length h - 2" "2 * pos + 1 < length h - 1"
  defines "c \<equiv> greater_child le (2 * pos + 1) h"
  shows "c < length h" "heap_parent c = pos" "pos < c"
    and "\<And>i. i < length h \<Longrightarrow> 0 < i \<Longrightarrow> heap_parent i = pos \<Longrightarrow> le (h ! i) (h ! c)"
proof -
  show "c < length h" "heap_parent c = pos" "pos < c"
    using assms by (auto simp: c_def greater_child_def heap_parent_def)
  fix i assume i: "i < length h" "0 < i" "heap_parent i = pos"
  then consider "i = 2 * pos + 1" | "i = 2 * pos + 2" using heap_parent_child by blast
  then show "le (h ! i) (h ! c)"
    using assms(1,3) i preorder_total [OF assms(1), of "h ! (2 * pos + 1)" "h ! (2 * pos + 2)"]
      preorder_total [OF assms(1), of "h ! i" "h ! i"]
    by cases (auto simp: c_def greater_child_def)
qed

lemma hole_ordered_swap:
  assumes ord: "preorder_on_set le (set h)" and bound: "2 * pos + 1 \<le> length h - 2" "2 * pos + 1 < length h - 1"
    and hole: "hole_ordered le pos h"
  defines "c \<equiv> greater_child le (2 * pos + 1) h"
  shows "hole_ordered le c (heap_swap pos c h)"
proof -
  note gc = greater_child_props [OF ord bound, folded c_def]
  have pos: "pos < length h" using bound by simp
  have nth: "heap_swap pos c h ! k = (if k = c then h ! pos else if k = pos then h ! c else h ! k)"
    if "k < length h" for k
    using nth_heap_swap [OF pos gc(1) that] .
  have old: "le (h ! i) (h ! heap_parent i)"
    if "i < length h" "0 < i" "i \<noteq> pos" "heap_parent i \<noteq> pos" for i
    using hole that by (simp add: hole_ordered_def)
  have 1: "le (heap_swap pos c h ! i) (heap_swap pos c h ! heap_parent i)"
    if i: "i < length h" "0 < i" "i \<noteq> c" "heap_parent i \<noteq> c" for i
  proof -
    have pi: "heap_parent i < length h" "heap_parent i \<noteq> i"
      using heap_parent_less [OF i(2)] i(1) by auto
    consider "i = pos" | "i \<noteq> pos" "heap_parent i = pos" | "i \<noteq> pos" "heap_parent i \<noteq> pos" by blast
    then show ?thesis
    proof cases
      case 1
      have "0 < c" using gc(3) by simp
      then have "le (h ! c) (h ! heap_parent pos)"
        using hole gc(1,2) i(2) 1 by (simp add: hole_ordered_def grand_ordered_def)
      with 1 i pi show ?thesis by (simp add: nth)
    next
      case 2
      with i pi gc(4) [OF i(1,2)] pos show ?thesis by (simp add: nth)
    qed (use i pi old in \<open>simp add: nth\<close>)
  qed
  have 2: "le (heap_swap pos c h ! i) (heap_swap pos c h ! heap_parent c)"
    if i: "i < length h" "0 < i" "heap_parent i = c" for i
  proof -
    have "i \<noteq> pos" "i \<noteq> c" using heap_parent_less [OF i(2)] i(3) gc(3) by auto
    moreover have "le (h ! i) (h ! c)" using old [OF i(1,2)] i(3) gc(3) \<open>i \<noteq> pos\<close> by simp
    ultimately show ?thesis using i pos gc by (simp add: nth)
  qed
  from 1 2 show ?thesis by (simp add: hole_ordered_def grand_ordered_def)
qed

lemma hole_at_leaf:
  assumes "hole_ordered le pos h" "length h \<le> 2 * pos + 1"
  shows "up_ordered le pos h"
proof -
  have "heap_parent i \<noteq> pos" if "i < length h" "0 < i" for i
    using that assms(2) heap_parent_child [OF that(2), of pos] by auto
  with assms(1) show ?thesis by (simp add: up_ordered_def hole_ordered_def)
qed

lemma hole_last_child:
  assumes ord: "preorder_on_set le (set h)" and n: "2 * pos + 1 = length h - 1" "0 < length h"
    and hole: "hole_ordered le pos h"
  shows "hole_ordered le (2 * pos + 1) (heap_swap pos (2 * pos + 1) h)"
proof -
  let ?c = "2 * pos + 1"
  have len: "length h = 2 * pos + 2" using n by simp
  have nth: "heap_swap pos ?c h ! k = (if k = ?c then h ! pos else if k = pos then h ! ?c else h ! k)"
    if "k < length h" for k
    using nth_heap_swap [of pos h ?c k] that len by simp
  have par: "heap_parent i \<noteq> ?c" if "i < length h" "0 < i" for i
    using that len heap_parent_child [OF that(2), of ?c] by auto
  have "le (heap_swap pos ?c h ! i) (heap_swap pos ?c h ! heap_parent i)"
    if i: "i < length h" "0 < i" "i \<noteq> ?c" for i
  proof -
    have pi: "heap_parent i < length h" "heap_parent i \<noteq> i" "heap_parent i \<noteq> pos"
      using heap_parent_less [OF i(2)] i len heap_parent_child [OF i(2), of pos] by auto
    show ?thesis
    proof (cases "i = pos")
      case True
      then have "le (h ! ?c) (h ! heap_parent pos)"
        using hole i(2) len heap_parent_child [of ?c pos]
        by (auto simp: hole_ordered_def grand_ordered_def)
      moreover have "heap_parent pos < pos" using heap_parent_less i(2) True by simp
      ultimately show ?thesis using True i pi nth [OF i(1)] nth [OF pi(1)] by simp
    next
      case False
      then have "le (h ! i) (h ! heap_parent i)" using hole i(1,2) pi(3) by (simp add: hole_ordered_def)
      with False i pi par [OF i(1,2)] show ?thesis by (simp only: nth if_False)
    qed
  qed
  with par show ?thesis by (simp add: hole_ordered_def grand_ordered_def)
qed

lemma sift_down_ordered:
  "preorder_on_set le (set h) \<Longrightarrow> pos < length h \<Longrightarrow> hole_ordered le pos h \<Longrightarrow>
     sift_down_to_bottom le pos h = (h', pos') \<Longrightarrow> up_ordered le pos' h'"
proof (induction le pos h arbitrary: h' pos' rule: sift_down_to_bottom.induct)
  case (1 le pos h)
  let ?c = "2 * pos + 1"
  note simp = sift_down_to_bottom.simps [of le pos h]
  show ?case
  proof (cases "?c \<le> length h - 2")
    case True
    then have lt: "?c < length h - 1" by simp
    note gc = greater_child_props [OF 1(2) True lt]
    have "preorder_on_set le (set (heap_swap pos (greater_child le ?c h) h))"
      using set_heap_swap [OF 1(3) gc(1)] 1(2) by simp
    with 1(1) [OF refl True] hole_ordered_swap [OF 1(2) True lt 1(4)] gc(1) 1(5) True show ?thesis
      by (simp add: simp)
  next
    case False
    show ?thesis
    proof (cases "?c = length h - 1")
      case True
      with False 1(5) have "h' = heap_swap pos ?c h" "pos' = ?c" by (auto simp: simp)
      then show ?thesis
        using hole_at_leaf [OF hole_last_child [OF 1(2) True _ 1(4)]] 1(3) True by (cases h) simp_all
    next
      case last: False
      with False 1(5) have "h' = h" "pos' = pos" by (auto simp: simp)
      then show ?thesis using hole_at_leaf [OF 1(4)] False last 1(3) by simp
    qed
  qed
qed

lemma heap_push_ordered:
  assumes "preorder_on_set le (insert x (set h))" "heap_ordered le h"
  shows "heap_ordered le (heap_push le x h)"
proof -
  have "up_ordered le (length h) (h @ [x])"
    using assms(2) heap_parent_less
    by (auto simp: up_ordered_def grand_ordered_def heap_ordered_def nth_append)
      (metis heap_parent_less less_SucE less_imp_le_nat less_trans not_less)+
  then show ?thesis
    using assms(1) by (simp add: heap_push_def sift_up_ordered)
qed

lemma heap_root_greatest:
  assumes ord: "preorder_on_set le (set h)" and heap: "heap_ordered le h"
  shows "i < length h \<Longrightarrow> le (h ! i) (h ! 0)"
proof (induction i rule: less_induct)
  case (less i)
  show ?case
  proof (cases "i = 0")
    case True
    with less(2) show ?thesis using preorder_total [OF ord, of "h ! 0" "h ! 0"] by simp
  next
    case False
    then have p: "heap_parent i < i" by (simp add: heap_parent_less)
    have "le (h ! i) (h ! heap_parent i)" using heap False less(2) by (simp add: heap_ordered_def)
    moreover have "le (h ! heap_parent i) (h ! 0)" using less p by simp
    moreover have "h ! i \<in> set h" "h ! heap_parent i \<in> set h" "h ! 0 \<in> set h"
      using less(2) p by (auto intro!: nth_mem)
    ultimately show ?thesis
      using preorder_trans [OF ord] by blast
  qed
qed

lemma heap_pop_first: "heap_pop le h = Some (x, h') \<Longrightarrow> h \<noteq> [] \<and> x = h ! 0"
  by (cases h rule: rev_cases) (auto simp: heap_pop_def nth_append split: if_splits prod.splits)

lemma heap_pop_ordered:
  assumes ord: "preorder_on_set le (set h)" and heap: "heap_ordered le h"
    and pop: "heap_pop le h = Some (x, h')"
  shows "heap_ordered le h'"
proof (cases "butlast h")
  case Nil
  with pop show ?thesis by (auto simp: heap_pop_def heap_ordered_def split: if_splits)
next
  case (Cons r rs)
  then have ne: "h \<noteq> []" by auto
  let ?g = "last h # rs"
  obtain g pos where g: "sift_down_to_bottom le 0 ?g = (g, pos)" by force
  have h: "h = r # rs @ [last h]"
    using append_butlast_last_id [OF ne] Cons by simp
  have sub: "set ?g \<subseteq> set h" by (subst (2) h) auto
  have "le (?g ! i) (?g ! heap_parent i)" if "i < length ?g" "0 < i" "heap_parent i \<noteq> 0" for i
  proof -
    have "?g ! i = h ! i" "?g ! heap_parent i = h ! heap_parent i"
      using that heap_parent_less [of i] by (subst h; cases i; cases "heap_parent i"; simp add: nth_append)+
    moreover have "length h = Suc (Suc (length rs))" using arg_cong [OF h, of length] by simp
    ultimately show ?thesis using heap that by (simp add: heap_ordered_def)
  qed
  then have "hole_ordered le 0 ?g"
    by (simp add: hole_ordered_def grand_ordered_def)
  with sift_down_ordered [OF preorder_subset [OF ord sub] _ _ g] have "up_ordered le pos g" by simp
  moreover have "pos < length g" "mset g = mset ?g"
    using sift_down_mset [OF _ g] by auto
  moreover from this(2) have "set g = set ?g" by (rule mset_eq_setD)
  ultimately have "heap_ordered le (sift_up le pos g)"
    using sift_up_ordered preorder_subset [OF ord sub] by metis
  with pop ne Cons g show ?thesis by (auto simp: heap_pop_def)
qed

interpretation bh: frontier "[]" heap_push heap_pop mset heap_ordered
proof
  fix le :: "'a \<Rightarrow> 'a \<Rightarrow> bool" and x y h h'
  show "mset [] = {#}" "heap_ordered le []" by (simp_all add: heap_ordered_def)
  show "mset (heap_push le x h) = add_mset x (mset h)" by (rule mset_heap_push)
  show "heap_pop le h = None \<longleftrightarrow> mset h = {#}" by (simp add: heap_pop_None)
  show "heap_pop le h = Some (x, h') \<Longrightarrow> mset h = add_mset x (mset h')" by (rule mset_heap_pop)
  show "preorder_on_set le (insert x (set_mset (mset h))) \<Longrightarrow> heap_ordered le h
        \<Longrightarrow> heap_ordered le (heap_push le x h)"
    by (simp add: heap_push_ordered)
  show "preorder_on_set le (set_mset (mset h)) \<Longrightarrow> heap_ordered le h \<Longrightarrow> heap_pop le h = Some (x, h')
        \<Longrightarrow> heap_ordered le h'"
    using heap_pop_ordered by auto
  show "preorder_on_set le (set_mset (mset h)) \<Longrightarrow> heap_ordered le h \<Longrightarrow> heap_pop le h = Some (x, h')
        \<Longrightarrow> y \<in># mset h \<Longrightarrow> le y x"
    using heap_root_greatest heap_pop_first by (metis in_set_conv_nth set_mset_mset)
qed

end
