(* ===== verification/Route.thy ===== *)
theory Route
  imports Index Frontier
begin

text \<open>
  \<open>route.rs\<close>: shortest-path search over the adjacency of the index, the plan built from it, and the
  diagnosis of a failed search. Costs are IEEE doubles. The search itself always ends; the walk back
  along the predecessors is an option, \<^term>\<open>None\<close> when it does not end. The order in which a hash
  map yields its keys is the parameter \<open>ho\<close>.
\<close>

section \<open>Data\<close>

record route_step =
  st_node_id :: uuid
  st_incoming_edge_id :: "uuid option"
  st_step_cost :: f64
  st_cumulative_cost :: f64

record route_plan =
  rp_start_node_id :: uuid
  rp_goal_node_id :: uuid
  rp_steps :: "route_step list"
  rp_node_ids :: "uuid list"
  rp_edge_ids :: "uuid list"
  rp_zone_ids :: "uuid list"
  rp_node_zone_ids :: "uuid list list"
  rp_edge_zone_ids :: "uuid list list"
  rp_total_cost :: f64

record search_state =
  sr_found :: bool
  sr_distance :: f64
  sr_distances :: "(uuid \<times> f64) list"
  sr_predecessors :: "(uuid \<times> uuid) list"

definition search_default :: search_state where
  "search_default = \<lparr>sr_found = False, sr_distance = PInf, sr_distances = [], sr_predecessors = []\<rparr>"

datatype failure_kind = MissingStartNode | MissingGoalNode | PolicyBlocked | Unreachable

record route_failure =
  rf_kind :: failure_kind
  rf_message :: msg
  rf_blocked_edge_ids :: "uuid list"
  rf_blocked_zone_ids :: "uuid list"
  rf_directionally_blocked_edge_ids :: "uuid list"
  rf_reachable_node_ids :: "uuid list"
  rf_diagnostics :: "msg list"

definition failure_default :: route_failure where
  "failure_default =
     \<lparr>rf_kind = Unreachable, rf_message = Lit [], rf_blocked_edge_ids = [], rf_blocked_zone_ids = [],
      rf_directionally_blocked_edge_ids = [], rf_reachable_node_ids = [], rf_diagnostics = []\<rparr>"

record planning_result =
  pr_search :: search_state
  pr_plan :: "route_plan option"
  pr_failure :: "route_failure option"

datatype cost_model = GraphWeight | Penalized

record traversal_neighbor =
  tn_node_id :: uuid
  tn_edge_id :: uuid
  tn_weight :: f64

section \<open>Edge predicates\<close>

definition allows_traversal_from_node :: "edge_data \<Rightarrow> bool \<Rightarrow> bool" where
  "allows_traversal_from_node edge from_source =
     (let semantics = parse_edge_traffic_semantics (ed_properties edge) False in
      case es_preferred_direction semantics of
        None \<Rightarrow> True
      | Some raw \<Rightarrow>
          (let direction = to_ascii_lowercase (str_trim raw) in
           if direction \<in> {''forward'', ''source_to_target''}
           then from_source \<or> unwrap_or (es_reversible semantics) False
           else if direction \<in> {''reverse'', ''target_to_source''}
           then \<not> from_source \<or> unwrap_or (es_reversible semantics) False
           else True))"

definition zone_is_wall :: "zone_policy \<Rightarrow> bool" where
  "zone_is_wall p = (unwrap_or (zp_blocked p) False \<or> zp_kind p = Restricted \<or> zp_blocks_traversal p)"

definition blocked_zones_for_edge :: "index \<Rightarrow> uuid \<Rightarrow> uuid list" where
  "blocked_zones_for_edge ix i =
     map z_id (filter (\<lambda>z. case ix_zone_policy ix (z_id z) of None \<Rightarrow> False | Some p \<Rightarrow> zone_is_wall p)
       (zones_of_edge ix i))"

definition is_edge_hard_blocked :: "index \<Rightarrow> uuid \<Rightarrow> bool" where
  "is_edge_hard_blocked ix i =
     (case ix_edge ix i of
        None \<Rightarrow> True
      | Some edge \<Rightarrow>
          (let blocked = (case ix_edge_traffic ix i of
                            Some semantics \<Rightarrow> unwrap_or (es_blocked semantics) False
                          | None \<Rightarrow> unwrap_or (es_blocked
                              (parse_edge_traffic_semantics (ed_properties edge) False)) False)
           in blocked \<or> blocked_zones_for_edge ix i \<noteq> []))"

section \<open>The traversal penalty\<close>

definition add_when :: "bool \<Rightarrow> f64 \<Rightarrow> f64 \<Rightarrow> f64" where
  \<comment> \<open>\<open>if b { penalty += c }\<close>\<close>
  "add_when b c p = (if b then f64_add p c else p)"

definition add_some :: "'a option \<Rightarrow> ('a \<Rightarrow> bool) \<Rightarrow> ('a \<Rightarrow> f64) \<Rightarrow> f64 \<Rightarrow> f64" where
  \<comment> \<open>\<open>if let Some(x) = o { if ok(x) { penalty += c(x) } }\<close>\<close>
  "add_some o' ok c p = (case o' of None \<Rightarrow> p | Some x \<Rightarrow> add_when (ok x) (c x) p)"

definition f64_pos :: "f64 \<Rightarrow> bool" where
  "f64_pos x = f64_lt f64_zero x"

definition f64_recip :: "f64 \<Rightarrow> f64" where
  "f64_recip x = f64_div (Fin 1) x"

definition shortfall :: "rat \<Rightarrow> f64 \<Rightarrow> f64" where
  \<comment> \<open>\<open>(10.0 - p).max(0.0) * c\<close>\<close>
  "shortfall c p = f64_mul (f64_max (f64_sub (Fin 10) p) f64_zero) (rnd c)"

definition edge_penalty :: "edge_semantics \<Rightarrow> f64" where
  "edge_penalty s =
     (let p = f64_zero;
          p = add_some (es_cost_bias s) (\<lambda>_. True) (\<lambda>b. f64_max b f64_zero) p;
          p = add_some (es_speed_limit s) f64_pos f64_recip p;
          p = add_some (es_priority s) (\<lambda>_. True) (shortfall (1 / 10)) p;
          p = add_some (es_capacity s) (\<lambda>c. 0 < c) (\<lambda>c. f64_recip (f64_of_u64 c)) p;
          p = add_when (es_lane_type s = Some ''corridor'') (Fin (3 / 4)) p;
          p = add_when (es_passing_allowed s = Some False) (Fin (1 / 2)) p;
          p = add_when (es_directed s \<and> \<not> unwrap_or (es_reversible s) False) (Fin (1 / 4)) p;
          p = add_when (unwrap_or (es_no_stop s) False) (Fin 2) p;
          p = add_some (es_clearance_width s) f64_pos f64_recip p
      in add_some (es_clearance_height s) f64_pos f64_recip p)"

definition zone_penalty :: "f64 \<Rightarrow> zone_policy \<Rightarrow> f64" where
  "zone_penalty p zp =
     (let p = add_when (zp_requires_claim zp \<or> zp_blocks_entry zp \<or> zp_blocks_traversal zp) (Fin 100) p;
          p = add_some (zp_priority zp) (\<lambda>_. True) (shortfall (1 / 20)) p;
          p = add_when (zp_waiting_allowed zp = Some False) (Fin (3 / 2)) p;
          p = add_when (zp_stop_allowed zp = Some False) (Fin 2) p
      in add_when (zp_kind zp = Corridor) (Fin (3 / 4)) p)"

definition edge_traversal_penalty :: "index \<Rightarrow> uuid \<Rightarrow> f64" where
  "edge_traversal_penalty ix i =
     (case ix_edge ix i of
        None \<Rightarrow> PInf
      | Some edge \<Rightarrow>
          (let zone_policies = edge_zone_policies ix i;
               semantics = derive_effective_edge_semantics (ed_properties edge) False zone_policies
           in foldl zone_penalty (edge_penalty semantics) zone_policies))"

section \<open>The search\<close>

definition neighbors_of :: "index \<Rightarrow> uuid \<Rightarrow> traversal_neighbor list" where
  "neighbors_of ix nid =
     map (\<lambda>a. \<lparr>tn_node_id = adj_node_id a, tn_edge_id = adj_edge_id a, tn_weight = adj_weight a\<rparr>)
       (filter (\<lambda>a. case ix_edge ix (adj_edge_id a) of
                      None \<Rightarrow> False
                    | Some edge \<Rightarrow> allows_traversal_from_node edge (adj_from_source a))
         (neighbors ix nid))"

record queue_entry =
  qe_node_id :: uuid
  qe_distance :: f64

text \<open>
  The order of the heap's entries is reversed, and a comparison with NaN counts as equal:
  \<open>a <= b\<close> unless \<open>a\<close> is the strictly nearer.
\<close>

definition entry_le :: "queue_entry \<Rightarrow> queue_entry \<Rightarrow> bool" where
  "entry_le a b = (\<not> f64_lt (qe_distance a) (qe_distance b))"

definition relax ::
  "(uuid \<Rightarrow> bool) \<Rightarrow> (uuid \<Rightarrow> f64) \<Rightarrow> queue_entry \<Rightarrow> uuid list \<Rightarrow>
   queue_entry list \<times> search_state \<Rightarrow> traversal_neighbor \<Rightarrow> queue_entry list \<times> search_state"
where
  "relax skip_edge extra_cost current visited fs nb =
     (let (heap, state) = fs in
      if tn_node_id nb \<in> set visited then fs
      else if skip_edge (tn_edge_id nb) then fs
      else
        (let new_distance =
               f64_add (f64_add (qe_distance current) (tn_weight nb)) (extra_cost (tn_edge_id nb));
             better = (case map_of (sr_distances state) (tn_node_id nb) of
                         None \<Rightarrow> True | Some prev \<Rightarrow> f64_lt new_distance prev)
         in if better
            then (heap_push entry_le \<lparr>qe_node_id = tn_node_id nb, qe_distance = new_distance\<rparr> heap,
                  state\<lparr>sr_distances := AList.update (tn_node_id nb) new_distance (sr_distances state),
                        sr_predecessors :=
                          AList.update (tn_node_id nb) (qe_node_id current) (sr_predecessors state)\<rparr>)
            else fs))"

text \<open>The steps still to be pushed: the adjacency of the nodes not yet visited.\<close>

definition unvisited_steps :: "index \<Rightarrow> uuid list \<Rightarrow> nat" where
  "unvisited_steps ix visited =
     (\<Sum>n \<in> fst ` set (ix_adjacency ix) - set visited. length (neighbors ix n))"

lemma length_neighbors_of: "length (neighbors_of ix n) \<le> length (neighbors ix n)"
  by (simp add: neighbors_of_def)

lemma neighbors_outside: "n \<notin> fst ` set (ix_adjacency ix) \<Longrightarrow> neighbors ix n = []"
  by (simp add: neighbors_def lookup_list_def map_of_eq_None_iff [THEN iffD2])

lemma unvisited_steps_visit:
  "n \<notin> set visited \<Longrightarrow>
     unvisited_steps ix (n # visited) + length (neighbors ix n) = unvisited_steps ix visited"
proof (cases "n \<in> fst ` set (ix_adjacency ix)")
  case True
  moreover assume "n \<notin> set visited"
  moreover have "fst ` set (ix_adjacency ix) - set (n # visited) =
                 (fst ` set (ix_adjacency ix) - set visited) - {n}" by auto
  ultimately show ?thesis
    by (simp add: unvisited_steps_def sum.remove [of _ n])
next
  case False
  then have "fst ` set (ix_adjacency ix) - set (n # visited) = fst ` set (ix_adjacency ix) - set visited"
    by auto
  with False show ?thesis by (simp add: unvisited_steps_def neighbors_outside)
qed

lemma length_heap_push [simp]: "length (heap_push le x h) = Suc (length h)"
  using arg_cong [OF bh.elems_push, of size le x h] by simp

lemma heap_pop_length: "heap_pop le h = Some (x, h') \<Longrightarrow> length h = Suc (length h')"
  using bh.pop_size [of le h x h'] by simp

lemma relax_length:
  "length (fst (foldl (relax skip extra cur visited) fs ns)) \<le> length (fst fs) + length ns"
proof (induction ns arbitrary: fs)
  case (Cons nb ns)
  have "length (fst (relax skip extra cur visited fs nb)) \<le> Suc (length (fst fs))"
    by (simp add: relax_def Let_def split: prod.split option.split)
  with Cons [of "relax skip extra cur visited fs nb"] show ?case by simp
qed simp

function search_loop ::
  "index \<Rightarrow> uuid \<Rightarrow> (uuid \<Rightarrow> bool) \<Rightarrow> (uuid \<Rightarrow> f64) \<Rightarrow>
   queue_entry list \<Rightarrow> uuid list \<Rightarrow> search_state \<Rightarrow> search_state"
where
  "search_loop ix goal skip_edge extra_cost heap visited state =
     (case heap_pop entry_le heap of
        None \<Rightarrow> state
      | Some (current, heap) \<Rightarrow>
          if qe_node_id current \<in> set visited
          then search_loop ix goal skip_edge extra_cost heap visited state
          else
            (let visited = qe_node_id current # visited in
             if qe_node_id current = goal
             then state\<lparr>sr_found := True, sr_distance := qe_distance current\<rparr>
             else
               (let fs = foldl (relax skip_edge extra_cost current visited) (heap, state)
                           (neighbors_of ix (qe_node_id current))
                in search_loop ix goal skip_edge extra_cost (fst fs) visited (snd fs))))"
  by pat_completeness auto
termination
proof (relation "measure (\<lambda>(ix, goal, skip, extra, heap, visited, state).
                   length heap + unvisited_steps ix visited)", goal_cases)
  case (2 ix goal skip extra heap visited state p current heap')
  then show ?case by (auto dest!: heap_pop_length)
next
  case (3 ix goal skip extra heap visited state p current heap' visited' fs)
  then have pop: "length heap = Suc (length heap')" and new: "qe_node_id current \<notin> set visited"
    by (auto dest!: heap_pop_length)
  have "length (fst fs) \<le> length heap' + length (neighbors ix (qe_node_id current))"
    using relax_length [of skip extra current visited' "(heap', state)"
        "neighbors_of ix (qe_node_id current)"]
      length_neighbors_of [of ix "qe_node_id current"] 3 by simp
  with pop unvisited_steps_visit [OF new, of ix] 3 show ?case by simp
qed simp

declare search_loop.simps [simp del]

definition dijkstra_inner ::
  "index \<Rightarrow> uuid \<Rightarrow> uuid \<Rightarrow> (uuid \<Rightarrow> bool) \<Rightarrow> (uuid \<Rightarrow> f64) \<Rightarrow> search_state"
where
  "dijkstra_inner ix start goal skip_edge extra_cost =
     (if ix_node ix start = None \<or> ix_node ix goal = None then search_default
      else if start = goal
      then search_default\<lparr>sr_found := True, sr_distance := f64_zero, sr_distances := [(start, f64_zero)]\<rparr>
      else search_loop ix goal skip_edge extra_cost
             (heap_push entry_le \<lparr>qe_node_id = start, qe_distance = f64_zero\<rparr> []) []
             (search_default\<lparr>sr_distances := [(start, f64_zero)]\<rparr>))"

definition shortest_path_search :: "index \<Rightarrow> uuid \<Rightarrow> uuid \<Rightarrow> search_state" where
  "shortest_path_search ix start goal = dijkstra_inner ix start goal (\<lambda>_. False) (\<lambda>_. f64_zero)"

definition shortest_path_search_with_blocking :: "index \<Rightarrow> uuid \<Rightarrow> uuid \<Rightarrow> search_state" where
  "shortest_path_search_with_blocking ix start goal =
     dijkstra_inner ix start goal (is_edge_hard_blocked ix) (\<lambda>_. f64_zero)"

definition shortest_path_search_with_penalties :: "index \<Rightarrow> uuid \<Rightarrow> uuid \<Rightarrow> search_state" where
  "shortest_path_search_with_penalties ix start goal =
     dijkstra_inner ix start goal (is_edge_hard_blocked ix) (edge_traversal_penalty ix)"

section \<open>Reconstruction\<close>

partial_function (option) reconstruct_loop ::
  "(uuid \<times> uuid) list \<Rightarrow> uuid \<Rightarrow> uuid \<Rightarrow> uuid list \<Rightarrow> uuid list option"
where
  "reconstruct_loop predecessors start current nodes =
     (if current = start then Some (rev nodes)
      else case map_of predecessors current of
             None \<Rightarrow> Some []
           | Some pred \<Rightarrow> reconstruct_loop predecessors start pred (nodes @ [pred]))"

definition reconstruct_route_nodes :: "search_state \<Rightarrow> uuid \<Rightarrow> uuid \<Rightarrow> uuid list option" where
  "reconstruct_route_nodes search start goal =
     (if \<not> sr_found search then Some []
      else reconstruct_loop (sr_predecessors search) start goal [goal])"

definition extract_traversed_node_ids ::
  "search_state \<Rightarrow> uuid \<Rightarrow> uuid \<Rightarrow> (error + uuid list) option"
where
  "extract_traversed_node_ids search start goal =
     (if \<not> sr_found search then Some (Inr [])
      else map_option (\<lambda>nodes.
             if nodes = [] \<and> start \<noteq> goal
             then Inl (NotFound (Lit ''route reconstruction could not recover a predecessor chain''))
             else Inr nodes) (reconstruct_route_nodes search start goal))"

fun extract_traversed_edge_ids_from_nodes :: "index \<Rightarrow> uuid list \<Rightarrow> error + uuid list" where
  "extract_traversed_edge_ids_from_nodes ix (a # b # nodes) =
     (case edge_between ix a b of
        None \<Rightarrow> Inl (NotFound (Lit ''route references adjacent nodes without a graph edge''))
      | Some edge \<Rightarrow>
          and_then (extract_traversed_edge_ids_from_nodes ix (b # nodes)) (\<lambda>out. Inr (ed_id edge # out)))"
| "extract_traversed_edge_ids_from_nodes ix _ = Inr []"

definition extract_traversed_edge_ids ::
  "index \<Rightarrow> search_state \<Rightarrow> uuid \<Rightarrow> uuid \<Rightarrow> (error + uuid list) option"
where
  "extract_traversed_edge_ids ix search start goal =
     map_option (\<lambda>r. and_then r (extract_traversed_edge_ids_from_nodes ix))
       (extract_traversed_node_ids search start goal)"

definition extract_traversed_zone_ids_from_nodes :: "index \<Rightarrow> uuid list \<Rightarrow> error + uuid list" where
  "extract_traversed_zone_ids_from_nodes ix route_nodes =
     (let traversed = push_unseen [] (concat (map (\<lambda>n. map z_id (zones_of_node ix n)) route_nodes)) in
      and_then (extract_traversed_edge_ids_from_nodes ix route_nodes) (\<lambda>edges.
        Inr (push_unseen traversed (concat (map (\<lambda>e. map z_id (zones_of_edge ix e)) edges)))))"

definition extract_traversed_zone_ids ::
  "index \<Rightarrow> search_state \<Rightarrow> uuid \<Rightarrow> uuid \<Rightarrow> (error + uuid list) option"
where
  "extract_traversed_zone_ids ix search start goal =
     map_option (\<lambda>r. and_then r (extract_traversed_zone_ids_from_nodes ix))
       (extract_traversed_node_ids search start goal)"

section \<open>Cost\<close>

definition step_edge :: "workspace \<Rightarrow> uuid \<Rightarrow> uuid \<Rightarrow> error + eid" where
  "step_edge w a b =
     (case (ws_find_node w a, ws_find_node w b) of
        (Some va, Some vb) \<Rightarrow>
          (case ws_get_edge w va vb of
             Some e \<Rightarrow> Inr e
           | None \<Rightarrow> ok_or_else (ws_get_edge w vb va)
                       (NotFound (Lit ''route references adjacent nodes without a graph edge'')))
      | _ \<Rightarrow> Inl (NotFound (Lit ''route references node that is not present in the workspace'')))"

definition edge_cost :: "index \<Rightarrow> cost_model \<Rightarrow> f64 \<Rightarrow> eid \<Rightarrow> f64" where
  "edge_cost ix model cost e =
     (let w = ix_workspace ix; cost = f64_add cost (unwrap_or (ws_get_weight w e) f64_zero) in
      if model = Penalized
      then (case ws_edge_property w e of
              None \<Rightarrow> cost | Some prop \<Rightarrow> f64_add cost (edge_traversal_penalty ix (ed_id prop)))
      else cost)"

fun cost_loop :: "index \<Rightarrow> cost_model \<Rightarrow> f64 \<Rightarrow> uuid list \<Rightarrow> error + f64" where
  "cost_loop ix model cost (a # b # nodes) =
     and_then (step_edge (ix_workspace ix) a b) (\<lambda>e.
       cost_loop ix model (edge_cost ix model cost e) (b # nodes))"
| "cost_loop ix model cost _ = Inr cost"

definition accumulate_route_cost :: "index \<Rightarrow> uuid list \<Rightarrow> cost_model \<Rightarrow> error + f64" where
  "accumulate_route_cost ix route_nodes model =
     (if route_nodes = [] then Inr f64_zero else cost_loop ix model f64_zero route_nodes)"

section \<open>Steps and plans\<close>

definition first_step :: "uuid \<Rightarrow> route_step" where
  "first_step n =
     \<lparr>st_node_id = n, st_incoming_edge_id = None, st_step_cost = f64_zero, st_cumulative_cost = f64_zero\<rparr>"

fun route_steps_loop ::
  "index \<Rightarrow> cost_model \<Rightarrow> uuid \<Rightarrow> f64 \<Rightarrow> uuid list \<Rightarrow> error + route_step list"
where
  "route_steps_loop ix model prev cumulative [] = Inr []"
| "route_steps_loop ix model prev cumulative (n # nodes) =
     and_then (ok_or_else (edge_between ix prev n)
         (NotFound (Lit ''route reconstruction references adjacent nodes without a graph edge''))) (\<lambda>edge.
     and_then (accumulate_route_cost ix [prev, n] model) (\<lambda>c.
       (let cumulative = f64_add cumulative c in
        and_then (route_steps_loop ix model n cumulative nodes) (\<lambda>steps.
          Inr (\<lparr>st_node_id = n, st_incoming_edge_id = Some (ed_id edge), st_step_cost = c,
                st_cumulative_cost = cumulative\<rparr> # steps)))))"

definition reconstruct_route_steps ::
  "index \<Rightarrow> search_state \<Rightarrow> uuid \<Rightarrow> uuid \<Rightarrow> cost_model \<Rightarrow> (error + route_step list) option"
where
  "reconstruct_route_steps ix search start goal model =
     map_option (\<lambda>nodes. case nodes of
         [] \<Rightarrow> Inr []
       | n # ns \<Rightarrow> and_then (route_steps_loop ix model n f64_zero ns) (\<lambda>steps. Inr (first_step n # steps)))
       (reconstruct_route_nodes search start goal)"

text \<open>The steps of a plan name the edges already extracted, one fewer than the nodes.\<close>

fun plan_steps_loop ::
  "index \<Rightarrow> cost_model \<Rightarrow> uuid \<Rightarrow> f64 \<Rightarrow> uuid list \<Rightarrow> uuid list \<Rightarrow> error + route_step list"
where
  "plan_steps_loop ix model prev cumulative (n # nodes) (e # edges) =
     and_then (accumulate_route_cost ix [prev, n] model) (\<lambda>c.
       (let cumulative = f64_add cumulative c in
        and_then (plan_steps_loop ix model n cumulative nodes edges) (\<lambda>steps.
          Inr (\<lparr>st_node_id = n, st_incoming_edge_id = Some e, st_step_cost = c,
                st_cumulative_cost = cumulative\<rparr> # steps))))"
| "plan_steps_loop ix model prev cumulative _ _ = Inr []"

definition plan_steps :: "index \<Rightarrow> cost_model \<Rightarrow> uuid list \<Rightarrow> uuid list \<Rightarrow> error + route_step list" where
  "plan_steps ix model nodes edges =
     (case nodes of
        [] \<Rightarrow> Inr []
      | n # ns \<Rightarrow> and_then (plan_steps_loop ix model n f64_zero ns edges) (\<lambda>steps. Inr (first_step n # steps)))"

fun check_steps :: "uuid list \<Rightarrow> uuid list \<Rightarrow> nat \<Rightarrow> route_step list \<Rightarrow> error + unit" where
  "check_steps nodes edges i [] = Inr ()"
| "check_steps nodes edges i (step # steps) =
     (if st_node_id step \<noteq> nodes ! i
      then Inl (InvalidArgument (Lit ''route plan step nodes must match traversed node sequence''))
      else if i = 0
      then (if st_incoming_edge_id step \<noteq> None
            then Inl (InvalidArgument (Lit ''route plan first step cannot have an incoming edge''))
            else check_steps nodes edges (Suc i) steps)
      else (if st_incoming_edge_id step = Some (edges ! (i - 1))
            then check_steps nodes edges (Suc i) steps
            else Inl (InvalidArgument (Lit ''route plan step incoming edges must match traversed edges''))))"

definition validate_route_plan_shape :: "route_plan \<Rightarrow> error + u64" where
  "validate_route_plan_shape plan =
     (let nodes = rp_node_ids plan; edges = rp_edge_ids plan; steps = rp_steps plan in
      if nodes = [] then
        (if edges \<noteq> [] \<or> steps \<noteq> []
         then Inl (InvalidArgument (Lit ''route plan contains edges or steps without any traversed nodes''))
         else Inr 0)
      else if rp_start_node_id plan \<noteq> hd nodes
      then Inl (InvalidArgument (Lit ''route plan start node does not match the first traversed node''))
      else if rp_goal_node_id plan \<noteq> last nodes
      then Inl (InvalidArgument (Lit ''route plan goal node does not match the last traversed node''))
      else if length edges + 1 \<noteq> length nodes
      then Inl (InvalidArgument (Lit ''route plan edge count must equal node count minus one''))
      else if steps \<noteq> [] \<and> length steps \<noteq> length nodes
      then Inl (InvalidArgument (Lit ''route plan step count must equal traversed node count''))
      else if rp_node_zone_ids plan \<noteq> [] \<and> length (rp_node_zone_ids plan) \<noteq> length nodes
      then Inl (InvalidArgument (Lit ''route plan node-zone coverage must align with traversed nodes''))
      else if rp_edge_zone_ids plan \<noteq> [] \<and> length (rp_edge_zone_ids plan) \<noteq> length edges
      then Inl (InvalidArgument (Lit ''route plan edge-zone coverage must align with traversed edges''))
      else and_then (check_steps nodes edges 0 steps) (\<lambda>_. Inr (of_nat (length edges))))"

definition build_route_plan ::
  "index \<Rightarrow> uuid \<Rightarrow> uuid \<Rightarrow> uuid list \<Rightarrow> cost_model \<Rightarrow> error + route_plan"
where
  "build_route_plan ix start goal nodes model =
     (if nodes \<noteq> [] \<and> hd nodes \<noteq> start
      then Inl (InvalidArgument (Lit ''route node sequence does not begin at the requested start node''))
      else if nodes \<noteq> [] \<and> last nodes \<noteq> goal
      then Inl (InvalidArgument (Lit ''route node sequence does not end at the requested goal node''))
      else
        and_then (extract_traversed_edge_ids_from_nodes ix nodes) (\<lambda>edges.
        and_then (extract_traversed_zone_ids_from_nodes ix nodes) (\<lambda>zones.
        and_then (accumulate_route_cost ix nodes model) (\<lambda>cost.
        and_then (plan_steps ix model nodes edges) (\<lambda>steps.
          (let plan =
             \<lparr>rp_start_node_id = start, rp_goal_node_id = goal, rp_steps = steps,
              rp_node_ids = nodes, rp_edge_ids = edges, rp_zone_ids = zones,
              rp_node_zone_ids = map (\<lambda>n. map z_id (zones_of_node ix n)) nodes,
              rp_edge_zone_ids = map (\<lambda>e. map z_id (zones_of_edge ix e)) edges,
              rp_total_cost = cost\<rparr>
           in and_then (validate_route_plan_shape plan) (\<lambda>_. Inr plan)))))))"

definition build_route_plan_from_search ::
  "index \<Rightarrow> search_state \<Rightarrow> uuid \<Rightarrow> uuid \<Rightarrow> cost_model \<Rightarrow> (error + route_plan) option"
where
  "build_route_plan_from_search ix search start goal model =
     map_option (\<lambda>r. and_then r (\<lambda>nodes. build_route_plan ix start goal nodes model))
       (extract_traversed_node_ids search start goal)"

section \<open>Diagnosing a failed search\<close>

definition missing_node_failure :: "index \<Rightarrow> uuid \<Rightarrow> uuid \<Rightarrow> route_failure option" where
  "missing_node_failure ix start goal =
     (if ix_node ix start = None
      then Some (failure_default\<lparr>rf_kind := MissingStartNode,
             rf_message := Lit ''start node is not present in workspace graph'',
             rf_diagnostics := [Lit ''planner cannot start without a valid start node'']\<rparr>)
      else if ix_node ix goal = None
      then Some (failure_default\<lparr>rf_kind := MissingGoalNode,
             rf_message := Lit ''goal node is not present in workspace graph'',
             rf_diagnostics := [Lit ''planner cannot finish without a valid goal node'']\<rparr>)
      else None)"

text \<open>The nodes a search reached, in the order of the hash map; the start when it reached none.\<close>

definition reached_nodes :: "(uuid list \<Rightarrow> uuid list) \<Rightarrow> search_state \<Rightarrow> uuid \<Rightarrow> uuid list" where
  "reached_nodes ho search start =
     (let ns = ho (map fst (sr_distances search)) in if ns = [] then [start] else ns)"

definition open_edge_semantics :: "index \<Rightarrow> uuid \<Rightarrow> edge_semantics option" where
  "open_edge_semantics ix e =
     (if is_edge_hard_blocked ix e then None
      else map_option (\<lambda>edge. derive_effective_edge_semantics (ed_properties edge) False
             (edge_zone_policies ix e)) (ix_edge ix e))"

definition needs_claim :: "edge_semantics \<Rightarrow> bool" where
  "needs_claim s = (unwrap_or (es_requires_claim s) False \<or> es_access_group s \<noteq> None)"

definition is_slow :: "edge_semantics \<Rightarrow> bool" where
  "is_slow s = (case es_speed_limit s of None \<Rightarrow> False | Some v \<Rightarrow> f64_lt v (Fin 1))"

text \<open>
  When no reached edge is blocked, the blocked edges of the unconstrained route are listed. The walk
  back of that route is the option.
\<close>

definition policy_failure ::
  "(uuid list \<Rightarrow> uuid list) \<Rightarrow> index \<Rightarrow> uuid \<Rightarrow> uuid \<Rightarrow> search_state \<Rightarrow> route_failure option"
where
  "policy_failure ho ix start goal unconstrained =
     (let blocked_search = shortest_path_search_with_blocking ix start goal;
          reachable = reached_nodes ho blocked_search start;
          seen = concat (map (\<lambda>n. map tn_edge_id (neighbors_of ix n)) reachable);
          frontier_edges = filter (is_edge_hard_blocked ix) seen;
          semantics = List.map_filter (open_edge_semantics ix) seen;
          walls = (if frontier_edges \<noteq> [] then Some frontier_edges
                   else map_option (\<lambda>nodes.
                          case extract_traversed_edge_ids_from_nodes ix nodes of
                            Inl _ \<Rightarrow> [] | Inr edges \<Rightarrow> filter (is_edge_hard_blocked ix) edges)
                          (reconstruct_route_nodes unconstrained start goal))
      in map_option (\<lambda>walls.
           (let blocked_edges = push_unseen [] walls;
                blocked_zones = push_unseen [] (concat (map (blocked_zones_for_edge ix) walls))
            in \<lparr>rf_kind = PolicyBlocked,
                rf_message =
                  (if blocked_edges \<noteq> [] \<or> blocked_zones \<noteq> []
                   then Format ''route is blocked by traffic policy ({} blocked edge(s), {} blocked zone(s))''
                          [AU64 (of_nat (length blocked_edges)), AU64 (of_nat (length blocked_zones))]
                   else Lit ''route is blocked by traffic policy''),
                rf_blocked_edge_ids = blocked_edges, rf_blocked_zone_ids = blocked_zones,
                rf_directionally_blocked_edge_ids = [], rf_reachable_node_ids = reachable,
                rf_diagnostics =
                  (if list_ex needs_claim semantics
                   then [Lit ''restricted resources were present on reachable alternatives but require claims'']
                   else [])
                  @ (if list_ex is_slow semantics
                     then [Lit ''slowdown policies affect costs but do not hard-block planning''] else [])
                  @ [Lit ''blocked or restricted resources must be claimed; slowdown only increases cost'']\<rparr>))
         walls)"

definition direction_locked :: "index \<Rightarrow> adjacency \<Rightarrow> bool" where
  "direction_locked ix a =
     (case ix_edge ix (adj_edge_id a) of
        None \<Rightarrow> False | Some edge \<Rightarrow> \<not> allows_traversal_from_node edge (adj_from_source a))"

definition unreachable_failure ::
  "(uuid list \<Rightarrow> uuid list) \<Rightarrow> index \<Rightarrow> uuid \<Rightarrow> search_state \<Rightarrow> route_failure"
where
  "unreachable_failure ho ix start unconstrained =
     (let reachable = reached_nodes ho unconstrained start;
          locked = push_unseen [] (map adj_edge_id (filter (direction_locked ix)
                     (concat (map (neighbors ix) reachable))))
      in failure_default\<lparr>rf_kind := Unreachable,
           rf_message :=
             (if locked = []
              then Format ''goal is unreachable from start after reaching {} node(s)''
                     [AU64 (of_nat (length reachable))]
              else Format ''goal is unreachable from start after reaching {} node(s) with {} direction-locked edge(s)''
                     [AU64 (of_nat (length reachable)), AU64 (of_nat (length locked))]),
           rf_directionally_blocked_edge_ids := locked,
           rf_reachable_node_ids := reachable,
           rf_diagnostics :=
             [if locked = []
              then Lit ''no blocked edge was found; the graph is disconnected or lacks a legal path''
              else Lit ''reachable frontier is constrained by direction-locked edges'',
              Lit ''unreachable means no legal path exists even without applying hard traffic blocking'']\<rparr>)"

definition diagnose_route_failure ::
  "(uuid list \<Rightarrow> uuid list) \<Rightarrow> index \<Rightarrow> uuid \<Rightarrow> uuid \<Rightarrow> route_failure option"
where
  "diagnose_route_failure ho ix start goal =
     (case missing_node_failure ix start goal of
        Some f \<Rightarrow> Some f
      | None \<Rightarrow>
          (let unconstrained = shortest_path_search ix start goal in
           if sr_found unconstrained then policy_failure ho ix start goal unconstrained
           else Some (unreachable_failure ho ix start unconstrained)))"

section \<open>Planning\<close>

definition plan_route ::
  "(uuid list \<Rightarrow> uuid list) \<Rightarrow> index \<Rightarrow> uuid \<Rightarrow> uuid \<Rightarrow> bool \<Rightarrow> planning_result option"
where
  "plan_route ho ix start goal use_penalties =
     (let search = (if use_penalties then shortest_path_search_with_penalties ix start goal
                    else shortest_path_search_with_blocking ix start goal)
      in if \<not> sr_found search
         then map_option (\<lambda>f. \<lparr>pr_search = search, pr_plan = None, pr_failure = Some f\<rparr>)
                (diagnose_route_failure ho ix start goal)
         else map_option (\<lambda>r. case r of
                  Inr plan \<Rightarrow> \<lparr>pr_search = search, pr_plan = Some plan, pr_failure = None\<rparr>
                | Inl err \<Rightarrow>
                    \<lparr>pr_search = search, pr_plan = None,
                     pr_failure = Some (failure_default\<lparr>rf_kind := Unreachable,
                       rf_message := error_display err,
                       rf_diagnostics := [Lit ''planner found a search path but route-plan reconstruction failed'']\<rparr>)\<rparr>)
                (build_route_plan_from_search ix search start goal
                   (if use_penalties then Penalized else GraphWeight)))"

end
