(* ===== verification/Robot.thy ===== *)
theory Robot
  imports Claim Route
begin

text \<open>
  \<open>robot.rs\<close>: what the coordinator keeps of each robot (its plan, its progress along it, its claims
  and leases, its last reported pose), and the two conversions a pose report goes through: the
  position into the other frame of the workspace datum, the yaw into a compass bearing.
\<close>

section \<open>More operations of \<open>f64\<close>\<close>

fun f64_ceil :: "f64 \<Rightarrow> f64" where
  "f64_ceil (Fin q) = Fin (of_int \<lceil>q\<rceil>)"
| "f64_ceil x = x"

text \<open>\<open>x as u64\<close>: towards zero, saturating, zero for NaN.\<close>

fun f64_as_u64 :: "f64 \<Rightarrow> u64" where
  "f64_as_u64 NaN = 0"
| "f64_as_u64 NInf = 0"
| "f64_as_u64 PInf = u64_max"
| "f64_as_u64 (Fin q) =
     (if q \<le> 0 then 0 else if 2 ^ 64 \<le> \<lfloor>q\<rfloor> then u64_max else of_int \<lfloor>q\<rfloor>)"

text \<open>The operator \<open>%\<close>: the exact remainder of the division truncated towards zero.\<close>

definition rat_trunc :: "rat \<Rightarrow> int" where
  "rat_trunc q = (if q < 0 then \<lceil>q\<rceil> else \<lfloor>q\<rfloor>)"

fun f64_rem :: "f64 \<Rightarrow> f64 \<Rightarrow> f64" where
  "f64_rem (Fin a) (Fin b) = (if b = 0 then NaN else Fin (a - b * of_int (rat_trunc (a / b))))"
| "f64_rem (Fin a) PInf = Fin a"
| "f64_rem (Fin a) NInf = Fin a"
| "f64_rem _ _ = NaN"

definition f64_abs :: "f64 \<Rightarrow> f64" where
  "f64_abs x = (if f64_le x f64_zero then f64_neg x else x)"

definition f64_rem_euclid :: "f64 \<Rightarrow> f64 \<Rightarrow> f64" where
  "f64_rem_euclid x m =
     (let r = f64_rem x m in if f64_lt r f64_zero then f64_add r (f64_abs m) else r)"

text \<open>\<open>std::f64::consts::PI\<close>, and \<open>to_degrees\<close>, which multiplies by the rounded \<open>180 / PI\<close>.\<close>

definition f64_pi :: f64 where
  "f64_pi = Fin (884279719003555 / 281474976710656)"

definition f64_to_degrees :: "f64 \<Rightarrow> f64" where
  "f64_to_degrees x = f64_mul x (f64_div (Fin 180) f64_pi)"

section \<open>Poses\<close>

datatype progress_state = Idle | FollowingRoute | Waiting | Queued | Blocked | MustReplan

datatype position_frame = GlobalFrame | LocalFrame

record robot_position =
  po_reported :: position_frame
  po_lat :: f64
  po_lon :: f64
  po_alt :: f64
  po_x :: f64
  po_y :: f64
  po_z :: f64
  po_converted :: bool

definition opt_bind :: "'a option \<Rightarrow> ('a \<Rightarrow> 'b option) \<Rightarrow> 'b option" where
  \<comment> \<open>\<open>Option::and_then\<close>\<close>
  "opt_bind r f = (case r of None \<Rightarrow> None | Some v \<Rightarrow> f v)"

definition map_or :: "'b \<Rightarrow> ('a \<Rightarrow> 'b) \<Rightarrow> 'a option \<Rightarrow> 'b" where
  \<comment> \<open>\<open>Option::map_or\<close>\<close>
  "map_or d f r = (case r of None \<Rightarrow> d | Some v \<Rightarrow> f v)"

lemma opt_simps [simp]:
  "opt_bind None f = None" "opt_bind (Some v) f = f v"
  "map_or d g None = d" "map_or d g (Some v) = g v"
  by (simp_all add: opt_bind_def map_or_def)

definition from_local ::
  "(point \<Rightarrow> geo \<Rightarrow> geo) \<Rightarrow> f64 \<Rightarrow> f64 \<Rightarrow> f64 \<Rightarrow> index option \<Rightarrow> robot_position"
where
  "from_local to_wgs_from_enu x y z oix =
     (let g = opt_bind oix (\<lambda>ix. pose_local_to_global to_wgs_from_enu ix
                                   \<lparr>pt_x = x, pt_y = y, pt_z = z\<rparr>) in
      \<lparr>po_reported = LocalFrame, po_lat = map_or f64_zero geo_lat g,
       po_lon = map_or f64_zero geo_lon g, po_alt = map_or f64_zero geo_alt g,
       po_x = x, po_y = y, po_z = z, po_converted = (g \<noteq> None)\<rparr>)"

definition from_global ::
  "(geo \<Rightarrow> geo \<Rightarrow> point) \<Rightarrow> f64 \<Rightarrow> f64 \<Rightarrow> f64 \<Rightarrow> index option \<Rightarrow> robot_position"
where
  "from_global to_enu lat lon alt oix =
     (let p = opt_bind oix (\<lambda>ix. pose_global_to_local to_enu ix
                                   \<lparr>geo_lat = lat, geo_lon = lon, geo_alt = alt\<rparr>) in
      \<lparr>po_reported = GlobalFrame, po_lat = lat, po_lon = lon, po_alt = alt,
       po_x = map_or f64_zero pt_x p, po_y = map_or f64_zero pt_y p, po_z = map_or f64_zero pt_z p,
       po_converted = (p \<noteq> None)\<rparr>)"

record robot_heading =
  he_yaw_rad :: f64
  he_bearing_deg :: f64
  he_roll_rad :: "f64 option"
  he_pitch_rad :: "f64 option"

definition from_rpy :: "f64 option \<Rightarrow> f64 option \<Rightarrow> f64 \<Rightarrow> robot_heading" where
  "from_rpy roll pitch yaw =
     \<lparr>he_yaw_rad = yaw,
      he_bearing_deg = f64_rem_euclid (f64_sub (Fin 90) (f64_to_degrees yaw)) (Fin 360),
      he_roll_rad = roll, he_pitch_rad = pitch\<rparr>"

definition from_yaw_rad :: "f64 \<Rightarrow> robot_heading" where
  "from_yaw_rad yaw = from_rpy None None yaw"

section \<open>The state of a robot\<close>

record robot_state =
  rs_robot_id :: robot_id
  rs_mission_id :: mission_id
  rs_current_node_id :: "uuid option"
  rs_current_edge_id :: "uuid option"
  rs_route_plan :: "route_plan option"
  rs_pending_claim_ids :: "claim_id list"
  rs_active_lease_ids :: "lease_id list"
  rs_progress_state :: progress_state
  rs_next_route_step_index :: u64
  rs_hold_reason :: "string option"
  rs_last_claim_tick :: "u64 option"
  rs_scheduled_start_tick :: "u64 option"
  rs_reserved_until_tick :: "u64 option"
  rs_wait_ticks :: u64
  rs_needs_replan :: bool
  rs_horizon :: u64
  rs_updated_at_tick :: u64
  rs_position :: "robot_position option"
  rs_heading :: "robot_heading option"
  rs_pose_at_ms :: "u64 option"

definition robot_default :: robot_state where
  "robot_default =
     \<lparr>rs_robot_id = 0, rs_mission_id = 0, rs_current_node_id = None, rs_current_edge_id = None,
      rs_route_plan = None, rs_pending_claim_ids = [], rs_active_lease_ids = [],
      rs_progress_state = Idle, rs_next_route_step_index = 0, rs_hold_reason = None,
      rs_last_claim_tick = None, rs_scheduled_start_tick = None, rs_reserved_until_tick = None,
      rs_wait_ticks = 0, rs_needs_replan = False, rs_horizon = 0, rs_updated_at_tick = 0,
      rs_position = None, rs_heading = None, rs_pose_at_ms = None\<rparr>"

section \<open>Bearings\<close>

lemma rat_trunc_rem:
  assumes "0 < b"
  shows "\<bar>a - b * of_int (rat_trunc (a / b))\<bar> < b"
proof -
  let ?q = "a / b"
  have "\<bar>?q - of_int (rat_trunc ?q)\<bar> < 1"
    by (simp add: rat_trunc_def) linarith
  then have "b * \<bar>?q - of_int (rat_trunc ?q)\<bar> < b * 1"
    using assms by (intro mult_strict_left_mono) auto
  moreover have "b * \<bar>?q - of_int (rat_trunc ?q)\<bar> = \<bar>b * (?q - of_int (rat_trunc ?q))\<bar>"
    using assms by (simp add: abs_mult)
  ultimately show ?thesis
    using assms by (simp add: right_diff_distrib)
qed

lemma rem_euclid_range:
  assumes "0 < b" "rnd b = Fin b"
  shows "f64_le f64_zero (f64_rem_euclid (Fin a) (Fin b)) \<and> f64_le (f64_rem_euclid (Fin a) (Fin b)) (Fin b)"
proof -
  let ?r = "a - b * of_int (rat_trunc (a / b))"
  have r: "\<bar>?r\<bar> < b" using assms(1) by (rule rat_trunc_rem)
  show ?thesis
  proof (cases "?r < 0")
    case True
    with r have "0 \<le> ?r + b" "?r + b \<le> b" by auto
    then have "f64_le f64_zero (rnd (?r + b))" "f64_le (rnd (?r + b)) (rnd b)"
      by (auto intro: rnd_nonneg rnd_mono)
    with True assms show ?thesis by (simp add: f64_rem_euclid_def f64_abs_def)
  next
    case False
    with r assms(1) show ?thesis by (simp add: f64_rem_euclid_def f64_lt_def)
  qed
qed

lemma rem_euclid_not_fin: "(\<And>d. x \<noteq> Fin d) \<Longrightarrow> f64_rem_euclid x (Fin b) = NaN"
  by (cases x) (auto simp: f64_rem_euclid_def f64_lt_def)

text \<open>
  The compass bearing derived from any yaw is NaN, when the yaw is no finite angle, or lies
  between 0 and 360 degrees, both included.
\<close>

theorem bearing_range:
  "he_bearing_deg (from_rpy roll pitch yaw) = NaN
   \<or> f64_le f64_zero (he_bearing_deg (from_rpy roll pitch yaw))
     \<and> f64_le (he_bearing_deg (from_rpy roll pitch yaw)) (Fin 360)"
proof (cases "f64_sub (Fin 90) (f64_to_degrees yaw)")
  case (Fin d)
  then show ?thesis using rem_euclid_range [of 360 d] by (simp add: from_rpy_def)
qed (simp_all add: from_rpy_def rem_euclid_not_fin)

text \<open>Rounding a rational whose binary exponent is known.\<close>

lemma rne_eq: "\<bar>q - of_int n\<bar> < 1 / 2 \<Longrightarrow> rne q = n"
proof -
  assume n: "\<bar>q - of_int n\<bar> < 1 / 2"
  then have "\<lfloor>q\<rfloor> = n \<or> \<lfloor>q\<rfloor> = n - 1" by linarith
  then show "rne q = n" using n by (auto simp: rne_def Let_def)
qed

lemma rnd_eq:
  assumes "2 powi e \<le> q" "q < 2 powi (e + 1)" "- 1022 \<le> e" "e < 1000"
    and "\<bar>q / 2 powi (e - 52) - of_int n\<bar> < 1 / 2"
  shows "rnd q = Fin (of_int n * 2 powi (e - 52))"
proof -
  have q: "0 < q" using assms(1) by (rule less_le_trans [rotated]) simp
  have "2 powi e < (2 :: rat) powi (flog2 q + 1)" "(2 :: rat) powi flog2 q < 2 powi (e + 1)"
    using assms(1,2) flog2_bounds [OF q] by (auto intro: le_less_trans)
  then have "e < flog2 q + 1" "flog2 q < e + 1" by (blast intro: powi_less_imp)+
  then have "flog2 q = e" by linarith
  then have u: "ulp_exp q = e - 52" using assms(3) by (simp add: ulp_exp_def)
  have r: "rnd_pos q = of_int n * 2 powi (e - 52)"
    by (simp add: rnd_pos_def u rne_eq [OF assms(5)])
  have "rnd_pos q \<le> 2 powi (e + 1)" using assms(2) by (intro rnd_pos_le_powi) (simp_all add: u)
  also have "\<dots> \<le> 2 powi 1000" using assms(4) by (intro power_int_increasing) auto
  also have "\<dots> < 2 powi 1024" by (intro power_int_strict_increasing) auto
  also have "\<dots> = f64_limit" by (simp add: f64_limit_def power_int_def)
  finally have "rnd_pos q < f64_limit" .
  moreover have "0 \<le> rnd_pos q" using q by (rule rnd_pos_nonneg)
  ultimately show ?thesis
    using q f64_limit_pos by (simp add: rnd_def r)
qed

lemma degrees_past_north:
  "f64_to_degrees (Fin (7074237752028441 / 4503599627370496)) = Fin (6333186975989761 / 70368744177664)"
proof -
  have a: "rnd (180 / (884279719003555 / 281474976710656)) = Fin (1007958012753983 / 17592186044416)"
    using rnd_eq [of 5 "180 / (884279719003555 / 281474976710656)" 8063664102031864]
    by (simp add: power_int_def power_divide)
  have b: "rnd (7074237752028441 / 4503599627370496 * (1007958012753983 / 17592186044416))
           = Fin (6333186975989761 / 70368744177664)"
    using rnd_eq [of 6 "7074237752028441 / 4503599627370496 * (1007958012753983 / 17592186044416)" 6333186975989761]
    by (simp add: power_int_def power_divide)
  show ?thesis
    using a b by (simp add: f64_to_degrees_def f64_pi_def)
qed

lemma bearing_past_north:
  "he_bearing_deg (from_yaw_rad (Fin (7074237752028441 / 4503599627370496))) = Fin 360"
proof -
  have neg: "rnd (90 - 6333186975989761 / 70368744177664) = Fin (- (1 / 70368744177664))"
    using rnd_eq [of "- 46" "1 / 70368744177664" 4503599627370496] rnd_neg [of "1 / 70368744177664"]
    by (simp add: power_int_def power_divide)
  have up: "rnd (- (1 / 70368744177664) + 360) = Fin 360"
    using rnd_eq [of 8 "- (1 / 70368744177664) + 360" 6333186975989760] by (simp add: power_int_def power_divide)
  have tr: "rat_trunc (- (1 / 70368744177664) / 360) = 0"
    by (simp add: rat_trunc_def ceiling_eq_iff)
  show ?thesis
    using neg up tr by (simp add: from_yaw_rad_def from_rpy_def degrees_past_north f64_sub_def
        f64_rem_euclid_def f64_abs_def)
qed

text \<open>
  The bearing is not always below 360 degrees as the field's documentation says: the first yaw
  past half of \<open>PI\<close> is a hair west of north, and its bearing rounds up to 360.
\<close>

theorem bearing_reaches_360:
  "he_bearing_deg (from_yaw_rad (Fin (7074237752028441 / 4503599627370496))) = Fin 360"
  by (rule bearing_past_north)

end
