(* ===== verification/Ledger.thy ===== *)
theory Ledger
  imports Prelude
begin

text \<open>
  The contract the claim manager's two ledgers share: a store of entries under a key, with a lookup,
  an insert-or-replace and a removal that says whether it removed. The manager's requests and its
  leases are the two instances (theory Manager); what follows from the laws is proved once here.
\<close>

locale ledger =
  fixes key :: "'e \<Rightarrow> 'k"
    and entries :: "'s \<Rightarrow> 'e list"
    and find_entry :: "'s \<Rightarrow> 'k \<Rightarrow> 'e option"
    and upsert :: "'s \<Rightarrow> 'e \<Rightarrow> 's"
    and remove :: "'s \<Rightarrow> 'k \<Rightarrow> bool \<times> 's"
  assumes find_entry: "find_entry s k = find (\<lambda>e. key e = k) (entries s)"
    and entries_upsert: "entries (upsert s e) = replace_or_push (\<lambda>x. key x = key e) e (entries s)"
    and entries_remove: "entries (snd (remove s k)) = remove_first (\<lambda>x. key x = k) (entries s)"
    and removed_flag: "fst (remove s k) \<longleftrightarrow> find_entry s k \<noteq> None"
begin

text \<open>The abstract store: a partial map from keys to entries.\<close>

definition view :: "'s \<Rightarrow> 'k \<Rightarrow> 'e option" where
  "view s = find_entry s"

definition unique_keys :: "'s \<Rightarrow> bool" where
  "unique_keys s = distinct (map key (entries s))"

lemma find_replace_or_push:
  "find (\<lambda>x. key x = k) (replace_or_push (\<lambda>x. key x = key e) e xs) =
     (if k = key e then Some e else find (\<lambda>x. key x = k) xs)"
  by (induction xs) auto

lemma view_upsert: "view (upsert s e) = (view s)(key e \<mapsto> e)"
  by (rule ext) (simp add: view_def find_entry entries_upsert find_replace_or_push)

lemma find_remove_other: "k' \<noteq> k \<Longrightarrow>
  find (\<lambda>x. key x = k') (remove_first (\<lambda>x. key x = k) xs) = find (\<lambda>x. key x = k') xs"
  by (induction xs) auto

lemma find_remove_same: "distinct (map key xs) \<Longrightarrow>
  find (\<lambda>x. key x = k) (remove_first (\<lambda>x. key x = k) xs) = None"
  by (induction xs) (auto simp: find_None_iff image_iff)

lemma view_remove: "unique_keys s \<Longrightarrow> view (snd (remove s k)) = (view s)(k := None)"
  by (rule ext) (simp add: view_def unique_keys_def find_entry entries_remove
      find_remove_other find_remove_same)

lemma unique_upsert: "unique_keys s \<Longrightarrow> unique_keys (upsert s e)"
  by (simp add: unique_keys_def entries_upsert ledger_simps)

lemma unique_remove: "unique_keys s \<Longrightarrow> unique_keys (snd (remove s k))"
  by (simp add: unique_keys_def entries_remove distinct_map_remove_first)

lemma upsert_twice: "view (upsert (upsert s e) e) = view (upsert s e)"
  by (simp add: view_upsert)

lemma upsert_commute: "key a \<noteq> key b \<Longrightarrow> view (upsert (upsert s a) b) = view (upsert (upsert s b) a)"
  by (simp add: view_upsert fun_upd_twist)

lemma remove_after_upsert:
  "unique_keys s \<Longrightarrow> fst (remove (upsert s e) (key e)) \<and>
     view (snd (remove (upsert s e) (key e))) = (view s)(key e := None)"
  using view_remove [OF unique_upsert [of s e]]
  by (simp add: removed_flag view_upsert) (metis fun_upd_same option.distinct(1) view_def view_upsert)

text \<open>An upsert grows the ledger exactly when the key is new.\<close>

lemma length_upsert:
  "length (entries (upsert s e)) =
     (if view s (key e) = None then Suc (length (entries s)) else length (entries s))"
  by (auto simp: entries_upsert length_replace_or_push view_def find_entry find_None_iff)

end

end
