(* ===== verification/Manager.thy ===== *)
theory Manager
  imports Claim Ledger
begin

text \<open>
  \<open>ClaimManager\<close> of \<open>claim/manager.rs\<close>: the ledger of active requests, active leases and archived
  leases, the mint of claim ids, and the evaluation that grants or denies a request.
\<close>

section \<open>State\<close>

record claim_manager =
  cm_index :: "index option"
  cm_requests :: "claim_request list"
  cm_leases :: "lease list"
  cm_released :: "lease list"
  cm_next_id :: u64

definition cm_new :: claim_manager where
  "cm_new = \<lparr>cm_index = None, cm_requests = [], cm_leases = [], cm_released = [], cm_next_id = 1\<rparr>"

definition cm_with_index :: "index \<Rightarrow> claim_manager" where
  "cm_with_index ix = cm_new\<lparr>cm_index := Some ix\<rparr>"

definition cm_empty :: "claim_manager \<Rightarrow> bool" where
  "cm_empty m = (cm_requests m = [] \<and> cm_leases m = [])"

definition bind_index :: "claim_manager \<Rightarrow> index \<Rightarrow> claim_manager" where
  "bind_index m ix = m\<lparr>cm_index := Some ix\<rparr>"

definition cm_clear :: "claim_manager \<Rightarrow> claim_manager" where
  "cm_clear m = m\<lparr>cm_requests := [], cm_leases := [], cm_released := []\<rparr>"

section \<open>Persistence\<close>

record cm_snapshot =
  sn_active_requests :: "claim_request list"
  sn_active_leases :: "lease list"
  sn_released_leases :: "lease list"
  sn_next_id :: u64

definition cm_snapshot :: "claim_manager \<Rightarrow> cm_snapshot" where
  "cm_snapshot m =
     \<lparr>sn_active_requests = cm_requests m, sn_active_leases = cm_leases m,
      sn_released_leases = cm_released m, sn_next_id = cm_next_id m\<rparr>"

definition cm_restore :: "cm_snapshot \<Rightarrow> index option \<Rightarrow> claim_manager" where
  "cm_restore s oix =
     \<lparr>cm_index = oix, cm_requests = sn_active_requests s, cm_leases = sn_active_leases s,
      cm_released = sn_released_leases s, cm_next_id = max (sn_next_id s) 1\<rparr>"

section \<open>Requests\<close>

definition upsert_request :: "claim_manager \<Rightarrow> claim_request \<Rightarrow> claim_manager" where
  "upsert_request m r =
     m\<lparr>cm_requests := replace_or_push (\<lambda>x. cr_id x = cr_id r) r (cm_requests m)\<rparr>"

definition add_request :: "claim_manager \<Rightarrow> claim_request \<Rightarrow> claim_manager" where
  "add_request m r = upsert_request m r"

definition same_robot_ground :: "claim_request \<Rightarrow> claim_request \<Rightarrow> bool" where
  \<comment> \<open>the closure of \<open>upsert_request_for_robot\<close>\<close>
  "same_robot_ground r active =
     (cr_robot_id active = cr_robot_id r \<and> same_target_set (cr_targets active) (cr_targets r))"

definition upsert_request_for_robot :: "claim_manager \<Rightarrow> claim_request \<Rightarrow> bool \<times> claim_manager" where
  "upsert_request_for_robot m r =
     (list_ex (same_robot_ground r) (cm_requests m),
      m\<lparr>cm_requests := replace_or_push (same_robot_ground r) r (cm_requests m)\<rparr>)"

definition remove_request :: "claim_manager \<Rightarrow> claim_id \<Rightarrow> bool \<times> claim_manager" where
  "remove_request m i =
     (case position (\<lambda>r. cr_id r = i) (cm_requests m) of
        None \<Rightarrow> (False, m)
      | Some pos \<Rightarrow>
          (True, m\<lparr>cm_requests := take pos (cm_requests m) @ drop (Suc pos) (cm_requests m)\<rparr>))"

definition remove_requests_for_robot :: "claim_manager \<Rightarrow> robot_id \<Rightarrow> u64 \<times> claim_manager" where
  "remove_requests_for_robot m robot =
     (let kept = filter (\<lambda>r. cr_robot_id r \<noteq> robot) (cm_requests m) in
      (of_nat (length (cm_requests m) - length kept), m\<lparr>cm_requests := kept\<rparr>))"

definition next_id_floor :: "claim_manager \<Rightarrow> u64" where
  "next_id_floor m =
     (let max_req = max_opt (map cr_id (cm_requests m));
          max_lease = max_opt (map le_claim_id (cm_leases m));
          top = (case (max_req, max_lease) of
                   (None, b) \<Rightarrow> b | (a, None) \<Rightarrow> a | (Some a, Some b) \<Rightarrow> Some (max a b))
      in max (case top of None \<Rightarrow> 1 | Some m \<Rightarrow> sat_add m 1) 1)"

definition next_request_id :: "claim_manager \<Rightarrow> claim_id \<times> claim_manager" where
  "next_request_id m =
     (let candidate = max (cm_next_id m) (next_id_floor m)
      in (candidate, m\<lparr>cm_next_id := sat_add candidate 1\<rparr>))"

definition release_request_for_robot_target ::
  "claim_manager \<Rightarrow> robot_id \<Rightarrow> uuid \<Rightarrow> bool \<times> claim_manager"
where
  "release_request_for_robot_target m robot resource =
     (case position (\<lambda>r. cr_robot_id r = robot
                      \<and> list_ex (\<lambda>t. ct_resource_id t = resource) (cr_targets r)) (cm_requests m) of
        None \<Rightarrow> (False, m)
      | Some pos \<Rightarrow>
          (True, m\<lparr>cm_requests := take pos (cm_requests m) @ drop (Suc pos) (cm_requests m)\<rparr>))"

definition request_expired :: "u64 \<Rightarrow> claim_request \<Rightarrow> bool" where
  "request_expired now r =
     (case cw_end_tick (cr_window r) of None \<Rightarrow> False | Some e \<Rightarrow> e \<le> now)"

definition expire_requests :: "claim_manager \<Rightarrow> u64 \<Rightarrow> u64 \<times> claim_manager" where
  "expire_requests m now =
     (let kept = filter (\<lambda>r. \<not> request_expired now r) (cm_requests m) in
      (of_nat (length (cm_requests m) - length kept), m\<lparr>cm_requests := kept\<rparr>))"

section \<open>Leases\<close>

definition upsert_lease :: "claim_manager \<Rightarrow> lease \<Rightarrow> claim_manager" where
  "upsert_lease m l =
     m\<lparr>cm_leases := replace_or_push (\<lambda>x. le_id x = le_id l) l (cm_leases m)\<rparr>"

definition add_lease :: "claim_manager \<Rightarrow> lease \<Rightarrow> claim_manager" where
  "add_lease m l = upsert_lease m l"

definition remove_lease :: "claim_manager \<Rightarrow> lease_id \<Rightarrow> bool \<times> claim_manager" where
  "remove_lease m i =
     (case position (\<lambda>l. le_id l = i) (cm_leases m) of
        None \<Rightarrow> (False, m)
      | Some pos \<Rightarrow>
          (True, m\<lparr>cm_leases := take pos (cm_leases m) @ drop (Suc pos) (cm_leases m)\<rparr>))"

definition archive_released :: "u64 option \<Rightarrow> lease \<Rightarrow> lease" where
  "archive_released tick l =
     l\<lparr>le_active := False, le_disposition := Released, le_released_at_tick := tick\<rparr>"

definition archive_expired :: "u64 \<Rightarrow> lease \<Rightarrow> lease" where
  "archive_expired now l =
     l\<lparr>le_active := False, le_disposition := Expired, le_released_at_tick := Some now\<rparr>"

definition archive_revoked :: "string \<Rightarrow> u64 \<Rightarrow> lease \<Rightarrow> lease" where
  "archive_revoked why tick l =
     l\<lparr>le_active := False, le_disposition := Revoked, le_revoked_at_tick := Some tick,
       le_released_at_tick := Some tick, le_revoke_reason := Some why\<rparr>"

definition release_leases_for_robot ::
  "claim_manager \<Rightarrow> robot_id \<Rightarrow> u64 option \<Rightarrow> u64 \<times> claim_manager"
where
  "release_leases_for_robot m robot tick =
     (case drain_loop (\<lambda>l. le_robot_id l = robot) (archive_released tick) 0 (cm_leases m)
             (cm_released m) 0 of
        (active, released, n) \<Rightarrow> (n, m\<lparr>cm_leases := active, cm_released := released\<rparr>))"

definition archive_at ::
  "(lease \<Rightarrow> lease) \<Rightarrow> claim_manager \<Rightarrow> lease_id \<Rightarrow> bool \<times> claim_manager"
where
  \<comment> \<open>the shared body of \<open>release_lease\<close> and \<open>revoke_lease\<close>\<close>
  "archive_at f m i =
     (case position (\<lambda>l. le_id l = i) (cm_leases m) of
        None \<Rightarrow> (False, m)
      | Some pos \<Rightarrow>
          (True, m\<lparr>cm_leases := take pos (cm_leases m) @ drop (Suc pos) (cm_leases m),
                   cm_released := cm_released m @ [f (cm_leases m ! pos)]\<rparr>))"

definition release_lease :: "claim_manager \<Rightarrow> lease_id \<Rightarrow> u64 option \<Rightarrow> bool \<times> claim_manager" where
  "release_lease m i tick = archive_at (archive_released tick) m i"

definition revoke_lease ::
  "claim_manager \<Rightarrow> lease_id \<Rightarrow> string \<Rightarrow> u64 \<Rightarrow> bool \<times> claim_manager"
where
  "revoke_lease m i why tick = archive_at (archive_revoked why tick) m i"

definition lease_expired :: "u64 \<Rightarrow> lease \<Rightarrow> bool" where
  "lease_expired now l = (case le_expires_at_tick l of None \<Rightarrow> False | Some t \<Rightarrow> t \<le> now)"

definition expire_leases :: "claim_manager \<Rightarrow> u64 \<Rightarrow> u64 \<times> claim_manager" where
  "expire_leases m now =
     (case drain_loop (lease_expired now) (archive_expired now) 0 (cm_leases m) (cm_released m) 0 of
        (active, released, n) \<Rightarrow> (n, m\<lparr>cm_leases := active, cm_released := released\<rparr>))"

definition refresh_lease ::
  "claim_manager \<Rightarrow> lease_id \<Rightarrow> u64 \<Rightarrow> u64 option \<Rightarrow> bool \<times> claim_manager"
where
  "refresh_lease m i tick expires =
     (list_ex (\<lambda>l. le_id l = i) (cm_leases m),
      m\<lparr>cm_leases := update_first (\<lambda>l. le_id l = i)
          (\<lambda>l. (l\<lparr>le_refreshed_at_tick := Some tick\<rparr>)
                 \<lparr>le_expires_at_tick := (if expires \<noteq> None then expires else le_expires_at_tick l)\<rparr>)
          (cm_leases m)\<rparr>)"

section \<open>Lookups\<close>

definition find_request :: "claim_manager \<Rightarrow> claim_id \<Rightarrow> claim_request option" where
  "find_request m i = find (\<lambda>r. cr_id r = i) (cm_requests m)"

definition find_lease :: "claim_manager \<Rightarrow> lease_id \<Rightarrow> lease option" where
  "find_lease m i = find (\<lambda>l. le_id l = i) (cm_leases m)"

definition find_released_lease :: "claim_manager \<Rightarrow> lease_id \<Rightarrow> lease option" where
  "find_released_lease m i = find (\<lambda>l. le_id l = i) (cm_released m)"

definition leases_for_robot :: "claim_manager \<Rightarrow> robot_id \<Rightarrow> lease list" where
  "leases_for_robot m robot = filter (\<lambda>l. le_robot_id l = robot) (cm_leases m)"

definition lease_for_claim :: "claim_manager \<Rightarrow> claim_id \<Rightarrow> lease option" where
  "lease_for_claim m i = find (\<lambda>l. le_claim_id l = i) (cm_leases m)"

section \<open>Evaluation\<close>

record capacity_violation =
  cv_target :: claim_target
  cv_reason :: msg
  cv_conflicting_claim_id :: "claim_id option"
  cv_conflicting_lease_id :: "lease_id option"
  cv_diagnostics :: "msg list"
  cv_denied_by_capacity :: bool

definition evaluation_default :: evaluation where
  "evaluation_default =
     \<lparr>ev_decision = Grant, ev_reason = Lit [], ev_conflicting_claim_id = None,
      ev_conflicting_lease_id = None, ev_conflicting_targets = [], ev_blocking_target = None,
      ev_diagnostics = [], ev_denied_by_capacity = False\<rparr>"

definition capacity_eval :: "capacity_violation \<Rightarrow> evaluation" where
  "capacity_eval v =
     \<lparr>ev_decision = Deny, ev_reason = cv_reason v,
      ev_conflicting_claim_id = cv_conflicting_claim_id v,
      ev_conflicting_lease_id = cv_conflicting_lease_id v,
      ev_conflicting_targets = [cv_target v], ev_blocking_target = Some (cv_target v),
      ev_diagnostics = cv_diagnostics v, ev_denied_by_capacity = cv_denied_by_capacity v\<rparr>"

definition target_missing :: "index \<Rightarrow> claim_target \<Rightarrow> bool" where
  "target_missing ix t =
     (case ct_kind t of
        TZone \<Rightarrow> ix_zone ix (ct_resource_id t) = None
      | TNode \<Rightarrow> ix_node ix (ct_resource_id t) = None
      | TEdge \<Rightarrow> ix_edge ix (ct_resource_id t) = None)"

definition first_invalid_target :: "claim_manager \<Rightarrow> claim_request \<Rightarrow> claim_target option" where
  "first_invalid_target m r =
     (case cm_index m of None \<Rightarrow> None | Some ix \<Rightarrow> find (target_missing ix) (cr_targets r))"

text \<open>
  One pass of the two occupancy loops: the distinct robots so far, and the first entry that added
  one. \<open>BTreeSet::insert\<close> answers whether the robot is new.
\<close>

fun count_occupants ::
  "('a \<Rightarrow> bool) \<Rightarrow> ('a \<Rightarrow> robot_id) \<Rightarrow> ('a \<Rightarrow> u64) \<Rightarrow> 'a list \<Rightarrow> robot_id list \<times> u64 option
   \<Rightarrow> robot_id list \<times> u64 option"
where
  "count_occupants skip robot ident [] st = st"
| "count_occupants skip robot ident (x # xs) (occupants, blocking) =
     count_occupants skip robot ident xs
       (if skip x then (occupants, blocking)
        else if robot x \<in> set occupants then (occupants, blocking)
        else (robot x # occupants, if blocking = None then Some (ident x) else blocking))"

definition skip_request_edge :: "claim_request \<Rightarrow> claim_target \<Rightarrow> claim_request \<Rightarrow> bool" where
  "skip_request_edge r t active =
     (cr_id active = cr_id r \<or> cr_robot_id active = cr_robot_id r
      \<or> cr_access_mode active \<noteq> Shared
      \<or> \<not> claim_windows_overlap (cr_window r) (cr_window active)
      \<or> \<not> names_target (cr_targets active) t)"

definition skip_lease_edge :: "claim_request \<Rightarrow> claim_target \<Rightarrow> lease \<Rightarrow> bool" where
  "skip_lease_edge r t l =
     (\<not> le_active l \<or> le_robot_id l = cr_robot_id r \<or> le_access_mode l \<noteq> Shared
      \<or> \<not> claim_windows_overlap (cr_window r) (lease_window l)
      \<or> \<not> names_target (le_targets l) t)"

definition edge_capacity_violation ::
  "claim_manager \<Rightarrow> claim_request \<Rightarrow> claim_target \<Rightarrow> u64 \<Rightarrow> capacity_violation option"
where
  "edge_capacity_violation m r t cap =
     (let (occ1, claim) = count_occupants (skip_request_edge r t) cr_robot_id cr_id (cm_requests m)
                            ([cr_robot_id r], None);
          (occ, lease) = count_occupants (skip_lease_edge r t) le_robot_id le_id (cm_leases m)
                            (occ1, None)
      in if of_nat (length occ) > cap
         then Some \<lparr>cv_target = t, cv_reason = Lit ''shared edge capacity exceeded'',
                cv_conflicting_claim_id = claim, cv_conflicting_lease_id = lease,
                cv_diagnostics = Lit ''edge capacity limit reached'' # target_diagnostics (cm_index m) t
                  @ [Format ''configured capacity={}'' [AU64 cap],
                     Format ''observed occupancy={}'' [AU64 (of_nat (length occ))]],
                cv_denied_by_capacity = True\<rparr>
         else None)"

fun edge_capacity_loop ::
  "claim_manager \<Rightarrow> index \<Rightarrow> claim_request \<Rightarrow> claim_target list \<Rightarrow> capacity_violation option"
where
  "edge_capacity_loop m ix r [] = None"
| "edge_capacity_loop m ix r (t # ts) =
     (if ct_kind t \<noteq> TEdge then edge_capacity_loop m ix r ts
      else case ix_edge_traffic ix (ct_resource_id t) of
             None \<Rightarrow> None
           | Some s \<Rightarrow>
               if \<not> es_capacity_is_explicit s \<or> unwrap_or (es_capacity s) 0 \<le> 1
               then edge_capacity_loop m ix r ts
               else (case edge_capacity_violation m r t (unwrap_or (es_capacity s) 0) of
                       Some v \<Rightarrow> Some v
                     | None \<Rightarrow> edge_capacity_loop m ix r ts))"

definition first_edge_capacity_violation ::
  "claim_manager \<Rightarrow> claim_request \<Rightarrow> capacity_violation option"
where
  "first_edge_capacity_violation m r =
     (case cm_index m of
        None \<Rightarrow> None
      | Some ix \<Rightarrow>
          if cr_access_mode r \<noteq> Shared then None else edge_capacity_loop m ix r (cr_targets r))"

text \<open>The zones a target puts the robot inside, without their ancestors.\<close>

definition target_zones :: "index \<Rightarrow> claim_target \<Rightarrow> uuid list" where
  "target_zones ix t =
     (case ct_kind t of
        TZone \<Rightarrow> [ct_resource_id t]
      | TNode \<Rightarrow> map z_id (zones_of_node ix (ct_resource_id t))
      | TEdge \<Rightarrow> map z_id (zones_of_edge ix (ct_resource_id t)))"

text \<open>The closure \<open>add\<close>: a zone, then its ancestors, each once. None: the walk up does not end.\<close>

fun occupy :: "index \<Rightarrow> uuid list \<Rightarrow> uuid list \<Rightarrow> uuid list option" where
  "occupy ix out [] = Some out"
| "occupy ix out (z # zs) =
     (case ancestor_zones ix z of
        None \<Rightarrow> None
      | Some up \<Rightarrow> occupy ix (push_unseen out (z # map z_id up)) zs)"

definition occupied_zones :: "claim_manager \<Rightarrow> claim_request \<Rightarrow> uuid list option" where
  "occupied_zones m r =
     (case cm_index m of
        None \<Rightarrow> Some []
      | Some ix \<Rightarrow> occupy ix [] (concat (map (target_zones ix) (cr_targets r))))"

definition skip_request_zone :: "index \<Rightarrow> claim_request \<Rightarrow> uuid \<Rightarrow> claim_request \<Rightarrow> bool" where
  "skip_request_zone ix r zid active =
     (cr_id active = cr_id r \<or> cr_robot_id active = cr_robot_id r
      \<or> \<not> claim_windows_overlap (cr_window r) (cr_window active)
      \<or> \<not> targets_occupy_zone ix (cr_targets active) zid)"

definition skip_lease_zone :: "index \<Rightarrow> claim_request \<Rightarrow> uuid \<Rightarrow> lease \<Rightarrow> bool" where
  "skip_lease_zone ix r zid l =
     (\<not> le_active l \<or> le_robot_id l = cr_robot_id r
      \<or> \<not> claim_windows_overlap (cr_window r) (lease_window l)
      \<or> \<not> targets_occupy_zone ix (le_targets l) zid)"

definition zone_occupancy_violation ::
  "claim_manager \<Rightarrow> index \<Rightarrow> claim_request \<Rightarrow> uuid \<Rightarrow> u64 \<Rightarrow> capacity_violation option"
where
  "zone_occupancy_violation m ix r zid limit =
     (let (occ1, claim) = count_occupants (skip_request_zone ix r zid) cr_robot_id cr_id
                            (cm_requests m) ([cr_robot_id r], None);
          (occ, lease) = count_occupants (skip_lease_zone ix r zid) le_robot_id le_id (cm_leases m)
                            (occ1, None)
      in if of_nat (length occ) > limit
         then (let t = \<lparr>ct_kind = TZone, ct_resource_id = zid\<rparr>; single = limit \<le> 1 in
               Some \<lparr>cv_target = t,
                 cv_reason = (if single then Lit ''conflicts with an occupant of an exclusive zone''
                              else Lit ''zone capacity exceeded''),
                 cv_conflicting_claim_id = claim, cv_conflicting_lease_id = lease,
                 cv_diagnostics =
                   (if single then Lit ''zone admits one occupant at a time''
                    else Lit ''zone occupancy limit reached'')
                   # target_diagnostics (cm_index m) t
                   @ [Format ''configured capacity={limit}'' [AU64 limit],
                      Format ''observed occupancy={}'' [AU64 (of_nat (length occ))]],
                 cv_denied_by_capacity = (\<not> single)\<rparr>)
         else None)"

fun occupancy_loop ::
  "claim_manager \<Rightarrow> index \<Rightarrow> claim_request \<Rightarrow> uuid list \<Rightarrow> capacity_violation option"
where
  "occupancy_loop m ix r [] = None"
| "occupancy_loop m ix r (zid # zs) =
     (case ix_zone_policy ix zid of
        None \<Rightarrow> occupancy_loop m ix r zs
      | Some policy \<Rightarrow>
          (case zone_occupancy_limit policy of
             None \<Rightarrow> occupancy_loop m ix r zs
           | Some limit \<Rightarrow>
               (case zone_occupancy_violation m ix r zid limit of
                  Some v \<Rightarrow> Some v
                | None \<Rightarrow> occupancy_loop m ix r zs)))"

definition first_occupancy_violation ::
  "claim_manager \<Rightarrow> claim_request \<Rightarrow> capacity_violation option option"
where
  "first_occupancy_violation m r =
     (case cm_index m of
        None \<Rightarrow> Some None
      | Some ix \<Rightarrow> map_option (occupancy_loop m ix r) (occupied_zones m r))"

definition deny_conflict ::
  "claim_manager \<Rightarrow> string \<Rightarrow> claim_id option \<Rightarrow> lease_id option \<Rightarrow> claim_target list \<Rightarrow> evaluation"
where
  "deny_conflict m source claim lease conflicts =
     \<lparr>ev_decision = Deny, ev_reason = describe_conflict_reason source conflicts,
      ev_conflicting_claim_id = claim, ev_conflicting_lease_id = lease,
      ev_conflicting_targets = conflicts,
      ev_blocking_target = (case conflicts of [] \<Rightarrow> None | t # _ \<Rightarrow> Some t),
      ev_diagnostics = build_conflict_diagnostics (cm_index m) source conflicts,
      ev_denied_by_capacity = False\<rparr>"

definition request_blocks :: "claim_manager \<Rightarrow> claim_request \<Rightarrow> claim_request \<Rightarrow> bool" where
  "request_blocks m r active =
     (\<not> (cr_id active = cr_id r \<or> cr_robot_id active = cr_robot_id r)
      \<and> \<not> claims_compatible_for_index (cm_index m) r active)"

definition lease_blocks :: "claim_manager \<Rightarrow> claim_request \<Rightarrow> lease \<Rightarrow> bool" where
  "lease_blocks m r l =
     (\<not> (\<not> le_active l \<or> le_robot_id l = cr_robot_id r)
      \<and> \<not> claims_compatible_for_index (cm_index m) r (lease_as_request_view l))"

definition evaluate_request :: "claim_manager \<Rightarrow> claim_request \<Rightarrow> evaluation option" where
  "evaluate_request m r =
     (if cr_targets r = [] then
        Some (evaluation_default\<lparr>ev_decision := Deny,
          ev_reason := Lit ''claim request does not contain any targets'',
          ev_diagnostics := [Lit ''request has no claim targets'']\<rparr>)
      else case first_invalid_target m r of
        Some t \<Rightarrow>
          Some (evaluation_default\<lparr>ev_decision := Deny,
            ev_reason := Lit ''claim request references a missing workspace resource'',
            ev_conflicting_targets := [t], ev_blocking_target := Some t,
            ev_diagnostics := [Lit ''request target does not exist in current workspace index'']\<rparr>)
      | None \<Rightarrow>
        (case find (request_blocks m r) (cm_requests m) of
           Some active \<Rightarrow>
             Some (deny_conflict m ''active request'' (Some (cr_id active)) None
                     (conflicts_including_cross_level (cm_index m) r active))
         | None \<Rightarrow>
           (case find (lease_blocks m r) (cm_leases m) of
              Some l \<Rightarrow>
                Some (deny_conflict m ''granted lease'' None (Some (le_id l))
                        (conflicts_including_cross_level (cm_index m) r (lease_as_request_view l)))
            | None \<Rightarrow>
              (case first_edge_capacity_violation m r of
                 Some v \<Rightarrow> Some (capacity_eval v)
               | None \<Rightarrow>
                 (case first_occupancy_violation m r of
                    None \<Rightarrow> None
                  | Some (Some v) \<Rightarrow> Some (capacity_eval v)
                  | Some None \<Rightarrow>
                      Some (evaluation_default\<lparr>ev_decision := Grant,
                        ev_reason := Lit ''claim is compatible with current state'',
                        ev_diagnostics := [Lit ''request passed conflict and capacity checks'']\<rparr>))))))"

section \<open>The two ledgers\<close>

lemma remove_at_position:
  "position p xs = Some i \<Longrightarrow> take i xs @ drop (Suc i) xs = remove_first p xs"
  by (induction xs arbitrary: i) (auto split: if_splits)

lemma position_None_find: "position p xs = None \<longleftrightarrow> find p xs = None"
  by (auto simp: position_None find_None_iff)

lemma position_find: "position p xs = Some i \<Longrightarrow> find p xs = Some (xs ! i)"
  by (induction xs arbitrary: i) (auto split: if_splits)

lemma remove_request_alt:
  "remove_request m i =
     (find_request m i \<noteq> None, m\<lparr>cm_requests := remove_first (\<lambda>r. cr_id r = i) (cm_requests m)\<rparr>)"
  by (auto simp: remove_request_def find_request_def position_None_find remove_at_position
      remove_first_none position_find split: option.split)

lemma remove_lease_alt:
  "remove_lease m i =
     (find_lease m i \<noteq> None, m\<lparr>cm_leases := remove_first (\<lambda>l. le_id l = i) (cm_leases m)\<rparr>)"
  by (auto simp: remove_lease_def find_lease_def position_None_find remove_at_position
      remove_first_none position_find split: option.split)

interpretation requests: ledger cr_id cm_requests find_request upsert_request remove_request
  by unfold_locales (simp_all add: find_request_def upsert_request_def remove_request_alt)

interpretation leases: ledger le_id cm_leases find_lease upsert_lease remove_lease
  by unfold_locales (simp_all add: find_lease_def upsert_lease_def remove_lease_alt)

text \<open>
  The active requests are a partial map from claim ids: an upsert updates the map at the request's
  id whatever was there, and when ids are unique a removal answers whether the id was there and
  leaves the map without it.
\<close>

theorem request_ledger_map:
  assumes "distinct (map cr_id (cm_requests m))"
  shows "find_request (upsert_request m r) = (find_request m)(cr_id r \<mapsto> r)
    \<and> find_request (snd (remove_request m i)) = (find_request m)(i := None)
    \<and> fst (remove_request m i) = (find_request m i \<noteq> None)
    \<and> distinct (map cr_id (cm_requests (upsert_request m r)))"
  using requests.view_upsert [of m r] requests.view_remove [of m i] requests.unique_upsert [of m r] assms
  by (simp add: requests.view_def requests.unique_keys_def requests.removed_flag)

theorem request_ledger_map_witness:
  "find_request (snd (remove_request (upsert_request cm_new (request_default\<lparr>cr_id := 4\<rparr>)) 4)) 4 = None"
proof -
  let ?m = "upsert_request cm_new (request_default\<lparr>cr_id := 4\<rparr>)"
  have "distinct (map cr_id (cm_requests ?m))"
    by (simp add: upsert_request_def cm_new_def)
  from request_ledger_map [OF this, of request_default 4] show ?thesis by simp
qed

section \<open>Archiving leases\<close>

lemma release_leases_spec:
  "release_leases_for_robot m robot t =
     (of_nat (length (leases_for_robot m robot)),
      m\<lparr>cm_leases := filter (\<lambda>l. le_robot_id l \<noteq> robot) (cm_leases m),
        cm_released := cm_released m @ map (archive_released t) (leases_for_robot m robot)\<rparr>)"
  by (simp add: release_leases_for_robot_def drain_loop_0 leases_for_robot_def)

lemma expire_leases_spec:
  "expire_leases m now =
     (of_nat (length (filter (lease_expired now) (cm_leases m))),
      m\<lparr>cm_leases := filter (\<lambda>l. \<not> lease_expired now l) (cm_leases m),
        cm_released := cm_released m
          @ map (archive_expired now) (filter (lease_expired now) (cm_leases m))\<rparr>)"
  by (simp add: expire_leases_def drain_loop_0)

text \<open>Every lease the manager knows, active or archived.\<close>

definition lease_ids :: "claim_manager \<Rightarrow> lease_id multiset" where
  "lease_ids m = mset (map le_id (cm_leases m)) + mset (map le_id (cm_released m))"

lemma archive_ids [simp]:
  "le_id (archive_released t l) = le_id l" "le_id (archive_expired n l) = le_id l"
  "le_id (archive_revoked w n l) = le_id l"
  "\<not> le_active (archive_released t l)" "\<not> le_active (archive_expired n l)"
  "\<not> le_active (archive_revoked w n l)"
  by (simp_all add: archive_released_def archive_expired_def archive_revoked_def)

lemma mset_filter_map:
  "image_mset f (filter_mset p (mset xs)) + image_mset f (filter_mset (\<lambda>x. \<not> p x) (mset xs)) = image_mset f (mset xs)"
  by (metis image_mset_union multiset_partition)

lemma archive_at_ids:
  "(\<And>l. le_id (f l) = le_id l) \<Longrightarrow> lease_ids (snd (archive_at f m i)) = lease_ids m"
proof (cases "position (\<lambda>l. le_id l = i) (cm_leases m)")
  case (Some pos)
  assume f: "\<And>l. le_id (f l) = le_id l"
  have "mset (cm_leases m) = add_mset (cm_leases m ! pos) (mset (remove_first (\<lambda>l. le_id l = i) (cm_leases m)))"
    by (rule mset_remove_first [OF position_find [OF Some]])
  then have "image_mset le_id (mset (cm_leases m)) =
      image_mset le_id (add_mset (cm_leases m ! pos) (mset (remove_first (\<lambda>l. le_id l = i) (cm_leases m))))"
    by (rule arg_cong)
  with Some f show ?thesis
    by (simp add: archive_at_def lease_ids_def remove_at_position)
qed (simp add: archive_at_def lease_ids_def)

lemma release_ids: "lease_ids (snd (release_leases_for_robot m robot t)) = lease_ids m"
  using mset_filter_map [of le_id "\<lambda>l. le_robot_id l = robot" "cm_leases m"]
  by (simp add: release_leases_spec leases_for_robot_def lease_ids_def o_def ac_simps
      image_mset.compositionality)

lemma expire_ids: "lease_ids (snd (expire_leases m now)) = lease_ids m"
  using mset_filter_map [of le_id "lease_expired now" "cm_leases m"]
  by (simp add: expire_leases_spec lease_ids_def o_def ac_simps image_mset.compositionality)

text \<open>
  No lease is lost or duplicated: releasing a robot's leases, expiring leases, releasing and
  revoking one all keep the multiset of lease ids over the active and the archived leases.
\<close>

theorem leases_conserved:
  "lease_ids (snd (release_leases_for_robot m robot t)) = lease_ids m
   \<and> lease_ids (snd (expire_leases m now)) = lease_ids m
   \<and> lease_ids (snd (release_lease m i t)) = lease_ids m
   \<and> lease_ids (snd (revoke_lease m i why n)) = lease_ids m"
  by (simp add: release_ids expire_ids release_lease_def revoke_lease_def archive_at_ids)

text \<open>
  Expiring leases at a tick archives exactly the leases whose expiry has come, in their order,
  as inactive, expired at that tick; the others stay as they were, and the count is the number archived.
\<close>

theorem expire_leases_exact:
  "expire_leases m now =
     (of_nat (length (filter (lease_expired now) (cm_leases m))),
      m\<lparr>cm_leases := filter (\<lambda>l. \<not> lease_expired now l) (cm_leases m),
        cm_released := cm_released m
          @ map (archive_expired now) (filter (lease_expired now) (cm_leases m))\<rparr>)"
  by (rule expire_leases_spec)

section \<open>Persistence and the mint\<close>

text \<open>
  A manager restored from its snapshot with its own index is the manager it was, with the id
  counter floored at one.
\<close>

theorem restore_snapshot:
  "cm_restore (cm_snapshot m) (cm_index m) = m\<lparr>cm_next_id := max (cm_next_id m) 1\<rparr>"
  by (simp add: cm_restore_def cm_snapshot_def)

definition live_ids :: "claim_manager \<Rightarrow> u64 set" where
  "live_ids m = cr_id ` set (cm_requests m) \<union> le_claim_id ` set (cm_leases m)"

lemma sat_add_1_gt_or_max: "a < sat_add a 1 \<or> a = u64_max"
  using sat_add_1_gt by auto

lemma next_id_floor_gt:
  assumes "i \<in> live_ids m"
  shows "i < next_id_floor m \<or> next_id_floor m = u64_max"
proof -
  let ?a = "max_opt (map cr_id (cm_requests m))" and ?b = "max_opt (map le_claim_id (cm_leases m))"
  define top where "top = (case (?a, ?b) of
    (None, b) \<Rightarrow> b | (a, None) \<Rightarrow> a | (Some a, Some b) \<Rightarrow> Some (max a b))"
  have fl: "next_id_floor m = max (case top of None \<Rightarrow> 1 | Some m \<Rightarrow> sat_add m 1) 1"
    by (simp add: next_id_floor_def Let_def top_def)
  have "(\<exists>a. ?a = Some a \<and> i \<le> a) \<or> (\<exists>b. ?b = Some b \<and> i \<le> b)"
    using assms by (auto simp: live_ids_def max_opt_def intro: foldr_max_ge)
  then have "\<exists>t. top = Some t \<and> i \<le> t"
    by (auto simp: top_def le_max_iff_disj split: option.split)
  with fl have "\<exists>t. i \<le> t \<and> next_id_floor m = max (sat_add t 1) 1" by auto
  then obtain t where t: "i \<le> t" "next_id_floor m = max (sat_add t 1) 1" by blast
  from sat_add_1_gt_or_max [of t] show ?thesis
  proof
    assume "t < sat_add t 1"
    with t show ?thesis by (auto simp: less_max_iff_disj)
  qed (use t in simp)
qed

lemma mint_fresh:
  assumes "fst (next_request_id m) \<noteq> u64_max"
  shows "fst (next_request_id m) \<notin> live_ids m
    \<and> (\<forall>i \<in> live_ids m. i < fst (next_request_id m))
    \<and> cm_next_id m \<le> fst (next_request_id m)
    \<and> fst (next_request_id m) < cm_next_id (snd (next_request_id m))"
proof -
  let ?c = "max (cm_next_id m) (next_id_floor m)"
  have c: "?c \<noteq> u64_max" using assms by (simp add: next_request_id_def Let_def)
  have gt: "i < ?c" if "i \<in> live_ids m" for i
    using next_id_floor_gt [OF that] c by (auto simp: max_def split: if_splits)
  then have "?c \<notin> live_ids m" by blast
  moreover have "?c < sat_add ?c 1" using c by (rule sat_add_1_gt)
  ultimately show ?thesis
    using gt by (simp add: next_request_id_def Let_def)
qed

text \<open>
  Unless it is \<open>u64::MAX\<close>, a minted id is above the id of every active request and the claim id
  of every active lease, and the counter only grows.
\<close>

theorem next_request_id_fresh:
  assumes "fst (next_request_id m) \<noteq> u64_max"
  shows "fst (next_request_id m) \<notin> live_ids m
    \<and> (\<forall>i \<in> live_ids m. i < fst (next_request_id m))
    \<and> cm_next_id m \<le> fst (next_request_id m)
    \<and> fst (next_request_id m) < cm_next_id (snd (next_request_id m))"
  by (rule mint_fresh [OF assms])

section \<open>When a request is granted\<close>

text \<open>The conditions of a grant, each on its own.\<close>

definition grant_conditions :: "claim_manager \<Rightarrow> claim_request \<Rightarrow> bool" where
  "grant_conditions m r =
     (cr_targets r \<noteq> [] \<and> first_invalid_target m r = None
      \<and> list_all (\<lambda>a. \<not> request_blocks m r a) (cm_requests m)
      \<and> list_all (\<lambda>l. \<not> lease_blocks m r l) (cm_leases m)
      \<and> first_edge_capacity_violation m r = None
      \<and> first_occupancy_violation m r = Some None)"

lemma find_SomeD: "find p xs = Some x \<Longrightarrow> x \<in> set xs \<and> p x"
  by (induction xs) (auto split: if_splits)

definition grants :: "claim_manager \<Rightarrow> claim_request \<Rightarrow> bool" where
  "grants m r =
     (case evaluate_request m r of None \<Rightarrow> False | Some ev \<Rightarrow> ev_decision ev = Grant)"

lemma grant_iff: "grants m r = grant_conditions m r"
  by (auto simp: grants_def evaluate_request_def grant_conditions_def evaluation_default_def deny_conflict_def
      capacity_eval_def list_all_iff find_None_iff dest: find_SomeD split: option.splits)

end
