(* ===== verification/Schedule.thy ===== *)
theory Schedule
  imports Robot Manager
begin

text \<open>
  The free functions of \<open>coordinator.rs\<close>: the traffic rules of one claim target, the reservation
  windows of a route, the decision to proceed, queue or replan against the ledger, the rolling
  horizon request of a robot, the leases it has driven past, and the arbitration of two robots.

  A loop over the ancestors of a zone may not end (see \<open>ancestor_zones\<close> in the index), so what
  walks them is an \<open>option\<close> with \<^term>\<open>None\<close> for not returning. A plain \<open>+\<close> on ticks wraps, as in a
  release build.
\<close>

section \<open>Semantics of a target\<close>

record target_semantics =
  ts_target :: claim_target
  ts_requires_claim :: bool
  ts_waiting_allowed :: bool
  ts_stop_allowed :: bool
  ts_blocked :: bool
  ts_corridor :: bool
  ts_slowdown :: bool
  ts_schedule_window :: "string option"
  ts_access_group :: "string option"

definition semantics_default :: "claim_target \<Rightarrow> target_semantics" where
  "semantics_default t =
     \<lparr>ts_target = t, ts_requires_claim = False, ts_waiting_allowed = True, ts_stop_allowed = True,
      ts_blocked = False, ts_corridor = False, ts_slowdown = False, ts_schedule_window = None,
      ts_access_group = None\<rparr>"

definition is_slow_limit :: "f64 option \<Rightarrow> bool" where
  \<comment> \<open>\<open>speed_limit.map(|v| v < 1.0).unwrap_or(false)\<close>\<close>
  "is_slow_limit v = map_or False (\<lambda>x. f64_lt x (Fin 1)) v"

definition policy_blocks :: "zone_policy \<Rightarrow> bool" where
  "policy_blocks p =
     (unwrap_or (zp_blocked p) False \<or> zp_blocks_entry p \<or> zp_blocks_traversal p)"

definition zone_semantics :: "claim_target \<Rightarrow> zone_policy \<Rightarrow> target_semantics" where
  "zone_semantics t p =
     \<lparr>ts_target = t, ts_requires_claim = zp_requires_claim p,
      ts_waiting_allowed = unwrap_or (zp_waiting_allowed p) True,
      ts_stop_allowed = unwrap_or (zp_stop_allowed p) (\<not> unwrap_or (zp_blocked p) False),
      ts_blocked = policy_blocks p,
      ts_corridor = (zp_kind p = Corridor),
      ts_slowdown = (zp_kind p = Slowdown \<or> is_slow_limit (zp_speed_limit p)),
      ts_schedule_window = zp_schedule_window p, ts_access_group = zp_access_group p\<rparr>"

definition edge_target_semantics :: "claim_target \<Rightarrow> edge_semantics \<Rightarrow> target_semantics" where
  "edge_target_semantics t s =
     \<lparr>ts_target = t, ts_requires_claim = unwrap_or (es_requires_claim s) False,
      ts_waiting_allowed = unwrap_or (es_waiting_allowed s) True,
      ts_stop_allowed = unwrap_or (es_stop_allowed s) (\<not> unwrap_or (es_blocked s) False),
      ts_blocked = unwrap_or (es_blocked s) False,
      ts_corridor = (es_lane_type s = Some ''corridor''),
      ts_slowdown = is_slow_limit (es_speed_limit s),
      ts_schedule_window = es_schedule_window s, ts_access_group = es_access_group s\<rparr>"

definition node_semantics_step :: "target_semantics \<Rightarrow> zone \<Rightarrow> target_semantics" where
  "node_semantics_step s z =
     (let p = parse_zone_policy (z_properties z) in
      s\<lparr>ts_requires_claim := ts_requires_claim s \<or> zp_requires_claim p,
        ts_waiting_allowed := ts_waiting_allowed s \<and> unwrap_or (zp_waiting_allowed p) True,
        ts_stop_allowed := ts_stop_allowed s \<and> unwrap_or (zp_stop_allowed p) True,
        ts_blocked := ts_blocked s \<or> policy_blocks p,
        ts_corridor := ts_corridor s \<or> zp_kind p = Corridor,
        ts_slowdown := ts_slowdown s \<or> zp_kind p = Slowdown \<or> is_slow_limit (zp_speed_limit p),
        ts_schedule_window :=
          (if ts_schedule_window s = None then zp_schedule_window p else ts_schedule_window s),
        ts_access_group :=
          (if ts_access_group s = None then zp_access_group p else ts_access_group s)\<rparr>)"

definition claim_target_semantics :: "index \<Rightarrow> claim_target \<Rightarrow> target_semantics" where
  "claim_target_semantics ix t =
     (case ct_kind t of
        TZone \<Rightarrow>
          (case ix_zone ix (ct_resource_id t) of
             None \<Rightarrow> semantics_default t
           | Some z \<Rightarrow> zone_semantics t (parse_zone_policy (z_properties z)))
      | TEdge \<Rightarrow>
          (case ix_edge ix (ct_resource_id t) of
             None \<Rightarrow> semantics_default t
           | Some e \<Rightarrow>
               edge_target_semantics t (derive_effective_edge_semantics (ed_properties e) False
                 (map (\<lambda>z. parse_zone_policy (z_properties z)) (zones_of_edge ix (ct_resource_id t)))))
      | TNode \<Rightarrow>
          foldl node_semantics_step (semantics_default t) (zones_of_node ix (ct_resource_id t)))"

section \<open>The reservation windows of a route\<close>

record target_window =
  tw_semantics :: target_semantics
  tw_start_tick :: u64
  tw_end_tick :: u64

definition cost_ticks :: "f64 \<Rightarrow> f64 \<Rightarrow> u64" where
  \<comment> \<open>\<open>(cost * ticks_per_cost_unit).max(0.0).ceil() as u64\<close>\<close>
  "cost_ticks cost unit_ticks = f64_as_u64 (f64_ceil (f64_max (f64_mul cost unit_ticks) f64_zero))"

definition tick_at_step :: "route_plan \<Rightarrow> u64 \<Rightarrow> f64 \<Rightarrow> nat \<Rightarrow> u64" where
  "tick_at_step plan start unit_ticks i =
     (if length (rp_steps plan) \<le> i then start
      else start + cost_ticks (st_cumulative_cost (rp_steps plan ! i)) unit_ticks)"

definition mk_window :: "index \<Rightarrow> target_kind \<Rightarrow> u64 \<Rightarrow> u64 \<Rightarrow> uuid \<Rightarrow> target_window" where
  "mk_window ix kind s e r =
     \<lparr>tw_semantics = claim_target_semantics ix \<lparr>ct_kind = kind, ct_resource_id = r\<rparr>,
      tw_start_tick = s, tw_end_tick = e\<rparr>"

definition zone_windows :: "index \<Rightarrow> uuid list list \<Rightarrow> nat \<Rightarrow> u64 \<Rightarrow> u64 \<Rightarrow> target_window list" where
  "zone_windows ix zss i s e =
     (if i < length zss then map (mk_window ix TZone s e) (zss ! i) else [])"

definition step_windows ::
  "index \<Rightarrow> route_plan \<Rightarrow> u64 \<Rightarrow> f64 \<Rightarrow> nat \<times> uuid \<Rightarrow> target_window list"
where
  "step_windows ix plan start unit_ticks iv =
     (let (i, node_id) = iv;
          window_start = tick_at_step plan start unit_ticks i;
          next_tick = (if i + 1 < length (rp_steps plan)
                       then tick_at_step plan start unit_ticks (i + 1) else window_start);
          window_end = max window_start next_tick;
          edge_end = max window_start (tick_at_step plan start unit_ticks (i + 1))
      in mk_window ix TNode window_start window_end node_id
         # zone_windows ix (rp_node_zone_ids plan) i window_start window_end
         @ (if i < length (rp_edge_ids plan)
            then mk_window ix TEdge window_start edge_end (rp_edge_ids plan ! i)
                 # zone_windows ix (rp_edge_zone_ids plan) i window_start edge_end
            else []))"

definition scheduled_target_windows_from_route ::
  "index \<Rightarrow> route_plan \<Rightarrow> u64 \<Rightarrow> f64 \<Rightarrow> target_window list"
where
  "scheduled_target_windows_from_route ix plan start unit_ticks =
     (if is_err (validate_route_plan_shape plan) then []
      else concat (map (step_windows ix plan start unit_ticks)
                     (List.enumerate 0 (rp_node_ids plan))))"

definition has_ancestor :: "index \<Rightarrow> uuid \<Rightarrow> uuid \<Rightarrow> bool option" where
  \<comment> \<open>\<open>index.ancestor_zones(z).iter().any(|a| a.id() == other)\<close>, when the zone exists\<close>
  "has_ancestor ix z other =
     (if ix_zone ix z = None then Some False
      else map_option (list_ex (\<lambda>a. z_id a = other)) (ancestor_zones ix z))"

definition claim_target_windows_overlap ::
  "claim_target \<Rightarrow> claim_window \<Rightarrow> claim_target \<Rightarrow> claim_window \<Rightarrow> index option \<Rightarrow> bool option"
where
  "claim_target_windows_overlap lhs lw rhs rw oix =
     (let lhs_start = unwrap_or (cw_start_tick lw) 0; rhs_start = unwrap_or (cw_start_tick rw) 0;
          lhs_end = unwrap_or (cw_end_tick lw) u64_max; rhs_end = unwrap_or (cw_end_tick rw) u64_max in
      if \<not> (lhs_start \<le> rhs_end \<and> rhs_start \<le> lhs_end) then Some False
      else if ct_kind lhs \<noteq> ct_kind rhs then Some False
      else if ct_resource_id lhs = ct_resource_id rhs then Some True
      else if ct_kind lhs \<noteq> TZone then Some False
      else case oix of
             None \<Rightarrow> Some False
           | Some ix \<Rightarrow>
               opt_bind (has_ancestor ix (ct_resource_id lhs) (ct_resource_id rhs)) (\<lambda>up.
                 if up then Some True
                 else has_ancestor ix (ct_resource_id rhs) (ct_resource_id lhs)))"

section \<open>Scheduling against the ledger\<close>

record schedule_conflict =
  sc_target :: claim_target
  sc_blocking_until_tick :: u64
  sc_conflicting_claim_id :: "claim_id option"
  sc_conflicting_lease_id :: "lease_id option"
  sc_diagnostics :: "msg list"

datatype schedule_kind = Proceed | Queue | Replan

record schedule_decision =
  sd_kind :: schedule_kind
  sd_start_tick :: u64
  sd_queue_position :: u64
  sd_conflicts :: "schedule_conflict list"
  sd_diagnostics :: "msg list"

definition decision_default :: schedule_decision where
  "decision_default =
     \<lparr>sd_kind = Proceed, sd_start_tick = 0, sd_queue_position = 0, sd_conflicts = [],
      sd_diagnostics = []\<rparr>"

definition conflict_diagnostics :: "target_semantics \<Rightarrow> string \<Rightarrow> msg list" where
  "conflict_diagnostics s source =
     Format ''schedule conflict with {source}'' [AStr source]
     # (if ts_corridor s then [Lit ''corridor resources cannot be used for side waiting''] else [])
     @ (if \<not> ts_waiting_allowed s
        then [Lit ''waiting is not allowed on the blocking resource''] else [])
     @ (if \<not> ts_stop_allowed s
        then [Lit ''stopping is not allowed on the blocking resource''] else [])
     @ (if ts_blocked s then [Lit ''blocking resource is hard-restricted''] else [])
     @ (if ts_slowdown s then [Lit ''blocking resource applies slowdown semantics''] else [])
     @ (case ts_schedule_window s of
          None \<Rightarrow> [] | Some sw \<Rightarrow> [Format ''blocking schedule window={sw}'' [AStr sw]])"

text \<open>The conflicts so far and the latest blocking tick.\<close>

type_synonym conflict_state = "schedule_conflict list \<times> u64"

definition add_conflict ::
  "conflict_state \<Rightarrow> claim_target \<Rightarrow> u64 \<Rightarrow> claim_id option \<Rightarrow> lease_id option
   \<Rightarrow> target_semantics \<Rightarrow> string \<Rightarrow> conflict_state"
where
  "add_conflict st t blocking claim lease s source =
     (let (conflicts, latest) = st in
      (conflicts @ [\<lparr>sc_target = t, sc_blocking_until_tick = blocking,
                     sc_conflicting_claim_id = claim, sc_conflicting_lease_id = lease,
                     sc_diagnostics = conflict_diagnostics s source\<rparr>],
       if latest < blocking then blocking else latest))"

text \<open>A loop whose body may not return.\<close>

fun fold_opt :: "('a \<Rightarrow> 's \<Rightarrow> 's option) \<Rightarrow> 'a list \<Rightarrow> 's \<Rightarrow> 's option" where
  "fold_opt f [] s = Some s"
| "fold_opt f (x # xs) s = opt_bind (f x s) (fold_opt f xs)"

text \<open>The walk over the targets of one claim, which stops at the first overlap.\<close>

fun overlaps_any ::
  "index option \<Rightarrow> target_window \<Rightarrow> claim_window \<Rightarrow> claim_target list \<Rightarrow> bool option"
where
  "overlaps_any oix w other [] = Some False"
| "overlaps_any oix w other (t # ts) =
     opt_bind (claim_target_windows_overlap (ts_target (tw_semantics w))
         \<lparr>cw_start_tick = Some (tw_start_tick w), cw_end_tick = Some (tw_end_tick w)\<rparr> t other oix)
       (\<lambda>hit. if hit then Some True else overlaps_any oix w other ts)"

definition schedule_request_step ::
  "index option \<Rightarrow> claim_request \<Rightarrow> target_window \<Rightarrow> claim_request \<Rightarrow> conflict_state
   \<Rightarrow> conflict_state option"
where
  "schedule_request_step oix r w active st =
     (if cr_id active = cr_id r then Some st
      else map_option (\<lambda>hit.
             if hit
             then add_conflict st (ts_target (tw_semantics w))
                    (unwrap_or (cw_end_tick (cr_window active)) (tw_end_tick w))
                    (Some (cr_id active)) None (tw_semantics w) ''active request''
             else st)
             (overlaps_any oix w (cr_window active) (cr_targets active)))"

definition schedule_lease_step ::
  "index option \<Rightarrow> target_window \<Rightarrow> lease \<Rightarrow> conflict_state \<Rightarrow> conflict_state option"
where
  "schedule_lease_step oix w l st =
     (if \<not> le_active l then Some st
      else map_option (\<lambda>hit.
             if hit
             then add_conflict st (ts_target (tw_semantics w))
                    (unwrap_or (le_expires_at_tick l) (tw_end_tick w))
                    None (Some (le_id l)) (tw_semantics w) ''active lease''
             else st)
             (overlaps_any oix w (lease_window l) (le_targets l)))"

definition schedule_window_step ::
  "claim_manager \<Rightarrow> claim_request \<Rightarrow> target_window \<Rightarrow> conflict_state \<Rightarrow> conflict_state option"
where
  "schedule_window_step m r w st =
     opt_bind (fold_opt (schedule_request_step (cm_index m) r w) (cm_requests m) st)
       (fold_opt (schedule_lease_step (cm_index m) w) (cm_leases m))"

definition conflict_queueable :: "index \<Rightarrow> schedule_conflict \<Rightarrow> bool" where
  "conflict_queueable ix c =
     (let s = claim_target_semantics ix (sc_target c) in
      \<not> (ts_blocked s \<or> ts_corridor s \<or> \<not> ts_waiting_allowed s \<or> \<not> ts_stop_allowed s))"

definition schedule_route_request ::
  "index \<Rightarrow> claim_manager \<Rightarrow> claim_request \<Rightarrow> route_plan \<Rightarrow> u64 \<Rightarrow> f64 \<Rightarrow> schedule_decision option"
where
  "schedule_route_request ix m r plan start unit_ticks =
     map_option (\<lambda>(conflicts, latest).
       (let d = decision_default\<lparr>sd_start_tick := start, sd_conflicts := conflicts\<rparr> in
        if conflicts = [] then
          d\<lparr>sd_kind := Proceed,
            sd_diagnostics := [Lit ''route can proceed within the requested reservation window'']\<rparr>
        else if \<not> list_all (conflict_queueable ix) conflicts then
          d\<lparr>sd_kind := Replan,
            sd_diagnostics := [Lit ''schedule conflicts require replanning instead of queuing'']\<rparr>
        else
          d\<lparr>sd_kind := Queue, sd_start_tick := sat_add latest 1,
            sd_queue_position := of_nat (length conflicts) + 1,
            sd_diagnostics := [Lit ''route should wait for an available reservation window'']\<rparr>))
       (fold_opt (schedule_window_step m r)
          (scheduled_target_windows_from_route ix plan start unit_ticks) ([], start))"

section \<open>Acting on a decision\<close>

definition robot_missed_schedule_slot :: "robot_state \<Rightarrow> u64 \<Rightarrow> u64 \<Rightarrow> bool" where
  "robot_missed_schedule_slot s now grace =
     (case rs_scheduled_start_tick s of
        None \<Rightarrow> False
      | Some scheduled \<Rightarrow>
          scheduled + grace < now \<and> rs_progress_state s \<noteq> FollowingRoute
          \<and> rs_progress_state s \<noteq> Idle)"

definition apply_schedule_decision :: "robot_state \<Rightarrow> schedule_decision \<Rightarrow> u64 \<Rightarrow> robot_state" where
  "apply_schedule_decision s d now =
     (let s = s\<lparr>rs_updated_at_tick := now, rs_scheduled_start_tick := Some (sd_start_tick d),
                rs_wait_ticks := sat_sub (sd_start_tick d) now,
                rs_needs_replan := (sd_kind d = Replan)\<rparr> in
      case sd_kind d of
        Proceed \<Rightarrow>
          s\<lparr>rs_progress_state := (if rs_route_plan s \<noteq> None then FollowingRoute else Idle),
            rs_hold_reason := None\<rparr>
      | Queue \<Rightarrow>
          s\<lparr>rs_progress_state := Queued, rs_hold_reason := Some ''queued_for_reservation_window''\<rparr>
      | Replan \<Rightarrow>
          s\<lparr>rs_progress_state := MustReplan,
            rs_hold_reason := Some ''schedule_conflict_requires_replan''\<rparr>)"

section \<open>Progress along a route\<close>

definition route_progress_index :: "robot_state \<Rightarrow> u64" where
  "route_progress_index s =
     (case rs_route_plan s of
        None \<Rightarrow> rs_next_route_step_index s
      | Some plan \<Rightarrow>
          (case opt_bind (rs_current_node_id s) (\<lambda>c. position (\<lambda>i. i = c) (rp_node_ids plan)) of
             None \<Rightarrow> rs_next_route_step_index s
           | Some pos \<Rightarrow> of_nat pos))"

text \<open>A range of a vector: the elements from index \<open>i\<close> below \<open>j\<close>.\<close>

definition sublist :: "'a list \<Rightarrow> nat \<Rightarrow> nat \<Rightarrow> 'a list" where
  "sublist xs i j = take (j - i) (drop i xs)"

definition route_zone_targets_from_progress :: "route_plan \<Rightarrow> u64 \<Rightarrow> u64 \<Rightarrow> uuid list" where
  "route_zone_targets_from_progress plan start horizon =
     (let node_limit = min (length (rp_node_zone_ids plan)) (unat (start + horizon + 1));
          edge_limit = min (length (rp_edge_zone_ids plan)) (unat (start + horizon))
      in push_unseen (push_unseen []
           (concat (sublist (rp_node_zone_ids plan) (unat start) node_limit)))
           (concat (sublist (rp_edge_zone_ids plan) (unat start) edge_limit)))"

definition edge_target :: "uuid \<Rightarrow> claim_target" where
  "edge_target e = \<lparr>ct_kind = TEdge, ct_resource_id = e\<rparr>"

definition node_target :: "uuid \<Rightarrow> claim_target" where
  "node_target n = \<lparr>ct_kind = TNode, ct_resource_id = n\<rparr>"

definition claim_targets_from_route :: "route_plan \<Rightarrow> claim_target list" where
  "claim_targets_from_route plan =
     map edge_target (rp_edge_ids plan) @ map node_target (rp_node_ids plan)"

definition claim_window_from_route :: "route_plan \<Rightarrow> u64 \<Rightarrow> f64 \<Rightarrow> claim_window" where
  "claim_window_from_route plan start unit_ticks =
     \<lparr>cw_start_tick = Some start,
      cw_end_tick = Some (sat_add start (cost_ticks (rp_total_cost plan) unit_ticks))\<rparr>"

definition claim_request_from_route ::
  "claim_id \<Rightarrow> robot_id \<Rightarrow> mission_id \<Rightarrow> route_plan \<Rightarrow> u64 option \<Rightarrow> f64 \<Rightarrow> access_mode \<Rightarrow> claim_request"
where
  "claim_request_from_route cid rid mid plan start unit_ticks mode =
     (let r = request_default\<lparr>cr_id := cid, cr_robot_id := rid, cr_mission_id := mid,
                cr_access_mode := mode, cr_targets := claim_targets_from_route plan\<rparr> in
      case start of
        None \<Rightarrow> r
      | Some t \<Rightarrow> r\<lparr>cr_requested_at_tick := Some t,
                    cr_window := claim_window_from_route plan t unit_ticks\<rparr>)"

definition horizon_end :: "route_plan \<Rightarrow> nat \<Rightarrow> u64 \<Rightarrow> u64" where
  "horizon_end plan i now =
     (if i < length (rp_steps plan) then
        (let traversed = (if i = 0 then f64_zero else st_cumulative_cost (rp_steps plan ! i));
             remaining = f64_max (f64_sub (rp_total_cost plan) traversed) f64_zero
         in sat_add now (f64_as_u64 (f64_ceil remaining)))
      else now)"

definition rolling_horizon_claim_request ::
  "claim_id \<Rightarrow> robot_state \<Rightarrow> access_mode \<Rightarrow> claim_request"
where
  "rolling_horizon_claim_request cid s mode =
     (let r = request_default\<lparr>cr_id := cid, cr_robot_id := rs_robot_id s,
                cr_mission_id := rs_mission_id s, cr_access_mode := mode\<rparr>;
          now = rs_updated_at_tick s in
      case rs_route_plan s of
        None \<Rightarrow> r
      | Some plan \<Rightarrow>
          if is_err (validate_route_plan_shape plan) then r
          else
            (let i = unat (route_progress_index s);
                 r = r\<lparr>cr_requested_at_tick := Some now\<rparr> in
             if length (rp_node_ids plan) \<le> i
             then r\<lparr>cr_window := \<lparr>cw_start_tick = Some now, cw_end_tick = Some now\<rparr>\<rparr>
             else
               (let node_limit = min (length (rp_node_ids plan) - i) (unat (rs_horizon s + 1));
                    edge_limit = min (length (rp_edge_ids plan) - i) (unat (rs_horizon s)) in
                r\<lparr>cr_targets := map (\<lambda>k. edge_target (rp_edge_ids plan ! (i + k))) [0..<edge_limit]
                    @ map (\<lambda>k. node_target (rp_node_ids plan ! (i + k))) [0..<node_limit],
                  cr_window := \<lparr>cw_start_tick = Some now,
                                cw_end_tick = Some (horizon_end plan i now)\<rparr>\<rparr>)))"

section \<open>Leases behind a robot\<close>

record remaining =
  rm_nodes :: "uuid list"
  rm_edges :: "uuid list"
  rm_zones :: "uuid list"

definition remaining_from :: "route_plan \<Rightarrow> nat \<Rightarrow> remaining" where
  \<comment> \<open>the three hash sets, filled from the current index on\<close>
  "remaining_from plan i =
     \<lparr>rm_nodes = drop i (rp_node_ids plan), rm_edges = drop i (rp_edge_ids plan),
      rm_zones = concat (drop i (rp_node_zone_ids plan)) @ concat (drop i (rp_edge_zone_ids plan))\<rparr>"

definition still_ahead :: "remaining \<Rightarrow> claim_target \<Rightarrow> bool" where
  "still_ahead rm t =
     (case ct_kind t of
        TNode \<Rightarrow> ct_resource_id t \<in> set (rm_nodes rm)
      | TEdge \<Rightarrow> ct_resource_id t \<in> set (rm_edges rm)
      | TZone \<Rightarrow> ct_resource_id t \<in> set (rm_zones rm))"

fun release_loop ::
  "remaining \<Rightarrow> lease_id list \<Rightarrow> lease_id list \<Rightarrow> u64 \<Rightarrow> claim_manager
   \<Rightarrow> lease_id list \<times> u64 \<times> claim_manager"
where
  "release_loop rm [] retained released m = (retained, released, m)"
| "release_loop rm (i # ids) retained released m =
     (case find_lease m i of
        None \<Rightarrow> release_loop rm ids retained released m
      | Some l \<Rightarrow>
          if list_ex (still_ahead rm) (le_targets l)
          then release_loop rm ids (retained @ [i]) released m
          else (let (ok, m') = release_lease m i None in
                release_loop rm ids retained (if ok then released + 1 else released) m'))"

definition progress_position :: "robot_state \<Rightarrow> (route_plan \<times> nat) option" where
  \<comment> \<open>the guards of \<open>release_targets_behind_progress\<close>\<close>
  "progress_position s =
     opt_bind (rs_route_plan s) (\<lambda>plan.
       if is_err (validate_route_plan_shape plan) then None
       else opt_bind (rs_current_node_id s) (\<lambda>c.
         map_option (\<lambda>i. (plan, i)) (position (\<lambda>n. n = c) (rp_node_ids plan))))"

definition release_targets_behind_progress ::
  "robot_state \<Rightarrow> claim_manager \<Rightarrow> u64 \<times> robot_state \<times> claim_manager"
where
  "release_targets_behind_progress s m =
     (case progress_position s of
        None \<Rightarrow> (0, s, m)
      | Some (plan, i) \<Rightarrow>
          (let (retained, released, m') =
                 release_loop (remaining_from plan i) (rs_active_lease_ids s) [] 0 m
           in (released, s\<lparr>rs_active_lease_ids := retained\<rparr>, m')))"

section \<open>Schedule windows of the zones\<close>

fun split_on :: "char \<Rightarrow> string \<Rightarrow> string list" where
  \<comment> \<open>\<open>str::split\<close> on a one-byte pattern\<close>
  "split_on c [] = [[]]"
| "split_on c (x # xs) =
     (if x = c then [] # split_on c xs
      else case split_on c xs of [] \<Rightarrow> [[x]] | t # ts \<Rightarrow> (x # t) # ts)"

definition matches_window :: "string \<Rightarrow> string \<Rightarrow> bool" where
  "matches_window active v = list_ex (\<lambda>t. str_trim t = active) (split_on (CHR '','') v)"

definition route_schedule_window_conflicts :: "index \<Rightarrow> route_plan \<Rightarrow> string \<Rightarrow> uuid list" where
  "route_schedule_window_conflicts ix plan active =
     filter (\<lambda>z. map_or False (\<lambda>v. \<not> matches_window active v)
                   (ix_zone_property ix z ''traffic.schedule_window'')) (rp_zone_ids plan)"

definition route_matches_schedule_window :: "index \<Rightarrow> route_plan \<Rightarrow> string \<Rightarrow> bool" where
  "route_matches_schedule_window ix plan active =
     (route_schedule_window_conflicts ix plan active = [])"

section \<open>Arbitration\<close>

datatype arbitration = GoAhead | Yield | BothReplan

record arbitration_context =
  ac_self_priority :: f64
  ac_other_priority :: f64
  ac_self_holds_lease :: bool
  ac_other_holds_lease :: bool
  ac_self_is_emergency :: bool
  ac_other_is_emergency :: bool
  ac_self_state :: progress_state
  ac_other_state :: progress_state
  ac_self_wait_ticks :: u64
  ac_other_wait_ticks :: u64
  ac_self_remaining_steps :: u64
  ac_other_remaining_steps :: u64

definition arbitrate_right_of_way :: "arbitration_context \<Rightarrow> arbitration" where
  "arbitrate_right_of_way c =
     (let me = ac_self_state c; it = ac_other_state c in
      if ac_self_is_emergency c \<and> \<not> ac_other_is_emergency c then GoAhead
      else if ac_other_is_emergency c \<and> \<not> ac_self_is_emergency c then Yield
      else if ac_other_holds_lease c \<and> \<not> ac_self_holds_lease c then Yield
      else if ac_self_holds_lease c \<and> \<not> ac_other_holds_lease c then GoAhead
      else if f64_lt (ac_other_priority c) (ac_self_priority c) then GoAhead
      else if f64_lt (ac_self_priority c) (ac_other_priority c) then Yield
      else if me = Blocked \<and> it \<noteq> Blocked then Yield
      else if it = Blocked \<and> me \<noteq> Blocked then GoAhead
      else if me = FollowingRoute \<and> it = Waiting then GoAhead
      else if me = Waiting \<and> it = FollowingRoute then Yield
      else if me = Waiting \<and> it = Waiting \<and> ac_other_wait_ticks c < ac_self_wait_ticks c then GoAhead
      else if me = Waiting \<and> it = Waiting \<and> ac_self_wait_ticks c < ac_other_wait_ticks c then Yield
      else if (0 < ac_self_remaining_steps c \<or> 0 < ac_other_remaining_steps c)
              \<and> ac_self_remaining_steps c < ac_other_remaining_steps c then GoAhead
      else if (0 < ac_self_remaining_steps c \<or> 0 < ac_other_remaining_steps c)
              \<and> ac_other_remaining_steps c < ac_self_remaining_steps c then Yield
      else BothReplan)"

text \<open>The encounter as the other robot sees it.\<close>

definition other_side :: "arbitration_context \<Rightarrow> arbitration_context" where
  "other_side c =
     \<lparr>ac_self_priority = ac_other_priority c, ac_other_priority = ac_self_priority c,
      ac_self_holds_lease = ac_other_holds_lease c, ac_other_holds_lease = ac_self_holds_lease c,
      ac_self_is_emergency = ac_other_is_emergency c, ac_other_is_emergency = ac_self_is_emergency c,
      ac_self_state = ac_other_state c, ac_other_state = ac_self_state c,
      ac_self_wait_ticks = ac_other_wait_ticks c, ac_other_wait_ticks = ac_self_wait_ticks c,
      ac_self_remaining_steps = ac_other_remaining_steps c,
      ac_other_remaining_steps = ac_self_remaining_steps c\<rparr>"

fun opposite :: "arbitration \<Rightarrow> arbitration" where
  "opposite GoAhead = Yield"
| "opposite Yield = GoAhead"
| "opposite BothReplan = BothReplan"

lemma f64_lt_asym: "f64_lt a b \<Longrightarrow> \<not> f64_lt b a"
  by (simp add: f64_lt_def)

text \<open>Each rung of the cascade is turned over by the exchange of the robots.\<close>

lemma rung_go:
  "\<not> (a \<and> b) \<Longrightarrow> a' = a \<Longrightarrow> b' = b \<Longrightarrow> r' = opposite r \<Longrightarrow>
     (if b' then GoAhead else if a' then Yield else r')
       = opposite (if a then GoAhead else if b then Yield else r)"
  by auto

lemma rung_yield:
  "\<not> (a \<and> b) \<Longrightarrow> a' = a \<Longrightarrow> b' = b \<Longrightarrow> r' = opposite r \<Longrightarrow>
     (if b' then Yield else if a' then GoAhead else r')
       = opposite (if a then Yield else if b then GoAhead else r)"
  by auto

lemma arbitration_dual: "arbitrate_right_of_way (other_side c) = opposite (arbitrate_right_of_way c)"
  unfolding arbitrate_right_of_way_def other_side_def Let_def arbitration_context.simps
  by (intro rung_go rung_yield) (use f64_lt_asym in \<open>auto\<close>)

text \<open>
  The two robots of an encounter never both yield and never both go ahead: each decides the
  opposite of what the other decides, or both replan.
\<close>

theorem arbitration_antisymmetric:
  "arbitrate_right_of_way (other_side c) = opposite (arbitrate_right_of_way c)"
  by (rule arbitration_dual)

end
