(* ===== verification/Key.thy ===== *)
theory Key
  imports Text
begin

text \<open>
  \<open>core/key.rs\<close>: the key a robot presents, its parser, the bytes it contributes to a derivation, the
  constant-time comparison, and the verifier the coordinator stores instead. Bytes are \<open>char\<close>s.
  The crates \<open>authbox\<close> (DID syntax) and \<open>keylock\<close> (password hashing) are parameters: their functions
  are arguments of the definitions that call them.
\<close>

section \<open>Keys\<close>

datatype key = Numeric u64 | Pass string | DidKey string | Token string

datatype key_error = Malformed | Unsupported string

text \<open>
  \<open>Key::parse\<close>: \<open>did_method\<close> is \<open>authbox::did::did::parse\<close> (the method of a well-formed DID),
  \<open>did_key\<close> is \<open>parse_did_key\<close> (whether the key is Ed25519, and its bytes).
\<close>

definition key_parse ::
  "(string \<Rightarrow> string option) \<Rightarrow> (string \<Rightarrow> (bool \<times> string) option) \<Rightarrow> string \<Rightarrow> key_error + key"
where
  "key_parse did_method did_key raw =
     (let raw = str_trim raw in
      case parse_u64_str raw of
        Some n \<Rightarrow> Inr (Numeric n)
      | None \<Rightarrow>
     (case strip_prefix ''pass:'' raw of
        Some secret \<Rightarrow> if secret = [] then Inl Malformed else Inr (Pass secret)
      | None \<Rightarrow>
     (case strip_prefix ''tok:'' raw of
        Some token \<Rightarrow> if token = [] then Inl Malformed else Inr (Token token)
      | None \<Rightarrow>
      if starts_with raw ''did:'' then
        (case did_method raw of
           None \<Rightarrow> Inl Malformed
         | Some meth \<Rightarrow>
             if meth = ''key'' then
               (case did_key raw of
                  None \<Rightarrow> Inl Malformed
                | Some (ed25519, public_key) \<Rightarrow>
                    if ed25519 then Inr (DidKey public_key)
                    else Inl (Unsupported ''did:key (not Ed25519)''))
             else Inl (Unsupported (''did:'' @ meth)))
      else Inl Malformed)))"

text \<open>\<open>u64::to_le_bytes\<close>.\<close>

definition le_bytes :: "u64 \<Rightarrow> string" where
  "le_bytes n = map (\<lambda>i. char_of (take_bit 8 (drop_bit (8 * i) (unat n)))) [0..<8]"

fun material :: "key \<Rightarrow> string" where
  "material (Numeric n) = CHR ''n'' # le_bytes n"
| "material (Pass p) = CHR ''p'' # p"
| "material (DidKey pk) = CHR ''k'' # pk"
| "material (Token t) = CHR ''t'' # t"

unbundle bit_operations_syntax

definition byte :: "char \<Rightarrow> 8 word" where
  "byte c = of_nat (of_char c)"

definition ct_eq_bytes :: "string \<Rightarrow> string \<Rightarrow> bool" where
  "ct_eq_bytes a b =
     (if length a \<noteq> length b then False
      else foldl (\<lambda>diff (x, y). diff OR (byte x XOR byte y)) 0 (zip a b) = 0)"

fun key_matches :: "key \<Rightarrow> key \<Rightarrow> bool" where
  "key_matches (Numeric a) (Numeric b) = ct_eq_bytes (le_bytes a) (le_bytes b)"
| "key_matches (Pass a) (Pass b) = ct_eq_bytes a b"
| "key_matches (DidKey a) (DidKey b) = ct_eq_bytes a b"
| "key_matches (Token a) (Token b) = ct_eq_bytes a b"
| "key_matches _ _ = False"

fun key_display :: "key \<Rightarrow> msg" where
  "key_display (Numeric n) = Format ''{n}'' [AU64 n]"
| "key_display (Pass p) = Format ''pass:{p}'' [AStr p]"
| "key_display (DidKey pk) = Format ''did:key:<{} bytes>'' [AU64 (of_nat (length pk))]"
| "key_display (Token t) = Lit ''tok:<redacted>''"

section \<open>Verifiers\<close>

datatype key_verifier = Secret string | DidVerifier string

text \<open>The cost of a derivation (\<open>keylock::kdf::pwhash::Config\<close>).\<close>

datatype kdf_algorithm = Argon2id

record kdf_config =
  kc_algorithm :: kdf_algorithm
  kc_nb_blocks :: "32 word"
  kc_nb_passes :: "32 word"
  kc_nb_lanes :: "32 word"

definition insecure_test_cost :: kdf_config where
  "insecure_test_cost = \<lparr>kc_algorithm = Argon2id, kc_nb_blocks = 8, kc_nb_passes = 1, kc_nb_lanes = 1\<rparr>"

text \<open>\<open>hash_with\<close> is \<open>keylock::kdf::pwhash::hash_with\<close>, \<open>None\<close> its error.\<close>

fun derive_with_cost ::
  "(string \<Rightarrow> kdf_config \<Rightarrow> string option) \<Rightarrow> key \<Rightarrow> kdf_config \<Rightarrow> key_error + key_verifier"
where
  "derive_with_cost hash_with (DidKey public_key) cost = Inr (DidVerifier public_key)"
| "derive_with_cost hash_with (Token t) cost = Inl Malformed"
| "derive_with_cost hash_with secret cost =
     (case hash_with (material secret) cost of None \<Rightarrow> Inl Malformed | Some h \<Rightarrow> Inr (Secret h))"

fun public_key :: "key_verifier \<Rightarrow> string option" where
  "public_key (DidVerifier pk) = Some pk"
| "public_key (Secret s) = None"

definition is_secret_key :: "key \<Rightarrow> bool" where
  \<comment> \<open>\<open>matches!(presented, Key::Numeric(_) | Key::Pass(_))\<close>\<close>
  "is_secret_key k = (case k of Numeric n \<Rightarrow> True | Pass p \<Rightarrow> True | _ \<Rightarrow> False)"

fun verify_key :: "(string \<Rightarrow> string \<Rightarrow> bool) \<Rightarrow> key_verifier \<Rightarrow> key \<Rightarrow> bool" where
  "verify_key pw_verify (Secret stored) presented =
     (is_secret_key presented \<and> pw_verify stored (material presented))"
| "verify_key pw_verify (DidVerifier pk) presented = False"

section \<open>Comparing in constant time is comparing\<close>

lemma byte_inj: "byte x = byte y \<longleftrightarrow> x = y"
proof
  have lt: "of_char c < (2 ^ LENGTH(8) :: nat)" for c using nat_of_char_less_256 [of c] by simp
  assume "byte x = byte y"
  then have "(of_char x :: nat) = of_char y"
    using lt by (simp add: byte_def word_of_nat_eq_iff take_bit_nat_eq_self)
  then show "x = y" by simp
qed simp

lemma or_zero: "(a :: 8 word) OR b = 0 \<longleftrightarrow> a = 0 \<and> b = 0"
  by (auto simp: bit_eq_iff bit_or_iff)

lemma xor_zero: "(a :: 8 word) XOR b = 0 \<longleftrightarrow> a = b"
  by (auto simp: bit_eq_iff bit_xor_iff)

lemma diff_zero:
  "foldl (\<lambda>d (x, y). d OR (byte x XOR byte y)) e ps = 0 \<longleftrightarrow> e = 0 \<and> list_all (\<lambda>(x, y). x = y) ps"
proof (induction ps arbitrary: e)
  case (Cons p ps)
  show ?case
    by (cases p) (simp add: Cons.IH or_zero xor_zero byte_inj del: foldl_conv_fold)
qed simp

lemma ct_eq_bytes_iff: "ct_eq_bytes a b \<longleftrightarrow> a = b"
proof
  assume "ct_eq_bytes a b"
  then have "length a = length b" "list_all (\<lambda>(x, y). x = y) (zip a b)"
    by (auto simp: ct_eq_bytes_def diff_zero split: if_splits)
  then show "a = b" by (induction a b rule: list_induct2) auto
next
  assume "a = b"
  moreover have "list_all (\<lambda>(x, y). x = y) (zip b b)" by (induction b) auto
  ultimately show "ct_eq_bytes a b" by (simp add: ct_eq_bytes_def diff_zero)
qed

lemma le_bytes_inj: "le_bytes a = le_bytes b \<longleftrightarrow> a = b"
proof
  assume eq: "le_bytes a = le_bytes b"
  have "take_bit 8 (drop_bit (8 * i) (unat a)) = take_bit 8 (drop_bit (8 * i) (unat b))" if "i < 8" for i
  proof -
    have "char_of (take_bit 8 (drop_bit (8 * i) (unat a))) = char_of (take_bit 8 (drop_bit (8 * i) (unat b)))"
      using arg_cong [OF eq, of "\<lambda>l. l ! i"] that by (simp add: le_bytes_def del: upt_conv_Cons_Cons)
    then show ?thesis by (simp add: char_of_eq_iff take_bit_eq_mod)
  qed
  then have "bit (take_bit 8 (drop_bit (8 * (j div 8)) (unat a))) (j mod 8)
             = bit (take_bit 8 (drop_bit (8 * (j div 8)) (unat b))) (j mod 8)" if "j < 64" for j
    using that by simp
  then have "bit a j = bit b j" if "j < 64" for j
    using that by (simp add: bit_take_bit_iff bit_drop_bit_eq bit_unsigned_iff)
  then show "a = b" by (intro bit_word_eqI) simp
qed simp

text \<open>
  Two keys match in constant time exactly when they are the same key.
\<close>

theorem key_matches_iff: "key_matches a b = (a = b)"
  by (cases "(a, b)" rule: key_matches.cases) (simp_all add: ct_eq_bytes_iff le_bytes_inj)

text \<open>
  Different keys contribute different bytes to a derivation, so a number and a password that
  look alike never share a hash.
\<close>

lemma material_inj: "material a = material b \<longleftrightarrow> a = b"
  by (cases a; cases b) (simp_all add: le_bytes_inj)

end
