(* ===== verification/Coordinator.thy ===== *)
theory Coordinator
  imports Schedule Key
begin

text \<open>
  The struct \<open>Coordinator\<close> of \<open>coordinator.rs\<close>: registration, identity (keys, challenges, bearer
  tokens), liveness, and the operations on the states of the robots.

  What a call reads from outside is an argument: the wall clock in milliseconds, the monotonic clock
  (nanoseconds, a \<open>nat\<close>, one reading per call), and each draw of random bytes as the pair of its
  success and the buffer it leaves. The functions of the crates \<open>keylock\<close> and \<open>uuid\<close> are the fields
  of the record \<open>crypto\<close>. The maps are \<open>BTreeMap\<close>s: association lists in the order of their keys.
\<close>

section \<open>The crates it calls\<close>

record crypto =
  cx_hash_with :: "string \<Rightarrow> string \<Rightarrow> kdf_config \<Rightarrow> string option"
    \<comment> \<open>the salt it draws, the secret, the cost\<close>
  cx_pw_verify :: "string \<Rightarrow> string \<Rightarrow> bool"
  cx_blake2b_keyed :: "string \<Rightarrow> string \<Rightarrow> nat \<Rightarrow> string option"
  cx_secure_compare :: "string \<Rightarrow> string \<Rightarrow> bool"
  cx_verify_detached :: "string \<Rightarrow> string \<Rightarrow> string \<Rightarrow> bool"
    \<comment> \<open>the signature, the message, the public key\<close>
  cx_canonical_uuid :: "string \<Rightarrow> string option"
    \<comment> \<open>\<open>Uuid::parse_str\<close> then \<open>to_string\<close>\<close>

type_synonym random_draw = "bool \<times> string"

section \<open>State\<close>

record alive_info =
  ai_interval_secs :: u64
  ai_last_seen_ms :: u64

record issued_token =
  it_robot_id :: robot_id
  it_public_key :: string
  it_expires_at :: nat

datatype refusal = AlreadyRegistered | NotProvisioned | Full

record coordinator =
  co_index :: "index option"
  co_claims :: claim_manager
  co_robots :: "robot_state list"
  co_keys :: "(robot_id \<times> key_verifier) list"
  co_verified :: "(robot_id \<times> string) list"
  co_pepper :: string
  co_challenges :: "(robot_id \<times> string \<times> nat) list"
  co_tokens :: "(string \<times> issued_token) list"
  co_failures :: "(robot_id \<times> 32 word \<times> nat) list"
  co_uuids :: "(string \<times> robot_id) list"
  co_next_synthetic :: u64
  co_pending :: "(robot_id \<times> string) list"
  co_alive :: "(robot_id \<times> alive_info) list"
  co_provisioned :: "robot_id list option"
  co_kdf :: kdf_config

definition challenge_ttl :: nat where "challenge_ttl = 30 * 10 ^ 9"
definition token_ttl :: nat where "token_ttl = 3600 * 10 ^ 9"
definition max_key_failures :: "32 word" where "max_key_failures = 5"
definition key_failure_cooldown :: nat where "key_failure_cooldown = 5 * 10 ^ 9"
definition synthetic_robot_id_base :: u64 where "synthetic_robot_id_base = 2 ^ 56"
definition max_registered_robots :: nat where "max_registered_robots = 4096"
definition default_alive_secs :: u64 where "default_alive_secs = 2"

definition bt_remove :: "'k \<Rightarrow> ('k \<times> 'v) list \<Rightarrow> ('k \<times> 'v) list" where
  "bt_remove k m = filter (\<lambda>e. fst e \<noteq> k) m"

definition new_pepper :: "random_draw \<Rightarrow> u64 \<Rightarrow> u64 \<Rightarrow> string" where
  "new_pepper draw now_nanos pid =
     (if fst draw then snd draw else le_bytes now_nanos @ le_bytes pid @ drop 16 (snd draw))"

definition co_default :: "string \<Rightarrow> kdf_config \<Rightarrow> coordinator" where
  \<comment> \<open>the pepper drawn, \<open>pwhash::Config::default()\<close>\<close>
  "co_default pepper cfg =
     \<lparr>co_index = None, co_claims = cm_new, co_robots = [], co_keys = [], co_verified = [],
      co_pepper = pepper, co_challenges = [], co_tokens = [], co_failures = [], co_uuids = [],
      co_next_synthetic = synthetic_robot_id_base, co_pending = [], co_alive = [],
      co_provisioned = None, co_kdf = cfg\<rparr>"

definition co_with_index :: "string \<Rightarrow> kdf_config \<Rightarrow> index \<Rightarrow> coordinator" where
  "co_with_index pepper cfg ix =
     (co_default pepper cfg)\<lparr>co_index := Some ix, co_claims := cm_with_index ix\<rparr>"

section \<open>Liveness\<close>

definition set_alive :: "coordinator \<Rightarrow> robot_id \<Rightarrow> u64 \<Rightarrow> u64 \<Rightarrow> coordinator" where
  "set_alive c rid interval now =
     c\<lparr>co_alive := bt_insert rid
         \<lparr>ai_interval_secs = (if interval = 0 then default_alive_secs else interval),
          ai_last_seen_ms = now\<rparr> (co_alive c)\<rparr>"

definition touch_robot :: "coordinator \<Rightarrow> robot_id \<Rightarrow> u64 \<Rightarrow> coordinator" where
  "touch_robot c rid now =
     (case map_of (co_alive c) rid of
        None \<Rightarrow> c
      | Some a \<Rightarrow> c\<lparr>co_alive := bt_insert rid (a\<lparr>ai_last_seen_ms := now\<rparr>) (co_alive c)\<rparr>)"

definition is_late :: "alive_info \<Rightarrow> u64 \<Rightarrow> bool" where
  "is_late a now = (sat_mul (ai_interval_secs a) 2000 < sat_sub now (ai_last_seen_ms a))"

definition robot_active_at :: "coordinator \<Rightarrow> robot_id \<Rightarrow> u64 \<Rightarrow> bool" where
  "robot_active_at c rid now =
     (case map_of (co_alive c) rid of
        Some a \<Rightarrow> sat_sub now (ai_last_seen_ms a) \<le> sat_mul (ai_interval_secs a) 2000
      | None \<Rightarrow> True)"

definition inactive_robots_at :: "coordinator \<Rightarrow> u64 \<Rightarrow> robot_id list" where
  "inactive_robots_at c now = map fst (filter (\<lambda>(_, a). is_late a now) (co_alive c))"

definition expire_claims :: "coordinator \<Rightarrow> u64 \<Rightarrow> u64 \<times> coordinator" where
  "expire_claims c now =
     (let (n, m) = expire_requests (co_claims c) now; (k, m) = expire_leases m now
      in (n + k, c\<lparr>co_claims := m\<rparr>))"

definition free_robot :: "claim_manager \<Rightarrow> robot_id \<Rightarrow> u64 \<Rightarrow> u64 \<times> claim_manager" where
  "free_robot m rid now =
     (let (n, m) = remove_requests_for_robot m rid;
          (k, m) = release_leases_for_robot m rid (Some now)
      in (n + k, m))"

fun sweep_loop :: "u64 \<Rightarrow> robot_id list \<Rightarrow> robot_id list \<Rightarrow> claim_manager \<Rightarrow> robot_id list \<times> claim_manager" where
  "sweep_loop now [] freed m = (freed, m)"
| "sweep_loop now (rid # rids) freed m =
     (let (removed, m) = free_robot m rid now
      in sweep_loop now rids (if 0 < removed then freed @ [rid] else freed) m)"

definition sweep_inactive :: "coordinator \<Rightarrow> u64 \<Rightarrow> robot_id list \<times> coordinator" where
  "sweep_inactive c now =
     (let (freed, m) = sweep_loop now (inactive_robots_at c now) [] (co_claims c)
      in (freed, c\<lparr>co_claims := m\<rparr>))"

definition co_bind_index :: "coordinator \<Rightarrow> index \<Rightarrow> coordinator" where
  "co_bind_index c ix = c\<lparr>co_index := Some ix, co_claims := bind_index (co_claims c) ix\<rparr>"

definition co_clear :: "coordinator \<Rightarrow> coordinator" where
  "co_clear c =
     c\<lparr>co_robots := [], co_keys := [], co_verified := [], co_failures := [], co_challenges := [],
       co_tokens := [], co_uuids := [], co_pending := [], co_alive := [],
       co_next_synthetic := synthetic_robot_id_base, co_claims := cm_clear (co_claims c)\<rparr>"

section \<open>Naming robots\<close>

definition resolve_or_mint_robot_id ::
  "crypto \<Rightarrow> coordinator \<Rightarrow> string \<Rightarrow> robot_id option \<times> coordinator"
where
  "resolve_or_mint_robot_id cx c raw =
     (let raw = str_trim raw in
      case parse_u64_str raw of
        Some n \<Rightarrow> (Some n, c)
      | None \<Rightarrow>
     (case cx_canonical_uuid cx raw of
        None \<Rightarrow> (None, c)
      | Some canon \<Rightarrow>
     (case map_of (co_uuids c) canon of
        Some i \<Rightarrow> (Some i, c)
      | None \<Rightarrow>
          (let i = co_next_synthetic c in
           (Some i, c\<lparr>co_next_synthetic := sat_add i 1,
                      co_pending := bt_insert i canon (co_pending c)\<rparr>)))))"

definition resolve_robot_id :: "crypto \<Rightarrow> coordinator \<Rightarrow> string \<Rightarrow> robot_id option" where
  "resolve_robot_id cx c raw =
     (let raw = str_trim raw in
      case parse_u64_str raw of
        Some n \<Rightarrow> Some n
      | None \<Rightarrow>
          opt_bind (cx_canonical_uuid cx raw) (\<lambda>canon. map_of (co_uuids c) canon))"

definition set_provisioned_robots :: "coordinator \<Rightarrow> robot_id list option \<Rightarrow> coordinator" where
  "set_provisioned_robots c allowed = c\<lparr>co_provisioned := allowed\<rparr>"

definition is_provisioned :: "coordinator \<Rightarrow> robot_id \<Rightarrow> bool" where
  "is_provisioned c rid =
     (case co_provisioned c of None \<Rightarrow> True | Some allowed \<Rightarrow> rid \<in> set allowed)"

definition find_robot_state :: "coordinator \<Rightarrow> robot_id \<Rightarrow> robot_state option" where
  "find_robot_state c rid = find (\<lambda>s. rs_robot_id s = rid) (co_robots c)"

definition has_robot :: "coordinator \<Rightarrow> robot_id \<Rightarrow> bool" where
  "has_robot c rid = (map_of (co_keys c) rid \<noteq> None \<or> find_robot_state c rid \<noteq> None)"

definition registration_refusal :: "coordinator \<Rightarrow> robot_id \<Rightarrow> refusal option" where
  "registration_refusal c rid =
     (if \<not> is_provisioned c rid then Some NotProvisioned
      else if map_of (co_keys c) rid \<noteq> None \<or> find_robot_state c rid \<noteq> None
      then Some AlreadyRegistered
      else if max_registered_robots \<le> length (co_robots c) then Some Full
      else None)"

section \<open>Registration and identity\<close>

definition fingerprint :: "crypto \<Rightarrow> coordinator \<Rightarrow> key \<Rightarrow> string" where
  "fingerprint cx c k = unwrap_or (cx_blake2b_keyed cx (material k) (co_pepper c) 32) []"

definition token_holder :: "coordinator \<Rightarrow> nat \<Rightarrow> string \<Rightarrow> robot_id \<Rightarrow> issued_token option" where
  "token_holder c now token rid =
     (case map_of (co_tokens c) token of
        None \<Rightarrow> None
      | Some issued \<Rightarrow>
          if it_robot_id issued = rid \<and> now < it_expires_at issued then Some issued else None)"

definition token_identity :: "coordinator \<Rightarrow> nat \<Rightarrow> string \<Rightarrow> string option" where
  "token_identity c now token =
     (case map_of (co_tokens c) token of
        None \<Rightarrow> None
      | Some issued \<Rightarrow> if now < it_expires_at issued then Some (it_public_key issued) else None)"

definition drop_pending :: "coordinator \<Rightarrow> robot_id \<Rightarrow> coordinator" where
  "drop_pending c rid = c\<lparr>co_pending := bt_remove rid (co_pending c)\<rparr>"

definition registration_verifier ::
  "crypto \<Rightarrow> string \<Rightarrow> nat \<Rightarrow> coordinator \<Rightarrow> key \<Rightarrow> kdf_config \<Rightarrow> key_verifier option"
where
  "registration_verifier cx salt now c k cost =
     (case k of
        Token token \<Rightarrow> map_option DidVerifier (token_identity c now token)
      | other \<Rightarrow>
          (case derive_with_cost (cx_hash_with cx salt) other cost of
             Inl e \<Rightarrow> None | Inr v \<Rightarrow> Some v))"

definition is_token :: "key \<Rightarrow> bool" where
  "is_token k = (case k of Token t \<Rightarrow> True | _ \<Rightarrow> False)"

definition commit_binding :: "coordinator \<Rightarrow> robot_id \<Rightarrow> coordinator" where
  \<comment> \<open>\<open>if let Some(canon) = self.pending_uuid_bindings.remove(&robot_id)\<close>\<close>
  "commit_binding c rid =
     (case map_of (co_pending c) rid of
        None \<Rightarrow> c
      | Some canon \<Rightarrow>
          c\<lparr>co_pending := bt_remove rid (co_pending c), co_uuids := bt_insert canon rid (co_uuids c)\<rparr>)"

definition register_with_verifier ::
  "crypto \<Rightarrow> string \<Rightarrow> nat \<Rightarrow> coordinator \<Rightarrow> robot_id \<Rightarrow> key \<Rightarrow> kdf_config \<Rightarrow> bool \<times> coordinator"
where
  "register_with_verifier cx salt now c rid k cost =
     (if registration_refusal c rid \<noteq> None then (False, drop_pending c rid)
      else case registration_verifier cx salt now c k cost of
             None \<Rightarrow> (False, drop_pending c rid)
           | Some verifier \<Rightarrow>
               (let c1 = c\<lparr>co_robots := co_robots c @ [robot_default\<lparr>rs_robot_id := rid\<rparr>],
                           co_keys := bt_insert rid verifier (co_keys c)\<rparr>;
                    c2 = (if \<not> is_token k
                          then c1\<lparr>co_verified := bt_insert rid (fingerprint cx c1 k) (co_verified c1)\<rparr>
                          else c1)
                in (True, commit_binding c2 rid)))"

definition register_with_key ::
  "crypto \<Rightarrow> string \<Rightarrow> nat \<Rightarrow> coordinator \<Rightarrow> robot_id \<Rightarrow> key \<Rightarrow> bool \<times> coordinator"
where
  "register_with_key cx salt now c rid k = register_with_verifier cx salt now c rid k (co_kdf c)"

definition set_kdf_params :: "coordinator \<Rightarrow> kdf_config \<Rightarrow> coordinator" where
  "set_kdf_params c params = c\<lparr>co_kdf := params\<rparr>"

definition issue_challenge :: "random_draw \<Rightarrow> nat \<Rightarrow> coordinator \<Rightarrow> robot_id \<Rightarrow> string \<times> coordinator" where
  "issue_challenge draw now c rid =
     (if \<not> fst draw then ([], c)
      else (snd draw, c\<lparr>co_challenges := bt_insert rid (snd draw, now) (co_challenges c)\<rparr>))"

definition hex_digit :: "nat \<Rightarrow> char" where
  "hex_digit n = (if n < 10 then char_of (48 + n) else char_of (87 + n))"

definition hex_byte :: "char \<Rightarrow> string" where
  \<comment> \<open>\<open>format!("{b:02x}")\<close>\<close>
  "hex_byte b = [hex_digit (of_char b div 16), hex_digit (of_char b mod 16)]"

definition expire_tokens :: "coordinator \<Rightarrow> nat \<Rightarrow> coordinator" where
  "expire_tokens c now =
     c\<lparr>co_tokens := filter (\<lambda>(_, issued). now < it_expires_at issued) (co_tokens c)\<rparr>"

definition identity_allowed :: "crypto \<Rightarrow> coordinator \<Rightarrow> robot_id \<Rightarrow> string \<Rightarrow> bool" where
  \<comment> \<open>the check of \<open>prove_identity\<close> against the registered key\<close>
  "identity_allowed cx c rid pk =
     (case map_of (co_keys c) rid of
        None \<Rightarrow> True
      | Some stored \<Rightarrow>
          (case public_key stored of
             Some expected \<Rightarrow> cx_secure_compare cx expected pk | None \<Rightarrow> False))"

definition prove_identity ::
  "crypto \<Rightarrow> random_draw \<Rightarrow> nat \<Rightarrow> coordinator \<Rightarrow> robot_id \<Rightarrow> string \<Rightarrow> string
   \<Rightarrow> string option \<times> coordinator"
where
  "prove_identity cx draw now c rid pk sig =
     (case map_of (co_challenges c) rid of
        None \<Rightarrow> (None, c)
      | Some (nonce, issued_at) \<Rightarrow>
          (let c = c\<lparr>co_challenges := bt_remove rid (co_challenges c)\<rparr> in
           if nonce = [] \<or> challenge_ttl < now - issued_at then (None, c)
           else if \<not> identity_allowed cx c rid pk then (None, c)
           else if \<not> cx_verify_detached cx sig nonce pk then (None, c)
           else
             (let c = expire_tokens c now in
              if \<not> fst draw then (None, c)
              else
                (let token = concat (map hex_byte (snd draw)) in
                 (Some token,
                  c\<lparr>co_tokens := bt_insert token
                      \<lparr>it_robot_id = rid, it_public_key = pk, it_expires_at = now + token_ttl\<rparr>
                      (co_tokens c)\<rparr>)))))"

definition clear_failures :: "coordinator \<Rightarrow> robot_id \<Rightarrow> coordinator" where
  "clear_failures c rid = c\<lparr>co_failures := bt_remove rid (co_failures c)\<rparr>"

definition sat_inc32 :: "32 word \<Rightarrow> 32 word" where
  \<comment> \<open>\<open>u32::saturating_add(1)\<close>\<close>
  "sat_inc32 n = (if n = - 1 then n else n + 1)"

definition note_failure :: "coordinator \<Rightarrow> nat \<Rightarrow> robot_id \<Rightarrow> coordinator" where
  "note_failure c now rid =
     (let (n, since) = unwrap_or (map_of (co_failures c) rid) (0, now) in
      c\<lparr>co_failures := bt_insert rid (sat_inc32 n, since) (co_failures c)\<rparr>)"

definition try_verify ::
  "crypto \<Rightarrow> nat \<Rightarrow> coordinator \<Rightarrow> robot_id \<Rightarrow> key_verifier \<Rightarrow> key \<Rightarrow> bool \<times> coordinator"
where
  \<comment> \<open>the end of \<open>validate_key\<close>: a new derivation\<close>
  "try_verify cx now c rid stored k =
     (if verify_key (cx_pw_verify cx) stored k
      then (True, clear_failures (c\<lparr>co_verified := bt_insert rid (fingerprint cx c k) (co_verified c)\<rparr>) rid)
      else (False, note_failure c now rid))"

definition known_fingerprint :: "crypto \<Rightarrow> coordinator \<Rightarrow> robot_id \<Rightarrow> key \<Rightarrow> bool" where
  "known_fingerprint cx c rid k =
     (case map_of (co_verified c) rid of
        None \<Rightarrow> False | Some known \<Rightarrow> cx_secure_compare cx known (fingerprint cx c k))"

definition validate_key ::
  "crypto \<Rightarrow> nat \<Rightarrow> coordinator \<Rightarrow> robot_id \<Rightarrow> key \<Rightarrow> bool \<times> coordinator"
where
  "validate_key cx now c rid k =
     (case map_of (co_keys c) rid of
        None \<Rightarrow> (False, c)
      | Some stored \<Rightarrow>
     (case k of
        Token token \<Rightarrow> (token_holder c now token rid \<noteq> None, c)
      | _ \<Rightarrow>
          if known_fingerprint cx c rid k then (True, clear_failures c rid)
          else
            (case map_of (co_failures c) rid of
               Some (n, since) \<Rightarrow>
                 if max_key_failures \<le> n
                 then (if now - since < key_failure_cooldown then (False, c)
                       else try_verify cx now (clear_failures c rid) rid stored k)
                 else try_verify cx now c rid stored k
             | None \<Rightarrow> try_verify cx now c rid stored k)))"

section \<open>The states of the robots\<close>

definition is_robot :: "robot_id \<Rightarrow> robot_state \<Rightarrow> bool" where
  "is_robot rid s = (rs_robot_id s = rid)"

definition update_robot :: "coordinator \<Rightarrow> robot_id \<Rightarrow> (robot_state \<Rightarrow> robot_state) \<Rightarrow> bool \<times> coordinator" where
  \<comment> \<open>\<open>let Some(state) = self.find_robot_state_mut(robot_id) else { return false }\<close>, then an update\<close>
  "update_robot c rid f =
     (if find_robot_state c rid = None then (False, c)
      else (True, c\<lparr>co_robots := update_first (is_robot rid) f (co_robots c)\<rparr>))"

definition register_robot :: "coordinator \<Rightarrow> robot_state \<Rightarrow> coordinator" where
  "register_robot c s =
     c\<lparr>co_robots := replace_or_push (is_robot (rs_robot_id s)) s (co_robots c)\<rparr>"

definition unregister_robot :: "coordinator \<Rightarrow> robot_id \<Rightarrow> bool \<times> coordinator" where
  "unregister_robot c rid =
     (case position (is_robot rid) (co_robots c) of
        None \<Rightarrow> (False, c)
      | Some pos \<Rightarrow>
          (let tick = rs_updated_at_tick (co_robots c ! pos);
               m = snd (remove_requests_for_robot (co_claims c) rid);
               m = snd (release_leases_for_robot m rid (Some tick))
           in (True,
               c\<lparr>co_claims := m,
                 co_robots := take pos (co_robots c) @ drop (Suc pos) (co_robots c),
                 co_keys := bt_remove rid (co_keys c),
                 co_verified := bt_remove rid (co_verified c),
                 co_failures := bt_remove rid (co_failures c),
                 co_challenges := bt_remove rid (co_challenges c),
                 co_tokens := filter (\<lambda>(_, issued). it_robot_id issued \<noteq> rid) (co_tokens c),
                 co_uuids := filter (\<lambda>(_, v). v \<noteq> rid) (co_uuids c),
                 co_alive := bt_remove rid (co_alive c)\<rparr>)))"

definition claim_request_for_robot ::
  "coordinator \<Rightarrow> robot_id \<Rightarrow> claim_id \<Rightarrow> access_mode \<Rightarrow> claim_request"
where
  "claim_request_for_robot c rid cid mode =
     (case find_robot_state c rid of
        None \<Rightarrow> request_default
      | Some s \<Rightarrow> rolling_horizon_claim_request cid s mode)"

definition set_pose ::
  "robot_position option \<Rightarrow> robot_heading option \<Rightarrow> u64 \<Rightarrow> robot_state \<Rightarrow> robot_state"
where
  "set_pose pos heading at_ms s =
     (let s = (if pos \<noteq> None then s\<lparr>rs_position := pos\<rparr> else s);
          s = (if heading \<noteq> None then s\<lparr>rs_heading := heading\<rparr> else s)
      in s\<lparr>rs_pose_at_ms := Some at_ms\<rparr>)"

definition update_robot_pose ::
  "coordinator \<Rightarrow> robot_id \<Rightarrow> robot_position option \<Rightarrow> robot_heading option \<Rightarrow> u64
   \<Rightarrow> bool \<times> coordinator"
where
  "update_robot_pose c rid pos heading at_ms =
     (if pos = None \<and> heading = None then (False, c)
      else update_robot c rid (set_pose pos heading at_ms))"

definition follow_report :: "uuid option \<Rightarrow> uuid option \<Rightarrow> robot_state \<Rightarrow> robot_state" where
  "follow_report node edge s =
     (case (rs_route_plan s, node) of
        (Some plan, Some node_id) \<Rightarrow>
          (case position (\<lambda>i. i = node_id) (rp_node_ids plan) of
             Some pos \<Rightarrow>
               s\<lparr>rs_next_route_step_index := of_nat pos,
                 rs_progress_state :=
                   (if length (rp_node_ids plan) \<le> pos + 1 then Idle else FollowingRoute),
                 rs_hold_reason := None, rs_needs_replan := False, rs_wait_ticks := 0\<rparr>
           | None \<Rightarrow>
               s\<lparr>rs_progress_state := MustReplan, rs_hold_reason := Some ''off_route'',
                 rs_needs_replan := True\<rparr>)
      | _ \<Rightarrow>
          if edge \<noteq> None
          then s\<lparr>rs_progress_state := FollowingRoute, rs_needs_replan := False, rs_wait_ticks := 0\<rparr>
          else s\<lparr>rs_progress_state := Waiting\<rparr>)"

definition set_progress :: "uuid option \<Rightarrow> uuid option \<Rightarrow> u64 \<Rightarrow> robot_state \<Rightarrow> robot_state" where
  "set_progress node edge tick s =
     (follow_report node edge (s\<lparr>rs_current_node_id := node, rs_current_edge_id := edge\<rparr>))
       \<lparr>rs_updated_at_tick := tick\<rparr>"

definition update_robot_progress ::
  "coordinator \<Rightarrow> robot_id \<Rightarrow> uuid option \<Rightarrow> uuid option \<Rightarrow> u64 \<Rightarrow> bool \<times> coordinator"
where
  "update_robot_progress c rid node edge tick =
     update_robot c rid (set_progress node edge tick)"

definition take_plan :: "route_plan \<Rightarrow> u64 \<Rightarrow> u64 \<Rightarrow> robot_state \<Rightarrow> robot_state" where
  "take_plan plan horizon tick s =
     s\<lparr>rs_route_plan := Some plan, rs_horizon := horizon, rs_next_route_step_index := 0,
       rs_scheduled_start_tick := Some tick,
       rs_reserved_until_tick :=
         Some (sat_add tick (f64_as_u64 (f64_ceil (f64_max (rp_total_cost plan) f64_zero)))),
       rs_wait_ticks := 0, rs_needs_replan := False,
       rs_progress_state := (if rp_node_ids plan = [] then Idle else FollowingRoute),
       rs_updated_at_tick := tick\<rparr>"

definition assign_route_plan ::
  "coordinator \<Rightarrow> robot_id \<Rightarrow> route_plan \<Rightarrow> u64 \<Rightarrow> u64 \<Rightarrow> bool \<times> coordinator"
where
  "assign_route_plan c rid plan horizon tick =
     update_robot c rid (take_plan plan horizon tick)"

definition set_claims ::
  "claim_id list \<Rightarrow> lease_id list \<Rightarrow> u64 option \<Rightarrow> robot_state \<Rightarrow> robot_state"
where
  "set_claims pending leases tick s =
     s\<lparr>rs_pending_claim_ids := pending, rs_active_lease_ids := leases, rs_last_claim_tick := tick\<rparr>"

definition update_robot_claim_state ::
  "coordinator \<Rightarrow> robot_id \<Rightarrow> claim_id list \<Rightarrow> lease_id list \<Rightarrow> u64 option \<Rightarrow> bool \<times> coordinator"
where
  "update_robot_claim_state c rid pending leases tick =
     update_robot c rid (set_claims pending leases tick)"

definition release_behind_progress :: "coordinator \<Rightarrow> robot_id \<Rightarrow> u64 \<times> coordinator" where
  "release_behind_progress c rid =
     (case position (is_robot rid) (co_robots c) of
        None \<Rightarrow> (0, c)
      | Some pos \<Rightarrow>
          (let (released, s, m) = release_targets_behind_progress (co_robots c ! pos) (co_claims c);
               s = (if 0 < released \<and> rs_progress_state s = FollowingRoute
                    then s\<lparr>rs_last_claim_tick := Some (rs_updated_at_tick s)\<rparr> else s)
           in (released, c\<lparr>co_robots := (co_robots c)[pos := s], co_claims := m\<rparr>)))"

definition set_schedule :: "claim_request \<Rightarrow> schedule_decision \<Rightarrow> u64 \<Rightarrow> robot_state \<Rightarrow> robot_state" where
  "set_schedule r d start s =
     apply_schedule_decision (s\<lparr>rs_reserved_until_tick := cw_end_tick (cr_window r)\<rparr>) d start"

definition unschedulable :: "u64 \<Rightarrow> schedule_decision" where
  "unschedulable start =
     decision_default\<lparr>sd_kind := Replan, sd_start_tick := start,
       sd_diagnostics := [Lit ''robot does not have a schedulable route'']\<rparr>"

definition schedule_robot_route ::
  "coordinator \<Rightarrow> robot_id \<Rightarrow> claim_id \<Rightarrow> u64 \<Rightarrow> f64 \<Rightarrow> access_mode
   \<Rightarrow> (schedule_decision \<times> coordinator) option"
where
  "schedule_robot_route c rid cid start unit_ticks mode =
     (case (co_index c, find_robot_state c rid) of
        (Some ix, Some s) \<Rightarrow>
          (case rs_route_plan s of
             None \<Rightarrow> Some (unschedulable start, c)
           | Some plan \<Rightarrow>
               (let r = claim_request_from_route cid rid (rs_mission_id s) plan (Some start)
                          unit_ticks mode in
                map_option (\<lambda>d.
                    (d, snd (update_robot c rid (set_schedule r d start))))
                  (schedule_route_request ix (co_claims c) r plan start unit_ticks)))
      | _ \<Rightarrow> Some (unschedulable start, c))"

fun refresh_loop :: "u64 \<Rightarrow> u64 \<Rightarrow> lease_id list \<Rightarrow> u64 \<Rightarrow> claim_manager \<Rightarrow> u64 \<times> claim_manager" where
  "refresh_loop tick extension [] refreshed m = (refreshed, m)"
| "refresh_loop tick extension (i # ids) refreshed m =
     (let expiry = map_option (\<lambda>t. t + extension) (opt_bind (find_lease m i) le_expires_at_tick);
          (ok, m) = refresh_lease m i tick expiry
      in refresh_loop tick extension ids (if ok then refreshed + 1 else refreshed) m)"

definition refresh_robot_leases :: "coordinator \<Rightarrow> robot_id \<Rightarrow> u64 \<Rightarrow> u64 \<Rightarrow> u64 \<times> coordinator" where
  "refresh_robot_leases c rid tick extension =
     (case find_robot_state c rid of
        None \<Rightarrow> (0, c)
      | Some s \<Rightarrow>
          (let c = snd (update_robot c rid (\<lambda>s. s\<lparr>rs_last_claim_tick := Some tick\<rparr>));
               (refreshed, m) = refresh_loop tick extension (rs_active_lease_ids s) 0 (co_claims c)
           in (refreshed, c\<lparr>co_claims := m\<rparr>)))"

fun revoke_loop :: "string \<Rightarrow> u64 \<Rightarrow> lease_id list \<Rightarrow> u64 \<Rightarrow> claim_manager \<Rightarrow> u64 \<times> claim_manager" where
  "revoke_loop why tick [] revoked m = (revoked, m)"
| "revoke_loop why tick (i # ids) revoked m =
     (let (ok, m) = revoke_lease m i why tick
      in revoke_loop why tick ids (if ok then revoked + 1 else revoked) m)"

definition lose_leases :: "string \<Rightarrow> u64 \<Rightarrow> robot_state \<Rightarrow> robot_state" where
  "lose_leases why tick s =
     s\<lparr>rs_active_lease_ids := [], rs_progress_state := MustReplan, rs_hold_reason := Some why,
       rs_updated_at_tick := tick\<rparr>"

definition revoke_robot_leases :: "coordinator \<Rightarrow> robot_id \<Rightarrow> string \<Rightarrow> u64 \<Rightarrow> u64 \<times> coordinator" where
  "revoke_robot_leases c rid why tick =
     (case find_robot_state c rid of
        None \<Rightarrow> (0, c)
      | Some s \<Rightarrow>
          (let c = snd (update_robot c rid (lose_leases why tick));
               (revoked, m) = revoke_loop why tick (rs_active_lease_ids s) 0 (co_claims c);
               c = c\<lparr>co_claims := m\<rparr>
           in (revoked, snd (update_robot c rid (\<lambda>s. s\<lparr>rs_needs_replan := (0 < revoked)\<rparr>)))))"

definition miss_slot :: "u64 \<Rightarrow> robot_state \<Rightarrow> robot_state" where
  "miss_slot now s =
     s\<lparr>rs_progress_state := MustReplan, rs_hold_reason := Some ''missed_reservation_window'',
       rs_needs_replan := True, rs_updated_at_tick := now\<rparr>"

definition handle_missed_schedule_slot ::
  "coordinator \<Rightarrow> robot_id \<Rightarrow> u64 \<Rightarrow> u64 \<Rightarrow> bool \<times> coordinator"
where
  "handle_missed_schedule_slot c rid now grace =
     (case find_robot_state c rid of
        None \<Rightarrow> (False, c)
      | Some s \<Rightarrow>
          if \<not> robot_missed_schedule_slot s now grace then (False, c)
          else update_robot c rid (miss_slot now))"

section \<open>Persistence\<close>

record co_snapshot =
  cs_robot_states :: "robot_state list"
  cs_robot_keys :: "(robot_id \<times> key_verifier) list"
  cs_robot_id_by_uuid :: "(string \<times> robot_id) list"
  cs_next_synthetic :: u64
  cs_robot_alive :: "(robot_id \<times> alive_info) list"
  cs_claims :: cm_snapshot

definition snapshot :: "coordinator \<Rightarrow> co_snapshot" where
  "snapshot c =
     \<lparr>cs_robot_states = co_robots c, cs_robot_keys = co_keys c, cs_robot_id_by_uuid = co_uuids c,
      cs_next_synthetic = co_next_synthetic c, cs_robot_alive = co_alive c,
      cs_claims = cm_snapshot (co_claims c)\<rparr>"

definition restore :: "string \<Rightarrow> kdf_config \<Rightarrow> co_snapshot \<Rightarrow> index option \<Rightarrow> coordinator" where
  \<comment> \<open>the new pepper, \<open>pwhash::Config::default()\<close>\<close>
  "restore pepper cfg s oix =
     \<lparr>co_index = oix, co_claims = cm_restore (cs_claims s) oix, co_robots = cs_robot_states s,
      co_keys = cs_robot_keys s, co_verified = [], co_pepper = pepper, co_challenges = [],
      co_tokens = [], co_failures = [], co_uuids = cs_robot_id_by_uuid s,
      co_next_synthetic = cs_next_synthetic s, co_pending = [], co_alive = cs_robot_alive s,
      co_provisioned = None, co_kdf = cfg\<rparr>"

end
