(* ===== verification/Identity.thy ===== *)
theory Identity
  imports Coordinator
begin

text \<open>
  Who a caller is: what \<open>validate_key\<close>, \<open>prove_identity\<close> and registration guarantee together. The
  coordinator is a transition system labelled with the two events that matter, a challenge issued
  and a proof accepted. What the crates promise is the predicate \<open>crypto_ok\<close>.
\<close>

section \<open>What the crates promise\<close>

text \<open>
  Constant-time comparison is comparison; a password hash verifies exactly the secret it was made
  from; the keyed hash of 32 bytes under a 32-byte key never fails and has no collisions.
\<close>

definition crypto_ok :: "crypto \<Rightarrow> bool" where
  "crypto_ok cx =
     ((\<forall>a b. cx_secure_compare cx a b = (a = b))
      \<and> (\<forall>salt m cost h m'. cx_hash_with cx salt m cost = Some h \<longrightarrow> cx_pw_verify cx h m' = (m' = m))
      \<and> (\<forall>m k. length k = 32 \<longrightarrow> cx_blake2b_keyed cx m k 32 \<noteq> None)
      \<and> (\<forall>m m' k. length k = 32 \<longrightarrow> cx_blake2b_keyed cx m k 32 = cx_blake2b_keyed cx m' k 32 \<longrightarrow> m = m'))"

section \<open>Ordered maps with entries removed\<close>

lemma map_of_bt_remove: "map_of (bt_remove k m) x = (if x = k then None else map_of m x)"
  by (induction m) (auto simp: bt_remove_def)

lemma set_bt_insert: "set (bt_insert k v m) \<subseteq> insert (k, v) (set m)"
  by (induction k v m rule: bt_insert.induct) auto

lemma set_bt_remove: "set (bt_remove k m) \<subseteq> set m"
  by (auto simp: bt_remove_def)

section \<open>The transition system\<close>

datatype event = Challenged robot_id string | Proved robot_id string string string

definition is_did_key :: "key \<Rightarrow> bool" where
  "is_did_key k = (case k of DidKey pk \<Rightarrow> True | _ \<Rightarrow> False)"

text \<open>What identity rests on; the operations on robots, claims and liveness leave it alone.\<close>

definition same_identity :: "coordinator \<Rightarrow> coordinator \<Rightarrow> bool" where
  "same_identity c c' =
     (co_keys c' = co_keys c \<and> co_verified c' = co_verified c \<and> co_pepper c' = co_pepper c
      \<and> co_challenges c' = co_challenges c \<and> co_tokens c' = co_tokens c)"

definition fresh_start :: "coordinator \<Rightarrow> bool" where
  \<comment> \<open>a new coordinator, or one restored from a snapshot\<close>
  "fresh_start c =
     (co_verified c = [] \<and> co_challenges c = [] \<and> co_tokens c = [] \<and> length (co_pepper c) = 32)"

definition nonce_of :: "coordinator \<Rightarrow> robot_id \<Rightarrow> string" where
  "nonce_of c rid = (case map_of (co_challenges c) rid of None \<Rightarrow> [] | Some (nonce, t) \<Rightarrow> nonce)"

inductive auth_reach :: "crypto \<Rightarrow> event list \<Rightarrow> coordinator \<Rightarrow> bool" for cx where
  start: "fresh_start c \<Longrightarrow> auth_reach cx [] c"
| register: "auth_reach cx tr c \<Longrightarrow> \<not> is_did_key k \<Longrightarrow>
    auth_reach cx tr (snd (register_with_verifier cx salt now c rid k cost))"
| challenge: "auth_reach cx tr c \<Longrightarrow>
    auth_reach cx (if fst draw then Challenged rid (snd draw) # tr else tr)
      (snd (issue_challenge draw now c rid))"
| prove: "auth_reach cx tr c \<Longrightarrow>
    auth_reach cx (if fst (prove_identity cx draw now c rid pk sig) \<noteq> None
                   then Proved rid pk (nonce_of c rid) sig # tr else tr)
      (snd (prove_identity cx draw now c rid pk sig))"
| validate: "auth_reach cx tr c \<Longrightarrow> auth_reach cx tr (snd (validate_key cx now c rid k))"
| unregister: "auth_reach cx tr c \<Longrightarrow> auth_reach cx tr (snd (unregister_robot c rid))"
| clear: "auth_reach cx tr c \<Longrightarrow> auth_reach cx tr (co_clear c)"
| other: "auth_reach cx tr c \<Longrightarrow> same_identity c c' \<Longrightarrow> auth_reach cx tr c'"

text \<open>The other operations are of the kind \<open>other\<close>.\<close>

lemma update_robot_frame: "same_identity c (snd (update_robot c rid f))"
  by (simp add: update_robot_def same_identity_def)

lemma others_same_identity:
  "same_identity c (set_alive c rid interval now)"
  "same_identity c (touch_robot c rid now)"
  "same_identity c (snd (expire_claims c now))"
  "same_identity c (snd (sweep_inactive c now))"
  "same_identity c (co_bind_index c ix)"
  "same_identity c (snd (resolve_or_mint_robot_id cx c raw))"
  "same_identity c (set_provisioned_robots c allowed)"
  "same_identity c (set_kdf_params c params)"
  "same_identity c (register_robot c s)"
  "same_identity c (snd (update_robot_pose c rid pos heading at_ms))"
  "same_identity c (snd (update_robot_progress c rid node edge tick))"
  "same_identity c (snd (assign_route_plan c rid plan horizon tick))"
  "same_identity c (snd (update_robot_claim_state c rid pending leases tick'))"
  "same_identity c (snd (release_behind_progress c rid))"
  "same_identity c (snd (refresh_robot_leases c rid tick extension))"
  "same_identity c (snd (revoke_robot_leases c rid why tick))"
  "same_identity c (snd (handle_missed_schedule_slot c rid tick grace))"
  by (simp_all add: same_identity_def set_alive_def touch_robot_def expire_claims_def sweep_inactive_def
      co_bind_index_def resolve_or_mint_robot_id_def set_provisioned_robots_def set_kdf_params_def
      register_robot_def update_robot_pose_def update_robot_progress_def assign_route_plan_def
      update_robot_claim_state_def release_behind_progress_def refresh_robot_leases_def
      revoke_robot_leases_def handle_missed_schedule_slot_def update_robot_def Let_def
      split: option.split prod.split)

section \<open>The invariant\<close>

text \<open>Every cached fingerprint is that of a key the stored verifier accepts.\<close>

definition cache_ok :: "crypto \<Rightarrow> coordinator \<Rightarrow> bool" where
  "cache_ok cx c =
     (\<forall>rid fp. map_of (co_verified c) rid = Some fp \<longrightarrow>
        (\<exists>stored k. map_of (co_keys c) rid = Some stored \<and> verify_key (cx_pw_verify cx) stored k
           \<and> cx_blake2b_keyed cx (material k) (co_pepper c) 32 = Some fp))"

text \<open>Every token answers a proof, and every proof was a signature over a nonce.\<close>

definition tokens_ok :: "event list \<Rightarrow> coordinator \<Rightarrow> bool" where
  "tokens_ok tr c =
     (\<forall>(t, i) \<in> set (co_tokens c). \<exists>nonce sig. Proved (it_robot_id i) (it_public_key i) nonce sig \<in> set tr)"

definition proofs_ok :: "crypto \<Rightarrow> event list \<Rightarrow> bool" where
  "proofs_ok cx tr =
     (\<forall>rid pk nonce sig. Proved rid pk nonce sig \<in> set tr \<longrightarrow>
        nonce \<noteq> [] \<and> cx_verify_detached cx sig nonce pk)"

text \<open>A nonce is answered at most as often as it was issued.\<close>

fun is_challenge :: "robot_id \<Rightarrow> string \<Rightarrow> event \<Rightarrow> bool" where
  "is_challenge rid nonce (Challenged r n) = (r = rid \<and> n = nonce)"
| "is_challenge rid nonce _ = False"

fun is_proof :: "robot_id \<Rightarrow> string \<Rightarrow> event \<Rightarrow> bool" where
  "is_proof rid nonce (Proved r pk n sig) = (r = rid \<and> n = nonce)"
| "is_proof rid nonce _ = False"

definition occurs :: "(event \<Rightarrow> bool) \<Rightarrow> event list \<Rightarrow> nat" where
  "occurs p tr = length (filter p tr)"

definition outstanding :: "coordinator \<Rightarrow> robot_id \<Rightarrow> string \<Rightarrow> nat" where
  "outstanding c rid nonce =
     (case map_of (co_challenges c) rid of None \<Rightarrow> 0 | Some (n, t) \<Rightarrow> if n = nonce then 1 else 0)"

definition single_use :: "event list \<Rightarrow> coordinator \<Rightarrow> bool" where
  "single_use tr c =
     (\<forall>rid nonce. occurs (is_proof rid nonce) tr + outstanding c rid nonce
        \<le> occurs (is_challenge rid nonce) tr)"

definition auth_inv :: "crypto \<Rightarrow> event list \<Rightarrow> coordinator \<Rightarrow> bool" where
  "auth_inv cx tr c =
     (length (co_pepper c) = 32 \<and> cache_ok cx c \<and> tokens_ok tr c \<and> proofs_ok cx tr \<and> single_use tr c)"

lemma inv_frame: "auth_inv cx tr c \<Longrightarrow> same_identity c c' \<Longrightarrow> auth_inv cx tr c'"
  by (simp add: auth_inv_def cache_ok_def tokens_ok_def single_use_def outstanding_def same_identity_def)

lemma fingerprint_some:
  assumes "crypto_ok cx" "length (co_pepper c) = 32"
  shows "cx_blake2b_keyed cx (material k) (co_pepper c) 32 = Some (fingerprint cx c k)"
  using assms by (auto simp: crypto_ok_def fingerprint_def) (metis not_None_eq unwrap_or_simps(2))

text \<open>A secret key verifies against what registering it derives.\<close>

lemma derived_verifies:
  assumes "crypto_ok cx" "\<not> is_did_key k" "\<not> is_token k"
    and "registration_verifier cx salt now c k cost = Some v"
  shows "verify_key (cx_pw_verify cx) v k"
  using assms
  by (cases k) (auto simp: registration_verifier_def is_did_key_def is_token_def is_secret_key_def
      crypto_ok_def split: option.splits sum.splits)

lemma inv_register:
  assumes ok: "crypto_ok cx" and inv: "auth_inv cx tr c" and k: "\<not> is_did_key k"
  shows "auth_inv cx tr (snd (register_with_verifier cx salt now c rid k cost))"
proof (cases "registration_refusal c rid = None")
  case False
  then show ?thesis
    using inv by (auto intro: inv_frame simp: register_with_verifier_def drop_pending_def same_identity_def)
next
  case True
  show ?thesis
  proof (cases "registration_verifier cx salt now c k cost")
    case None
    then show ?thesis
      using inv True by (auto intro: inv_frame simp: register_with_verifier_def drop_pending_def same_identity_def)
  next
    case (Some v)
    let ?c1 = "c\<lparr>co_robots := co_robots c @ [robot_default\<lparr>rs_robot_id := rid\<rparr>],
                 co_keys := bt_insert rid v (co_keys c)\<rparr>"
    let ?c2 = "if \<not> is_token k
               then ?c1\<lparr>co_verified := bt_insert rid (fingerprint cx ?c1 k) (co_verified ?c1)\<rparr> else ?c1"
    have new: "map_of (co_keys c) rid = None"
      using True by (auto simp: registration_refusal_def split: if_splits)
    have cache: "cache_ok cx c" and pep: "length (co_pepper c) = 32" using inv by (simp_all add: auth_inv_def)
    have none: "map_of (co_verified c) rid = None"
      using cache new unfolding cache_ok_def by (metis option.distinct(1) option.exhaust)
    have "cache_ok cx ?c2"
    proof (cases "is_token k")
      case True
      then show ?thesis
        using cache none by (auto simp: cache_ok_def map_of_bt_insert)
    next
      case False
      have "verify_key (cx_pw_verify cx) v k" by (rule derived_verifies [OF ok k False Some])
      with False show ?thesis
        using cache none fingerprint_some [OF ok, of ?c1 k] pep
        by (auto simp: cache_ok_def map_of_bt_insert)
    qed
    then have "auth_inv cx tr ?c2"
      using inv by (auto simp: auth_inv_def tokens_ok_def single_use_def outstanding_def)
    then have "auth_inv cx tr (commit_binding ?c2 rid)"
      by (rule inv_frame) (simp add: commit_binding_def same_identity_def split: option.split)
    with True Some show ?thesis by (simp add: register_with_verifier_def Let_def)
  qed
qed

lemma occurs_simps [simp]:
  "occurs p [] = 0" "occurs p (e # tr) = (if p e then Suc (occurs p tr) else occurs p tr)"
  by (simp_all add: occurs_def)

lemma inv_challenge:
  assumes "auth_inv cx tr c"
  shows "auth_inv cx (if fst draw then Challenged rid (snd draw) # tr else tr)
           (snd (issue_challenge draw now c rid))"
proof (cases "fst draw")
  case True
  have su: "occurs (is_proof r n) tr + outstanding c r n \<le> occurs (is_challenge r n) tr" for r n
    using assms by (simp add: auth_inv_def single_use_def)
  have "occurs (is_proof r n) tr \<le> occurs (is_challenge r n) tr" for r n
    using su [of r n] by simp
  then have "single_use (Challenged rid (snd draw) # tr) (snd (issue_challenge draw now c rid))"
    using True su by (auto simp: single_use_def issue_challenge_def outstanding_def map_of_bt_insert)
  with True assms show ?thesis
    by (auto simp: auth_inv_def issue_challenge_def cache_ok_def tokens_ok_def proofs_ok_def)
qed (use assms in \<open>simp add: issue_challenge_def\<close>)

lemma single_use_less:
  "single_use tr c \<Longrightarrow> (\<And>r n. outstanding c' r n \<le> outstanding c r n) \<Longrightarrow> single_use tr c'"
  unfolding single_use_def by (meson add_left_mono order_trans)

lemma tokens_ok_insert:
  assumes "tokens_ok tr c" "set (co_tokens c') \<subseteq> insert (t, i) (set (co_tokens c))"
  shows "tokens_ok (Proved (it_robot_id i) (it_public_key i) n s # tr) c'"
  unfolding tokens_ok_def
proof
  fix e assume "e \<in> set (co_tokens c')"
  with assms(2) have "e = (t, i) \<or> e \<in> set (co_tokens c)" by blast
  with assms(1) show "case e of (t, j) \<Rightarrow> \<exists>nonce sig.
      Proved (it_robot_id j) (it_public_key j) nonce sig
        \<in> set (Proved (it_robot_id i) (it_public_key i) n s # tr)"
    by (fastforce simp: tokens_ok_def)
qed

lemma inv_consume:
  assumes "auth_inv cx tr c"
  shows "auth_inv cx tr (c\<lparr>co_challenges := bt_remove rid (co_challenges c)\<rparr>)"
proof -
  have "outstanding (c\<lparr>co_challenges := bt_remove rid (co_challenges c)\<rparr>) r n \<le> outstanding c r n" for r n
    by (simp add: outstanding_def map_of_bt_remove)
  with assms show ?thesis
    by (auto simp: auth_inv_def cache_ok_def tokens_ok_def elim: single_use_less)
qed

lemma inv_expire_tokens: "auth_inv cx tr c \<Longrightarrow> auth_inv cx tr (expire_tokens c now)"
  by (auto simp: auth_inv_def expire_tokens_def cache_ok_def tokens_ok_def single_use_def outstanding_def)

text \<open>What a proof that is accepted has checked.\<close>

lemma prove_accepted:
  assumes "prove_identity cx draw now c rid pk sig = (Some token, c')"
  shows "\<exists>issued. map_of (co_challenges c) rid = Some (nonce_of c rid, issued)
    \<and> nonce_of c rid \<noteq> [] \<and> now - issued \<le> challenge_ttl
    \<and> identity_allowed cx c rid pk \<and> cx_verify_detached cx sig (nonce_of c rid) pk
    \<and> c' = (let d = expire_tokens (c\<lparr>co_challenges := bt_remove rid (co_challenges c)\<rparr>) now in
            d\<lparr>co_tokens := bt_insert token
                \<lparr>it_robot_id = rid, it_public_key = pk, it_expires_at = now + token_ttl\<rparr> (co_tokens d)\<rparr>)"
  using assms
  by (auto simp: prove_identity_def nonce_of_def Let_def identity_allowed_def split: option.splits if_splits)

lemma prove_refused:
  assumes "prove_identity cx draw now c rid pk sig = (None, c')"
  shows "c' = c \<or> c' = c\<lparr>co_challenges := bt_remove rid (co_challenges c)\<rparr>
    \<or> c' = expire_tokens (c\<lparr>co_challenges := bt_remove rid (co_challenges c)\<rparr>) now"
  using assms by (auto simp: prove_identity_def Let_def split: option.splits if_splits)

lemma inv_prove:
  assumes inv: "auth_inv cx tr c" and p: "prove_identity cx draw now c rid pk sig = (tok, c')"
  shows "auth_inv cx (if tok \<noteq> None then Proved rid pk (nonce_of c rid) sig # tr else tr) c'"
proof (cases tok)
  case None
  with prove_refused [of cx draw now c rid pk sig c'] p show ?thesis
    using inv inv_consume inv_expire_tokens by auto
next
  case (Some token)
  from prove_accepted [OF p [unfolded Some]] obtain issued where
    ch: "map_of (co_challenges c) rid = Some (nonce_of c rid, issued)" "nonce_of c rid \<noteq> []"
    and sig: "cx_verify_detached cx sig (nonce_of c rid) pk"
    and c': "c' = (let d = expire_tokens (c\<lparr>co_challenges := bt_remove rid (co_challenges c)\<rparr>) now in
        d\<lparr>co_tokens := bt_insert token
            \<lparr>it_robot_id = rid, it_public_key = pk, it_expires_at = now + token_ttl\<rparr> (co_tokens d)\<rparr>)"
    by blast
  let ?d = "expire_tokens (c\<lparr>co_challenges := bt_remove rid (co_challenges c)\<rparr>) now"
  let ?tr = "Proved rid pk (nonce_of c rid) sig # tr"
  have d: "auth_inv cx tr ?d" using inv inv_consume inv_expire_tokens by blast
  let ?i = "\<lparr>it_robot_id = rid, it_public_key = pk, it_expires_at = now + token_ttl\<rparr>"
  have "set (co_tokens c') \<subseteq> insert (token, ?i) (set (co_tokens ?d))"
    using set_bt_insert by (simp add: c' Let_def)
  then have "tokens_ok ?tr c'"
    using tokens_ok_insert [of tr ?d c' token ?i] d by (simp add: auth_inv_def)
  moreover have "proofs_ok cx ?tr"
    using d sig ch(2) by (auto simp: auth_inv_def proofs_ok_def)
  moreover have "single_use ?tr c'"
  proof -
    have su: "occurs (is_proof r n) tr + outstanding c r n \<le> occurs (is_challenge r n) tr" for r n
      using inv by (simp add: auth_inv_def single_use_def)
    have out: "outstanding c' r n = (if r = rid then 0 else outstanding c r n)" for r n
      by (simp add: c' Let_def expire_tokens_def outstanding_def map_of_bt_remove)
    have "outstanding c rid (nonce_of c rid) = 1" using ch(1) by (simp add: outstanding_def)
    with su [of rid "nonce_of c rid"] su show ?thesis
      by (auto simp: single_use_def out intro: order_trans [OF le_add1])
  qed
  moreover have "cache_ok cx c'" "length (co_pepper c') = 32"
    using d by (simp_all add: c' Let_def auth_inv_def cache_ok_def)
  ultimately show ?thesis using Some by (simp add: auth_inv_def)
qed

lemma inv_cache_add:
  assumes "crypto_ok cx" "auth_inv cx tr c" "map_of (co_keys c) rid = Some stored"
    and "verify_key (cx_pw_verify cx) stored k"
  shows "auth_inv cx tr (c\<lparr>co_verified := bt_insert rid (fingerprint cx c k) (co_verified c)\<rparr>)"
proof -
  have "cx_blake2b_keyed cx (material k) (co_pepper c) 32 = Some (fingerprint cx c k)"
    using assms(1,2) by (intro fingerprint_some) (simp_all add: auth_inv_def)
  with assms show ?thesis
    by (auto simp: auth_inv_def cache_ok_def tokens_ok_def single_use_def outstanding_def map_of_bt_insert)
qed

lemma clear_failures_frame: "same_identity c (clear_failures c rid)"
  by (simp add: clear_failures_def same_identity_def)

lemma note_failure_frame: "same_identity c (note_failure c now rid)"
  by (simp add: note_failure_def same_identity_def Let_def split: prod.split)

lemma clear_failures_keys [simp]: "co_keys (clear_failures c rid) = co_keys c"
  by (simp add: clear_failures_def)

lemma inv_try_verify:
  assumes "crypto_ok cx" "auth_inv cx tr c" "map_of (co_keys c) rid = Some stored"
  shows "auth_inv cx tr (snd (try_verify cx now c rid stored k))"
  using inv_cache_add [OF assms] assms(2) inv_frame [OF _ clear_failures_frame] inv_frame [OF _ note_failure_frame]
  by (simp add: try_verify_def)

lemma validate_cases:
  assumes "map_of (co_keys c) rid = Some stored" "\<not> is_token k"
  shows "validate_key cx now c rid k = (True, clear_failures c rid) \<and> known_fingerprint cx c rid k
    \<or> validate_key cx now c rid k = (False, c)
    \<or> validate_key cx now c rid k = try_verify cx now (clear_failures c rid) rid stored k
    \<or> validate_key cx now c rid k = try_verify cx now c rid stored k"
  using assms by (cases k) (auto simp: validate_key_def is_token_def split: option.split prod.split)

lemma inv_validate:
  assumes "crypto_ok cx" "auth_inv cx tr c"
  shows "auth_inv cx tr (snd (validate_key cx now c rid k))"
proof (cases "map_of (co_keys c) rid")
  case None
  then show ?thesis using assms(2) by (simp add: validate_key_def)
next
  case (Some stored)
  show ?thesis
  proof (cases "is_token k")
    case True
    then show ?thesis
      using assms(2) Some by (cases k) (simp_all add: validate_key_def is_token_def)
  next
    case False
    have cl: "auth_inv cx tr (clear_failures c rid)"
      using assms(2) clear_failures_frame by (rule inv_frame)
    show ?thesis
      using validate_cases [OF Some False, of cx now] cl assms(2)
        inv_try_verify [OF assms Some] inv_try_verify [OF assms(1) cl] Some by auto
  qed
qed

lemma inv_unregister:
  assumes "auth_inv cx tr c"
  shows "auth_inv cx tr (snd (unregister_robot c rid))"
proof -
  let ?c = "c\<lparr>co_keys := bt_remove rid (co_keys c), co_verified := bt_remove rid (co_verified c),
    co_challenges := bt_remove rid (co_challenges c),
    co_tokens := filter (\<lambda>(_, issued). it_robot_id issued \<noteq> rid) (co_tokens c)\<rparr>"
  have "outstanding ?c r n \<le> outstanding c r n" for r n
    by (simp add: outstanding_def map_of_bt_remove)
  then have "single_use tr ?c"
    using assms single_use_less unfolding auth_inv_def by blast
  then have "auth_inv cx tr ?c"
    using assms by (auto simp: auth_inv_def cache_ok_def tokens_ok_def map_of_bt_remove)
  then show ?thesis
    using assms by (auto simp: unregister_robot_def Let_def same_identity_def split: option.split
        intro: inv_frame)
qed

lemma inv_clear:
  assumes "auth_inv cx tr c"
  shows "auth_inv cx tr (co_clear c)"
proof -
  have "outstanding (co_clear c) r n \<le> outstanding c r n" for r n
    by (simp add: outstanding_def co_clear_def)
  with assms show ?thesis
    by (auto simp: auth_inv_def cache_ok_def tokens_ok_def co_clear_def elim: single_use_less)
qed

lemma reach_inv:
  assumes "crypto_ok cx" "auth_reach cx tr c"
  shows "auth_inv cx tr c"
  using assms(2)
proof (induction rule: auth_reach.induct)
  case (start c)
  then show ?case
    by (simp add: fresh_start_def auth_inv_def cache_ok_def tokens_ok_def proofs_ok_def single_use_def
        outstanding_def)
next
  case (register tr c k salt now rid cost)
  then show ?case using assms(1) by (blast intro: inv_register)
next
  case (challenge tr c draw rid now)
  then show ?case by (blast intro: inv_challenge)
next
  case (prove tr c draw now rid pk sig)
  then show ?case using inv_prove [of cx tr c draw now rid pk sig] by (metis prod.collapse)
next
  case (validate tr c now rid k)
  then show ?case using assms(1) by (blast intro: inv_validate)
qed (blast intro: inv_unregister inv_clear inv_frame)+

section \<open>What is guaranteed\<close>

lemma known_verifies:
  assumes "crypto_ok cx" "auth_inv cx tr c" "known_fingerprint cx c rid k"
    and "map_of (co_keys c) rid = Some stored"
  shows "verify_key (cx_pw_verify cx) stored k"
proof -
  have pep: "length (co_pepper c) = 32" using assms(2) by (simp add: auth_inv_def)
  obtain fp where fp: "map_of (co_verified c) rid = Some fp" "fp = fingerprint cx c k"
    using assms(1,3) by (auto simp: known_fingerprint_def crypto_ok_def split: option.splits)
  obtain k0 where k0: "verify_key (cx_pw_verify cx) stored k0"
      "cx_blake2b_keyed cx (material k0) (co_pepper c) 32 = Some fp"
    using assms(2,4) fp(1) unfolding auth_inv_def cache_ok_def by (metis option.inject)
  have "cx_blake2b_keyed cx (material k) (co_pepper c) 32 = Some fp"
    using fingerprint_some [OF assms(1) pep, of k] fp(2) by simp
  then have "material k0 = material k"
    using k0(2) assms(1) pep unfolding crypto_ok_def by metis
  then show ?thesis using k0(1) by (simp add: material_inj)
qed

lemma validate_secret:
  assumes "crypto_ok cx" "auth_inv cx tr c" "fst (validate_key cx now c rid k)" "\<not> is_token k"
  shows "\<exists>stored. map_of (co_keys c) rid = Some stored \<and> verify_key (cx_pw_verify cx) stored k"
proof -
  obtain stored where st: "map_of (co_keys c) rid = Some stored"
    using assms(3) by (cases "map_of (co_keys c) rid") (auto simp: validate_key_def)
  have tv: "fst (try_verify cx now d rid stored k) \<Longrightarrow> verify_key (cx_pw_verify cx) stored k" for d
    by (simp add: try_verify_def split: if_splits)
  show ?thesis
    using validate_cases [OF st assms(4), of cx now] assms(3) st tv known_verifies [OF assms(1,2) _ st]
    by auto
qed

text \<open>
  C26: while no bare \<open>did:key\<close> is registered (the wire refuses them), in every reachable state a key
  that is not a bearer token authenticates only when the stored verifier accepts that very key,
  whatever the cache of past verifications holds.
\<close>

theorem validate_key_sound:
  assumes "crypto_ok cx" "auth_reach cx tr c" "fst (validate_key cx now c rid k)" "\<not> is_token k"
  shows "\<exists>stored. map_of (co_keys c) rid = Some stored \<and> verify_key (cx_pw_verify cx) stored k"
  using validate_secret [OF assms(1) reach_inv [OF assms(1,2)] assms(3,4)] .

text \<open>
  C27: a bearer token authenticates a robot only while it lives, and only when someone proved for
  that robot, by a signature over a challenge, the public key the token records.
\<close>

theorem token_backed_by_proof:
  assumes "crypto_ok cx" "auth_reach cx tr c" "fst (validate_key cx now c rid (Token t))"
  shows "\<exists>issued nonce sig. map_of (co_tokens c) t = Some issued \<and> now < it_expires_at issued
    \<and> it_robot_id issued = rid \<and> Proved rid (it_public_key issued) nonce sig \<in> set tr
    \<and> nonce \<noteq> [] \<and> cx_verify_detached cx sig nonce (it_public_key issued)"
proof -
  have inv: "auth_inv cx tr c" using assms(1,2) by (rule reach_inv)
  obtain i where i: "map_of (co_tokens c) t = Some i" "now < it_expires_at i" "it_robot_id i = rid"
    using assms(3) by (auto simp: validate_key_def token_holder_def split: option.splits if_splits)
  then have "(t, i) \<in> set (co_tokens c)" by (blast dest: map_of_SomeD)
  then obtain nonce sig where "Proved rid (it_public_key i) nonce sig \<in> set tr"
    using inv i(3) unfolding auth_inv_def tokens_ok_def by blast
  moreover from this have "nonce \<noteq> [] \<and> cx_verify_detached cx sig nonce (it_public_key i)"
    using inv unfolding auth_inv_def proofs_ok_def by blast
  ultimately show ?thesis using i by blast
qed

text \<open>
  C28: no challenge is answered twice: over any run, the proofs accepted for a robot and a nonce are
  no more than the times that nonce was issued to it.
\<close>

theorem challenge_single_use:
  assumes "crypto_ok cx" "auth_reach cx tr c"
  shows "occurs (is_proof rid nonce) tr \<le> occurs (is_challenge rid nonce) tr"
proof -
  have "occurs (is_proof rid nonce) tr + outstanding c rid nonce \<le> occurs (is_challenge rid nonce) tr"
    using reach_inv [OF assms] by (simp add: auth_inv_def single_use_def)
  then show ?thesis by simp
qed

section \<open>Registration\<close>

lemma register_cases:
  "register_with_verifier cx salt now c rid k cost =
     (case (registration_refusal c rid, registration_verifier cx salt now c k cost) of
        (None, Some v) \<Rightarrow>
          (True, commit_binding
             (c\<lparr>co_robots := co_robots c @ [robot_default\<lparr>rs_robot_id := rid\<rparr>],
                co_keys := bt_insert rid v (co_keys c),
                co_verified := (if is_token k then co_verified c
                                else bt_insert rid (fingerprint cx c k) (co_verified c))\<rparr>) rid)
      | _ \<Rightarrow> (False, drop_pending c rid))"
  by (auto simp: register_with_verifier_def fingerprint_def split: option.split)

text \<open>
  Registration takes exactly when nothing refuses it and the key gives a verifier; it then binds
  that verifier to that id and commits the UUID the id was minted for, and touches no other robot's
  key, state or UUID; refused, it binds nothing and forgets the tentative UUID.
\<close>

theorem register_exact:
  "let (b, c') = register_with_verifier cx salt now c rid k cost;
       v = registration_verifier cx salt now c k cost
   in b = (registration_refusal c rid = None \<and> v \<noteq> None)
    \<and> map_of (co_keys c') = (if b then (map_of (co_keys c))(rid := v) else map_of (co_keys c))
    \<and> co_robots c' = co_robots c @ (if b then [robot_default\<lparr>rs_robot_id := rid\<rparr>] else [])
    \<and> map_of (co_uuids c') u =
        (if b \<and> map_of (co_pending c) rid = Some u then Some rid else map_of (co_uuids c) u)
    \<and> map_of (co_pending c') = (map_of (co_pending c))(rid := None)"
proof -
  have none: "map_of (co_pending c) rid = None \<Longrightarrow> (map_of (co_pending c))(rid := None) = map_of (co_pending c)"
    by auto
  have rem: "map_of (bt_remove rid m) = (map_of m)(rid := None)" for m :: "(robot_id \<times> string) list"
    by (rule ext) (simp add: map_of_bt_remove)
  show ?thesis
    unfolding register_cases
    by (cases "registration_refusal c rid"; cases "registration_verifier cx salt now c k cost";
        cases "map_of (co_pending c) rid")
      (auto simp: commit_binding_def drop_pending_def map_of_bt_insert rem none)
qed

text \<open>
  A robot that shows the right key is let in: at once when the key is in the cache, and
  otherwise at the latest when the cooldown of any run of failures before now is over.
\<close>

lemma right_key_in:
  assumes "map_of (co_keys c) rid = Some stored" "verify_key (cx_pw_verify cx) stored k"
    and "\<forall>n since. map_of (co_failures c) rid = Some (n, since) \<longrightarrow> since \<le> now"
  shows "fst (validate_key cx (now + key_failure_cooldown) c rid k)"
proof -
  have k: "is_secret_key k" using assms(2) by (cases stored) auto
  have t: "fst (try_verify cx t d rid stored k)" for t d
    using assms(2) by (simp add: try_verify_def)
  show ?thesis
  proof (cases "map_of (co_failures c) rid")
    case None
    with k t assms(1) show ?thesis
      by (cases k) (simp_all add: validate_key_def is_secret_key_def)
  next
    case (Some f)
    obtain n since where f: "f = (n, since)" by force
    with assms(3) Some have "\<not> now + key_failure_cooldown - since < key_failure_cooldown" by auto
    with k t assms(1) Some f show ?thesis
      by (cases k) (simp_all add: validate_key_def is_secret_key_def)
  qed
qed

theorem right_key_accepted:
  assumes "map_of (co_keys c) rid = Some stored" "verify_key (cx_pw_verify cx) stored k"
    and "\<forall>n since. map_of (co_failures c) rid = Some (n, since) \<longrightarrow> since \<le> now"
  shows "fst (validate_key cx (now + key_failure_cooldown) c rid k)
    \<and> (known_fingerprint cx c rid k \<longrightarrow> fst (validate_key cx now c rid k))"
proof -
  have "is_secret_key k" using assms(2) by (cases stored) auto
  then have "known_fingerprint cx c rid k \<Longrightarrow> fst (validate_key cx now c rid k)"
    using assms(1) by (cases k) (simp_all add: validate_key_def is_secret_key_def)
  with right_key_in [OF assms] show ?thesis by blast
qed

section \<open>Restarts\<close>

text \<open>
  A coordinator restored from its snapshot has the same snapshot (its counter of claim ids at
  least one), and authenticates exactly the keys the stored verifiers accept: the caches and the
  bearer tokens are gone, so a \<open>did:key\<close> robot has to prove itself again.
\<close>

theorem restart_exact:
  "snapshot (restore pepper cfg (snapshot c) oix) =
     (snapshot c)\<lparr>cs_claims := (cm_snapshot (co_claims c))\<lparr>sn_next_id := max (cm_next_id (co_claims c)) 1\<rparr>\<rparr>
   \<and> fst (validate_key cx now (restore pepper cfg (snapshot c) oix) rid k) =
     (case map_of (co_keys c) rid of None \<Rightarrow> False | Some stored \<Rightarrow> verify_key (cx_pw_verify cx) stored k)"
proof
  show "snapshot (restore pepper cfg (snapshot c) oix) =
     (snapshot c)\<lparr>cs_claims := (cm_snapshot (co_claims c))\<lparr>sn_next_id := max (cm_next_id (co_claims c)) 1\<rparr>\<rparr>"
    by (simp add: snapshot_def restore_def cm_snapshot_def cm_restore_def)
  have tok: "\<not> verify_key (cx_pw_verify cx) stored (Token t)" for stored t
    by (cases stored) (simp_all add: is_secret_key_def)
  show "fst (validate_key cx now (restore pepper cfg (snapshot c) oix) rid k) =
     (case map_of (co_keys c) rid of None \<Rightarrow> False | Some stored \<Rightarrow> verify_key (cx_pw_verify cx) stored k)"
    by (cases k) (auto simp: validate_key_def restore_def snapshot_def token_holder_def known_fingerprint_def
        try_verify_def tok split: option.split)
qed

section \<open>Two gaps\<close>

text \<open>
  The struct itself does not refuse a bare \<open>did:key\<close>: registering one caches its fingerprint, and
  from then on the public key alone authenticates, although the stored verifier accepts no key.
\<close>

theorem did_key_bypass:
  assumes "crypto_ok cx" "registration_refusal c rid = None"
  shows "fst (validate_key cx now' (snd (register_with_verifier cx salt now c rid (DidKey pk) cost)) rid (DidKey pk))
    \<and> map_of (co_keys (snd (register_with_verifier cx salt now c rid (DidKey pk) cost))) rid = Some (DidVerifier pk)"
  using assms
  by (auto simp: register_cases registration_verifier_def is_token_def commit_binding_def validate_key_def
      map_of_bt_insert known_fingerprint_def crypto_ok_def fingerprint_def split: option.split)

text \<open>
  A token proved for an id nobody holds outlives the registration of that id by somebody else with
  a password: the holder of the token then authenticates as that robot.
\<close>

theorem stale_token_authenticates:
  assumes "map_of (co_tokens c) t = Some issued" "it_robot_id issued = rid" "now < it_expires_at issued"
    and "registration_refusal c rid = None" "registration_verifier cx salt now c (Numeric n) cost = Some v"
  shows "fst (validate_key cx now (snd (register_with_verifier cx salt now c rid (Numeric n) cost)) rid (Token t))"
  using assms
  by (auto simp: register_cases is_token_def commit_binding_def validate_key_def token_holder_def
      map_of_bt_insert split: option.split)

section \<open>A run\<close>

text \<open>
  A model of the crates that keeps their promises: the secret is its own hash, and the signature of
  a message under a key is the message followed by the key.
\<close>

definition demo_crypto :: crypto where
  "demo_crypto =
     \<lparr>cx_hash_with = (\<lambda>salt m cost. Some m), cx_pw_verify = (\<lambda>h m. h = m),
      cx_blake2b_keyed = (\<lambda>m k n. Some m), cx_secure_compare = (\<lambda>a b. a = b),
      cx_verify_detached = (\<lambda>sig m pk. sig = m @ pk), cx_canonical_uuid = (\<lambda>s. Some s)\<rparr>"

lemma demo_crypto_ok: "crypto_ok demo_crypto"
  by (auto simp: crypto_ok_def demo_crypto_def)

definition demo_start :: coordinator where
  "demo_start = co_default (replicate 32 CHR 0x00) insecure_test_cost"

text \<open>Robot 7 registers with a number; robot 8 answers a challenge and registers with its token.\<close>

definition demo_password :: coordinator where
  "demo_password = snd (register_with_verifier demo_crypto [] 0 demo_start 7 (Numeric 1234) insecure_test_cost)"

definition demo_challenged :: coordinator where
  "demo_challenged = snd (issue_challenge (True, ''n'') 0 demo_password 8)"

definition demo_proved :: coordinator where
  "demo_proved = snd (prove_identity demo_crypto (True, ''r'') 5 demo_challenged 8 ''pk'' ''npk'')"

definition demo_token :: coordinator where
  "demo_token = snd (register_with_verifier demo_crypto [] 6 demo_proved 8 (Token ''72'') insecure_test_cost)"

lemma demo_password_eq:
  "demo_password = demo_start\<lparr>co_robots := [robot_default\<lparr>rs_robot_id := 7\<rparr>],
     co_keys := [(7, Secret (material (Numeric 1234)))], co_verified := [(7, material (Numeric 1234))]\<rparr>"
  by (simp add: demo_password_def register_cases registration_refusal_def is_provisioned_def
      find_robot_state_def demo_start_def co_default_def max_registered_robots_def is_token_def
      registration_verifier_def demo_crypto_def commit_binding_def fingerprint_def del: material.simps)

lemma demo_challenged_eq: "demo_challenged = demo_password\<lparr>co_challenges := [(8, ''n'', 0)]\<rparr>"
  by (simp add: demo_challenged_def issue_challenge_def demo_password_eq demo_start_def co_default_def)

lemma hex_r: "hex_byte (CHR ''r'') = ''72''"
  by code_simp

lemma demo_prove:
  "prove_identity demo_crypto (True, ''r'') 5 demo_challenged 8 ''pk'' ''npk'' =
     (Some ''72'', demo_password\<lparr>co_tokens :=
        [(''72'', \<lparr>it_robot_id = 8, it_public_key = ''pk'', it_expires_at = 5 + token_ttl\<rparr>)]\<rparr>)"
  by (simp add: prove_identity_def demo_challenged_eq demo_password_eq demo_start_def co_default_def
      challenge_ttl_def identity_allowed_def demo_crypto_def expire_tokens_def bt_remove_def hex_r Let_def)

lemma demo_proved_eq:
  "demo_proved = demo_password\<lparr>co_tokens :=
     [(''72'', \<lparr>it_robot_id = 8, it_public_key = ''pk'', it_expires_at = 5 + token_ttl\<rparr>)]\<rparr>"
  unfolding demo_proved_def demo_prove by simp

lemma demo_reach_password: "auth_reach demo_crypto [] demo_password"
  unfolding demo_password_def
  by (rule auth_reach.register) (auto intro!: auth_reach.start simp: fresh_start_def demo_start_def
      co_default_def is_did_key_def)

lemma demo_reach_token:
  "auth_reach demo_crypto [Proved 8 ''pk'' ''n'' ''npk'', Challenged 8 ''n''] demo_token"
proof -
  have a: "auth_reach demo_crypto [Challenged 8 ''n''] demo_challenged"
    using auth_reach.challenge [OF demo_reach_password, of "(True, ''n'')" 8 0] by (simp add: demo_challenged_def)
  have "fst (prove_identity demo_crypto (True, ''r'') 5 demo_challenged 8 ''pk'' ''npk'') \<noteq> None
      \<and> nonce_of demo_challenged 8 = ''n''"
    unfolding demo_prove by (simp add: nonce_of_def demo_challenged_eq)
  then have b: "auth_reach demo_crypto [Proved 8 ''pk'' ''n'' ''npk'', Challenged 8 ''n''] demo_proved"
    using auth_reach.prove [OF a, of "(True, ''r'')" 5 8 "''pk''" "''npk''"] by (simp add: demo_proved_def)
  then show ?thesis
    unfolding demo_token_def by (rule auth_reach.register) (simp add: is_did_key_def)
qed

theorem validate_key_sound_witness:
  "\<exists>stored. map_of (co_keys demo_password) 7 = Some stored
     \<and> verify_key (cx_pw_verify demo_crypto) stored (Numeric 1234)"
proof -
  have "fst (validate_key demo_crypto 1 demo_password 7 (Numeric 1234)) \<and> \<not> is_token (Numeric 1234)"
    by (simp add: validate_key_def demo_password_eq known_fingerprint_def fingerprint_def demo_crypto_def
        is_token_def del: material.simps)
  then show ?thesis using validate_key_sound [OF demo_crypto_ok demo_reach_password] by blast
qed

theorem token_backed_by_proof_witness:
  "\<exists>issued nonce sig. map_of (co_tokens demo_token) ''72'' = Some issued \<and> 7 < it_expires_at issued
    \<and> it_robot_id issued = 8
    \<and> Proved 8 (it_public_key issued) nonce sig \<in> {Proved 8 ''pk'' ''n'' ''npk'', Challenged 8 ''n''}
    \<and> nonce \<noteq> [] \<and> cx_verify_detached demo_crypto sig nonce (it_public_key issued)"
proof -
  have "fst (validate_key demo_crypto 7 demo_token 8 (Token ''72''))"
    by (simp add: demo_token_def demo_proved_eq register_cases registration_refusal_def
        is_provisioned_def find_robot_state_def demo_password_eq demo_start_def co_default_def
        max_registered_robots_def registration_verifier_def token_identity_def token_ttl_def is_token_def
        commit_binding_def validate_key_def token_holder_def robot_default_def del: material.simps)
  then show ?thesis using token_backed_by_proof [OF demo_crypto_ok demo_reach_token] by fastforce
qed

theorem challenge_single_use_witness:
  "occurs (is_proof 8 ''n'') [Proved 8 ''pk'' ''n'' ''npk'', Challenged 8 ''n'']
     \<le> occurs (is_challenge 8 ''n'') [Proved 8 ''pk'' ''n'' ''npk'', Challenged 8 ''n'']"
  by (rule challenge_single_use [OF demo_crypto_ok demo_reach_token])

theorem right_key_accepted_witness:
  "fst (validate_key demo_crypto (1 + key_failure_cooldown) demo_password 7 (Numeric 1234))
     \<and> fst (validate_key demo_crypto 1 demo_password 7 (Numeric 1234))"
proof -
  have "map_of (co_keys demo_password) 7 = Some (Secret (material (Numeric 1234)))
      \<and> verify_key (cx_pw_verify demo_crypto) (Secret (material (Numeric 1234))) (Numeric 1234)
      \<and> co_failures demo_password = [] \<and> known_fingerprint demo_crypto demo_password 7 (Numeric 1234)"
    by (simp add: demo_password_eq demo_start_def co_default_def demo_crypto_def is_secret_key_def
        known_fingerprint_def fingerprint_def del: material.simps)
  then show ?thesis
    using right_key_accepted [of demo_password 7 "Secret (material (Numeric 1234))" demo_crypto "Numeric 1234"]
    by auto
qed

lemma demo_number_verifier:
  "registration_refusal demo_proved 8 = None
   \<and> registration_verifier demo_crypto [] 6 demo_proved (Numeric 1234) insecure_test_cost
       = Some (Secret (material (Numeric 1234)))"
  by (simp add: demo_proved_eq registration_refusal_def is_provisioned_def
      find_robot_state_def demo_password_eq demo_start_def co_default_def max_registered_robots_def
      registration_verifier_def demo_crypto_def robot_default_def del: material.simps)

theorem stale_token_authenticates_witness:
  "fst (validate_key demo_crypto 6
          (snd (register_with_verifier demo_crypto [] 6 demo_proved 8 (Numeric 1234) insecure_test_cost))
          8 (Token ''72''))"
proof -
  have "map_of (co_tokens demo_proved) ''72''
        = Some \<lparr>it_robot_id = 8, it_public_key = ''pk'', it_expires_at = 5 + token_ttl\<rparr>"
    by (simp add: demo_proved_eq)
  then show ?thesis
    using demo_number_verifier by (intro stale_token_authenticates) (auto simp: token_ttl_def)
qed

end
