(* ===== verification/Sample.thy ===== *)
theory Sample
  imports Index
begin

text \<open>
  Two small workspaces on which the properties' witnesses are evaluated: the yard, a site with a hall,
  a bay inside it and a dock; and the lane, two nodes joined by one or two parallel edges.
\<close>

section \<open>The yard\<close>

text \<open>A workspace whose zone lookup searches the tree, for the examples of the development.\<close>

definition find_in_tree :: "zone \<Rightarrow> uuid \<Rightarrow> zone option" where
  "find_in_tree z i = find (\<lambda>x. z_id x = i) (zone_tree z)"

lemma find_in_tree_ok: "ws_find_zone w = find_in_tree (ws_root_zone w) \<Longrightarrow> find_zone_ok w"
  by (auto simp: find_zone_ok_def find_in_tree_def find_Some_iff find_None_iff)

definition yard :: zone where
  "yard =
     Zone 1 ''yard'' ''site'' [(''traffic.capacity'', ''5'')] []
       [Zone 2 ''hall'' ''room'' [(''traffic.policy'', ''exclusive'')] [10, 11]
          [Zone 3 ''bay'' ''room'' [(''traffic.policy'', ''shared'')] [11] []],
        Zone 4 ''dock'' ''room'' [] [12] []]"

definition yard_vertex :: "vid \<Rightarrow> node_data option" where
  "yard_vertex v =
     (if v = 0 then Some \<lparr>nd_id = 10, nd_zone_ids = [2], nd_properties = []\<rparr>
      else if v = 1 then Some \<lparr>nd_id = 11, nd_zone_ids = [2, 3], nd_properties = []\<rparr>
      else if v = 2 then Some \<lparr>nd_id = 12, nd_zone_ids = [4], nd_properties = []\<rparr>
      else None)"

definition yard_edge :: "eid \<Rightarrow> edge_data option" where
  "yard_edge e =
     (if e = 0 then Some \<lparr>ed_id = 20, ed_zone_ids = [2], ed_properties = []\<rparr>
      else if e = 1 then Some \<lparr>ed_id = 21, ed_zone_ids = [], ed_properties = []\<rparr>
      else None)"

definition yard_ws :: workspace where
  "yard_ws =
     \<lparr>ws_root_zone = yard, ws_find_zone = find_in_tree yard, ws_vertices = [0, 1, 2],
      ws_get_vertex = yard_vertex,
      ws_find_node = (\<lambda>i. if i = 10 then Some 0 else if i = 11 then Some 1
                           else if i = 12 then Some 2 else None),
      ws_edges = [0, 1], ws_edge_property = yard_edge,
      ws_source = (\<lambda>e. if e \<le> 1 then Some e else None),
      ws_target = (\<lambda>e. if e \<le> 1 then Some (e + 1) else None),
      ws_get_weight = (\<lambda>e. if e = 0 then Some (Fin 2) else if e = 1 then Some (Fin 3) else None),
      ws_get_edge = (\<lambda>a b. if a \<le> 1 \<and> b = a + 1 then Some a else None),
      ws_coord_mode = Global, ws_datum = None\<rparr>"

lemma yard_tree_ids [simp]: "tree_ids yard_ws = [1, 2, 3, 4]"
  by (simp add: yard_ws_def yard_def)

lemma yard_find_ok: "find_zone_ok yard_ws"
  by (rule find_in_tree_ok) (simp add: yard_ws_def)

lemma hash_order_id: "hash_order (\<lambda>xs. xs)"
  by (simp add: hash_order_def)

abbreviation yard_ix :: index where
  "yard_ix \<equiv> rebuild (\<lambda>xs. xs) yard_ws"

lemma yard_links: "zone_links_of yard_ws =
  \<lparr>zl_zone_ids = [1, 4, 2, 3], zl_parents = [(4, 1), (2, 1), (3, 2)],
   zl_children = [(1, [4, 2]), (2, [3])], zl_duplicates = []\<rparr>"
  by (simp add: zone_links_of_def yard_ws_def yard_def link_zone_def push_entry_def Let_def)

lemma yard_nodes: "ix_nodes yard_ix = [(10, 0), (11, 1), (12, 2)]"
  by (simp add: rebuild_def Let_def index_fold_frame [where f = ix_nodes] ) 
   (simp add: yard_ws_def yard_vertex_def index_node_def parse_numeric_id_def Let_def)

lemma policy_of_keyword:
  "parse_zone_policy [] = zone_policy_empty"
  "parse_zone_policy [(''traffic.capacity'', ''5'')] =
     zone_policy_empty\<lparr>zp_kind := CapacityLimited, zp_capacity := 5, zp_capacity_is_explicit := True,
       zp_properties := [(''traffic.capacity'', ''5'')]\<rparr>"
  "parse_zone_policy [(''traffic.policy'', ''exclusive'')] =
     zone_policy_empty\<lparr>zp_kind := ExclusiveAccess, zp_properties := [(''traffic.policy'', ''exclusive'')]\<rparr>"
  "parse_zone_policy [(''traffic.policy'', ''shared'')] =
     zone_policy_empty\<lparr>zp_kind := SharedAccess, zp_properties := [(''traffic.policy'', ''shared'')]\<rparr>"
  by (simp_all add: parse_zone_policy_def finish_zone_policy_def zone_policy_empty_def
     zone_property_step_def canonical_zone_traffic_key_def zone_key_aliases_def zone_match_def
     parse_zone_policy_kind_def str_trim_def trim_with.simps ws_encodings_def
     to_ascii_lowercase_def ascii_lower_def char_of_def parse_traffic_u64_def parse_u64_def
     parse_u64_str_def is_digit_def digits_val_def ok_or_else_def)

lemma yard_policies: "map_of (ix_zone_policies yard_ix) = map_of
   [(1, parse_zone_policy [(''traffic.capacity'', ''5'')]), (4, parse_zone_policy []),
    (2, parse_zone_policy [(''traffic.policy'', ''exclusive'')]),
    (3, parse_zone_policy [(''traffic.policy'', ''shared'')])]"
  by (simp add: rebuild_def Let_def index_fold_frame [where f = ix_zone_policies]
    index_fold_frame [where f = ix_zone_ids] yard_links) 
   (simp add: yard_ws_def yard_def find_in_tree_def index_zone_def parse_numeric_id_def numeric_id_property_def Let_def)

lemma yard_find: "ws_find_zone yard_ws = find_in_tree yard"
  by (simp add: yard_ws_def)

lemma yard_above:
  "ancestor_zones yard_ix 2 = Some [yard]" "ancestor_zones yard_ix 1 = Some []"
  by (simp_all add: ancestor_zones_def ancestor_loop.simps yard_links yard_find)
    (simp add: find_in_tree_def yard_def)

lemma yard_zones_of_10: "map z_id (zones_of_node yard_ix 10) = [2]"
  by (simp add: zones_of_node_def ix_node_def yard_nodes yard_find map_filter_simps)
    (simp add: find_in_tree_def yard_ws_def yard_def yard_vertex_def map_filter_simps)

theorem zone_contains_subtree_witness:
  "zone_contains (rebuild (\<lambda>xs. xs) yard_ws) 2 3 \<and> \<not> zone_contains (rebuild (\<lambda>xs. xs) yard_ws) 2 4"
  using zone_contains_subtree [OF hash_order_id yard_find_ok, of 3 2]
    zone_contains_subtree [OF hash_order_id yard_find_ok, of 4 2]
  by (simp add: in_subtree_def) (simp add: yard_ws_def yard_def)

section \<open>The lane\<close>

text \<open>
  Two nodes in one zone, joined by the blocked edge 20 and, when \<open>two\<close> holds, by the parallel open
  edge 21. Looking up the edge between the nodes gives the first.
\<close>

definition lane_vertex :: "vid \<Rightarrow> node_data option" where
  "lane_vertex v =
     (if v = 0 then Some \<lparr>nd_id = 10, nd_zone_ids = [], nd_properties = []\<rparr>
      else if v = 1 then Some \<lparr>nd_id = 11, nd_zone_ids = [], nd_properties = []\<rparr>
      else None)"

definition lane_edge :: "eid \<Rightarrow> edge_data option" where
  "lane_edge e =
     (if e = 0 then Some \<lparr>ed_id = 20, ed_zone_ids = [], ed_properties = [(''traffic.blocked'', ''true'')]\<rparr>
      else if e = 1 then Some \<lparr>ed_id = 21, ed_zone_ids = [], ed_properties = []\<rparr>
      else None)"

definition lane_ws :: "bool \<Rightarrow> workspace" where
  "lane_ws two =
     \<lparr>ws_root_zone = Zone 1 ''lane'' ''site'' [] [] [],
      ws_find_zone = find_in_tree (Zone 1 ''lane'' ''site'' [] [] []),
      ws_vertices = [0, 1], ws_get_vertex = lane_vertex,
      ws_find_node = (\<lambda>i. if i = 10 then Some 0 else if i = 11 then Some 1 else None),
      ws_edges = (if two then [0, 1] else [0]), ws_edge_property = lane_edge,
      ws_source = (\<lambda>e. if e \<le> 1 then Some 0 else None),
      ws_target = (\<lambda>e. if e \<le> 1 then Some 1 else None),
      ws_get_weight = (\<lambda>e. if e \<le> 1 then Some (Fin 1) else None),
      ws_get_edge = (\<lambda>a b. if a = 0 \<and> b = 1 then Some 0 else None),
      ws_coord_mode = Global, ws_datum = None\<rparr>"

abbreviation lane_ix :: "bool \<Rightarrow> index" where
  "lane_ix two \<equiv> rebuild (\<lambda>xs. xs) (lane_ws two)"

lemma lane_ws_simps [simp]:
  "ws_get_vertex (lane_ws two) = lane_vertex" "ws_edge_property (lane_ws two) = lane_edge"
  "ws_vertices (lane_ws two) = [0, 1]" "ws_edges (lane_ws two) = (if two then [0, 1] else [0])"
  by (simp_all add: lane_ws_def)

lemma lane_nodes: "ix_nodes (lane_ix two) = [(10, 0), (11, 1)]"
  by (simp add: rebuild_def Let_def index_fold_frame [where f = ix_nodes])
   (simp add: lane_vertex_def index_node_def parse_numeric_id_def Let_def)

lemma lane_edges: "ix_edges (lane_ix two) = (if two then [(20, 0), (21, 1)] else [(20, 0)])"
  by (simp add: rebuild_def Let_def index_fold_frame [where f = ix_edges])
   (simp add: lane_edge_def index_edge_def parse_numeric_id_def numeric_id_property_def Let_def)

definition adj :: "uuid \<Rightarrow> uuid \<Rightarrow> f64 \<Rightarrow> bool \<Rightarrow> adjacency" where
  "adj n e w s = \<lparr>adj_node_id = n, adj_edge_id = e, adj_weight = w, adj_from_source = s\<rparr>"

lemma adj_simps [simp]:
  "adj_node_id (adj n e w s) = n" "adj_edge_id (adj n e w s) = e"
  "adj_weight (adj n e w s) = w" "adj_from_source (adj n e w s) = s"
  by (simp_all add: adj_def)

lemma lane_steps:
  "concat (map (adjacency_steps (lane_ws two)) (ws_edges (lane_ws two))) =
     [(10, adj 11 20 (Fin 1) True), (11, adj 10 20 (Fin 1) False)]
     @ (if two then [(10, adj 11 21 (Fin 1) True), (11, adj 10 21 (Fin 1) False)] else [])"
  by (simp add: adjacency_steps_def adj_def)
    (simp add: lane_ws_def lane_vertex_def lane_edge_def Let_def)

lemma lane_neighbors:
  "neighbors (lane_ix two) a =
     (if a = 10 then adj 11 20 (Fin 1) True # (if two then [adj 11 21 (Fin 1) True] else [])
      else if a = 11 then adj 10 20 (Fin 1) False # (if two then [adj 10 21 (Fin 1) False] else [])
      else [])"
  unfolding neighbors_rebuild lane_steps by auto

lemma edge_semantics_of_keyword:
  "parse_edge_traffic_semantics [] False = edge_semantics_default"
  "es_blocked (parse_edge_traffic_semantics [(''traffic.blocked'', ''true'')] False) = Some True"
  "es_preferred_direction (parse_edge_traffic_semantics [(''traffic.blocked'', ''true'')] False) = None"
  by (simp_all add: parse_edge_traffic_semantics_def edge_semantics_default_def edge_property_step_def
      canonical_edge_traffic_key_def edge_key_aliases_def edge_match_def parse_traffic_bool_def
      parse_bool_def str_trim_def trim_with.simps ws_encodings_def to_ascii_lowercase_def
      ascii_lower_def char_of_def ok_or_else_def Let_def)

lemma lane_ix_edges:
  "ix_edge (lane_ix two) 20 = lane_edge 0" "ix_edge (lane_ix True) 21 = lane_edge 1"
  by (simp_all add: ix_edge_def lane_edges)

lemma lane_semantics:
  "ix_edge_traffic (lane_ix two) 20 =
     Some (parse_edge_traffic_semantics [(''traffic.blocked'', ''true'')] False)"
  "ix_edge_traffic (lane_ix True) 21 = Some (parse_edge_traffic_semantics [] False)"
  by (simp_all add: edge_traffic_rebuild lane_ix_edges lane_edge_def)

section \<open>Steps of the yard\<close>

lemma yard_steps:
  "concat (map (adjacency_steps yard_ws) (ws_edges yard_ws)) =
     [(10, adj 11 20 (Fin 2) True), (11, adj 10 20 (Fin 2) False),
      (11, adj 12 21 (Fin 3) True), (12, adj 11 21 (Fin 3) False)]"
  by (simp add: adjacency_steps_def Let_def adj_def yard_ws_def yard_vertex_def yard_edge_def)

lemma yard_neighbors:
  "neighbors yard_ix a =
     (if a = 10 then [adj 11 20 (Fin 2) True]
      else if a = 11 then [adj 10 20 (Fin 2) False, adj 12 21 (Fin 3) True]
      else if a = 12 then [adj 11 21 (Fin 3) False] else [])"
  unfolding neighbors_rebuild yard_steps by auto

lemma yard_edges: "ix_edges yard_ix = [(20, 0), (21, 1)]"
  by (simp add: rebuild_def Let_def index_fold_frame [where f = ix_edges])
   (simp add: yard_ws_def yard_edge_def index_edge_def parse_numeric_id_def numeric_id_property_def Let_def)

lemma yard_ix_edges: "ix_edge yard_ix 20 = yard_edge 0" "ix_edge yard_ix 21 = yard_edge 1"
  by (simp_all add: ix_edge_def yard_edges) (simp_all add: yard_ws_def)

lemma yard_semantics: "ix_edge_traffic yard_ix 20 = Some edge_semantics_default"
  by (simp add: edge_traffic_rebuild yard_ix_edges yard_edge_def edge_semantics_of_keyword)

end
