(* ===== verification/Safety.thy ===== *)
theory Safety
  imports Manager Sample
begin

text \<open>
  What the claim manager guarantees over its life. The locale \<open>containment\<close> states what the
  evaluation relies on of the index (a partial order of containment, and a walk upwards that ends
  and lists the containers), interpreted on every index built from a lawful workspace. The manager
  is then a transition system whose reachable states are shown free of conflicts, within the
  occupancy limits of the zones, and with one entry per robot and ground.
\<close>

section \<open>Containment, as the manager relies on it\<close>

locale containment =
  fixes contains :: "'i \<Rightarrow> uuid \<Rightarrow> uuid \<Rightarrow> bool"
    and above :: "'i \<Rightarrow> uuid \<Rightarrow> uuid list option"
    and ok :: "'i \<Rightarrow> bool"
  assumes contains_refl: "ok ix \<Longrightarrow> contains ix z z"
    and contains_trans: "ok ix \<Longrightarrow> contains ix a b \<Longrightarrow> contains ix b c \<Longrightarrow> contains ix a c"
    and contains_antisym: "ok ix \<Longrightarrow> contains ix a b \<Longrightarrow> contains ix b a \<Longrightarrow> a = b"
    and above_total: "ok ix \<Longrightarrow> \<exists>up. above ix z = Some up"
    and above_iff: "ok ix \<Longrightarrow> above ix z = Some up \<Longrightarrow> a \<in> set up \<longleftrightarrow> contains ix a z \<and> a \<noteq> z"
begin

definition up_set :: "'i \<Rightarrow> uuid \<Rightarrow> uuid set" where
  "up_set ix z = {a. contains ix a z}"

definition up_closed :: "'i \<Rightarrow> uuid set \<Rightarrow> bool" where
  "up_closed ix S = (\<forall>z \<in> S. up_set ix z \<subseteq> S)"

lemma above_up_set: "ok ix \<Longrightarrow> above ix z = Some up \<Longrightarrow> insert z (set up) = up_set ix z"
  using above_iff [of ix z up] contains_refl [of ix z] by (auto simp: up_set_def)

lemma up_set_closed: "ok ix \<Longrightarrow> up_closed ix (up_set ix z)"
  by (auto simp: up_closed_def up_set_def intro: contains_trans)

lemma up_closed_Un: "up_closed ix S \<Longrightarrow> up_closed ix T \<Longrightarrow> up_closed ix (S \<union> T)"
  by (auto simp: up_closed_def)

lemma up_set_self: "ok ix \<Longrightarrow> z \<in> up_set ix z"
  by (simp add: up_set_def contains_refl)

text \<open>Two zones that overlap are nested, and everything above the outer one holds both.\<close>

lemma overlap_above: "ok ix \<Longrightarrow> contains ix a b \<Longrightarrow> up_set ix a \<subseteq> up_set ix b"
  by (auto simp: up_set_def intro: contains_trans)

end

definition index_ok :: "index \<Rightarrow> bool" where
  "index_ok ix = (\<exists>ho w. ix = rebuild ho w \<and> hash_order ho \<and> find_zone_ok w \<and> distinct (tree_ids w))"

lemma parent_in_tree:
  assumes "distinct (tree_ids w)" "(c, p) \<in> (parent_rel (zl_parents (zone_links_of w)))\<^sup>+"
  shows "c \<in> set (tree_ids w) \<and> p \<in> set (tree_ids w)"
  using tree_parent_grows [OF assms] by auto

lemma contains_chain:
  assumes "hash_order ho" "find_zone_ok w" "distinct (tree_ids w)"
  shows "zone_contains (rebuild ho w) a z \<longleftrightarrow> (z, a) \<in> (parent_rel (zl_parents (zone_links_of w)))\<^sup>*"
proof (cases "z \<in> set (tree_ids w)")
  case True
  with zone_contains_iff_chain [OF assms(1,2) True] show ?thesis by simp
next
  case False
  with assms show ?thesis
    using parent_in_tree [OF assms(3), of z a]
    by (auto simp: zone_contains_def rebuild_zone_ancestors rtrancl_eq_or_trancl)
qed

lemma ancestor_ids:
  assumes "find_zone_ok w" "distinct (tree_ids w)"
  shows "map z_id (List.map_filter (ws_find_zone w)
           (ancestor_walk (zl_parents (zone_links_of w)) (map_of (zl_parents (zone_links_of w)) z) []))
         = ancestor_walk (zl_parents (zone_links_of w)) (map_of (zl_parents (zone_links_of w)) z) []"
proof -
  have "map z_id (List.map_filter (ws_find_zone w) xs) = xs" if "set xs \<subseteq> set (tree_ids w)" for xs
    using that
  proof (induction xs)
    case (Cons x xs)
    then obtain y where "ws_find_zone w x = Some y" "z_id y = x"
      using assms(1) by (fastforce simp: find_zone_ok_def)
    with Cons show ?case by (simp add: map_filter_simps)
  qed (simp add: map_filter_simps)
  moreover have "set (ancestor_walk (zl_parents (zone_links_of w)) (map_of (zl_parents (zone_links_of w)) z) [])
      \<subseteq> set (tree_ids w)"
    using parent_in_tree [OF assms(2)] by (auto simp: set_ancestor_walk)
  ultimately show ?thesis by blast
qed

definition above_ids :: "index \<Rightarrow> uuid \<Rightarrow> uuid list option" where
  "above_ids ix z = map_option (map z_id) (ancestor_zones ix z)"

lemma above_ids_rebuild:
  assumes "find_zone_ok w" "distinct (tree_ids w)"
  shows "above_ids (rebuild ho w) z =
    Some (ancestor_walk (zl_parents (zone_links_of w)) (map_of (zl_parents (zone_links_of w)) z) [])"
  by (simp add: above_ids_def ancestor_zones_total [OF assms(2)] ancestor_ids [OF assms])

interpretation zones: containment zone_contains above_ids index_ok
proof
  fix ix a b c z up
  assume "index_ok ix"
  then obtain ho w where ix: "ix = rebuild ho w" and w: "hash_order ho" "find_zone_ok w" "distinct (tree_ids w)"
    by (auto simp: index_ok_def)
  note ch = contains_chain [OF w] and ac = tree_parent_acyclic [OF w(3)]
  show "zone_contains ix z z" by (simp add: ix ch)
  show "zone_contains ix a b \<Longrightarrow> zone_contains ix b c \<Longrightarrow> zone_contains ix a c"
    by (simp add: ix ch)
  show "zone_contains ix a b \<Longrightarrow> zone_contains ix b a \<Longrightarrow> a = b"
    unfolding ix ch using ac by (metis rtrancl_eq_or_trancl rtrancl_trancl_trancl)
  show "\<exists>up. above_ids ix z = Some up"
    by (simp add: ix above_ids_rebuild [OF w(2,3)])
  show "above_ids ix z = Some up \<Longrightarrow> a \<in> set up \<longleftrightarrow> zone_contains ix a z \<and> a \<noteq> z"
    using ac by (auto simp: ix above_ids_rebuild [OF w(2,3)] set_ancestor_walk ch rtrancl_eq_or_trancl)
qed

section \<open>The zones a request occupies\<close>

lemma occupy_result:
  assumes "index_ok ix"
  shows "\<exists>res. occupy ix out zs = Some res \<and> set res = set out \<union> (\<Union>z \<in> set zs. zones.up_set ix z)"
proof (induction zs arbitrary: out)
  case (Cons z zs)
  from zones.above_total [OF assms, of z] obtain up where up: "ancestor_zones ix z = Some up"
    by (auto simp: above_ids_def)
  then have "insert z (set (map z_id up)) = zones.up_set ix z"
    by (intro zones.above_up_set [OF assms]) (simp add: above_ids_def)
  then have out: "set (push_unseen out (z # map z_id up)) = set out \<union> zones.up_set ix z"
    by (simp only: set_push_unseen list.set)
  obtain res where "occupy ix (push_unseen out (z # map z_id up)) zs = Some res"
      "set res = set (push_unseen out (z # map z_id up)) \<union> (\<Union>z \<in> set zs. zones.up_set ix z)"
    using Cons by blast
  with up out show ?case
    by (auto simp del: push_unseen.simps)
qed simp

definition ground_zones :: "index \<Rightarrow> claim_target list \<Rightarrow> uuid set" where
  "ground_zones ix ts = (\<Union>t \<in> set ts. \<Union>z \<in> set (target_zones ix t). zones.up_set ix z)"

lemma occupied_zones_set:
  assumes "cm_index m = Some ix" "index_ok ix"
  shows "\<exists>zs. occupied_zones m r = Some zs \<and> set zs = ground_zones ix (cr_targets r)"
  using occupy_result [OF assms(2), of "[]" "concat (map (target_zones ix) (cr_targets r))"] assms(1)
  by (auto simp: occupied_zones_def ground_zones_def)

lemma ground_zones_occupied:
  assumes "index_ok ix" "zid \<in> ground_zones ix ts"
  shows "targets_occupy_zone ix ts zid"
proof -
  from assms(2) obtain t z where t: "t \<in> set ts" "z \<in> set (target_zones ix t)" "zone_contains ix zid z"
    by (auto simp: ground_zones_def zones.up_set_def)
  then show ?thesis
    by (cases "ct_kind t")
      (auto simp: targets_occupy_zone_def list_ex_iff target_zones_def zones_overlap_def
        resource_in_zone_def intro!: bexI [of _ t])
qed

text \<open>
  On an index built from a lawful workspace every evaluation returns.
\<close>

theorem evaluate_returns:
  assumes "cm_index m = Some ix" "index_ok ix"
  shows "\<exists>ev. evaluate_request m r = Some ev"
  using occupied_zones_set [OF assms, of r] assms(1)
  by (auto simp: evaluate_request_def first_occupancy_violation_def split: option.split)

section \<open>Conflicts\<close>

definition grounds_meet :: "index \<Rightarrow> claim_target \<Rightarrow> claim_target \<Rightarrow> bool" where
  "grounds_meet ix a b =
     (case (ct_kind a, ct_kind b) of
        (TZone, TZone) \<Rightarrow> zones_overlap ix (ct_resource_id a) (ct_resource_id b)
      | (TZone, k) \<Rightarrow> resource_in_zone ix k (ct_resource_id b) (ct_resource_id a)
      | (k, TZone) \<Rightarrow> resource_in_zone ix k (ct_resource_id a) (ct_resource_id b)
      | (k, k') \<Rightarrow> k = k' \<and> ct_resource_id a = ct_resource_id b)"

definition hard_conflict :: "index \<Rightarrow> claim_request \<Rightarrow> claim_request \<Rightarrow> bool" where
  "hard_conflict ix r r' =
     (claim_windows_overlap (cr_window r) (cr_window r') \<and> \<not> both_shared r r'
      \<and> list_ex (\<lambda>t. list_ex (grounds_meet ix t) (cr_targets r')) (cr_targets r))"

lemma windows_overlap_sym: "claim_windows_overlap a b = claim_windows_overlap b a"
  by (auto simp: claim_windows_overlap_def Let_def)

lemma zones_overlap_sym: "zones_overlap ix a b = zones_overlap ix b a"
  by (auto simp: zones_overlap_def)

lemma grounds_meet_sym: "grounds_meet ix a b = grounds_meet ix b a"
  by (cases "ct_kind a"; cases "ct_kind b") (auto simp: grounds_meet_def zones_overlap_sym)

lemma hard_conflict_sym: "hard_conflict ix r r' = hard_conflict ix r' r"
  using grounds_meet_sym
  by (auto simp: hard_conflict_def list_ex_iff windows_overlap_sym both_shared_def) blast+

lemma access_not_shared: "a \<noteq> Shared \<longleftrightarrow> a = Exclusive"
  by (cases a) auto

lemma compatible_no_conflict:
  "claims_compatible_for_index (Some ix) r r' \<Longrightarrow> \<not> hard_conflict ix r r'"
proof
  assume c: "claims_compatible_for_index (Some ix) r r'" and h: "hard_conflict ix r r'"
  from h obtain t t' where t: "t \<in> set (cr_targets r)" "t' \<in> set (cr_targets r')" "grounds_meet ix t t'"
    and w: "claim_windows_overlap (cr_window r) (cr_window r')" "\<not> both_shared r r'"
    by (auto simp: hard_conflict_def list_ex_iff)
  from w(1) have w': "claim_windows_overlap (cr_window r') (cr_window r)"
    by (simp add: windows_overlap_sym)
  from w(2) have ex: "cr_access_mode r = Exclusive \<or> cr_access_mode r' = Exclusive" "\<not> both_shared r' r"
    using access_not_shared by (auto simp: both_shared_def)
  have zz: "zone_claims_compatible ix r r'" and nn: "spatial_claims_compatible ix r r' TNode"
    and ee: "spatial_claims_compatible ix r r' TEdge"
    and zs: "zone_vs_spatial_compatible ix r r'" and sz: "zone_vs_spatial_compatible ix r' r"
    using c by (simp_all add: claims_compatible_for_index_def)
  have z1: False if "ct_kind t = TZone" "ct_kind t' = TZone"
    using zz t w that by (auto simp: grounds_meet_def zone_claims_compatible_def list_all_iff)
  have n1: False if "ct_kind t = k" "ct_kind t' = k" "k \<noteq> TZone" "spatial_claims_compatible ix r r' k" for k
    using that t w(1) ex(1)
    by (cases k) (auto simp: grounds_meet_def spatial_claims_compatible_def list_all_iff)
  have "\<not> resource_in_zone ix (ct_kind t') (ct_resource_id t') (ct_resource_id t)"
    if "ct_kind t = TZone" "ct_kind t' \<noteq> TZone"
    using zs t(1,2) w that unfolding zone_vs_spatial_compatible_def list_all_iff by blast
  then have z2: False if "ct_kind t = TZone" "ct_kind t' \<noteq> TZone"
    using t(3) that by (cases "ct_kind t'") (auto simp: grounds_meet_def)
  have "\<not> resource_in_zone ix (ct_kind t) (ct_resource_id t) (ct_resource_id t')"
    if "ct_kind t' = TZone" "ct_kind t \<noteq> TZone"
    using sz t(1,2) w' ex(2) that unfolding zone_vs_spatial_compatible_def list_all_iff by blast
  then have z3: False if "ct_kind t' = TZone" "ct_kind t \<noteq> TZone"
    using t(3) that by (cases "ct_kind t") (auto simp: grounds_meet_def)
  have mix: False if "ct_kind t \<noteq> TZone" "ct_kind t' \<noteq> TZone" "ct_kind t \<noteq> ct_kind t'"
    using t(3) that by (cases "ct_kind t"; cases "ct_kind t'") (auto simp: grounds_meet_def)
  show False
    using z1 z2 z3 mix n1 [OF refl] nn ee by (cases "ct_kind t"; cases "ct_kind t'") auto
qed

section \<open>The manager as a transition system\<close>

text \<open>
  One step is one call by the flat protocol: a claim mints an id, evaluates the request under it and
  enters a granted request with \<open>upsert_request_for_robot\<close>; a denied claim has only advanced the
  mint; everything else removes. A claim under the last id \<open>u64::MAX\<close> is no step (the
  section on the last id shows what it would do), and a \<open>Vec\<close> holds less than \<open>2^63\<close> entries.
\<close>

inductive claim_step :: "claim_manager \<Rightarrow> claim_manager \<Rightarrow> bool" where
  granted: "\<lbrakk> next_request_id m = (i, m'); i \<noteq> u64_max; cr_id r = i;
     length (cm_requests m) + length (cm_leases m) < 2 ^ 63;
     evaluate_request m' r = Some ev; ev_decision ev = Grant \<rbrakk>
   \<Longrightarrow> claim_step m (snd (upsert_request_for_robot m' r))"
| denied: "claim_step m (snd (next_request_id m))"
| removed: "claim_step m (snd (remove_request m i))"
| robot_gone: "claim_step m (snd (remove_requests_for_robot m robot))"
| target_released: "claim_step m (snd (release_request_for_robot_target m robot resource))"
| requests_expired: "claim_step m (snd (expire_requests m now))"
| leases_expired: "claim_step m (snd (expire_leases m now))"
| leases_released: "claim_step m (snd (release_leases_for_robot m robot t))"
| lease_released: "claim_step m (snd (release_lease m l t))"
| lease_revoked: "claim_step m (snd (revoke_lease m l why n))"
| lease_removed: "claim_step m (snd (remove_lease m l))"

inductive reachable :: "index \<Rightarrow> claim_manager \<Rightarrow> bool" for ix where
  start: "cm_index m = Some ix \<Longrightarrow> cm_requests m = [] \<Longrightarrow> reachable ix m"
| step: "reachable ix m \<Longrightarrow> claim_step m m' \<Longrightarrow> reachable ix m'"

text \<open>Every step but a grant only removes.\<close>

definition shrinks :: "claim_manager \<Rightarrow> claim_manager \<Rightarrow> bool" where
  "shrinks m m' = (cm_index m' = cm_index m \<and> mset (cm_requests m') \<subseteq># mset (cm_requests m)
     \<and> set (cm_leases m') \<subseteq> set (cm_leases m))"

lemma shrinks_requests: "shrinks m m' \<Longrightarrow> set (cm_requests m') \<subseteq> set (cm_requests m)"
  by (metis set_mset_mono set_mset_mset shrinks_def)

lemma distinct_mset_mono: "mset xs \<subseteq># mset ys \<Longrightarrow> distinct (map k ys) \<Longrightarrow> distinct (map k xs)"
proof -
  assume sub: "mset xs \<subseteq># mset ys" and d: "distinct (map k ys)"
  from sub have "mset (map k xs) \<subseteq># mset (map k ys)"
    by (simp add: image_mset_subseteq_mono)
  then have "count (mset (map k xs)) a \<le> 1" for a
    using d by (metis distinct_count_atmost_1 dual_order.trans le_numeral_extra(1,4) mset_subset_eq_count)
  then show ?thesis
    by (metis count_mset_0_iff distinct_count_atmost_1 le_eq_less_or_eq less_one)
qed

lemma remove_first_mset: "mset (remove_first p xs) \<subseteq># mset xs"
  by (cases "find p xs") (simp_all add: mset_remove_first remove_first_none)

lemma remove_at_mset: "position p xs = Some i \<Longrightarrow> mset (take i xs @ drop (Suc i) xs) \<subseteq># mset xs"
  by (simp only: remove_at_position remove_first_mset)

lemma archive_at_shrinks: "shrinks m (snd (archive_at f m i))"
  by (simp add: archive_at_def shrinks_def set_take_subset set_drop_subset split: option.split)

lemma removals_shrink:
  "shrinks m (snd (next_request_id m))"
  "shrinks m (snd (remove_request m i))"
  "shrinks m (snd (remove_requests_for_robot m robot))"
  "shrinks m (snd (release_request_for_robot_target m robot resource))"
  "shrinks m (snd (expire_requests m now))"
  "shrinks m (snd (expire_leases m now))"
  "shrinks m (snd (release_leases_for_robot m robot t))"
  "shrinks m (snd (release_lease m l t))"
  "shrinks m (snd (revoke_lease m l why n))"
  "shrinks m (snd (remove_lease m l))"
proof -
  show "shrinks m (snd (release_request_for_robot_target m robot resource))"
    using remove_at_mset [of _ "cm_requests m"]
    by (auto simp: shrinks_def release_request_for_robot_target_def split: option.split)
  show "shrinks m (snd (remove_request m i))"
    by (simp add: shrinks_def remove_request_alt remove_first_mset)
  show "shrinks m (snd (remove_lease m l))"
    by (simp add: shrinks_def remove_lease_alt set_remove_first)
  show "shrinks m (snd (expire_leases m now))"
    "shrinks m (snd (release_leases_for_robot m robot t))"
    by (auto simp: shrinks_def expire_leases_spec release_leases_spec)
qed (simp_all add: shrinks_def next_request_id_def Let_def remove_requests_for_robot_def
    expire_requests_def release_lease_def revoke_lease_def archive_at_shrinks [unfolded shrinks_def])

lemma step_cases:
  assumes "claim_step m m'"
  obtains (grant) i m1 r where "next_request_id m = (i, m1)" "i \<noteq> u64_max" "cr_id r = i"
     "length (cm_requests m) + length (cm_leases m) < 2 ^ 63"
     "grant_conditions m1 r" "m' = snd (upsert_request_for_robot m1 r)"
  | (shrink) "shrinks m m'"
  using assms
proof cases
  case (granted i m1 r ev)
  then have "grant_conditions m1 r" using grant_iff [of m1 r] by (simp add: grants_def)
  with granted grant show ?thesis by blast
qed (rule shrink, simp only: removals_shrink)+

section \<open>No two robots hold conflicting claims\<close>

definition conflict_free :: "index \<Rightarrow> claim_manager \<Rightarrow> bool" where
  "conflict_free ix m =
     (list_all (\<lambda>r. list_all (\<lambda>r'. cr_robot_id r = cr_robot_id r' \<or> \<not> hard_conflict ix r r')
        (cm_requests m)) (cm_requests m)
      \<and> list_all (\<lambda>r. list_all (\<lambda>l. \<not> le_active l \<or> cr_robot_id r = le_robot_id l
           \<or> \<not> hard_conflict ix r (lease_as_request_view l)) (cm_leases m)) (cm_requests m))"

lemma conflict_free_shrinks: "conflict_free ix m \<Longrightarrow> shrinks m m' \<Longrightarrow> conflict_free ix m'"
  using shrinks_requests [of m m'] unfolding conflict_free_def shrinks_def list_all_iff by blast

lemma minted_frame:
  assumes "next_request_id m = (i, m1)"
  shows "cm_index m1 = cm_index m" "cm_requests m1 = cm_requests m" "cm_leases m1 = cm_leases m"
  using assms by (auto simp: next_request_id_def Let_def)

lemma minted_fresh:
  assumes "next_request_id m = (i, m1)" "i \<noteq> u64_max" "a \<in> set (cm_requests m)"
  shows "cr_id a \<noteq> i"
  using mint_fresh [of m] assms by (auto simp: live_ids_def)

lemma upsert_for_robot_set:
  "set (cm_requests (snd (upsert_request_for_robot m r))) \<subseteq> insert r (set (cm_requests m))"
  using set_replace_or_push by (simp add: upsert_request_for_robot_def)

lemma upsert_for_robot_frame [simp]:
  "cm_index (snd (upsert_request_for_robot m r)) = cm_index m"
  "cm_leases (snd (upsert_request_for_robot m r)) = cm_leases m"
  by (simp_all add: upsert_request_for_robot_def)

lemma conflict_free_grant:
  assumes cf: "conflict_free ix m" and ix: "cm_index m = Some ix"
    and mint: "next_request_id m = (i, m1)" "i \<noteq> u64_max" "cr_id r = i"
    and ok: "grant_conditions m1 r"
  shows "conflict_free ix (snd (upsert_request_for_robot m1 r))"
proof -
  let ?m = "snd (upsert_request_for_robot m1 r)"
  note fr = minted_frame [OF mint(1)]
  have new: "cr_robot_id r = cr_robot_id a \<or> \<not> hard_conflict ix r a" if "a \<in> set (cm_requests m)" for a
  proof -
    have "\<not> request_blocks m1 r a"
      using ok that fr by (simp add: grant_conditions_def list_all_iff)
    with minted_fresh [OF mint(1,2) that] mint(3) ix fr show ?thesis
      using compatible_no_conflict by (auto simp: request_blocks_def)
  qed
  have lse: "\<not> le_active l \<or> cr_robot_id r = le_robot_id l \<or> \<not> hard_conflict ix r (lease_as_request_view l)"
    if "l \<in> set (cm_leases m)" for l
  proof -
    have "\<not> lease_blocks m1 r l"
      using ok that fr by (simp add: grant_conditions_def list_all_iff)
    with ix fr show ?thesis using compatible_no_conflict by (auto simp: lease_blocks_def)
  qed
  have sub: "set (cm_requests ?m) \<subseteq> insert r (set (cm_requests m))" "cm_leases ?m = cm_leases m"
    using upsert_for_robot_set [of m1 r] fr by auto
  let ?P = "\<lambda>a b. cr_robot_id a = cr_robot_id b \<or> \<not> hard_conflict ix a b"
  have "?P a b" if "a \<in> insert r (set (cm_requests m))" "b \<in> insert r (set (cm_requests m))" for a b
  proof (cases "a = r")
    case True
    with new that(2) show ?thesis by auto
  next
    case a: False
    show ?thesis
    proof (cases "b = r")
      case True
      with new [of a] a that(1) hard_conflict_sym [of ix r a] show ?thesis by auto
    next
      case False
      with a that cf show ?thesis by (auto simp: conflict_free_def list_all_iff)
    qed
  qed
  moreover have "\<not> le_active l \<or> cr_robot_id a = le_robot_id l \<or> \<not> hard_conflict ix a (lease_as_request_view l)"
    if "a \<in> insert r (set (cm_requests m))" "l \<in> set (cm_leases m)" for a l
    using that lse cf by (auto simp: conflict_free_def list_all_iff)
  ultimately show ?thesis
    unfolding conflict_free_def list_all_iff sub(2) using sub(1) by (meson subsetD)
qed

lemma reachable_index: "reachable ix m \<Longrightarrow> cm_index m = Some ix"
proof (induction rule: reachable.induct)
  case (step m m')
  from step(2) show ?case
    by (cases rule: step_cases) (use step(3) in \<open>auto simp: shrinks_def dest: minted_frame\<close>)
qed simp

lemma reach_conflict_free: "reachable ix m \<Longrightarrow> conflict_free ix m"
proof (induction rule: reachable.induct)
  case (start m)
  then show ?case by (simp add: conflict_free_def)
next
  case (step m m')
  from step(2) show ?case
  proof (cases rule: step_cases)
    case (grant i m1 r)
    with step(3) reachable_index [OF step(1)] show ?thesis
      using conflict_free_grant by blast
  qed (rule conflict_free_shrinks [OF step(3)])
qed

text \<open>
  C24: in every reachable state, two active claims of different robots never conflict: where their
  windows overlap and either is exclusive, they share no node, no edge, no zone within another, and
  no node or edge inside a claimed zone; nor does a claim conflict with another robot's active lease.
\<close>

theorem reachable_conflict_free: "reachable ix m \<Longrightarrow> conflict_free ix m"
  by (rule reach_conflict_free)

section \<open>No zone ever holds more robots than it admits\<close>

definition window_covers :: "claim_window \<Rightarrow> u64 \<Rightarrow> bool" where
  "window_covers w t = (unwrap_or (cw_start_tick w) 0 \<le> t \<and> t \<le> unwrap_or (cw_end_tick w) u64_max)"

definition request_occupies :: "index \<Rightarrow> claim_request \<Rightarrow> uuid \<Rightarrow> bool" where
  "request_occupies ix r zid =
     (case occupy ix [] (concat (map (target_zones ix) (cr_targets r))) of
        None \<Rightarrow> False | Some zs \<Rightarrow> zid \<in> set zs)"

text \<open>The robots whose claims put them inside a zone at a tick.\<close>

definition occupants_at :: "index \<Rightarrow> claim_manager \<Rightarrow> u64 \<Rightarrow> uuid \<Rightarrow> robot_id list" where
  "occupants_at ix m t zid =
     remdups (map cr_robot_id
       (filter (\<lambda>r. window_covers (cr_window r) t \<and> request_occupies ix r zid) (cm_requests m)))"

definition zone_limit :: "index \<Rightarrow> uuid \<Rightarrow> u64 option" where
  "zone_limit ix zid =
     (case ix_zone_policy ix zid of None \<Rightarrow> None | Some p \<Rightarrow> zone_occupancy_limit p)"

lemma covers_overlap: "window_covers w t \<Longrightarrow> window_covers w' t \<Longrightarrow> claim_windows_overlap w w'"
  by (auto simp: window_covers_def claim_windows_overlap_def Let_def)

lemma count_occupants_set:
  "set (fst (count_occupants skip robot ident xs st)) = set (fst st) \<union> robot ` {x \<in> set xs. \<not> skip x}"
  by (induction skip robot ident xs st rule: count_occupants.induct) auto

lemma count_occupants_length:
  "length (fst (count_occupants skip robot ident xs st)) \<le> length (fst st) + length xs"
  by (induction skip robot ident xs st rule: count_occupants.induct) (auto split: if_splits)

lemma count_occupants_distinct:
  "distinct (fst st) \<Longrightarrow> distinct (fst (count_occupants skip robot ident xs st))"
  by (induction skip robot ident xs st rule: count_occupants.induct) auto

lemma occupancy_loop_None:
  "occupancy_loop m ix r zs = None \<Longrightarrow> zid \<in> set zs \<Longrightarrow> zone_limit ix zid = Some limit \<Longrightarrow>
   zone_occupancy_violation m ix r zid limit = None"
  by (induction zs) (auto simp: zone_limit_def split: option.splits)

lemma violation_None_count:
  assumes "zone_occupancy_violation m ix r zid limit = None"
    and "length (cm_requests m) + length (cm_leases m) < 2 ^ 63"
  shows "card (insert (cr_robot_id r)
           (cr_robot_id ` {a \<in> set (cm_requests m). \<not> skip_request_zone ix r zid a})) \<le> unat limit"
proof -
  define st1 where "st1 = count_occupants (skip_request_zone ix r zid) cr_robot_id cr_id (cm_requests m)
      ([cr_robot_id r], None)"
  define st2 where "st2 = count_occupants (skip_lease_zone ix r zid) le_robot_id le_id (cm_leases m)
      (fst st1, None)"
  have "\<not> of_nat (length (fst st2)) > limit"
    using assms(1) by (simp add: zone_occupancy_violation_def st1_def st2_def Let_def
        split: prod.splits if_splits)
  moreover have len: "length (fst st2) \<le> 1 + length (cm_requests m) + length (cm_leases m)"
    using count_occupants_length [of "skip_lease_zone ix r zid" le_robot_id le_id "cm_leases m" "(fst st1, None)"]
      count_occupants_length [of "skip_request_zone ix r zid" cr_robot_id cr_id "cm_requests m" "([cr_robot_id r], None)"]
    by (simp add: st1_def st2_def)
  ultimately have "length (fst st2) \<le> unat limit"
    using assms(2) by (simp add: word_less_nat_alt unat_of_nat not_less)
  moreover have "set (fst st1) \<subseteq> set (fst st2)"
    by (simp add: st2_def count_occupants_set)
  then have "card (set (fst st1)) \<le> length (fst st2)"
    by (meson card_length card_mono finite_set le_trans)
  moreover have "set (fst st1) = insert (cr_robot_id r)
      (cr_robot_id ` {a \<in> set (cm_requests m). \<not> skip_request_zone ix r zid a})"
    by (simp add: st1_def count_occupants_set)
  ultimately show ?thesis by simp
qed

lemma request_occupies_ground:
  "index_ok ix \<Longrightarrow> request_occupies ix r zid \<longleftrightarrow> zid \<in> ground_zones ix (cr_targets r)"
  using occupy_result [of ix "[]" "concat (map (target_zones ix) (cr_targets r))"]
  by (auto simp: request_occupies_def ground_zones_def)

definition capacity_held :: "index \<Rightarrow> claim_manager \<Rightarrow> bool" where
  "capacity_held ix m =
     (\<forall>t zid limit. zone_limit ix zid = Some limit \<longrightarrow> length (occupants_at ix m t zid) \<le> unat limit)"

lemma occupants_mono:
  "set (cm_requests m') \<subseteq> set (cm_requests m) \<Longrightarrow>
   length (occupants_at ix m' t zid) \<le> length (occupants_at ix m t zid)"
  unfolding occupants_at_def length_remdups_card_conv by (rule card_mono) auto

lemma capacity_held_grant:
  assumes held: "capacity_held ix m" and ix: "cm_index m = Some ix" "index_ok ix"
    and mint: "next_request_id m = (i, m1)" "i \<noteq> u64_max" "cr_id r = i"
    and len: "length (cm_requests m) + length (cm_leases m) < 2 ^ 63"
    and ok: "grant_conditions m1 r"
  shows "capacity_held ix (snd (upsert_request_for_robot m1 r))"
  unfolding capacity_held_def
proof (intro allI impI)
  fix t zid limit
  assume lim: "zone_limit ix zid = Some limit"
  let ?m = "snd (upsert_request_for_robot m1 r)"
  note fr = minted_frame [OF mint(1)]
  have sub: "set (cm_requests ?m) \<subseteq> insert r (set (cm_requests m))"
    using upsert_for_robot_set [of m1 r] fr by simp
  let ?in = "\<lambda>a. window_covers (cr_window a) t \<and> request_occupies ix a zid"
  show "length (occupants_at ix ?m t zid) \<le> unat limit"
  proof (cases "?in r")
    case False
    have "set (filter ?in (cm_requests ?m)) \<subseteq> set (filter ?in (cm_requests m))"
      using sub False by auto
    then have "length (occupants_at ix ?m t zid) \<le> length (occupants_at ix m t zid)"
      unfolding occupants_at_def length_remdups_card_conv by (intro card_mono) auto
    also have "\<dots> \<le> unat limit" using held lim by (simp add: capacity_held_def)
    finally show ?thesis .
  next
    case True
    from occupied_zones_set [of m1 ix r] ix fr obtain zs where
      zs: "occupied_zones m1 r = Some zs" "set zs = ground_zones ix (cr_targets r)" by auto
    have "first_occupancy_violation m1 r = Some None" using ok by (simp add: grant_conditions_def)
    with zs fr ix have "occupancy_loop m1 ix r zs = None" by (simp add: first_occupancy_violation_def)
    with zs(2) True ix lim have "zone_occupancy_violation m1 ix r zid limit = None"
      by (intro occupancy_loop_None) (auto simp: request_occupies_ground)
    then have le: "card (insert (cr_robot_id r)
        (cr_robot_id ` {a \<in> set (cm_requests m1). \<not> skip_request_zone ix r zid a})) \<le> unat limit"
      by (rule violation_None_count) (use len fr in simp)
    have "set (occupants_at ix ?m t zid) \<subseteq> insert (cr_robot_id r)
        (cr_robot_id ` {a \<in> set (cm_requests m1). \<not> skip_request_zone ix r zid a})"
    proof
      fix x assume "x \<in> set (occupants_at ix ?m t zid)"
      then obtain a where a: "a \<in> set (cm_requests ?m)" "?in a" "x = cr_robot_id a"
        by (auto simp: occupants_at_def)
      show "x \<in> insert (cr_robot_id r)
        (cr_robot_id ` {a \<in> set (cm_requests m1). \<not> skip_request_zone ix r zid a})"
      proof (cases "cr_robot_id a = cr_robot_id r")
        case False
        with a(1) sub have am: "a \<in> set (cm_requests m)" by auto
        have "targets_occupy_zone ix (cr_targets a) zid"
          using a(2) ix by (intro ground_zones_occupied) (auto simp: request_occupies_ground)
        moreover have "claim_windows_overlap (cr_window r) (cr_window a)"
          using True a(2) by (blast intro: covers_overlap)
        ultimately have "\<not> skip_request_zone ix r zid a"
          using minted_fresh [OF mint(1,2) am] mint(3) False by (simp add: skip_request_zone_def)
        with am a(3) fr show ?thesis by auto
      qed (use a in simp)
    qed
    then have "card (set (occupants_at ix ?m t zid)) \<le> card (insert (cr_robot_id r)
        (cr_robot_id ` {a \<in> set (cm_requests m1). \<not> skip_request_zone ix r zid a}))"
      by (intro card_mono) auto
    moreover have "distinct (occupants_at ix ?m t zid)" by (simp add: occupants_at_def)
    ultimately show ?thesis
      using le by (simp add: distinct_card)
  qed
qed

lemma reach_capacity_held:
  assumes "index_ok ix" "reachable ix m"
  shows "capacity_held ix m"
  using assms(2)
proof (induction rule: reachable.induct)
  case (start m)
  then show ?case by (simp add: capacity_held_def occupants_at_def)
next
  case (step m m')
  from step(2) show ?case
  proof (cases rule: step_cases)
    case (grant i m1 r)
    with step(3) reachable_index [OF step(1)] assms(1) show ?thesis
      using capacity_held_grant by blast
  next
    case shrink
    then show ?thesis
      using step(3) occupants_mono [OF shrinks_requests, of m m' ix] unfolding capacity_held_def
      by (meson le_trans)
  qed
qed

text \<open>
  C25: in every reachable state and at every tick, the robots whose claims put them inside a zone are
  no more than the zone admits: one for an exclusive zone, the explicit capacity for the others.
\<close>

theorem reachable_capacity_held:
  assumes "index_ok ix" "reachable ix m"
  shows "capacity_held ix m"
  using assms by (rule reach_capacity_held)

lemma yard_index_ok: "index_ok yard_ix"
  unfolding index_ok_def
  by (intro exI [of _ "\<lambda>xs. xs"] exI [of _ yard_ws]) (simp add: yard_find_ok hash_order_id)

definition yard_claim :: "robot_id \<Rightarrow> claim_request" where
  "yard_claim robot = request_default\<lparr>cr_id := 1, cr_robot_id := robot,
     cr_targets := [\<lparr>ct_kind = TNode, ct_resource_id = 10\<rparr>]\<rparr>"

definition yard_manager :: "u64 \<Rightarrow> claim_manager" where
  "yard_manager n = (cm_with_index yard_ix)\<lparr>cm_next_id := n\<rparr>"

lemma yard_manager_simps [simp]:
  "cm_index (yard_manager n) = Some yard_ix" "cm_requests (yard_manager n) = []"
  "cm_leases (yard_manager n) = []" "cm_next_id (yard_manager n) = n"
  by (simp_all add: yard_manager_def cm_with_index_def cm_new_def)

lemma yard_mint: "next_request_id (yard_manager 1) = (1, yard_manager (sat_add 1 1))"
  by (simp add: next_request_id_def next_id_floor_def max_opt_def) (simp add: yard_manager_def)

lemma yard_grant: "grant_conditions (yard_manager n) (yard_claim 7)"
proof -
  have "ix_node yard_ix 10 \<noteq> None"
    by (simp add: ix_node_def yard_nodes) (simp add: yard_ws_def yard_vertex_def)
  moreover have "occupied_zones (yard_manager n) (yard_claim 7) = Some [2, 1]"
    by (simp add: occupied_zones_def yard_claim_def target_zones_def
        yard_zones_of_10 yard_above) (simp add: yard_def)
  ultimately show ?thesis
    by (simp add: grant_conditions_def first_invalid_target_def target_missing_def
        first_edge_capacity_violation_def first_occupancy_violation_def yard_claim_def request_default_def
        ix_zone_policy_def yard_policies policy_of_keyword zone_policy_empty_def
        zone_occupancy_limit_def zone_occupancy_violation_def)
qed

text \<open>The yard's manager after robot 7 has been granted the node 10.\<close>

definition yard_granted :: claim_manager where
  "yard_granted = snd (upsert_request_for_robot (yard_manager (sat_add 1 1)) (yard_claim 7))"

lemma yard_reachable: "reachable yard_ix yard_granted"
proof (rule reachable.step)
  show "reachable yard_ix (yard_manager 1)"
    by (rule reachable.start) simp_all
  obtain ev where "evaluate_request (yard_manager (sat_add 1 1)) (yard_claim 7) = Some ev"
    "ev_decision ev = Grant"
    using grant_iff [of "yard_manager (sat_add 1 1)" "yard_claim 7"] yard_grant
    by (auto simp: grants_def split: option.splits)
  then show "claim_step (yard_manager 1) yard_granted"
    unfolding yard_granted_def using yard_mint by (intro claim_step.granted) (auto simp: yard_claim_def)
qed

theorem reachable_conflict_free_witness:
  "cm_requests yard_granted = [yard_claim 7] \<and> conflict_free yard_ix yard_granted"
  using reachable_conflict_free [OF yard_reachable]
  by (simp add: yard_granted_def upsert_request_for_robot_def)

theorem reachable_capacity_held_witness:
  "cm_requests yard_granted = [yard_claim 7] \<and> capacity_held yard_ix yard_granted"
  using reachable_capacity_held [OF yard_index_ok yard_reachable]
  by (simp add: yard_granted_def upsert_request_for_robot_def)

theorem evaluate_returns_witness:
  "\<exists>ev. evaluate_request (yard_manager 5) (yard_claim 7) = Some ev"
  by (rule evaluate_returns [OF _ yard_index_ok]) simp

theorem next_request_id_fresh_witness:
  "fst (next_request_id yard_granted) = 2 \<and> 2 \<notin> live_ids yard_granted"
proof -
  have n: "fst (next_request_id yard_granted) = 2"
    by (simp add: yard_granted_def upsert_request_for_robot_def next_request_id_def next_id_floor_def
        max_opt_def yard_claim_def sat_add_def)
  then show ?thesis using next_request_id_fresh [of yard_granted] by simp
qed

section \<open>What happens at the last id\<close>

definition bare_request :: "claim_id \<Rightarrow> robot_id \<Rightarrow> claim_request" where
  "bare_request i robot = request_default\<lparr>cr_id := i, cr_robot_id := robot,
     cr_targets := [\<lparr>ct_kind = TNode, ct_resource_id = 10\<rparr>]\<rparr>"

definition last_id_manager :: claim_manager where
  "last_id_manager = cm_new\<lparr>cm_leases := [lease_default\<lparr>le_claim_id := u64_max, le_robot_id := 9\<rparr>]\<rparr>"

text \<open>
  Once a live id is \<open>u64::MAX\<close> the mint repeats it, the evaluation takes the other robot's claim
  for the request itself, and two robots are granted the same node exclusively.
\<close>

theorem mint_collision:
  "let (i, m) = next_request_id last_id_manager;
       m' = snd (upsert_request_for_robot m (bare_request i 1));
       (j, m'') = next_request_id m'
   in i = j
      \<and> grants m (bare_request i 1) \<and> grants m'' (bare_request j 2)
      \<and> \<not> claims_compatible (bare_request i 1) (bare_request j 2)"
  by (simp add: grant_iff)
    (simp add: Let_def next_request_id_def next_id_floor_def last_id_manager_def cm_new_def max_opt_def
      lease_default_def bare_request_def request_default_def upsert_request_for_robot_def
      grant_conditions_def first_invalid_target_def request_blocks_def lease_blocks_def
      first_edge_capacity_violation_def first_occupancy_violation_def occupied_zones_def
      claims_compatible_for_index_def claims_compatible_def target_kind_compatible_def
      lease_as_request_view_def)

section \<open>One entry per robot and ground\<close>

definition request_ground :: "claim_request \<Rightarrow> robot_id \<times> claim_target set" where
  "request_ground r = (cr_robot_id r, set (cr_targets r))"

lemma same_robot_ground_iff: "same_robot_ground r a \<longleftrightarrow> request_ground a = request_ground r"
  by (auto simp: same_robot_ground_def same_target_set_def request_ground_def list_all_iff)

lemma same_robot_ground_fun: "same_robot_ground r = (\<lambda>a. request_ground a = request_ground r)"
  by (rule ext) (rule same_robot_ground_iff)

text \<open>
  In every reachable state a robot has at most one active claim per set of targets, so claiming
  the same ground again does not grow the ledger.
\<close>

theorem reachable_ground_unique: "reachable ix m \<Longrightarrow> distinct (map request_ground (cm_requests m))"
proof (induction rule: reachable.induct)
  case (step m m')
  from step(2) show ?case
  proof (cases rule: step_cases)
    case (grant i m1 r)
    with step(3) minted_frame [OF grant(1)] show ?thesis
      by (simp add: upsert_request_for_robot_def same_robot_ground_fun ledger_simps)
  next
    case shrink
    with step(3) show ?thesis by (auto simp: shrinks_def intro: distinct_mset_mono)
  qed
qed simp

theorem reachable_ground_unique_witness:
  "distinct (map request_ground (cm_requests yard_granted))"
  using reachable_ground_unique [OF yard_reachable] .

section \<open>A robot never competes with itself\<close>

definition others_only :: "robot_id \<Rightarrow> claim_manager \<Rightarrow> claim_manager" where
  "others_only robot m =
     m\<lparr>cm_requests := filter (\<lambda>r. cr_robot_id r \<noteq> robot) (cm_requests m),
       cm_leases := filter (\<lambda>l. le_robot_id l \<noteq> robot) (cm_leases m)\<rparr>"

lemma find_filter: "(\<And>x. p x \<Longrightarrow> q x) \<Longrightarrow> find p (filter q xs) = find p xs"
  by (induction xs) auto

lemma count_filter:
  "(\<And>x. \<not> q x \<Longrightarrow> skip x) \<Longrightarrow>
   count_occupants skip robot ident (filter q xs) st = count_occupants skip robot ident xs st"
  by (induction skip robot ident xs st rule: count_occupants.induct) auto

lemma others_only_simps [simp]: "cm_index (others_only robot m) = cm_index m"
  by (simp add: others_only_def)

lemma others_lists:
  "cm_requests (others_only robot m) = filter (\<lambda>r. cr_robot_id r \<noteq> robot) (cm_requests m)"
  "cm_leases (others_only robot m) = filter (\<lambda>l. le_robot_id l \<noteq> robot) (cm_leases m)"
  by (simp_all add: others_only_def)

lemma count_others:
  "count_occupants (skip_request_edge r t) cr_robot_id cr_id
     (filter (\<lambda>a. cr_robot_id a \<noteq> cr_robot_id r) rs) st
   = count_occupants (skip_request_edge r t) cr_robot_id cr_id rs st"
  "count_occupants (skip_lease_edge r t) le_robot_id le_id
     (filter (\<lambda>l. le_robot_id l \<noteq> cr_robot_id r) ls) st
   = count_occupants (skip_lease_edge r t) le_robot_id le_id ls st"
  "count_occupants (skip_request_zone ix r z) cr_robot_id cr_id
     (filter (\<lambda>a. cr_robot_id a \<noteq> cr_robot_id r) rs) st
   = count_occupants (skip_request_zone ix r z) cr_robot_id cr_id rs st"
  "count_occupants (skip_lease_zone ix r z) le_robot_id le_id
     (filter (\<lambda>l. le_robot_id l \<noteq> cr_robot_id r) ls) st
   = count_occupants (skip_lease_zone ix r z) le_robot_id le_id ls st"
  by (rule count_filter, simp add: skip_request_edge_def skip_lease_edge_def skip_request_zone_def
      skip_lease_zone_def)+

lemma others_edge_violation:
  "edge_capacity_violation (others_only (cr_robot_id r) m) r t cap = edge_capacity_violation m r t cap"
  unfolding edge_capacity_violation_def others_only_simps
  by (simp add: others_only_def count_others)

lemma others_edge_loop:
  "edge_capacity_loop (others_only (cr_robot_id r) m) ix r ts = edge_capacity_loop m ix r ts"
  by (induction ts) (simp_all add: others_edge_violation split: option.split)

lemma others_zone_violation:
  "zone_occupancy_violation (others_only (cr_robot_id r) m) ix r z cap = zone_occupancy_violation m ix r z cap"
  unfolding zone_occupancy_violation_def others_only_simps
  by (simp add: others_only_def count_others)

lemma others_occupancy_loop:
  "occupancy_loop (others_only (cr_robot_id r) m) ix r zs = occupancy_loop m ix r zs"
  by (induction zs) (simp_all add: others_zone_violation split: option.split)

text \<open>
  A robot's own claims and leases have no part in the evaluation of its requests.
\<close>

theorem own_claims_ignored:
  "evaluate_request (others_only (cr_robot_id r) m) r = evaluate_request m r"
proof -
  let ?o = "others_only (cr_robot_id r) m"
  have inv: "first_invalid_target ?o r = first_invalid_target m r"
    by (simp add: first_invalid_target_def)
  have "request_blocks ?o r = request_blocks m r" "lease_blocks ?o r = lease_blocks m r"
    by (simp_all add: fun_eq_iff request_blocks_def lease_blocks_def)
  moreover have "find (request_blocks m r) (cm_requests ?o) = find (request_blocks m r) (cm_requests m)"
    "find (lease_blocks m r) (cm_leases ?o) = find (lease_blocks m r) (cm_leases m)"
    unfolding others_lists
    by (rule find_filter, simp add: request_blocks_def lease_blocks_def)+
  ultimately have req: "find (request_blocks ?o r) (cm_requests ?o) = find (request_blocks m r) (cm_requests m)"
    and lse: "find (lease_blocks ?o r) (cm_leases ?o) = find (lease_blocks m r) (cm_leases m)"
    by simp_all
  have edge: "first_edge_capacity_violation ?o r = first_edge_capacity_violation m r"
    by (simp add: first_edge_capacity_violation_def others_edge_loop split: option.split)
  have occ: "first_occupancy_violation ?o r = first_occupancy_violation m r"
    by (simp add: first_occupancy_violation_def occupied_zones_def others_occupancy_loop
        cong: option.map_cong split: option.split)
  have deny: "deny_conflict ?o s c l ts = deny_conflict m s c l ts" for s c l ts
    by (simp add: deny_conflict_def)
  show ?thesis
    unfolding evaluate_request_def inv req lse edge occ deny others_only_simps by (rule refl)
qed

definition crossing_claim :: claim_request where
  "crossing_claim = (yard_claim 7)\<lparr>cr_access_mode := Shared\<rparr>"

definition site_claim :: claim_request where
  "site_claim = request_default\<lparr>cr_id := 2, cr_robot_id := 8, cr_access_mode := Shared,
     cr_targets := [\<lparr>ct_kind = TZone, ct_resource_id = 1\<rparr>]\<rparr>"

lemma yard_contains:
  "zone_contains yard_ix a 2 \<longleftrightarrow> a = 2 \<or> a = 1" "zone_contains yard_ix a 1 \<longleftrightarrow> a = 1"
  using zones.above_iff [OF yard_index_ok, of 2 "[1]" a] zones.above_iff [OF yard_index_ok, of 1 "[]" a]
    zones.contains_refl [OF yard_index_ok]
  by (auto simp: above_ids_def yard_above) (auto simp: yard_def)

lemma yard_node10_in: "resource_in_zone yard_ix TNode 10 a \<longleftrightarrow> a = 2 \<or> a = 1"
proof -
  have "resource_in_zone yard_ix TNode 10 a = list_ex (zone_contains yard_ix a) (map z_id (zones_of_node yard_ix 10))"
    by (simp add: resource_in_zone_def list_ex_iff)
  then show ?thesis by (simp add: yard_zones_of_10 yard_contains)
qed

lemma yard_occupied:
  "occupied_zones ((yard_manager n)\<lparr>cm_requests := rs\<rparr>) crossing_claim = Some [2, 1]"
  "occupied_zones ((yard_manager n)\<lparr>cm_requests := rs\<rparr>) site_claim = Some [1]"
  by (simp_all add: occupied_zones_def yard_claim_def crossing_claim_def site_claim_def target_zones_def
        yard_zones_of_10 yard_above) (simp add: yard_def)

text \<open>
  Whether a shared claim on a site and a crossing of an exclusive room inside it may coexist
  depends on which is asked first.
\<close>

theorem occupancy_order_dependent:
  "grants ((yard_manager 3)\<lparr>cm_requests := [crossing_claim]\<rparr>) site_claim
   \<and> \<not> grants ((yard_manager 3)\<lparr>cm_requests := [site_claim]\<rparr>) crossing_claim"
proof
  have n: "ix_node yard_ix 10 \<noteq> None"
    by (simp add: ix_node_def yard_nodes) (simp add: yard_ws_def yard_vertex_def)
  have z: "ix_zone yard_ix 1 \<noteq> None"
    by (simp add: ix_zone_def yard_links yard_find) (simp add: find_in_tree_def yard_def)
  have pol: "map_of (ix_zone_policies yard_ix) 1 = Some (parse_zone_policy [(''traffic.capacity'', ''5'')])"
     "map_of (ix_zone_policies yard_ix) 2 = Some (parse_zone_policy [(''traffic.policy'', ''exclusive'')])"
    by (simp_all add: yard_policies)
  have c: "claims_compatible_for_index (Some yard_ix) site_claim crossing_claim"
    using pol
    by (simp add: claims_compatible_for_index_def zone_claims_compatible_def spatial_claims_compatible_def
       zone_vs_spatial_compatible_def site_claim_def crossing_claim_def yard_claim_def yard_node10_in
       both_shared_def policy_or_default_def ix_zone_policy_def policy_of_keyword request_default_def)
  show "grants ((yard_manager 3)\<lparr>cm_requests := [crossing_claim]\<rparr>) site_claim"
    using n z c pol
    by (simp add: grant_iff grant_conditions_def first_invalid_target_def target_missing_def
        first_edge_capacity_violation_def first_occupancy_violation_def yard_occupied request_blocks_def
        ix_zone_policy_def policy_of_keyword zone_occupancy_limit_def)
     (simp add: site_claim_def crossing_claim_def yard_claim_def request_default_def
        zone_occupancy_violation_def skip_request_zone_def window_default_def claim_windows_overlap_def
        targets_occupy_zone_def yard_node10_in zone_policy_empty_def target_missing_def)
  have "zone_occupancy_violation ((yard_manager 3)\<lparr>cm_requests := [site_claim]\<rparr>) yard_ix crossing_claim 2 1 \<noteq> None"
    by (simp add: zone_occupancy_violation_def site_claim_def crossing_claim_def yard_claim_def request_default_def
        skip_request_zone_def window_default_def claim_windows_overlap_def targets_occupy_zone_def
        zones_overlap_def yard_contains Let_def)
  then show "\<not> grants ((yard_manager 3)\<lparr>cm_requests := [site_claim]\<rparr>) crossing_claim"
    using pol
    by (auto simp: grant_iff grant_conditions_def first_occupancy_violation_def yard_occupied
        ix_zone_policy_def policy_of_keyword zone_occupancy_limit_def)
qed

end
