(* ===== verification/Reserve.thy ===== *)
theory Reserve
  imports Schedule Safety
begin

text \<open>
  What the scheduling functions of \<open>coordinator.rs\<close> guarantee: a schedule decision is read off the
  list of the reservations in the way, a queued route starts after all of them have ended, the
  rolling horizon request is the next stretch of the plan, and releasing behind a robot drops
  exactly the leases with nothing left ahead.
\<close>

section \<open>Overlap of two targets\<close>

definition targets_meet :: "index \<Rightarrow> claim_target \<Rightarrow> claim_target \<Rightarrow> bool" where
  "targets_meet ix a b =
     (ct_kind a = ct_kind b
      \<and> (ct_resource_id a = ct_resource_id b
         \<or> ct_kind a = TZone \<and> zones_overlap ix (ct_resource_id a) (ct_resource_id b)))"

lemma has_ancestor_contains:
  assumes "index_ok ix"
  shows "has_ancestor ix z other = Some (zone_contains ix other z \<and> other \<noteq> z)"
proof -
  obtain ho w where ix: "ix = rebuild ho w" and w: "hash_order ho" "find_zone_ok w" "distinct (tree_ids w)"
    using assms by (auto simp: index_ok_def)
  show ?thesis
  proof (cases "ix_zone ix z = None")
    case True
    have "z \<notin> set (tree_ids w)"
    proof
      assume "z \<in> set (tree_ids w)"
      then have "z \<in> set (ix_zone_ids (rebuild ho w))" "ws_find_zone w z \<noteq> None"
        using w(2) unfolding zone_ids_tree by (auto simp: find_zone_ok_def)
      with True show False unfolding ix ix_zone_def rebuild_workspace by simp
    qed
    then have "\<not> (zone_contains ix other z \<and> other \<noteq> z)"
      using parent_in_tree [OF w(3), of z other]
      by (auto simp: ix contains_chain [OF w] rtrancl_eq_or_trancl)
    with True show ?thesis by (simp add: has_ancestor_def)
  next
    case False
    obtain up where up: "above_ids ix z = Some up" using zones.above_total [OF assms] by blast
    then obtain zs where zs: "ancestor_zones ix z = Some zs" "up = map z_id zs"
      by (auto simp: above_ids_def)
    have "list_ex (\<lambda>a. z_id a = other) zs \<longleftrightarrow> other \<in> set up"
      by (auto simp: list_ex_iff zs(2))
    also have "\<dots> \<longleftrightarrow> zone_contains ix other z \<and> other \<noteq> z"
      by (rule zones.above_iff [OF assms up])
    finally show ?thesis using False zs(1) by (auto simp: has_ancestor_def)
  qed
qed

lemma overlap_total:
  assumes "index_ok ix"
  shows "claim_target_windows_overlap a aw b bw (Some ix)
           = Some (claim_windows_overlap aw bw \<and> targets_meet ix a b)"
  using zones.contains_refl [OF assms]
  by (auto simp: claim_target_windows_overlap_def has_ancestor_contains [OF assms] targets_meet_def
      claim_windows_overlap_def Let_def zones_overlap_def)

definition reserved_window :: "target_window \<Rightarrow> claim_window" where
  "reserved_window w =
     \<lparr>cw_start_tick = Some (tw_start_tick w), cw_end_tick = Some (tw_end_tick w)\<rparr>"

definition in_the_way :: "index \<Rightarrow> target_window \<Rightarrow> claim_window \<Rightarrow> claim_target list \<Rightarrow> bool" where
  "in_the_way ix w other ts =
     (claim_windows_overlap (reserved_window w) other
      \<and> list_ex (targets_meet ix (ts_target (tw_semantics w))) ts)"

lemma overlaps_any_total:
  assumes "index_ok ix"
  shows "overlaps_any (Some ix) w other ts = Some (in_the_way ix w other ts)"
  by (induction ts) (auto simp: overlap_total [OF assms] in_the_way_def reserved_window_def)

section \<open>The decision, as a specification\<close>

definition request_conflict :: "target_window \<Rightarrow> claim_request \<Rightarrow> schedule_conflict" where
  "request_conflict w a =
     \<lparr>sc_target = ts_target (tw_semantics w),
      sc_blocking_until_tick = unwrap_or (cw_end_tick (cr_window a)) (tw_end_tick w),
      sc_conflicting_claim_id = Some (cr_id a), sc_conflicting_lease_id = None,
      sc_diagnostics = conflict_diagnostics (tw_semantics w) ''active request''\<rparr>"

definition lease_conflict :: "target_window \<Rightarrow> lease \<Rightarrow> schedule_conflict" where
  "lease_conflict w l =
     \<lparr>sc_target = ts_target (tw_semantics w),
      sc_blocking_until_tick = unwrap_or (le_expires_at_tick l) (tw_end_tick w),
      sc_conflicting_claim_id = None, sc_conflicting_lease_id = Some (le_id l),
      sc_diagnostics = conflict_diagnostics (tw_semantics w) ''active lease''\<rparr>"

definition window_conflicts ::
  "index \<Rightarrow> claim_manager \<Rightarrow> claim_request \<Rightarrow> target_window \<Rightarrow> schedule_conflict list"
where
  "window_conflicts ix m r w =
     map (request_conflict w)
       (filter (\<lambda>a. cr_id a \<noteq> cr_id r \<and> in_the_way ix w (cr_window a) (cr_targets a)) (cm_requests m))
     @ map (lease_conflict w)
         (filter (\<lambda>l. le_active l \<and> in_the_way ix w (lease_window l) (le_targets l)) (cm_leases m))"

definition route_conflicts ::
  "index \<Rightarrow> claim_manager \<Rightarrow> claim_request \<Rightarrow> route_plan \<Rightarrow> u64 \<Rightarrow> f64 \<Rightarrow> schedule_conflict list"
where
  "route_conflicts ix m r plan start u =
     concat (map (window_conflicts ix m r) (scheduled_target_windows_from_route ix plan start u))"

definition latest_block :: "u64 \<Rightarrow> schedule_conflict list \<Rightarrow> u64" where
  "latest_block start cs = foldl (\<lambda>t c. max t (sc_blocking_until_tick c)) start cs"

definition push_all :: "conflict_state \<Rightarrow> schedule_conflict list \<Rightarrow> conflict_state" where
  "push_all st cs = (fst st @ cs, latest_block (snd st) cs)"

lemma push_all_append: "push_all (push_all st cs) ds = push_all st (cs @ ds)"
  by (simp add: push_all_def latest_block_def)

lemma push_all_nil [simp]: "push_all st [] = st"
  by (simp add: push_all_def latest_block_def)

lemma add_conflict_push:
  "add_conflict st t b claim lease s source = push_all st
     [\<lparr>sc_target = t, sc_blocking_until_tick = b, sc_conflicting_claim_id = claim,
       sc_conflicting_lease_id = lease, sc_diagnostics = conflict_diagnostics s source\<rparr>]"
  by (cases st) (simp add: add_conflict_def push_all_def latest_block_def max_def less_le)

lemma fold_opt_push:
  assumes "\<And>x st. x \<in> set xs \<Longrightarrow> f x st = Some (push_all st (g x))"
  shows "fold_opt f xs st = Some (push_all st (concat (map g xs)))"
  using assms by (induction xs arbitrary: st) (simp_all add: push_all_append)

lemma concat_single: "concat (map (\<lambda>x. if p x then [h x] else []) xs) = map h (filter p xs)"
  by (induction xs) simp_all

lemma schedule_window_total:
  assumes "cm_index m = Some ix" "index_ok ix"
  shows "schedule_window_step m r w st = Some (push_all st (window_conflicts ix m r w))"
proof -
  note ov = overlaps_any_total [OF assms(2)]
  let ?p = "\<lambda>a. cr_id a \<noteq> cr_id r \<and> in_the_way ix w (cr_window a) (cr_targets a)"
  let ?q = "\<lambda>l. le_active l \<and> in_the_way ix w (lease_window l) (le_targets l)"
  have a: "fold_opt (schedule_request_step (Some ix) r w) (cm_requests m) st =
      Some (push_all st (concat (map (\<lambda>a. if ?p a then [request_conflict w a] else []) (cm_requests m))))" for st
    by (rule fold_opt_push)
      (auto simp: schedule_request_step_def ov add_conflict_push request_conflict_def)
  have b: "fold_opt (schedule_lease_step (Some ix) w) (cm_leases m) st =
      Some (push_all st (concat (map (\<lambda>l. if ?q l then [lease_conflict w l] else []) (cm_leases m))))" for st
    by (rule fold_opt_push)
      (auto simp: schedule_lease_step_def ov add_conflict_push lease_conflict_def)
  show ?thesis
    by (simp add: schedule_window_step_def assms(1) a b concat_single push_all_append window_conflicts_def)
qed

definition schedule_spec ::
  "index \<Rightarrow> u64 \<Rightarrow> schedule_conflict list \<Rightarrow> schedule_kind \<times> u64 \<times> u64 \<times> schedule_conflict list"
where
  "schedule_spec ix start cs =
     (if cs = [] then (Proceed, start, 0, cs)
      else if list_all (conflict_queueable ix) cs
      then (Queue, sat_add (latest_block start cs) 1, of_nat (length cs) + 1, cs)
      else (Replan, start, 0, cs))"

lemma schedule_total:
  assumes "cm_index m = Some ix" "index_ok ix"
  shows "\<exists>d. schedule_route_request ix m r plan start u = Some d
    \<and> (sd_kind d, sd_start_tick d, sd_queue_position d, sd_conflicts d)
        = schedule_spec ix start (route_conflicts ix m r plan start u)"
proof -
  have "fold_opt (schedule_window_step m r) (scheduled_target_windows_from_route ix plan start u) ([], start)
        = Some (push_all ([], start) (route_conflicts ix m r plan start u))"
    unfolding route_conflicts_def by (rule fold_opt_push) (simp add: schedule_window_total [OF assms])
  then show ?thesis
    by (simp add: schedule_route_request_def push_all_def schedule_spec_def Let_def decision_default_def)
qed

text \<open>
  C31: on a lawful index scheduling always returns, and its decision is read off the reservations in
  the way: none lets the route proceed, reservations that all allow waiting queue it after the
  latest of them, any other asks for a new plan.
\<close>

theorem schedule_refines:
  assumes "cm_index m = Some ix" "index_ok ix"
  shows "\<exists>d. schedule_route_request ix m r plan start u = Some d
    \<and> (sd_kind d, sd_start_tick d, sd_queue_position d, sd_conflicts d)
        = schedule_spec ix start (route_conflicts ix m r plan start u)"
  by (rule schedule_total [OF assms])


section \<open>A queued route starts in the clear\<close>

lemma latest_block_ge: "t \<le> latest_block t cs \<and> (\<forall>c \<in> set cs. sc_blocking_until_tick c \<le> latest_block t cs)"
proof (induction cs arbitrary: t)
  case (Cons c cs)
  have "max t (sc_blocking_until_tick c) \<le> latest_block (max t (sc_blocking_until_tick c)) cs"
    "\<forall>d \<in> set cs. sc_blocking_until_tick d \<le> latest_block (max t (sc_blocking_until_tick c)) cs"
    using Cons by blast+
  then show ?case by (auto simp: latest_block_def)
qed (simp add: latest_block_def)

text \<open>The end of the reservations a route meets: those of other requests and of active leases.\<close>

definition blocking_ends ::
  "index \<Rightarrow> claim_manager \<Rightarrow> claim_request \<Rightarrow> target_window \<Rightarrow> u64 set"
where
  "blocking_ends ix m r w =
     {e. \<exists>a \<in> set (cm_requests m). cr_id a \<noteq> cr_id r \<and> cw_end_tick (cr_window a) = Some e
           \<and> in_the_way ix w (cr_window a) (cr_targets a)}
     \<union> {e. \<exists>l \<in> set (cm_leases m). le_active l \<and> le_expires_at_tick l = Some e
           \<and> in_the_way ix w (lease_window l) (le_targets l)}"

lemma blocking_end_conflict:
  assumes "w \<in> set (scheduled_target_windows_from_route ix plan start u)" "e \<in> blocking_ends ix m r w"
  shows "\<exists>c \<in> set (route_conflicts ix m r plan start u). sc_blocking_until_tick c = e"
proof -
  have "\<exists>c \<in> set (window_conflicts ix m r w). sc_blocking_until_tick c = e"
    using assms(2) unfolding blocking_ends_def window_conflicts_def
    by (force simp: request_conflict_def lease_conflict_def)
  with assms(1) show ?thesis by (auto simp: route_conflicts_def)
qed

text \<open>
  A route told to queue is given a start after the end of every reservation it met, and not
  before the start it asked for, unless time itself runs out.
\<close>

theorem queued_start_clear:
  assumes "cm_index m = Some ix" "index_ok ix"
    and "schedule_route_request ix m r plan start u = Some d" "sd_kind d = Queue"
    and "sd_start_tick d \<noteq> u64_max"
  shows "start < sd_start_tick d
    \<and> (\<forall>w \<in> set (scheduled_target_windows_from_route ix plan start u).
         \<forall>e \<in> blocking_ends ix m r w. e < sd_start_tick d)"
proof -
  let ?cs = "route_conflicts ix m r plan start u" and ?t = "latest_block start (route_conflicts ix m r plan start u)"
  have "schedule_spec ix start ?cs = (Queue, sd_start_tick d, sd_queue_position d, sd_conflicts d)"
    using schedule_total [OF assms(1,2), of r plan start u] assms(3,4) by auto
  then have t: "sd_start_tick d = sat_add ?t 1"
    by (auto simp: schedule_spec_def split: if_splits)
  with assms(5) have "?t \<noteq> u64_max" by auto
  then have lt: "?t < sd_start_tick d" unfolding t by (rule sat_add_1_gt)
  have "e < sd_start_tick d"
    if "w \<in> set (scheduled_target_windows_from_route ix plan start u)" "e \<in> blocking_ends ix m r w" for w e
  proof -
    have "\<exists>c \<in> set ?cs. sc_blocking_until_tick c = e"
      using that by (rule blocking_end_conflict)
    then obtain c where "c \<in> set ?cs" "sc_blocking_until_tick c = e" by blast
    with latest_block_ge [of start ?cs] have "e \<le> ?t" by blast
    with lt show ?thesis by (simp add: le_less_trans)
  qed
  moreover have "start < sd_start_tick d"
    using latest_block_ge [of start ?cs] lt by (meson le_less_trans)
  ultimately show ?thesis by blast
qed

section \<open>The rolling horizon\<close>

lemma map_nth_take: "map (\<lambda>k. f (xs ! (i + k))) [0..<min (length xs - i) n] = map f (take n (drop i xs))"
  by (rule nth_equalityI) auto

text \<open>
  The rolling horizon request of a robot on a well-shaped plan asks for the next \<open>horizon\<close> edges
  from where the robot is and the \<open>horizon + 1\<close> nodes they join, and for nothing once the robot has
  run off the plan; without such a plan it is empty. The addition wraps: with the largest horizon the
  request names the edges and no node at all.
\<close>

theorem horizon_targets:
  "cr_targets (rolling_horizon_claim_request cid s mode) =
    (case rs_route_plan s of
       None \<Rightarrow> []
     | Some plan \<Rightarrow>
         (let i = unat (route_progress_index s); h = unat (rs_horizon s);
              stops = (if rs_horizon s = u64_max then 0 else h + 1) in
          if is_err (validate_route_plan_shape plan) \<or> length (rp_node_ids plan) \<le> i then []
          else map edge_target (take h (drop i (rp_edge_ids plan)))
               @ map node_target (take stops (drop i (rp_node_ids plan)))))"
proof -
  have h: "unat (rs_horizon s + 1) = (if rs_horizon s = u64_max then 0 else unat (rs_horizon s) + 1)"
  proof (cases "rs_horizon s = u64_max")
    case False
    then have "unat (rs_horizon s) \<noteq> 2 ^ 64 - 1" by (metis unat_u64_max word_eq_iff_unsigned)
    with False show ?thesis
      using unat_u64_lt [of "rs_horizon s"] by (simp add: unat_word_ariths)
  qed simp
  show ?thesis
    by (simp add: rolling_horizon_claim_request_def request_default_def Let_def h map_nth_take
        split: option.split)
qed

section \<open>Releasing behind a robot\<close>

lemma find_position: "find p xs = map_option (nth xs) (position p xs)"
  by (induction xs) (auto simp: option.map_comp o_def)

lemma distinct_key: "distinct (map k (x # xs)) \<Longrightarrow> y \<in> set xs \<Longrightarrow> k y \<noteq> k x"
  by (metis distinct.simps(2) image_eqI list.simps(9) set_map)

lemma remove_at_key:
  "distinct (map k xs) \<Longrightarrow> position (\<lambda>x. k x = i) xs = Some p \<Longrightarrow>
     take p xs @ drop (Suc p) xs = filter (\<lambda>x. k x \<noteq> i) xs"
proof (induction xs arbitrary: p)
  case (Cons x xs)
  show ?case
  proof (cases "k x = i")
    case True
    have "\<forall>y \<in> set xs. k y \<noteq> i" using distinct_key [OF Cons.prems(1)] True by simp
    then have "filter (\<lambda>y. k y \<noteq> i) xs = xs" by (rule filter_True)
    moreover have "p = 0" using True Cons.prems(2) by simp
    ultimately show ?thesis using True by (simp only: filter.simps) simp
  next
    case False
    with Cons show ?thesis by auto
  qed
qed simp

lemma find_of_filter: "find p (filter q xs) = find (\<lambda>x. q x \<and> p x) xs"
  by (induction xs) auto

lemma find_lease_id: "find_lease m i = Some l \<Longrightarrow> l \<in> set (cm_leases m) \<and> le_id l = i"
  by (induction "cm_leases m") (auto simp: find_lease_def find_Some_iff)

lemma release_lease_found:
  assumes "distinct (map le_id (cm_leases m))" "find_lease m i = Some l"
  shows "release_lease m i tick = (True, m\<lparr>cm_leases := filter (\<lambda>x. le_id x \<noteq> i) (cm_leases m),
           cm_released := cm_released m @ [archive_released tick l]\<rparr>)"
  using assms remove_at_key [OF assms(1)]
  by (auto simp: find_lease_def find_position release_lease_def archive_at_def)

definition drops :: "remaining \<Rightarrow> lease_id list \<Rightarrow> lease \<Rightarrow> bool" where
  "drops rm ids l = (le_id l \<in> set ids \<and> \<not> list_ex (still_ahead rm) (le_targets l))"

definition keeps_id :: "remaining \<Rightarrow> claim_manager \<Rightarrow> lease_id \<Rightarrow> bool" where
  "keeps_id rm m i =
     (case find_lease m i of None \<Rightarrow> False | Some l \<Rightarrow> list_ex (still_ahead rm) (le_targets l))"

lemma mset_filter_one:
  assumes "distinct (map k xs)" "x \<in> set xs" "p x"
  shows "mset (filter p xs) = add_mset x (mset (filter (\<lambda>y. k y \<noteq> k x \<and> p y) xs))"
  using assms
proof (induction xs)
  case (Cons y xs)
  show ?case
  proof (cases "x = y")
    case True
    have "\<forall>z \<in> set xs. k z \<noteq> k x" using distinct_key [OF Cons.prems(1)] True by simp
    then have "filter (\<lambda>z. k z \<noteq> k x \<and> p z) xs = filter p xs" by (intro filter_cong) auto
    with True Cons.prems show ?thesis by simp
  next
    case False
    with Cons.prems have "k y \<noteq> k x" "x \<in> set xs" by auto
    with Cons show ?thesis by simp
  qed
qed simp

lemma release_loop_spec:
  assumes "distinct (map le_id (cm_leases m))"
  shows "\<exists>archived m'. release_loop rm ids ret n m =
      (ret @ filter (keeps_id rm m) ids,
       n + of_nat (length (filter (drops rm ids) (cm_leases m))), m')
    \<and> cm_leases m' = filter (\<lambda>l. \<not> drops rm ids l) (cm_leases m)
    \<and> cm_released m' = cm_released m @ archived
    \<and> mset archived = image_mset (archive_released None) (mset (filter (drops rm ids) (cm_leases m)))
    \<and> cm_requests m' = cm_requests m \<and> cm_index m' = cm_index m \<and> cm_next_id m' = cm_next_id m"
  using assms
proof (induction ids arbitrary: ret n m)
  case Nil
  then show ?case by (simp add: drops_def)
next
  case (Cons i ids)
  show ?case
  proof (cases "find_lease m i")
    case None
    then have "\<forall>l \<in> set (cm_leases m). drops rm (i # ids) l = drops rm ids l"
      by (auto simp: find_lease_def find_None_iff drops_def)
    then have "filter (drops rm (i # ids)) (cm_leases m) = filter (drops rm ids) (cm_leases m)"
      "filter (\<lambda>l. \<not> drops rm (i # ids) l) (cm_leases m) = filter (\<lambda>l. \<not> drops rm ids l) (cm_leases m)"
      by (auto intro: filter_cong)
    moreover have "keeps_id rm m i = False" using None by (simp add: keeps_id_def)
    ultimately show ?thesis using Cons.IH [OF Cons.prems, of ret n] None
      by (simp del: mset_filter)
  next
    case (Some l)
    note l = find_lease_id [OF Some]
    show ?thesis
    proof (cases "list_ex (still_ahead rm) (le_targets l)")
      case True
      have "drops rm (i # ids) x = drops rm ids x" if "x \<in> set (cm_leases m)" for x
        using that l True Cons.prems by (auto simp: drops_def distinct_map inj_on_def)
      then have "filter (drops rm (i # ids)) (cm_leases m) = filter (drops rm ids) (cm_leases m)"
        "filter (\<lambda>l. \<not> drops rm (i # ids) l) (cm_leases m) = filter (\<lambda>l. \<not> drops rm ids l) (cm_leases m)"
        by (auto intro: filter_cong)
      moreover have "keeps_id rm m i" using Some True by (simp add: keeps_id_def)
      ultimately show ?thesis using Cons.IH [OF Cons.prems, of "ret @ [i]" n] Some True
        by (simp del: mset_filter)
    next
      case False
      let ?m = "m\<lparr>cm_leases := filter (\<lambda>x. le_id x \<noteq> i) (cm_leases m),
                  cm_released := cm_released m @ [archive_released None l]\<rparr>"
      have d: "distinct (map le_id (cm_leases ?m))"
        using Cons.prems by (simp add: distinct_map_filter)
      have uniq: "x = l" if "x \<in> set (cm_leases m)" "le_id x = i" for x
        using that l Cons.prems by (auto simp: distinct_map inj_on_def)
      have keep: "filter (keeps_id rm ?m) ids = filter (keeps_id rm m) (i # ids)"
      proof -
        have same: "keeps_id rm ?m j = keeps_id rm m j" for j
        proof (cases "j = i")
          case True
          have "find (\<lambda>x. False) (cm_leases m) = None" by (simp add: find_None_iff)
          then show ?thesis using Some False True
            by (simp add: keeps_id_def find_lease_def find_of_filter)
        next
          case ne: False
          have "find (\<lambda>x. le_id x \<noteq> i \<and> le_id x = j) (cm_leases m) = find (\<lambda>x. le_id x = j) (cm_leases m)"
            by (rule arg_cong [where f = "\<lambda>p. find p (cm_leases m)"]) (use ne in auto)
          then show ?thesis by (simp add: keeps_id_def find_lease_def find_of_filter)
        qed
        have "\<not> keeps_id rm m i" using Some False by (simp add: keeps_id_def)
        then show ?thesis using filter_cong [OF refl same] by simp
      qed
      have dr: "filter (drops rm ids) (cm_leases ?m) = filter (\<lambda>x. le_id x \<noteq> le_id l \<and> drops rm (i # ids) x) (cm_leases m)"
        using l by (auto simp: drops_def intro: filter_cong)
      have nd: "filter (\<lambda>x. \<not> drops rm ids x) (cm_leases ?m) = filter (\<lambda>x. \<not> drops rm (i # ids) x) (cm_leases m)"
        using uniq False by (auto simp: drops_def intro!: filter_cong)
      have dl: "drops rm (i # ids) l" using l False by (simp add: drops_def)
      have ms: "mset (filter (drops rm (i # ids)) (cm_leases m)) = add_mset l (mset (filter (drops rm ids) (cm_leases ?m)))"
        unfolding dr by (rule mset_filter_one) (use Cons.prems l dl in auto)
      have len: "length (filter (drops rm (i # ids)) (cm_leases m)) = Suc (length (filter (drops rm ids) (cm_leases ?m)))"
        using arg_cong [OF ms, of size] by (simp only: size_mset size_add_mset)
      have loop: "release_loop rm (i # ids) ret n m = release_loop rm ids ret (n + 1) ?m"
        using Some False release_lease_found [OF Cons.prems Some] by simp
      obtain archived m' where ih: "release_loop rm ids ret (n + 1) ?m =
            (ret @ filter (keeps_id rm ?m) ids,
             n + 1 + of_nat (length (filter (drops rm ids) (cm_leases ?m))), m')"
          "cm_leases m' = filter (\<lambda>l. \<not> drops rm ids l) (cm_leases ?m)"
          "cm_released m' = cm_released ?m @ archived"
          "mset archived = image_mset (archive_released None) (mset (filter (drops rm ids) (cm_leases ?m)))"
          "cm_requests m' = cm_requests ?m" "cm_index m' = cm_index ?m" "cm_next_id m' = cm_next_id ?m"
        using Cons.IH [OF d, of ret "n + 1"] by blast
      show ?thesis
        unfolding loop
      proof (intro exI conjI)
        show "release_loop rm ids ret (n + 1) ?m = (ret @ filter (keeps_id rm m) (i # ids),
            n + of_nat (length (filter (drops rm (i # ids)) (cm_leases m))), m')"
          unfolding ih(1) keep len by simp
        show "cm_released m' = cm_released m @ (archive_released None l # archived)"
          by (simp add: ih(3))
        show "mset (archive_released None l # archived)
              = image_mset (archive_released None) (mset (filter (drops rm (i # ids)) (cm_leases m)))"
          unfolding ms by (simp only: mset.simps ih(4) image_mset_add_mset)
        show "cm_leases m' = filter (\<lambda>l. \<not> drops rm (i # ids) l) (cm_leases m)"
          unfolding ih(2) nd ..
      qed (simp_all add: ih)
    qed
  qed
qed

text \<open>
  Releasing behind a robot that stands on its plan archives exactly those leases it lists that
  have no target left on the plan from there on, and keeps every other lease of the ledger and, in
  the robot's list, every lease still needed; requests are not touched.
\<close>

theorem release_behind_exact:
  assumes "distinct (map le_id (cm_leases m))" "progress_position s = Some (plan, i)"
  shows "let rm = remaining_from plan i; ids = rs_active_lease_ids s;
             (n, s', m') = release_targets_behind_progress s m
    in n = of_nat (length (filter (drops rm ids) (cm_leases m)))
     \<and> rs_active_lease_ids s' = filter (keeps_id rm m) ids
     \<and> cm_leases m' = filter (\<lambda>l. \<not> drops rm ids l) (cm_leases m)
     \<and> mset (cm_released m') = mset (cm_released m)
         + image_mset (archive_released None) (mset (filter (drops rm ids) (cm_leases m)))
     \<and> cm_requests m' = cm_requests m"
proof -
  obtain archived m' where "release_loop (remaining_from plan i) (rs_active_lease_ids s) [] 0 m =
      ([] @ filter (keeps_id (remaining_from plan i) m) (rs_active_lease_ids s),
       0 + of_nat (length (filter (drops (remaining_from plan i) (rs_active_lease_ids s)) (cm_leases m))), m')"
    "cm_leases m' = filter (\<lambda>l. \<not> drops (remaining_from plan i) (rs_active_lease_ids s) l) (cm_leases m)"
    "cm_released m' = cm_released m @ archived"
    "mset archived = image_mset (archive_released None)
       (mset (filter (drops (remaining_from plan i) (rs_active_lease_ids s)) (cm_leases m)))"
    "cm_requests m' = cm_requests m"
    using release_loop_spec [OF assms(1), of "remaining_from plan i" "rs_active_lease_ids s" "[]" 0] by blast
  then show ?thesis
    using assms(2) by (simp add: release_targets_behind_progress_def Let_def del: mset_filter)
qed

section \<open>Examples\<close>

text \<open>Robot 9 holds the dock until tick 5, and a route that stops there wants it at tick 3.\<close>

definition dock_plan :: route_plan where
  "dock_plan =
     \<lparr>rp_start_node_id = 12, rp_goal_node_id = 12, rp_steps = [], rp_node_ids = [12], rp_edge_ids = [],
      rp_zone_ids = [], rp_node_zone_ids = [], rp_edge_zone_ids = [], rp_total_cost = f64_zero\<rparr>"

definition dock_claim :: claim_request where
  "dock_claim = request_default\<lparr>cr_id := 1, cr_robot_id := 9,
     cr_window := \<lparr>cw_start_tick = Some 0, cw_end_tick = Some 5\<rparr>, cr_targets := [node_target 12]\<rparr>"

definition dock_manager :: claim_manager where
  "dock_manager = (cm_with_index yard_ix)\<lparr>cm_requests := [dock_claim]\<rparr>"

abbreviation dock_request :: claim_request where
  "dock_request \<equiv> request_default\<lparr>cr_id := 2\<rparr>"

lemma dock_index [simp]: "cm_index dock_manager = Some yard_ix"
  by (simp add: dock_manager_def cm_with_index_def)

lemma dock_windows:
  "scheduled_target_windows_from_route yard_ix dock_plan 3 (Fin 1) = [mk_window yard_ix TNode 3 3 12]"
  by (simp add: scheduled_target_windows_from_route_def dock_plan_def validate_route_plan_shape_def
      Let_def step_windows_def tick_at_step_def zone_windows_def)

lemma dock_semantics: "claim_target_semantics yard_ix (node_target 12) = semantics_default (node_target 12)"
proof -
  have "map (\<lambda>z. parse_zone_policy (z_properties z)) (zones_of_node yard_ix 12) = [zone_policy_empty]"
    by (simp add: zones_of_node_def ix_node_def yard_nodes yard_find map_filter_simps)
      (simp add: find_in_tree_def yard_ws_def yard_def yard_vertex_def map_filter_simps policy_of_keyword)
  then obtain z where "zones_of_node yard_ix 12 = [z]" "parse_zone_policy (z_properties z) = zone_policy_empty"
    by (auto simp: map_eq_Cons_conv)
  then show ?thesis
    by (simp add: claim_target_semantics_def node_target_def node_semantics_step_def semantics_default_def
        zone_policy_empty_def policy_blocks_def is_slow_limit_def Let_def)
qed

lemma dock_conflicts:
  "route_conflicts yard_ix dock_manager dock_request dock_plan 3 (Fin 1) =
     [request_conflict (mk_window yard_ix TNode 3 3 12) dock_claim]"
proof -
  have t: "ts_target (tw_semantics (mk_window yard_ix TNode 3 3 12)) = node_target 12"
    using dock_semantics by (simp add: mk_window_def node_target_def semantics_default_def)
  have "in_the_way yard_ix (mk_window yard_ix TNode 3 3 12) (cr_window dock_claim) (cr_targets dock_claim)"
    by (simp add: in_the_way_def t dock_claim_def targets_meet_def)
      (simp add: reserved_window_def mk_window_def claim_windows_overlap_def)
  then show ?thesis
    by (simp add: route_conflicts_def dock_windows window_conflicts_def dock_manager_def cm_with_index_def
        cm_new_def) (simp add: dock_claim_def request_default_def)
qed

lemma dock_spec:
  "schedule_spec yard_ix 3 (route_conflicts yard_ix dock_manager dock_request dock_plan 3 (Fin 1)) =
     (Queue, 6, 2, [request_conflict (mk_window yard_ix TNode 3 3 12) dock_claim])"
proof -
  have "sc_target (request_conflict (mk_window yard_ix TNode 3 3 12) dock_claim) = node_target 12"
    using dock_semantics by (simp add: request_conflict_def mk_window_def node_target_def semantics_default_def)
  moreover have "sc_blocking_until_tick (request_conflict (mk_window yard_ix TNode 3 3 12) dock_claim) = 5"
    by (simp add: request_conflict_def dock_claim_def)
  ultimately show ?thesis
    by (simp add: schedule_spec_def dock_conflicts conflict_queueable_def dock_semantics
        semantics_default_def latest_block_def sat_add_def)
qed

theorem schedule_refines_witness:
  "\<exists>d. schedule_route_request yard_ix dock_manager dock_request dock_plan 3 (Fin 1) = Some d
     \<and> sd_kind d = Queue \<and> sd_start_tick d = 6"
  using schedule_refines [OF dock_index yard_index_ok, of dock_request dock_plan 3 "Fin 1"]
  unfolding dock_spec by auto

theorem queued_start_clear_witness:
  "\<exists>d. schedule_route_request yard_ix dock_manager dock_request dock_plan 3 (Fin 1) = Some d
     \<and> 3 < sd_start_tick d"
proof -
  obtain d where d: "schedule_route_request yard_ix dock_manager dock_request dock_plan 3 (Fin 1) = Some d"
      "(sd_kind d, sd_start_tick d, sd_queue_position d, sd_conflicts d)
        = schedule_spec yard_ix 3 (route_conflicts yard_ix dock_manager dock_request dock_plan 3 (Fin 1))"
    using schedule_total [OF dock_index yard_index_ok] by blast
  then have "sd_kind d = Queue" "sd_start_tick d \<noteq> u64_max" unfolding dock_spec by auto
  with queued_start_clear [OF dock_index yard_index_ok d(1)] d(1) show ?thesis by blast
qed

text \<open>A robot that has driven from node 10 to node 11 of its plan, with a lease on each.\<close>

definition short_plan :: route_plan where
  "short_plan =
     \<lparr>rp_start_node_id = 10, rp_goal_node_id = 11, rp_steps = [], rp_node_ids = [10, 11],
      rp_edge_ids = [20], rp_zone_ids = [], rp_node_zone_ids = [], rp_edge_zone_ids = [],
      rp_total_cost = Fin 2\<rparr>"

definition driven :: robot_state where
  "driven = robot_default\<lparr>rs_robot_id := 7, rs_route_plan := Some short_plan,
     rs_current_node_id := Some 11, rs_active_lease_ids := [1, 2]\<rparr>"

definition node_lease :: "lease_id \<Rightarrow> uuid \<Rightarrow> lease" where
  "node_lease i n = lease_default\<lparr>le_id := i, le_robot_id := 7, le_targets := [node_target n]\<rparr>"

definition driven_manager :: claim_manager where
  "driven_manager = cm_new\<lparr>cm_leases := [node_lease 1 10, node_lease 2 11]\<rparr>"

theorem release_behind_exact_witness:
  "case release_targets_behind_progress driven driven_manager of
     (n, s', m') \<Rightarrow> n = 1 \<and> rs_active_lease_ids s' = [2] \<and> cm_leases m' = [node_lease 2 11]"
proof -
  have d: "distinct (map le_id (cm_leases driven_manager))"
    by (simp add: driven_manager_def node_lease_def)
  have p: "progress_position driven = Some (short_plan, 1)"
    by (simp add: progress_position_def driven_def short_plan_def validate_route_plan_shape_def Let_def)
  show ?thesis
    using release_behind_exact [OF d p]
    by (auto simp: Let_def driven_def driven_manager_def remaining_from_def short_plan_def drops_def
        keeps_id_def find_lease_def node_lease_def still_ahead_def node_target_def split: prod.splits)
qed

end
