(* ===== verification/Fleet.thy ===== *)
theory Fleet
  imports Identity Reserve
begin

text \<open>
  The roster of the coordinator: which robots, keys and UUIDs it holds, over every operation, and
  what unregistering and sweeping leave behind. The locale \<open>robot_op\<close> is the contract of an update
  of one robot's state (it keeps the robot's id), interpreted on each of the updates of the source.
\<close>

section \<open>Updates of one robot\<close>

locale robot_op =
  fixes f :: "robot_state \<Rightarrow> robot_state"
  assumes keeps_id: "rs_robot_id (f s) = rs_robot_id s"
begin

lemma ids_update: "map rs_robot_id (co_robots (snd (update_robot c rid f))) = map rs_robot_id (co_robots c)"
  by (simp add: update_robot_def map_key_update_first keeps_id)

lemma find_update_first:
  "find (\<lambda>s. rs_robot_id s = r) (update_first (is_robot rid) f xs) =
     (if r = rid then map_option f (find (\<lambda>s. rs_robot_id s = r) xs)
      else find (\<lambda>s. rs_robot_id s = r) xs)"
  by (induction xs) (auto simp: is_robot_def keeps_id)

lemma find_update:
  "find_robot_state (snd (update_robot c rid f)) r =
     (if r = rid then map_option f (find_robot_state c r) else find_robot_state c r)"
  by (auto simp: update_robot_def find_robot_state_def find_update_first)

end

interpretation pose: robot_op "set_pose pos heading at_ms" for pos heading at_ms
  by unfold_locales (simp add: set_pose_def Let_def)

interpretation report: robot_op "set_progress node edge tick" for node edge tick
  by unfold_locales (simp add: set_progress_def follow_report_def split: option.split)

interpretation plan: robot_op "take_plan p horizon tick" for p horizon tick
  by unfold_locales (simp add: take_plan_def)

interpretation claims: robot_op "set_claims pending leases tick" for pending leases tick
  by unfold_locales (simp add: set_claims_def)

interpretation schedule: robot_op "set_schedule r d start" for r d start
  by unfold_locales (simp add: set_schedule_def apply_schedule_decision_def Let_def split: schedule_kind.split)

interpretation losing: robot_op "lose_leases why tick" for why tick
  by unfold_locales (simp add: lose_leases_def)

interpretation missing: robot_op "miss_slot now" for now
  by unfold_locales (simp add: miss_slot_def)

interpretation claimed: robot_op "\<lambda>s. s\<lparr>rs_last_claim_tick := t\<rparr>" for t
  by unfold_locales simp

interpretation replanned: robot_op "\<lambda>s. s\<lparr>rs_needs_replan := b\<rparr>" for b
  by unfold_locales simp

section \<open>The roster\<close>

definition robot_ids :: "coordinator \<Rightarrow> robot_id list" where
  "robot_ids c = map rs_robot_id (co_robots c)"

lemma find_robot_ids: "find_robot_state c rid = None \<longleftrightarrow> rid \<notin> set (robot_ids c)"
  by (auto simp: find_robot_state_def find_None_iff robot_ids_def)

text \<open>
  No robot is listed twice, every key and every UUID belongs to a robot that is listed, and no two
  UUIDs share a robot.
\<close>

definition roster_ok :: "coordinator \<Rightarrow> bool" where
  "roster_ok c =
     (distinct (robot_ids c) \<and> fst ` set (co_keys c) \<subseteq> set (robot_ids c)
      \<and> snd ` set (co_uuids c) \<subseteq> set (robot_ids c) \<and> distinct (map snd (co_uuids c)))"

definition same_roster :: "coordinator \<Rightarrow> coordinator \<Rightarrow> bool" where
  "same_roster c c' =
     (robot_ids c' = robot_ids c \<and> co_keys c' = co_keys c \<and> co_uuids c' = co_uuids c)"

lemma roster_frame: "roster_ok c \<Longrightarrow> same_roster c c' \<Longrightarrow> roster_ok c'"
  by (simp add: roster_ok_def same_roster_def)

text \<open>
  Every public call that changes the coordinator. The last two are the references handed out:
  \<open>claim_manager_mut\<close> gives the claim manager away whole, and \<open>find_robot_state_mut\<close> one robot's
  state. The second is limited to edits that leave the robot's own id alone, as every caller in
  the repository does; nothing in the code enforces that, and \<open>renaming_breaks_roster\<close> shows what
  an edit that writes another id does.
\<close>

inductive fleet_step :: "crypto \<Rightarrow> coordinator \<Rightarrow> coordinator \<Rightarrow> bool" for cx where
  "fleet_step cx c (set_alive c rid interval now)"
| "fleet_step cx c (touch_robot c rid now)"
| "fleet_step cx c (snd (expire_claims c now))"
| "fleet_step cx c (snd (sweep_inactive c now))"
| "fleet_step cx c (co_bind_index c ix)"
| "fleet_step cx c (co_clear c)"
| "fleet_step cx c (snd (resolve_or_mint_robot_id cx c raw))"
| "fleet_step cx c (set_provisioned_robots c allowed)"
| "fleet_step cx c (set_kdf_params c params)"
| "fleet_step cx c (snd (register_with_verifier cx salt t c rid k cost))"
| "fleet_step cx c (snd (issue_challenge draw t c rid))"
| "fleet_step cx c (snd (prove_identity cx draw t c rid pk sig))"
| "fleet_step cx c (snd (validate_key cx t c rid k))"
| "fleet_step cx c (register_robot c s)"
| "fleet_step cx c (snd (unregister_robot c rid))"
| "fleet_step cx c (snd (update_robot_pose c rid pos heading at_ms))"
| "fleet_step cx c (snd (update_robot_progress c rid node edge tick))"
| "fleet_step cx c (snd (assign_route_plan c rid p horizon tick))"
| "fleet_step cx c (snd (update_robot_claim_state c rid pending leases tick'))"
| "fleet_step cx c (snd (release_behind_progress c rid))"
| "schedule_robot_route c rid cid start u mode = Some (d, c') \<Longrightarrow> fleet_step cx c c'"
| "fleet_step cx c (snd (refresh_robot_leases c rid tick extension))"
| "fleet_step cx c (snd (revoke_robot_leases c rid why tick))"
| "fleet_step cx c (snd (handle_missed_schedule_slot c rid tick grace))"
| "fleet_step cx c (c\<lparr>co_claims := m\<rparr>)"
| "(\<And>s. rs_robot_id (f s) = rs_robot_id s) \<Longrightarrow> fleet_step cx c (snd (update_robot c rid f))"

text \<open>
  A coordinator starts empty, or from the snapshot of one that was reached before.
\<close>

inductive fleet_reach :: "crypto \<Rightarrow> coordinator \<Rightarrow> bool" for cx where
  boot: "fleet_reach cx (co_default pepper cfg)"
| boot_index: "fleet_reach cx (co_with_index pepper cfg ix)"
| call: "fleet_reach cx c \<Longrightarrow> fleet_step cx c c' \<Longrightarrow> fleet_reach cx c'"
| restored: "fleet_reach cx c \<Longrightarrow> fleet_reach cx (restore pepper cfg (snapshot c) oix)"

lemma update_robot_fields [simp]:
  "co_keys (snd (update_robot c rid f)) = co_keys c"
  "co_uuids (snd (update_robot c rid f)) = co_uuids c"
  "co_claims (snd (update_robot c rid f)) = co_claims c"
  by (simp_all add: update_robot_def)

lemma same_roster_refl [simp]: "same_roster c c"
  by (simp add: same_roster_def)


lemma same_roster_trans: "same_roster a b \<Longrightarrow> same_roster b c \<Longrightarrow> same_roster a c"
  by (simp add: same_roster_def)

lemma quiet_updates:
  "same_roster c (snd (update_robot_pose c rid pos heading at_ms))"
  "same_roster c (snd (update_robot_progress c rid node edge tick))"
  "same_roster c (snd (assign_route_plan c rid p horizon tick))"
  "same_roster c (snd (update_robot_claim_state c rid pending leases tick'))"
  "same_roster c (snd (refresh_robot_leases c rid tick extension))"
  "same_roster c (snd (revoke_robot_leases c rid why tick))"
  "same_roster c (snd (handle_missed_schedule_slot c rid tick grace))"
  by (simp_all add: same_roster_def robot_ids_def update_robot_pose_def update_robot_progress_def
      assign_route_plan_def update_robot_claim_state_def refresh_robot_leases_def
      revoke_robot_leases_def handle_missed_schedule_slot_def Let_def pose.ids_update
      report.ids_update plan.ids_update claims.ids_update losing.ids_update missing.ids_update
      claimed.ids_update replanned.ids_update split: option.split prod.split)

lemma quiet_edit:
  "(\<And>s. rs_robot_id (f s) = rs_robot_id s) \<Longrightarrow> same_roster c (snd (update_robot c rid f))"
  by (simp add: same_roster_def robot_ids_def update_robot_def map_key_update_first)

lemma quiet_restore: "same_roster c (restore pepper cfg (snapshot c) oix)"
  by (simp add: same_roster_def robot_ids_def restore_def snapshot_def)

lemma quiet_schedule: "schedule_robot_route c rid cid start u mode = Some (d, c') \<Longrightarrow> same_roster c c'"
  by (auto simp: schedule_robot_route_def same_roster_def robot_ids_def schedule.ids_update Let_def
      split: option.splits)

lemma release_targets_id:
  "release_targets_behind_progress s m = (n, s', m') \<Longrightarrow> rs_robot_id s' = rs_robot_id s"
  by (auto simp: release_targets_behind_progress_def Let_def split: option.splits prod.splits)

lemma map_update_same: "k x = k (xs ! i) \<Longrightarrow> map k (xs[i := x]) = map k xs"
  by (metis list_update_id map_update)

lemma quiet_release: "same_roster c (snd (release_behind_progress c rid))"
proof (cases "position (is_robot rid) (co_robots c)")
  case (Some pos)
  obtain n s m where r: "release_targets_behind_progress (co_robots c ! pos) (co_claims c) = (n, s, m)"
    by (metis prod_cases3)
  let ?s = "if 0 < n \<and> rs_progress_state s = FollowingRoute
            then s\<lparr>rs_last_claim_tick := Some (rs_updated_at_tick s)\<rparr> else s"
  have "rs_robot_id ?s = rs_robot_id (co_robots c ! pos)"
    using release_targets_id [OF r] by simp
  then have "map rs_robot_id ((co_robots c)[pos := ?s]) = map rs_robot_id (co_robots c)"
    by (rule map_update_same)
  with Some r show ?thesis
    by (simp add: release_behind_progress_def same_roster_def robot_ids_def Let_def)
qed (simp add: release_behind_progress_def)

lemma prove_fields:
  "co_keys (snd (prove_identity cx draw t c rid pk sig)) = co_keys c"
  "co_uuids (snd (prove_identity cx draw t c rid pk sig)) = co_uuids c"
  "co_robots (snd (prove_identity cx draw t c rid pk sig)) = co_robots c"
  by (auto simp: prove_identity_def expire_tokens_def Let_def split: option.split prod.split)

lemma validate_fields:
  "co_keys (snd (validate_key cx t c rid k)) = co_keys c"
  "co_uuids (snd (validate_key cx t c rid k)) = co_uuids c"
  "co_robots (snd (validate_key cx t c rid k)) = co_robots c"
  by (cases k; simp add: validate_key_def try_verify_def clear_failures_def note_failure_def Let_def
      split: option.split prod.split)+

lemma quiet_others:
  "same_roster c (set_alive c rid interval now)"
  "same_roster c (touch_robot c rid now)"
  "same_roster c (snd (expire_claims c now))"
  "same_roster c (snd (sweep_inactive c now))"
  "same_roster c (co_bind_index c ix)"
  "same_roster c (snd (resolve_or_mint_robot_id cx c raw))"
  "same_roster c (set_provisioned_robots c allowed)"
  "same_roster c (set_kdf_params c params)"
  "same_roster c (snd (issue_challenge draw t c rid))"
  "same_roster c (snd (prove_identity cx draw t c rid pk sig))"
  "same_roster c (snd (validate_key cx t c rid k))"
  "same_roster c (c\<lparr>co_claims := m\<rparr>)"
  by (simp_all add: same_roster_def robot_ids_def set_alive_def touch_robot_def expire_claims_def
      sweep_inactive_def co_bind_index_def resolve_or_mint_robot_id_def set_provisioned_robots_def
      set_kdf_params_def issue_challenge_def prove_fields validate_fields Let_def
      split: option.split prod.split)

section \<open>Registering and unregistering keep the roster\<close>

lemma snd_bt_insert: "snd ` set (bt_insert k v m) \<subseteq> insert v (snd ` set m)"
  using set_bt_insert [of k v m] by force

lemma distinct_snd_bt_insert:
  "distinct (map snd m) \<Longrightarrow> v \<notin> snd ` set m \<Longrightarrow> distinct (map snd (bt_insert k v m))"
proof (induction k v m rule: bt_insert.induct)
  case (2 k v k' v' m)
  have "v' \<notin> snd ` set (bt_insert k v m)"
    using 2(2,3) snd_bt_insert [of k v m] by auto
  with 2 show ?case by auto
qed simp

lemma roster_register:
  assumes "roster_ok c"
  shows "roster_ok (snd (register_with_verifier cx salt t c rid k cost))"
proof -
  show ?thesis
  proof (cases "registration_refusal c rid = None \<and> registration_verifier cx salt t c k cost \<noteq> None")
    case False
    then have "same_roster c (snd (register_with_verifier cx salt t c rid k cost))"
      by (auto simp: register_cases same_roster_def drop_pending_def robot_ids_def split: option.split)
    with assms show ?thesis by (rule roster_frame)
  next
    case True
    then obtain v where v: "registration_refusal c rid = None" "registration_verifier cx salt t c k cost = Some v"
      by auto
    let ?c = "c\<lparr>co_robots := co_robots c @ [robot_default\<lparr>rs_robot_id := rid\<rparr>],
                co_keys := bt_insert rid v (co_keys c),
                co_verified := (if is_token k then co_verified c
                                else bt_insert rid (fingerprint cx c k) (co_verified c))\<rparr>"
    have new: "rid \<notin> set (robot_ids c)"
      using v(1) by (auto simp: registration_refusal_def find_robot_ids split: if_splits)
    have ids: "robot_ids ?c = robot_ids c @ [rid]" by (simp add: robot_ids_def)
    have un: "rid \<notin> snd ` set (co_uuids c)" using new assms by (auto simp: roster_ok_def)
    have "roster_ok ?c"
      using assms new by (auto simp: roster_ok_def ids fst_bt_insert)
    moreover have "roster_ok (?c\<lparr>co_pending := bt_remove rid (co_pending c), co_uuids := bt_insert canon rid (co_uuids c)\<rparr>)" for canon
    proof -
      have "snd ` set (bt_insert canon rid (co_uuids c)) \<subseteq> insert rid (set (robot_ids c))"
        using snd_bt_insert [of canon rid "co_uuids c"] assms unfolding roster_ok_def by blast
      moreover have "distinct (map snd (bt_insert canon rid (co_uuids c)))"
        using assms un by (intro distinct_snd_bt_insert) (auto simp: roster_ok_def)
      ultimately show ?thesis
        using \<open>roster_ok ?c\<close> by (simp add: roster_ok_def robot_ids_def)
    qed
    ultimately show ?thesis
      by (auto simp: register_cases v commit_binding_def split: option.split)
  qed
qed

lemma roster_more:
  assumes "roster_ok c" "co_keys c' = co_keys c" "co_uuids c' = co_uuids c"
    and "distinct (robot_ids c')" "set (robot_ids c) \<subseteq> set (robot_ids c')"
  shows "roster_ok c'"
  using assms unfolding roster_ok_def by (simp add: subset_trans [OF _ assms(5)])

lemma roster_register_robot:
  assumes "roster_ok c"
  shows "roster_ok (register_robot c s)"
proof -
  have "is_robot (rs_robot_id s) = (\<lambda>y. rs_robot_id y = rs_robot_id s)"
    by (simp add: is_robot_def fun_eq_iff)
  then have "robot_ids (register_robot c s) =
      (if rs_robot_id s \<in> set (robot_ids c) then robot_ids c else robot_ids c @ [rs_robot_id s])"
    by (simp add: robot_ids_def register_robot_def map_key_replace_or_push)
  then have "distinct (robot_ids (register_robot c s))"
      "set (robot_ids c) \<subseteq> set (robot_ids (register_robot c s))"
    using assms by (simp_all add: roster_ok_def) auto
  then show ?thesis
    by (intro roster_more [OF assms]) (simp_all add: register_robot_def)
qed

lemma unregistered_robots:
  assumes "distinct (robot_ids c)" "position (is_robot rid) (co_robots c) = Some pos"
  shows "take pos (co_robots c) @ drop (Suc pos) (co_robots c) = filter (\<lambda>s. rs_robot_id s \<noteq> rid) (co_robots c)"
  using assms remove_at_key [of rs_robot_id "co_robots c" rid pos]
  by (simp add: robot_ids_def is_robot_def [abs_def])

lemma roster_unregister:
  assumes "roster_ok c"
  shows "roster_ok (snd (unregister_robot c rid))"
proof (cases "position (is_robot rid) (co_robots c)")
  case None
  with assms show ?thesis by (simp add: unregister_robot_def)
next
  case (Some pos)
  have d: "distinct (robot_ids c)" using assms by (simp add: roster_ok_def)
  note rest = unregistered_robots [OF d Some]
  have "distinct (map snd (filter (\<lambda>(_, v). v \<noteq> rid) (co_uuids c)))"
    using assms by (simp add: roster_ok_def distinct_map_filter)
  moreover have "distinct (map rs_robot_id (filter (\<lambda>s. rs_robot_id s \<noteq> rid) (co_robots c)))"
    using d by (simp add: robot_ids_def distinct_map_filter)
  ultimately show ?thesis
    using assms Some
    by (auto simp: unregister_robot_def Let_def roster_ok_def robot_ids_def rest bt_remove_def)
qed

lemma roster_clear: "roster_ok (co_clear c)"
  by (simp add: co_clear_def roster_ok_def robot_ids_def)

lemmas quiet = quiet_others quiet_updates quiet_release quiet_schedule quiet_edit

lemma roster_step: "fleet_step cx c c' \<Longrightarrow> roster_ok c \<Longrightarrow> roster_ok c'"
  by (erule fleet_step.cases)
    (blast intro: roster_clear roster_register roster_register_robot roster_unregister
      roster_frame quiet)+

lemma reach_roster: "fleet_reach cx c \<Longrightarrow> roster_ok c"
proof (induction rule: fleet_reach.induct)
  case (call c c')
  then show ?case by (blast intro: roster_step)
next
  case (restored c)
  then show ?case by (blast intro: roster_frame quiet_restore)
qed (simp_all add: roster_ok_def robot_ids_def co_default_def co_with_index_def)

text \<open>
  C29: in every coordinator reached from an empty one by the public calls and by restoring from its
  own snapshots - edits through \<open>find_robot_state_mut\<close> included, as long as they leave the robot's own
  id alone - no robot is listed twice, every key and every UUID belongs to a listed robot, and no two
  UUIDs stand for the same robot.
\<close>

theorem reachable_roster:
  assumes "fleet_reach cx c"
  shows "roster_ok c"
  using assms by (rule reach_roster)

text \<open>
  The condition on the edits is needed: two robots, and one of them given the other's id through
  \<open>find_robot_state_mut\<close>, and the roster lists that id twice.
\<close>

theorem renaming_breaks_roster:
  "\<not> roster_ok (snd (update_robot
      (register_robot (register_robot (co_default pepper cfg) (robot_default\<lparr>rs_robot_id := 1\<rparr>))
         (robot_default\<lparr>rs_robot_id := 2\<rparr>)) 2 (\<lambda>s. s\<lparr>rs_robot_id := 1\<rparr>)))"
  by (simp add: roster_ok_def robot_ids_def update_robot_def register_robot_def co_default_def
      is_robot_def robot_default_def find_robot_state_def)

section \<open>Unregistering leaves nothing behind\<close>

lemma find_filter_other:
  "r \<noteq> rid \<Longrightarrow> find (\<lambda>s. rs_robot_id s = r) (filter (\<lambda>s. rs_robot_id s \<noteq> rid) xs)
     = find (\<lambda>s. rs_robot_id s = r) xs"
  by (induction xs) auto

lemma remove_requests_spec:
  "cm_requests (snd (remove_requests_for_robot m rid)) = filter (\<lambda>r. cr_robot_id r \<noteq> rid) (cm_requests m)"
  "cm_leases (snd (remove_requests_for_robot m rid)) = cm_leases m"
  "cm_released (snd (remove_requests_for_robot m rid)) = cm_released m"
  by (simp_all add: remove_requests_for_robot_def Let_def)

text \<open>What a coordinator keeps when one robot is taken out of it.\<close>

definition without :: "robot_id \<Rightarrow> coordinator \<Rightarrow> coordinator \<Rightarrow> bool" where
  "without rid c c' =
     (\<not> has_robot c' rid
      \<and> map_of (co_keys c') = (map_of (co_keys c))(rid := None)
      \<and> map_of (co_verified c') = (map_of (co_verified c))(rid := None)
      \<and> map_of (co_failures c') = (map_of (co_failures c))(rid := None)
      \<and> map_of (co_challenges c') = (map_of (co_challenges c))(rid := None)
      \<and> map_of (co_alive c') = (map_of (co_alive c))(rid := None)
      \<and> set (co_tokens c') = {(t, i) \<in> set (co_tokens c). it_robot_id i \<noteq> rid}
      \<and> set (co_uuids c') = {(u, i) \<in> set (co_uuids c). i \<noteq> rid}
      \<and> co_robots c' = filter (\<lambda>s. rs_robot_id s \<noteq> rid) (co_robots c)
      \<and> cm_requests (co_claims c') = filter (\<lambda>r. cr_robot_id r \<noteq> rid) (cm_requests (co_claims c))
      \<and> cm_leases (co_claims c') = filter (\<lambda>l. le_robot_id l \<noteq> rid) (cm_leases (co_claims c)))"

lemma bt_remove_upd: "map_of (bt_remove rid m) = (map_of m)(rid := None)"
  by (rule ext) (simp add: map_of_bt_remove)

text \<open>
  Unregistering a robot that is known takes its state, key, cached proof, failures, challenge,
  tokens, UUID, heartbeat, claims and leases, and nothing of any other robot; an unknown one
  changes nothing.
\<close>

theorem unregister_exact:
  assumes "fleet_reach cx c"
  shows "case unregister_robot c rid of (b, c') \<Rightarrow>
     b = (find_robot_state c rid \<noteq> None) \<and> (if b then without rid c c' else c' = c)"
proof (cases "position (is_robot rid) (co_robots c)")
  case None
  then have "find_robot_state c rid = None"
    by (auto simp: find_robot_state_def find_None_iff position_None is_robot_def)
  with None show ?thesis by (simp add: unregister_robot_def)
next
  case (Some pos)
  have ok: "roster_ok c"
    using assms by (rule reach_roster)
  then have d: "distinct (robot_ids c)" by (simp add: roster_ok_def)
  have "find_robot_state c rid \<noteq> None"
    using position_Some [OF Some] nth_mem unfolding find_robot_state_def find_None_iff is_robot_def by blast
  moreover have "find (\<lambda>s. rs_robot_id s = rid) (filter (\<lambda>s. rs_robot_id s \<noteq> rid) (co_robots c)) = None"
    by (simp add: find_None_iff)
  ultimately show ?thesis
    using Some
    by (auto simp: unregister_robot_def Let_def without_def has_robot_def find_robot_state_def
        unregistered_robots [OF d Some] bt_remove_upd remove_requests_spec release_leases_spec)
qed

section \<open>Sweeping\<close>

definition owns :: "claim_manager \<Rightarrow> robot_id \<Rightarrow> bool" where
  "owns m rid =
     (list_ex (\<lambda>r. cr_robot_id r = rid) (cm_requests m) \<or> list_ex (\<lambda>l. le_robot_id l = rid) (cm_leases m))"

lemma of_nat_pos: "0 < n \<Longrightarrow> n < 2 ^ 64 \<Longrightarrow> (of_nat n :: u64) \<noteq> 0"
  by (simp add: word_of_nat_eq_0_iff nat_dvd_not_less)

lemma length_diff_filter: "length xs - length (filter (\<lambda>x. \<not> p x) xs) = length (filter p xs)"
  using sum_length_filter_compl [of p xs] by simp

lemma free_robot_spec:
  assumes "length (cm_requests m) + length (cm_leases m) < 2 ^ 64"
  shows "\<exists>n m'. free_robot m rid now = (n, m') \<and> (0 < n) = owns m rid
    \<and> cm_requests m' = filter (\<lambda>r. cr_robot_id r \<noteq> rid) (cm_requests m)
    \<and> cm_leases m' = filter (\<lambda>l. le_robot_id l \<noteq> rid) (cm_leases m)"
proof -
  let ?n = "length (filter (\<lambda>r. cr_robot_id r = rid) (cm_requests m))
            + length (filter (\<lambda>l. le_robot_id l = rid) (cm_leases m))"
  have f: "free_robot m rid now = (of_nat ?n, m\<lparr>cm_requests := filter (\<lambda>r. cr_robot_id r \<noteq> rid) (cm_requests m),
      cm_leases := filter (\<lambda>l. le_robot_id l \<noteq> rid) (cm_leases m),
      cm_released := cm_released m @ map (archive_released (Some now)) (filter (\<lambda>l. le_robot_id l = rid) (cm_leases m))\<rparr>)"
    by (simp add: free_robot_def remove_requests_for_robot_def Let_def release_leases_spec
        leases_for_robot_def length_diff_filter)
  have "?n < 2 ^ 64"
    using assms length_filter_le [of "\<lambda>r. cr_robot_id r = rid" "cm_requests m"]
      length_filter_le [of "\<lambda>l. le_robot_id l = rid" "cm_leases m"] by linarith
  then have "(0 < (of_nat ?n :: u64)) = (0 < ?n)"
    using of_nat_pos [of ?n] by (auto simp: word_gt_0)
  also have "\<dots> = owns m rid"
    by (auto simp: owns_def list_ex_iff filter_empty_conv)
  finally show ?thesis using f by auto
qed

lemma owns_filter:
  assumes "cm_requests m' = filter (\<lambda>r. cr_robot_id r \<noteq> x) (cm_requests m)"
    "cm_leases m' = filter (\<lambda>l. le_robot_id l \<noteq> x) (cm_leases m)" "rid \<noteq> x"
  shows "owns m' rid = owns m rid"
  using assms by (auto simp: owns_def list_ex_iff)

lemma sweep_loop_spec:
  assumes "distinct rids" "length (cm_requests m) + length (cm_leases m) < 2 ^ 64"
  shows "\<exists>m'. sweep_loop now rids freed m = (freed @ filter (owns m) rids, m')
    \<and> cm_requests m' = filter (\<lambda>r. cr_robot_id r \<notin> set rids) (cm_requests m)
    \<and> cm_leases m' = filter (\<lambda>l. le_robot_id l \<notin> set rids) (cm_leases m)"
  using assms
proof (induction rids arbitrary: freed m)
  case (Cons rid rids)
  obtain n m1 where f: "free_robot m rid now = (n, m1)" "(0 < n) = owns m rid"
      "cm_requests m1 = filter (\<lambda>r. cr_robot_id r \<noteq> rid) (cm_requests m)"
      "cm_leases m1 = filter (\<lambda>l. le_robot_id l \<noteq> rid) (cm_leases m)"
    using free_robot_spec [OF Cons.prems(2), of rid now] by blast
  have len: "length (cm_requests m1) + length (cm_leases m1) < 2 ^ 64"
    using Cons.prems(2) length_filter_le [of "\<lambda>r. cr_robot_id r \<noteq> rid" "cm_requests m"]
      length_filter_le [of "\<lambda>l. le_robot_id l \<noteq> rid" "cm_leases m"] unfolding f(3,4) by linarith
  have own: "filter (owns m1) rids = filter (owns m) rids"
  proof (rule filter_cong [OF refl])
    fix x assume "x \<in> set rids"
    with Cons.prems(1) have "x \<noteq> rid" by auto
    then show "owns m1 x = owns m x" by (rule owns_filter [OF f(3,4)])
  qed
  obtain m' where ih: "sweep_loop now rids (if 0 < n then freed @ [rid] else freed) m1
        = ((if 0 < n then freed @ [rid] else freed) @ filter (owns m1) rids, m')"
      "cm_requests m' = filter (\<lambda>r. cr_robot_id r \<notin> set rids) (cm_requests m1)"
      "cm_leases m' = filter (\<lambda>l. le_robot_id l \<notin> set rids) (cm_leases m1)"
    using Cons.IH [OF _ len] Cons.prems(1) by (meson distinct.simps(2))
  show ?case
  proof (intro exI conjI)
    show "sweep_loop now (rid # rids) freed m = (freed @ filter (owns m) (rid # rids), m')"
      using ih(1) f(2) by (simp add: f(1) own)
    show "cm_requests m' = filter (\<lambda>r. cr_robot_id r \<notin> set (rid # rids)) (cm_requests m)"
      by (auto simp: ih(2) f(3) intro: filter_cong)
    show "cm_leases m' = filter (\<lambda>l. le_robot_id l \<notin> set (rid # rids)) (cm_leases m)"
      by (auto simp: ih(3) f(4) intro: filter_cong)
  qed
qed simp

text \<open>
  A sweep drops exactly the claims and leases of the robots whose heartbeat is overdue, reports
  exactly those of them that held any, and changes nothing else.
\<close>

theorem sweep_exact:
  assumes "distinct (map fst (co_alive c))"
    and "length (cm_requests (co_claims c)) + length (cm_leases (co_claims c)) < 2 ^ 64"
  shows "let late = inactive_robots_at c now; (freed, c') = sweep_inactive c now in
     freed = filter (owns (co_claims c)) late
     \<and> cm_requests (co_claims c') = filter (\<lambda>r. cr_robot_id r \<notin> set late) (cm_requests (co_claims c))
     \<and> cm_leases (co_claims c') = filter (\<lambda>l. le_robot_id l \<notin> set late) (cm_leases (co_claims c))
     \<and> c'\<lparr>co_claims := co_claims c\<rparr> = c
     \<and> (\<forall>rid. rid \<in> set late = (\<not> robot_active_at c rid now))"
proof -
  have d: "distinct (inactive_robots_at c now)"
    using assms(1) by (simp add: inactive_robots_at_def distinct_map_filter)
  obtain m' where m': "sweep_loop now (inactive_robots_at c now) [] (co_claims c)
        = ([] @ filter (owns (co_claims c)) (inactive_robots_at c now), m')"
      "cm_requests m' = filter (\<lambda>r. cr_robot_id r \<notin> set (inactive_robots_at c now)) (cm_requests (co_claims c))"
      "cm_leases m' = filter (\<lambda>l. le_robot_id l \<notin> set (inactive_robots_at c now)) (cm_leases (co_claims c))"
    using sweep_loop_spec [OF d assms(2), of now "[]"] by blast
  have "rid \<in> set (inactive_robots_at c now) \<longleftrightarrow> \<not> robot_active_at c rid now" for rid
  proof -
    have "rid \<in> set (inactive_robots_at c now) \<longleftrightarrow> (\<exists>a. (rid, a) \<in> set (co_alive c) \<and> is_late a now)"
      by (auto simp: inactive_robots_at_def image_iff)
    also have "\<dots> \<longleftrightarrow> (\<exists>a. map_of (co_alive c) rid = Some a \<and> is_late a now)"
      using assms(1) by (simp add: map_of_eq_Some_iff)
    also have "\<dots> \<longleftrightarrow> \<not> robot_active_at c rid now"
      by (auto simp: robot_active_at_def is_late_def not_le split: option.split)
    finally show ?thesis .
  qed
  with m' show ?thesis by (simp add: sweep_inactive_def Let_def)
qed

section \<open>Examples\<close>

text \<open>Robot 7, registered with a heartbeat every two seconds, and holding a claim.\<close>

definition demo_fleet :: coordinator where
  "demo_fleet = (set_alive demo_password 7 0 0)
     \<lparr>co_claims := cm_new\<lparr>cm_requests := [request_default\<lparr>cr_id := 1, cr_robot_id := 7\<rparr>]\<rparr>\<rparr>"

lemma demo_fleet_reach: "fleet_reach demo_crypto demo_password"
  unfolding demo_password_def demo_start_def
  by (blast intro: fleet_reach.intros fleet_step.intros)

theorem reachable_roster_witness: "roster_ok demo_password \<and> robot_ids demo_password = [7]"
  using reachable_roster [OF demo_fleet_reach]
  by (simp add: robot_ids_def demo_password_eq robot_default_def)

theorem unregister_exact_witness:
  "\<exists>c'. unregister_robot demo_password 7 = (True, c') \<and> without 7 demo_password c'"
proof -
  have "find_robot_state demo_password 7 \<noteq> None"
    by (simp add: find_robot_state_def demo_password_eq robot_default_def)
  with unregister_exact [OF demo_fleet_reach, of 7] show ?thesis
    by (auto split: prod.splits if_splits)
qed

theorem sweep_exact_witness:
  "case sweep_inactive demo_fleet 5000 of
     (freed, c') \<Rightarrow> freed = [7] \<and> cm_requests (co_claims c') = []"
proof -
  have al: "co_alive demo_fleet = [(7, \<lparr>ai_interval_secs = 2, ai_last_seen_ms = 0\<rparr>)]"
    by (simp add: demo_fleet_def set_alive_def demo_password_eq demo_start_def co_default_def
        default_alive_secs_def)
  have cl: "co_claims demo_fleet = cm_new\<lparr>cm_requests := [request_default\<lparr>cr_id := 1, cr_robot_id := 7\<rparr>]\<rparr>"
    by (simp add: demo_fleet_def)
  have late: "inactive_robots_at demo_fleet 5000 = [7]"
    by (simp add: inactive_robots_at_def al is_late_def sat_mul_def sat_sub_def)
  have "distinct (map fst (co_alive demo_fleet))"
    "length (cm_requests (co_claims demo_fleet)) + length (cm_leases (co_claims demo_fleet)) < 2 ^ 64"
    by (simp_all add: al cl cm_new_def)
  from sweep_exact [OF this, of 5000] show ?thesis
    by (auto simp: late Let_def cl owns_def cm_new_def request_default_def split: prod.splits)
qed

end
