(* ===== verification/Search.thy ===== *)
theory Search
  imports Route
begin

text \<open>
  Correctness of the search of \<open>route.rs\<close>. Whatever the weights (NaN included), a search finds the
  goal exactly when an open route leads there, and the predecessors it leaves spell one. When the
  weights are nonnegative doubles, the distance found is the least that floating-point addition along
  any open route gives.
\<close>

section \<open>Open routes\<close>

definition open_step :: "index \<Rightarrow> (uuid \<Rightarrow> bool) \<Rightarrow> uuid \<Rightarrow> uuid \<Rightarrow> bool" where
  "open_step ix skip_edge a b =
     list_ex (\<lambda>nb. tn_node_id nb = b \<and> \<not> skip_edge (tn_edge_id nb)) (neighbors_of ix a)"

definition open_rel :: "index \<Rightarrow> (uuid \<Rightarrow> bool) \<Rightarrow> (uuid \<times> uuid) set" where
  "open_rel ix skip_edge = {(a, b). open_step ix skip_edge a b}"

lemma open_rel_iff [simp]: "(a, b) \<in> open_rel ix skip \<longleftrightarrow> open_step ix skip a b"
  by (simp add: open_rel_def)

text \<open>A route: distinct nodes from the start to the goal, each one open step from the one before.\<close>

fun open_steps :: "index \<Rightarrow> (uuid \<Rightarrow> bool) \<Rightarrow> uuid list \<Rightarrow> bool" where
  "open_steps ix skip_edge (a # b # ns) = (open_step ix skip_edge a b \<and> open_steps ix skip_edge (b # ns))"
| "open_steps ix skip_edge _ = True"

definition open_route :: "index \<Rightarrow> (uuid \<Rightarrow> bool) \<Rightarrow> uuid \<Rightarrow> uuid \<Rightarrow> uuid list \<Rightarrow> bool" where
  "open_route ix skip_edge start goal ns =
     (ns \<noteq> [] \<and> hd ns = start \<and> last ns = goal \<and> distinct ns \<and> open_steps ix skip_edge ns)"

lemma open_steps_snoc:
  "ns \<noteq> [] \<Longrightarrow> open_steps ix skip (ns @ [n]) \<longleftrightarrow> open_steps ix skip ns \<and> open_step ix skip (last ns) n"
  by (induction ns rule: induct_list012) auto

lemma open_steps_reach:
  "open_steps ix skip ns \<Longrightarrow> ns \<noteq> [] \<Longrightarrow> (hd ns, last ns) \<in> (open_rel ix skip)\<^sup>*"
  by (induction ns rule: induct_list012) (auto intro: converse_rtrancl_into_rtrancl)

section \<open>Walking back along the predecessors\<close>

inductive pred_path :: "(uuid \<times> uuid) list \<Rightarrow> uuid \<Rightarrow> uuid list \<Rightarrow> bool" for preds start where
  pred_start: "pred_path preds start [start]"
| pred_step: "pred_path preds start ns \<Longrightarrow> map_of preds n = Some (last ns) \<Longrightarrow> n \<noteq> start
              \<Longrightarrow> pred_path preds start (ns @ [n])"

lemma pred_path_hd: "pred_path preds start ns \<Longrightarrow> ns \<noteq> [] \<and> hd ns = start"
  by (induction rule: pred_path.induct) auto

lemma reconstruct_pred_path:
  "pred_path preds start ns \<Longrightarrow>
     reconstruct_loop preds start (last ns) (acc @ [last ns]) = Some (ns @ rev acc)"
proof (induction arbitrary: acc rule: pred_path.induct)
  case pred_start
  show ?case by (simp add: reconstruct_loop.simps [of preds start start])
next
  case (pred_step ns n)
  then show ?case
    using pred_step.IH [of "acc @ [n]"] by (simp add: reconstruct_loop.simps [of preds start n])
qed

text \<open>Every visited node but the start has its predecessor among the nodes visited before it.\<close>

fun preds_before :: "(uuid \<times> uuid) list \<Rightarrow> uuid \<Rightarrow> uuid list \<Rightarrow> bool" where
  "preds_before preds start [] = True"
| "preds_before preds start (v # vs) =
     ((v \<noteq> start \<longrightarrow> (\<exists>p \<in> set vs. map_of preds v = Some p)) \<and> preds_before preds start vs)"

lemma preds_before_path:
  "preds_before preds start vs \<Longrightarrow> distinct vs \<Longrightarrow> n \<in> set vs \<Longrightarrow>
     \<exists>ns. pred_path preds start ns \<and> last ns = n \<and> distinct ns \<and> set ns \<subseteq> set vs"
proof (induction vs arbitrary: n)
  case (Cons v vs)
  show ?case
  proof (cases "n = v \<and> v \<noteq> start")
    case True
    with Cons.prems(1) obtain p where p: "p \<in> set vs" "map_of preds v = Some p" by auto
    with Cons.IH [of p] Cons.prems obtain ns
      where "pred_path preds start ns" "last ns = p" "distinct ns" "set ns \<subseteq> set vs" by auto
    with True p Cons.prems show ?thesis
      by (intro exI [of _ "ns @ [v]"]) (auto intro: pred_step)
  next
    case False
    show ?thesis
    proof (cases "n = v")
      case True
      with False show ?thesis by (intro exI [of _ "[start]"]) (auto intro: pred_start)
    next
      case n: False
      with Cons.IH [of n] Cons.prems show ?thesis by auto
    qed
  qed
qed simp

lemma preds_before_cong:
  "(\<And>v. v \<in> set vs \<Longrightarrow> map_of preds v = map_of preds' v) \<Longrightarrow>
     preds_before preds start vs = preds_before preds' start vs"
  by (induction vs) auto

section \<open>The invariant of the search, whatever the weights\<close>

definition reached :: "search_state \<Rightarrow> uuid set" where
  "reached st = fst ` set (sr_distances st)"

lemma reached_iff: "n \<in> reached st \<longleftrightarrow> map_of (sr_distances st) n \<noteq> None"
  by (simp add: reached_def map_of_eq_None_iff)

lemma reached_update [simp]:
  "reached (st\<lparr>sr_distances := AList.update n d (sr_distances st), sr_predecessors := ps\<rparr>) = insert n (reached st)"
  by (auto simp: reached_iff map_of_update split: if_splits)

definition search_ok ::
  "index \<Rightarrow> (uuid \<Rightarrow> bool) \<Rightarrow> uuid \<Rightarrow> uuid list \<Rightarrow> queue_entry list \<times> search_state \<Rightarrow> bool"
where
  "search_ok ix skip_edge start visited fs =
     (let (heap, st) = fs; preds = map_of (sr_predecessors st) in
      distinct visited \<and> set visited \<subseteq> reached st \<and> start \<in> reached st
      \<and> qe_node_id ` set heap \<subseteq> reached st
      \<and> reached st \<subseteq> set visited \<union> qe_node_id ` set heap
      \<and> (\<forall>n \<in> reached st. n \<noteq> start \<longrightarrow> (\<exists>p \<in> set visited. preds n = Some p \<and> open_step ix skip_edge p n))
      \<and> preds_before (sr_predecessors st) start visited)"

lemma set_heap_push [simp]: "set (heap_push le x h) = insert x (set h)"
  using bh.push_mem_iff [of _ le x h] by auto

lemma set_heap_pop: "heap_pop le h = Some (x, h') \<Longrightarrow> set h = insert x (set h')"
  using bh.pop_mem_iff [of le h x h'] by auto

lemma relax_cases:
  obtains (skipped) "relax skip extra cur visited fs nb = fs"
      "tn_node_id nb \<in> set visited \<or> skip (tn_edge_id nb)"
  | (worse) prev where "relax skip extra cur visited fs nb = fs"
      "map_of (sr_distances (snd fs)) (tn_node_id nb) = Some prev"
      "\<not> f64_lt (f64_add (f64_add (qe_distance cur) (tn_weight nb)) (extra (tn_edge_id nb))) prev"
  | (push) d where
      "relax skip extra cur visited fs nb =
         (heap_push entry_le \<lparr>qe_node_id = tn_node_id nb, qe_distance = d\<rparr> (fst fs),
          (snd fs)\<lparr>sr_distances := AList.update (tn_node_id nb) d (sr_distances (snd fs)),
                   sr_predecessors := AList.update (tn_node_id nb) (qe_node_id cur) (sr_predecessors (snd fs))\<rparr>)"
      "tn_node_id nb \<notin> set visited" "\<not> skip (tn_edge_id nb)"
      "d = f64_add (f64_add (qe_distance cur) (tn_weight nb)) (extra (tn_edge_id nb))"
      "\<And>prev. map_of (sr_distances (snd fs)) (tn_node_id nb) = Some prev \<Longrightarrow> f64_lt d prev"
proof -
  obtain heap st where fs: "fs = (heap, st)" by force
  let ?d = "f64_add (f64_add (qe_distance cur) (tn_weight nb)) (extra (tn_edge_id nb))"
  consider "tn_node_id nb \<in> set visited \<or> skip (tn_edge_id nb)"
    | prev where "\<not> (tn_node_id nb \<in> set visited \<or> skip (tn_edge_id nb))"
        "map_of (sr_distances st) (tn_node_id nb) = Some prev" "\<not> f64_lt ?d prev"
    | "\<not> (tn_node_id nb \<in> set visited \<or> skip (tn_edge_id nb))"
        "\<And>prev. map_of (sr_distances st) (tn_node_id nb) = Some prev \<Longrightarrow> f64_lt ?d prev"
    by blast
  then show ?thesis
  proof cases
    case 1
    show ?thesis by (rule skipped [OF _ 1]) (use 1 in \<open>auto simp: relax_def fs\<close>)
  next
    case 2
    show ?thesis by (rule worse [of prev]) (use 2 in \<open>auto simp: relax_def fs Let_def\<close>)
  next
    case 3
    have better: "(case map_of (sr_distances st) (tn_node_id nb) of None \<Rightarrow> True
                   | Some prev \<Rightarrow> f64_lt ?d prev) = True"
      using 3(2) by (simp split: option.split)
    show ?thesis
      by (rule push [of ?d]) (use 3 better in \<open>simp_all add: relax_def fs Let_def\<close>)
  qed
qed

lemma relax_ok:
  assumes ok: "search_ok ix skip start (qe_node_id cur # vs) fs"
    and nb: "nb \<in> set (neighbors_of ix (qe_node_id cur))"
  shows "search_ok ix skip start (qe_node_id cur # vs) (relax skip extra cur (qe_node_id cur # vs) fs nb)"
proof (rule relax_cases [of skip extra cur "qe_node_id cur # vs" fs nb], goal_cases)
  case (3 d)
  note push = 3
  obtain heap st where fs: "fs = (heap, st)" by force
  let ?n = "tn_node_id nb"
  have step: "open_step ix skip (qe_node_id cur) ?n"
    using nb push(3) by (auto simp: open_step_def list_ex_iff)
  have pb: "preds_before (AList.update ?n (qe_node_id cur) (sr_predecessors st)) start (qe_node_id cur # vs)
            = preds_before (sr_predecessors st) start (qe_node_id cur # vs)"
    using push(2) by (intro preds_before_cong) (auto simp: map_of_update)
  show ?thesis
    using ok step push(2) pb unfolding push(1)
    by (auto simp: search_ok_def fs Let_def map_of_update)
qed (use ok in simp_all)

lemma relax_reached:
  "tn_node_id nb \<in> set visited \<longrightarrow> tn_node_id nb \<in> reached (snd fs) \<Longrightarrow>
     reached (snd fs) \<subseteq> reached (snd (relax skip extra cur visited fs nb))
     \<and> (\<not> skip (tn_edge_id nb) \<longrightarrow> tn_node_id nb \<in> reached (snd (relax skip extra cur visited fs nb)))"
  by (rule relax_cases [of skip extra cur visited fs nb]) (auto simp: reached_iff)

lemma search_ok_visited: "search_ok ix skip start visited fs \<Longrightarrow> set visited \<subseteq> reached (snd fs)"
  by (auto simp: search_ok_def Let_def split: prod.splits)

lemma relax_fold_ok:
  "search_ok ix skip start (qe_node_id cur # vs) fs \<Longrightarrow>
   set nbs \<subseteq> set (neighbors_of ix (qe_node_id cur)) \<Longrightarrow>
     search_ok ix skip start (qe_node_id cur # vs) (foldl (relax skip extra cur (qe_node_id cur # vs)) fs nbs)
     \<and> reached (snd fs) \<subseteq> reached (snd (foldl (relax skip extra cur (qe_node_id cur # vs)) fs nbs))
     \<and> (\<forall>nb \<in> set nbs. \<not> skip (tn_edge_id nb) \<longrightarrow>
          tn_node_id nb \<in> reached (snd (foldl (relax skip extra cur (qe_node_id cur # vs)) fs nbs)))"
proof (induction nbs arbitrary: fs)
  case (Cons nb nbs)
  let ?r = "relax skip extra cur (qe_node_id cur # vs) fs nb"
  have ok: "search_ok ix skip start (qe_node_id cur # vs) ?r"
    using relax_ok Cons.prems by simp
  have "tn_node_id nb \<in> set (qe_node_id cur # vs) \<longrightarrow> tn_node_id nb \<in> reached (snd fs)"
    using search_ok_visited [OF Cons.prems(1)] by auto
  note grow = relax_reached [OF this, of skip extra cur]
  show ?case
    using Cons.IH [OF ok] Cons.prems(2) grow by auto
qed simp

lemma visit_ok:
  assumes "search_ok ix skip start visited (heap, st)" "heap_pop entry_le heap = Some (cur, heap')"
    and "qe_node_id cur \<notin> set visited"
  shows "search_ok ix skip start (qe_node_id cur # visited) (heap', st)"
  using assms by (auto simp: search_ok_def Let_def dest!: set_heap_pop)

lemma drop_ok:
  assumes "search_ok ix skip start visited (heap, st)" "heap_pop entry_le heap = Some (cur, heap')"
    and "qe_node_id cur \<in> set visited"
  shows "search_ok ix skip start visited (heap', st)"
  using assms by (auto simp: search_ok_def Let_def dest!: set_heap_pop)

lemma pred_path_open:
  assumes "pred_path preds start ns"
    and "\<And>n. n \<in> set ns \<Longrightarrow> n \<noteq> start \<Longrightarrow> \<exists>p. map_of preds n = Some p \<and> open_step ix skip p n"
  shows "open_steps ix skip ns"
  using assms
proof (induction rule: pred_path.induct)
  case (pred_step ns n)
  have "ns \<noteq> []" using pred_path_hd [OF pred_step(1)] by simp
  moreover have "open_step ix skip (last ns) n"
    using pred_step(2,3) pred_step(5) [of n] by auto
  moreover have "open_steps ix skip ns" using pred_step by simp
  ultimately show ?case by (simp add: open_steps_snoc)
qed simp

definition search_answer ::
  "index \<Rightarrow> (uuid \<Rightarrow> bool) \<Rightarrow> uuid \<Rightarrow> uuid \<Rightarrow> search_state \<Rightarrow> bool"
where
  "search_answer ix skip_edge start goal st =
     (if sr_found st
      then \<exists>ns. open_route ix skip_edge start goal ns
             \<and> reconstruct_loop (sr_predecessors st) start goal [goal] = Some ns
      else start \<in> reached st \<and> goal \<notin> reached st
           \<and> (\<forall>a \<in> reached st. \<forall>b. open_step ix skip_edge a b \<longrightarrow> b \<in> reached st))"

definition closed_under :: "index \<Rightarrow> (uuid \<Rightarrow> bool) \<Rightarrow> uuid list \<Rightarrow> search_state \<Rightarrow> bool" where
  "closed_under ix skip_edge visited st =
     (\<forall>a \<in> set visited. \<forall>b. open_step ix skip_edge a b \<longrightarrow> b \<in> reached st)"

lemma found_answer:
  assumes ok: "search_ok ix skip start visited (heap, st)" and goal: "goal \<in> set visited"
  shows "search_answer ix skip start goal (st\<lparr>sr_found := True, sr_distance := d\<rparr>)"
proof -
  have "preds_before (sr_predecessors st) start visited" "distinct visited"
    using ok by (simp_all add: search_ok_def Let_def)
  from preds_before_path [OF this goal] obtain ns where
    ns: "pred_path (sr_predecessors st) start ns" "last ns = goal" "distinct ns" "set ns \<subseteq> set visited"
    by blast
  have "open_steps ix skip ns"
  proof (rule pred_path_open [OF ns(1)])
    fix n assume "n \<in> set ns" "n \<noteq> start"
    moreover from this have "n \<in> reached st" using ns(4) search_ok_visited [OF ok] by auto
    ultimately show "\<exists>p. map_of (sr_predecessors st) n = Some p \<and> open_step ix skip p n"
      using ok by (auto simp: search_ok_def Let_def)
  qed
  then have "open_route ix skip start goal ns"
    using ns pred_path_hd [OF ns(1)] by (simp add: open_route_def)
  moreover have "reconstruct_loop (sr_predecessors st) start goal [goal] = Some ns"
    using reconstruct_pred_path [OF ns(1), of "[]"] ns(2) by simp
  ultimately show ?thesis by (auto simp: search_answer_def)
qed

lemma exhausted_answer:
  assumes ok: "search_ok ix skip start visited ([], st)" and closed: "closed_under ix skip visited st"
    and goal: "goal \<notin> set visited" and "\<not> sr_found st"
  shows "search_answer ix skip start goal st"
proof -
  have reach: "reached st = set visited" "start \<in> set visited"
    using ok by (auto simp: search_ok_def Let_def)
  with goal assms(4) closed show ?thesis by (auto simp: search_answer_def closed_under_def)
qed

lemma answer_unreachable:
  assumes "search_answer ix skip start goal st" "\<not> sr_found st"
  shows "(start, goal) \<notin> (open_rel ix skip)\<^sup>*"
proof -
  have "b \<in> reached st" if "(start, b) \<in> (open_rel ix skip)\<^sup>*" for b
    using that assms by induction (auto simp: search_answer_def)
  with assms show ?thesis by (auto simp: search_answer_def)
qed

lemma relax_found: "sr_found (snd (relax skip extra cur visited fs nb)) = sr_found (snd fs)"
  by (rule relax_cases [of skip extra cur visited fs nb]) simp_all

lemma relax_fold_found: "sr_found (snd (foldl (relax skip extra cur visited) fs nbs)) = sr_found (snd fs)"
  by (induction nbs arbitrary: fs) (simp_all add: relax_found)

lemma search_loop_answer:
  "\<lbrakk> search_ok ix skip start visited (heap, st); closed_under ix skip visited st;
     goal \<notin> set visited; \<not> sr_found st \<rbrakk>
   \<Longrightarrow> search_answer ix skip start goal (search_loop ix goal skip extra heap visited st)"
proof (induction ix goal skip extra heap visited st rule: search_loop.induct)
  case (1 ix goal skip extra heap visited st)
  show ?case
  proof (cases "heap_pop entry_le heap")
    case None
    then have "heap = []" by (simp add: bh.pop_None)
    with 1 None exhausted_answer show ?thesis
      unfolding search_loop.simps [of ix goal skip extra heap visited st] by simp
  next
    case (Some ch)
    obtain cur heap' where pop: "heap_pop entry_le heap = Some (cur, heap')"
      using Some by (cases ch) auto
    note unfold = search_loop.simps [of ix goal skip extra heap]
    let ?v = "qe_node_id cur # visited"
    let ?fs = "foldl (relax skip extra cur ?v) (heap', st) (neighbors_of ix (qe_node_id cur))"
    consider (dup) "qe_node_id cur \<in> set visited" | (goal) "qe_node_id cur \<notin> set visited" "qe_node_id cur = goal"
      | (expand) "qe_node_id cur \<notin> set visited" "qe_node_id cur \<noteq> goal" by blast
    then show ?thesis
    proof cases
      case dup
      with 1(1) [OF pop refl] 1(3-) drop_ok [OF 1(3) pop] pop show ?thesis
        by (simp add: unfold)
    next
      case goal
      with pop found_answer [OF visit_ok [OF 1(3) pop], of goal] show ?thesis
        by (simp add: unfold)
    next
      case expand
      obtain h2 st2 where fs: "?fs = (h2, st2)" by force
      note ok = visit_ok [OF 1(3) pop expand(1)]
      note fold = relax_fold_ok [OF ok order_refl, of extra, unfolded fs]
      have "closed_under ix skip ?v st2"
        using fold 1(4) by (fastforce simp: closed_under_def open_step_def list_ex_iff)
      moreover have "\<not> sr_found st2"
        using relax_fold_found [of skip extra cur ?v "(heap', st)" "neighbors_of ix (qe_node_id cur)"]
          fs 1(6) by simp
      ultimately show ?thesis
        using 1(2) [OF pop refl expand(1) refl expand(2) refl] fold expand 1(5) pop
        by (simp add: unfold fs)
    qed
  qed
qed

lemma dijkstra_answer:
  "search_answer ix skip start goal (dijkstra_inner ix start goal skip extra)
   \<or> (ix_node ix start = None \<or> ix_node ix goal = None)
     \<and> dijkstra_inner ix start goal skip extra = search_default"
proof (cases "ix_node ix start = None \<or> ix_node ix goal = None")
  case False
  show ?thesis
  proof (cases "start = goal")
    case True
    have "reconstruct_loop [] goal goal [goal] = Some [goal]"
      by (simp add: reconstruct_loop.simps)
    with True False show ?thesis
      by (auto simp: dijkstra_inner_def search_answer_def open_route_def search_default_def
          intro!: exI [of _ "[goal]"])
  next
    case ne: False
    let ?h = "heap_push entry_le \<lparr>qe_node_id = start, qe_distance = f64_zero\<rparr> []"
    let ?s = "search_default\<lparr>sr_distances := [(start, f64_zero)]\<rparr>"
    have "search_ok ix skip start [] (?h, ?s)"
      by (simp add: search_ok_def reached_def search_default_def)
    from search_loop_answer [OF this, of goal extra] ne False show ?thesis
      by (simp add: dijkstra_inner_def closed_under_def search_default_def)
  qed
qed (simp add: dijkstra_inner_def)

definition route_exists :: "index \<Rightarrow> (uuid \<Rightarrow> bool) \<Rightarrow> uuid \<Rightarrow> uuid \<Rightarrow> bool" where
  "route_exists ix skip_edge start goal =
     (ix_node ix start \<noteq> None \<and> ix_node ix goal \<noteq> None \<and> (start, goal) \<in> (open_rel ix skip_edge)\<^sup>*)"

lemma search_route:
  "\<exists>ns. reconstruct_route_nodes (dijkstra_inner ix start goal skip extra) start goal = Some ns
        \<and> (if sr_found (dijkstra_inner ix start goal skip extra)
           then route_exists ix skip start goal \<and> open_route ix skip start goal ns
           else \<not> route_exists ix skip start goal \<and> ns = [])"
proof (cases "ix_node ix start = None \<or> ix_node ix goal = None")
  case True
  then have "dijkstra_inner ix start goal skip extra = search_default" "\<not> route_exists ix skip start goal"
    by (auto simp: dijkstra_inner_def route_exists_def)
  then show ?thesis by (simp add: search_default_def reconstruct_route_nodes_def)
next
  case False
  with dijkstra_answer [of ix skip start goal extra]
  have ans: "search_answer ix skip start goal (dijkstra_inner ix start goal skip extra)" by auto
  show ?thesis
  proof (cases "sr_found (dijkstra_inner ix start goal skip extra)")
    case True
    with ans obtain ns where ns: "open_route ix skip start goal ns"
      "reconstruct_loop (sr_predecessors (dijkstra_inner ix start goal skip extra)) start goal [goal] = Some ns"
      by (auto simp: search_answer_def)
    then have "(start, goal) \<in> (open_rel ix skip)\<^sup>*"
      using open_steps_reach by (fastforce simp: open_route_def)
    with ns True False show ?thesis
      by (simp add: reconstruct_route_nodes_def route_exists_def)
  next
    case nf: False
    with answer_unreachable [OF ans] show ?thesis
      by (simp add: reconstruct_route_nodes_def route_exists_def)
  qed
qed

lemma dijkstra_found: "sr_found (dijkstra_inner ix start goal skip extra) = route_exists ix skip start goal"
  using search_route [of ix start goal skip extra] by (auto split: if_splits)

lemma dijkstra_nodes:
  "sr_found (dijkstra_inner ix start goal skip extra) \<Longrightarrow>
     \<exists>ns. open_route ix skip start goal ns
        \<and> reconstruct_route_nodes (dijkstra_inner ix start goal skip extra) start goal = Some ns"
  using search_route [of ix start goal skip extra] by auto

text \<open>
  Whatever the weights and costs, a search finds the goal exactly when both nodes exist and an
  open route (legal directions, no skipped edge) leads from start to goal; and walking back along the
  predecessors it leaves always ends, with an open route that visits no node twice when it found one.
\<close>

theorem search_finds_route:
  "(sr_found (dijkstra_inner ix start goal skip extra) = route_exists ix skip start goal)
   \<and> (\<exists>ns. reconstruct_route_nodes (dijkstra_inner ix start goal skip extra) start goal = Some ns
         \<and> ns \<noteq> [] = route_exists ix skip start goal
         \<and> (if route_exists ix skip start goal then open_route ix skip start goal ns else True))"
  using search_route [of ix start goal skip extra] by (auto simp: open_route_def split: if_splits)

section \<open>Penalties are nonnegative\<close>

lemma f64_recip_nonneg: "f64_pos x \<Longrightarrow> f64_le f64_zero (f64_recip x)"
  by (cases x) (auto simp: f64_pos_def f64_recip_def f64_lt_def rnd_nonneg)

lemma shortfall_nonneg:
  assumes "2 powi (- 10) \<le> c" "c \<le> 1"
  shows "f64_le f64_zero (shortfall c p)"
proof -
  from rnd_small [OF assms] obtain r where r: "rnd c = Fin r" "0 < r" by blast
  have "f64_le f64_zero (f64_mul y (Fin r))" if "f64_le f64_zero y" for y
    using that r(2) by (cases y) (auto simp: signed_inf_def rnd_nonneg)
  with f64_max_nonneg r(1) show ?thesis by (simp add: shortfall_def)
qed

lemma shortfall_tenth: "f64_le f64_zero (shortfall (1 / 10) p)"
  by (rule shortfall_nonneg) (simp_all add: power_int_def power_divide)

lemma shortfall_twentieth: "f64_le f64_zero (shortfall (1 / 20) p)"
  by (rule shortfall_nonneg) (simp_all add: power_int_def power_divide)

lemma add_when_nonneg:
  "f64_le f64_zero p \<Longrightarrow> f64_le f64_zero c \<Longrightarrow> f64_le f64_zero (add_when b c p)"
  by (simp add: add_when_def f64_add_nonneg_result)

lemma add_some_nonneg:
  "f64_le f64_zero p \<Longrightarrow> (\<And>x. ok x \<Longrightarrow> f64_le f64_zero (c x)) \<Longrightarrow> f64_le f64_zero (add_some v ok c p)"
  by (cases v) (auto simp: add_some_def add_when_def f64_add_nonneg_result)

lemma f64_of_u64_pos: "0 < c \<Longrightarrow> f64_pos (f64_of_u64 c)"
proof -
  assume "0 < c"
  then have "(1 :: rat) \<le> of_nat (unat c)" by (metis of_nat_1 of_nat_le_iff Suc_leI One_nat_def unat_gt_0 word_gt_0)
  from rnd_mono [OF this] have "f64_le (Fin 1) (rnd (of_nat (unat c)))" by simp
  then show ?thesis
    by (cases "rnd (of_nat (unat c))") (auto simp: f64_pos_def f64_of_u64_def f64_lt_def)
qed

lemma edge_penalty_nonneg: "f64_le f64_zero (edge_penalty s)"
  unfolding edge_penalty_def Let_def
  by (intro add_some_nonneg add_when_nonneg)
    (simp_all add: f64_max_nonneg f64_recip_nonneg f64_of_u64_pos
      shortfall_tenth)

lemma zone_penalty_nonneg: "f64_le f64_zero p \<Longrightarrow> f64_le f64_zero (zone_penalty p zp)"
  unfolding zone_penalty_def Let_def
  by (intro add_some_nonneg add_when_nonneg)
    (simp_all add: shortfall_twentieth)

lemma zone_penalties_nonneg: "f64_le f64_zero p \<Longrightarrow> f64_le f64_zero (foldl zone_penalty p zs)"
  by (induction zs arbitrary: p) (simp_all add: zone_penalty_nonneg)

lemma penalty_nonneg: "f64_le f64_zero (edge_traversal_penalty ix i)"
  by (simp add: edge_traversal_penalty_def Let_def zone_penalties_nonneg edge_penalty_nonneg
      split: option.split)

section \<open>The least cost\<close>

text \<open>The costs at which a node can be reached along open steps, summed in doubles from the start.\<close>

inductive reach_at ::
  "index \<Rightarrow> (uuid \<Rightarrow> bool) \<Rightarrow> (uuid \<Rightarrow> f64) \<Rightarrow> uuid \<Rightarrow> uuid \<Rightarrow> f64 \<Rightarrow> bool"
for ix skip_edge extra_cost start where
  at_start: "reach_at ix skip_edge extra_cost start start f64_zero"
| along: "\<lbrakk> reach_at ix skip_edge extra_cost start a d; nb \<in> set (neighbors_of ix a);
            \<not> skip_edge (tn_edge_id nb) \<rbrakk>
          \<Longrightarrow> reach_at ix skip_edge extra_cost start (tn_node_id nb)
               (f64_add (f64_add d (tn_weight nb)) (extra_cost (tn_edge_id nb)))"

definition weights_nonneg :: "index \<Rightarrow> bool" where
  "weights_nonneg ix =
     list_all (\<lambda>(n, as). list_all (\<lambda>a. f64_le f64_zero (adj_weight a)) as) (ix_adjacency ix)"

definition costs_ok :: "index \<Rightarrow> (uuid \<Rightarrow> f64) \<Rightarrow> bool" where
  "costs_ok ix extra_cost = (weights_nonneg ix \<and> (\<forall>e. f64_le f64_zero (extra_cost e)))"

lemma neighbor_weight: "weights_nonneg ix \<Longrightarrow> nb \<in> set (neighbors_of ix a) \<Longrightarrow> f64_le f64_zero (tn_weight nb)"
  by (cases "map_of (ix_adjacency ix) a")
    (auto simp: weights_nonneg_def neighbors_of_def neighbors_def lookup_list_def list_all_iff
      dest!: map_of_SomeD bspec [where x = "(a, _)"])

lemma step_cost:
  assumes "costs_ok ix extra" "nb \<in> set (neighbors_of ix a)" "f64_ok d" "f64_le f64_zero d"
  shows "f64_le d (f64_add (f64_add d (tn_weight nb)) (extra (tn_edge_id nb)))"
    and "f64_le f64_zero (f64_add (f64_add d (tn_weight nb)) (extra (tn_edge_id nb)))"
proof -
  have w: "f64_le f64_zero (tn_weight nb)" "f64_le f64_zero (extra (tn_edge_id nb))"
    using assms(1,2) neighbor_weight by (auto simp: costs_ok_def)
  have 1: "f64_le d (f64_add d (tn_weight nb))" by (rule f64_add_nonneg [OF assms(3,4) w(1)])
  with assms(4) have "f64_le f64_zero (f64_add d (tn_weight nb))" by (rule f64_le_trans)
  from f64_add_nonneg [OF f64_add_ok this w(2)] 1
  show "f64_le d (f64_add (f64_add d (tn_weight nb)) (extra (tn_edge_id nb)))"
    by (metis f64_le_trans)
  with assms(4) show "f64_le f64_zero (f64_add (f64_add d (tn_weight nb)) (extra (tn_edge_id nb)))"
    by (rule f64_le_trans)
qed

lemma step_cost_mono:
  assumes "costs_ok ix extra" "nb \<in> set (neighbors_of ix a)" "f64_le f64_zero d" "f64_le d d'"
  shows "f64_le (f64_add (f64_add d (tn_weight nb)) (extra (tn_edge_id nb)))
                (f64_add (f64_add d' (tn_weight nb)) (extra (tn_edge_id nb)))"
proof -
  have w: "f64_le f64_zero (tn_weight nb)" "f64_le f64_zero (extra (tn_edge_id nb))"
    using assms(1,2) neighbor_weight by (auto simp: costs_ok_def)
  show ?thesis
    by (intro f64_add_mono f64_add_nonneg_result assms w)
qed

lemma reach_at_ok:
  "reach_at ix skip extra start n d \<Longrightarrow> costs_ok ix extra \<Longrightarrow> f64_ok d \<and> f64_le f64_zero d"
  by (induction rule: reach_at.induct) (auto dest: step_cost)

text \<open>
  The numeric invariant: every distance is the cost of some walk; every pending node has an entry at
  its distance and none below it; the distances of visited nodes are least.
\<close>

definition dist_of :: "search_state \<Rightarrow> uuid \<Rightarrow> f64 option" where
  "dist_of st n = map_of (sr_distances st) n"

definition costs_inv ::
  "index \<Rightarrow> (uuid \<Rightarrow> bool) \<Rightarrow> (uuid \<Rightarrow> f64) \<Rightarrow> uuid \<Rightarrow> uuid list \<Rightarrow>
   queue_entry list \<times> search_state \<Rightarrow> bool"
where
  "costs_inv ix skip_edge extra_cost start visited fs =
     (let (heap, st) = fs in
      heap_ordered entry_le heap
      \<and> (\<forall>n d. dist_of st n = Some d \<longrightarrow> reach_at ix skip_edge extra_cost start n d)
      \<and> (\<forall>q \<in> set heap. \<exists>d. dist_of st (qe_node_id q) = Some d \<and> f64_le d (qe_distance q))
      \<and> (\<forall>n d. dist_of st n = Some d \<longrightarrow> n \<notin> set visited \<longrightarrow>
            \<lparr>qe_node_id = n, qe_distance = d\<rparr> \<in> set heap)
      \<and> (\<forall>v \<in> set visited. \<exists>d. dist_of st v = Some d
            \<and> (\<forall>d'. reach_at ix skip_edge extra_cost start v d' \<longrightarrow> f64_le d d')))"

definition expanded ::
  "(uuid \<Rightarrow> bool) \<Rightarrow> (uuid \<Rightarrow> f64) \<Rightarrow> search_state \<Rightarrow> uuid \<Rightarrow> traversal_neighbor \<Rightarrow> bool"
where
  "expanded skip_edge extra_cost st v nb =
     (skip_edge (tn_edge_id nb) \<or>
      (\<exists>d d'. dist_of st v = Some d \<and> dist_of st (tn_node_id nb) = Some d'
         \<and> f64_le d' (f64_add (f64_add d (tn_weight nb)) (extra_cost (tn_edge_id nb)))))"

lemma entries_preorder:
  "\<forall>q \<in> S. qe_distance q \<noteq> NaN \<Longrightarrow> preorder_on_set entry_le S"
  unfolding preorder_on_set_def entry_le_def
  by (auto simp: f64_not_lt dest: f64_le_total f64_le_trans)

lemma costs_inv_entries:
  "costs_inv ix skip extra start visited (heap, st) \<Longrightarrow> \<forall>q \<in> set heap. qe_distance q \<noteq> NaN"
  using f64_le_not_nan by (fastforce simp: costs_inv_def)

lemma relax_costs:
  assumes ok: "costs_ok ix extra" and inv: "costs_inv ix skip extra start (v # vs) fs"
    and cur: "v = qe_node_id cur" "dist_of (snd fs) v = Some (qe_distance cur)"
    and nb: "nb \<in> set (neighbors_of ix v)"
  defines "r \<equiv> relax skip extra cur (v # vs) fs nb"
  shows "costs_inv ix skip extra start (v # vs) r" "dist_of (snd r) v = Some (qe_distance cur)"
    and "expanded skip extra (snd r) v nb"
    and "\<And>u nb'. u \<in> set (v # vs) \<Longrightarrow> expanded skip extra (snd fs) u nb' \<Longrightarrow> expanded skip extra (snd r) u nb'"
    and "dist_of (snd fs) start = Some f64_zero \<Longrightarrow> dist_of (snd r) start = Some f64_zero"
proof -
  obtain heap st where fs: "fs = (heap, st)" by force
  let ?c = "f64_add (f64_add (qe_distance cur) (tn_weight nb)) (extra (tn_edge_id nb))"
  have reach: "reach_at ix skip extra start v (qe_distance cur)"
    using inv cur by (auto simp: costs_inv_def fs)
  then have c: "f64_le f64_zero ?c" using reach_at_ok [OF _ ok] step_cost [OF ok nb] by blast
  have "costs_inv ix skip extra start (v # vs) r \<and> dist_of (snd r) v = Some (qe_distance cur)
    \<and> expanded skip extra (snd r) v nb
    \<and> (\<forall>u nb'. u \<in> set (v # vs) \<longrightarrow> expanded skip extra (snd fs) u nb' \<longrightarrow> expanded skip extra (snd r) u nb')
    \<and> (dist_of (snd fs) start = Some f64_zero \<longrightarrow> dist_of (snd r) start = Some f64_zero)"
  proof (rule relax_cases [of skip extra cur "v # vs" fs nb], goal_cases)
    case 1
    have "expanded skip extra st v nb" if "\<not> skip (tn_edge_id nb)"
    proof -
      from that have "reach_at ix skip extra start (tn_node_id nb) ?c"
        using along [OF reach nb] by blast
      moreover have "tn_node_id nb \<in> set (v # vs)" using 1(2) that by simp
      ultimately show ?thesis
        using inv cur by (auto simp: costs_inv_def fs expanded_def)
    qed
    with 1 inv cur show ?case by (auto simp: r_def fs expanded_def)
  next
    case (2 prev)
    have "reach_at ix skip extra start (tn_node_id nb) prev"
      using inv 2(2) by (auto simp: costs_inv_def fs dist_of_def)
    then have "f64_le prev ?c"
      using 2(3) c reach_at_ok [OF _ ok] f64_not_lt f64_le_not_nan by metis
    with 2 inv cur show ?case by (auto simp: r_def fs expanded_def dist_of_def)
  next
    case (3 d)
    let ?n = "tn_node_id nb"
    have d: "d = ?c" using 3(4) .
    have new: "reach_at ix skip extra start ?n d"
      using along [OF reach nb 3(3)] d by simp
    have lower: "f64_le d prev" if "dist_of st ?n = Some prev" for prev
      using 3(5) that by (simp add: f64_lt_def dist_of_def fs)
    have pend: "f64_le d (qe_distance q)" if "q \<in> set heap" "qe_node_id q = ?n" for q
    proof -
      from inv that obtain prev where "dist_of st ?n = Some prev" "f64_le prev (qe_distance q)"
        by (fastforce simp: costs_inv_def fs)
      then show ?thesis using lower by (blast intro: f64_le_trans)
    qed
    have r: "r = (heap_push entry_le \<lparr>qe_node_id = ?n, qe_distance = d\<rparr> heap,
          st\<lparr>sr_distances := AList.update ?n d (sr_distances st),
             sr_predecessors := AList.update ?n (qe_node_id cur) (sr_predecessors st)\<rparr>)"
      using 3(1) by (simp add: r_def fs)
    have dist: "dist_of (snd r) m = (if m = ?n then Some d else dist_of st m)" for m
      by (simp add: r dist_of_def map_of_update)
    have nonan: "d \<noteq> NaN" using f64_le_not_nan [OF c] d by simp
    have "heap_ordered entry_le heap" using inv by (simp add: fs costs_inv_def)
    moreover have "preorder_on_set entry_le (insert \<lparr>qe_node_id = ?n, qe_distance = d\<rparr> (set heap))"
      using nonan costs_inv_entries [of ix skip extra start "v # vs" heap st] inv fs
      by (intro entries_preorder) auto
    ultimately have "heap_ordered entry_le (fst r)"
      using bh.ordered_push by (simp add: r)
    moreover have "set (fst r) = insert \<lparr>qe_node_id = ?n, qe_distance = d\<rparr> (set heap)"
      by (simp add: r)
    ultimately have "costs_inv ix skip extra start (v # vs) (fst r, snd r)"
      using inv new pend nonan 3(2)
      unfolding costs_inv_def Let_def prod.case fs dist
      by auto
    moreover have "expanded skip extra (snd r) v nb"
      using 3(2) cur nonan by (auto simp: expanded_def dist fs d)
    moreover have "expanded skip extra (snd r) u nb'"
      if "u \<in> set (v # vs)" "expanded skip extra (snd fs) u nb'" for u nb'
      using that 3(2) lower unfolding expanded_def dist by (auto simp: fs intro: f64_le_trans)
    moreover have "dist_of (snd r) start = Some f64_zero" if "dist_of st start = Some f64_zero"
      using that 3(5) [of f64_zero] c d dist [of start]
      by (cases "?n = start") (auto simp: fs dist_of_def f64_lt_def)
    ultimately show ?case using cur 3(2) by (auto simp: dist fs)
  qed
  then show "costs_inv ix skip extra start (v # vs) r" "dist_of (snd r) v = Some (qe_distance cur)"
    "expanded skip extra (snd r) v nb"
    "\<And>u nb'. u \<in> set (v # vs) \<Longrightarrow> expanded skip extra (snd fs) u nb' \<Longrightarrow> expanded skip extra (snd r) u nb'"
    "dist_of (snd fs) start = Some f64_zero \<Longrightarrow> dist_of (snd r) start = Some f64_zero"
    by blast+
qed

lemma relax_fold_costs:
  assumes "costs_ok ix extra" "v = qe_node_id cur" "set nbs \<subseteq> set (neighbors_of ix v)"
    and "costs_inv ix skip extra start (v # vs) fs" "dist_of (snd fs) v = Some (qe_distance cur)"
  defines "r \<equiv> foldl (relax skip extra cur (v # vs)) fs nbs"
  shows "costs_inv ix skip extra start (v # vs) r
    \<and> (\<forall>nb \<in> set nbs. expanded skip extra (snd r) v nb)
    \<and> (\<forall>u nb. u \<in> set (v # vs) \<longrightarrow> expanded skip extra (snd fs) u nb \<longrightarrow> expanded skip extra (snd r) u nb)
    \<and> (dist_of (snd fs) start = Some f64_zero \<longrightarrow> dist_of (snd r) start = Some f64_zero)"
  using assms(3-5) unfolding r_def
proof (induction nbs arbitrary: fs)
  case (Cons nb nbs)
  have nb: "nb \<in> set (neighbors_of ix v)" and sub: "set nbs \<subseteq> set (neighbors_of ix v)"
    using Cons.prems(1) by auto
  note step = relax_costs [OF assms(1) Cons.prems(2) assms(2) Cons.prems(3) nb]
  from Cons.IH [OF sub step(1,2)] step(3-5) show ?case
    by auto
qed simp

definition all_expanded ::
  "index \<Rightarrow> (uuid \<Rightarrow> bool) \<Rightarrow> (uuid \<Rightarrow> f64) \<Rightarrow> uuid list \<Rightarrow> search_state \<Rightarrow> bool"
where
  "all_expanded ix skip_edge extra_cost visited st =
     (\<forall>v \<in> set visited. \<forall>nb \<in> set (neighbors_of ix v). expanded skip_edge extra_cost st v nb)"

text \<open>The nearest pending entry is no farther than any walk to a node not yet visited.\<close>

lemma nearest_bounds:
  assumes ok: "costs_ok ix extra" and inv: "costs_inv ix skip extra start visited (heap, st)"
    and exp: "all_expanded ix skip extra visited st" and start: "dist_of st start = Some f64_zero"
    and min: "\<forall>q \<in> set heap. f64_le d (qe_distance q)"
    and reach: "reach_at ix skip extra start n c"
  shows "n \<in> set visited \<or> f64_le d c"
  using reach
proof (induction rule: reach_at.induct)
  case at_start
  with inv start min show ?case
    by (fastforce simp: costs_inv_def)
next
  case (along a c nb)
  show ?case
  proof (cases "a \<in> set visited")
    case True
    with exp along(2,3) obtain da db where ab: "dist_of st a = Some da" "dist_of st (tn_node_id nb) = Some db"
      "f64_le db (f64_add (f64_add da (tn_weight nb)) (extra (tn_edge_id nb)))"
      by (fastforce simp: all_expanded_def expanded_def)
    have "f64_le da c" "f64_le f64_zero da"
      using True inv ab(1) along(1) reach_at_ok [OF _ ok] by (fastforce simp: costs_inv_def)+
    with ab(3) step_cost_mono [OF ok along(2)]
    have db: "f64_le db (f64_add (f64_add c (tn_weight nb)) (extra (tn_edge_id nb)))"
      by (blast intro: f64_le_trans)
    show ?thesis
    proof (cases "tn_node_id nb \<in> set visited")
      case False
      with inv ab(2) have "\<lparr>qe_node_id = tn_node_id nb, qe_distance = db\<rparr> \<in> set heap"
        by (simp add: costs_inv_def)
      with min have "f64_le d db" by fastforce
      with db show ?thesis by (blast intro: f64_le_trans)
    qed simp
  next
    case False
    with along(4) have "f64_le d c" by simp
    with step_cost(1) [OF ok along(2)] reach_at_ok [OF along(1) ok] show ?thesis
      by (blast intro: f64_le_trans)
  qed
qed

lemma visit_costs:
  assumes ok: "costs_ok ix extra" and inv: "costs_inv ix skip extra start visited (heap, st)"
    and exp: "all_expanded ix skip extra visited st" and start: "dist_of st start = Some f64_zero"
    and pop: "heap_pop entry_le heap = Some (cur, heap')" and new: "qe_node_id cur \<notin> set visited"
  shows "costs_inv ix skip extra start (qe_node_id cur # visited) (heap', st)"
    and "dist_of st (qe_node_id cur) = Some (qe_distance cur)"
    and "\<And>c. reach_at ix skip extra start (qe_node_id cur) c \<Longrightarrow> f64_le (qe_distance cur) c"
proof -
  have nonan: "\<forall>q \<in> set heap. qe_distance q \<noteq> NaN" by (rule costs_inv_entries [OF inv])
  note pre = entries_preorder [OF nonan] and heap = set_heap_pop [OF pop]
  have ordered: "heap_ordered entry_le heap" using inv by (simp add: costs_inv_def)
  have min: "\<forall>q \<in> set heap. f64_le (qe_distance cur) (qe_distance q)"
  proof
    fix q assume q: "q \<in> set heap"
    then have "entry_le q cur" using bh.pop_greatest [OF _ ordered pop] pre by simp
    moreover have "qe_distance q \<noteq> NaN" "qe_distance cur \<noteq> NaN" using nonan q heap by auto
    ultimately show "f64_le (qe_distance cur) (qe_distance q)"
      using f64_not_lt by (simp add: entry_le_def)
  qed
  obtain d where d: "dist_of st (qe_node_id cur) = Some d" "f64_le d (qe_distance cur)"
    using inv heap unfolding costs_inv_def Let_def by auto
  have "\<lparr>qe_node_id = qe_node_id cur, qe_distance = d\<rparr> \<in> set heap"
    using inv d(1) new by (simp add: costs_inv_def)
  with min have "f64_le (qe_distance cur) d" by fastforce
  with d(2) have "qe_distance cur = d" by (rule f64_le_antisym [OF _ _, rotated])
  with d(1) show dist: "dist_of st (qe_node_id cur) = Some (qe_distance cur)" by simp
  show least: "f64_le (qe_distance cur) c" if "reach_at ix skip extra start (qe_node_id cur) c" for c
    using nearest_bounds [OF ok inv exp start min that] new by blast
  have "heap_ordered entry_le heap'" using bh.ordered_pop [OF _ ordered pop] pre by simp
  with inv dist least heap show "costs_inv ix skip extra start (qe_node_id cur # visited) (heap', st)"
    unfolding costs_inv_def Let_def prod.case by (auto; fastforce)
qed

lemma drop_costs:
  assumes inv: "costs_inv ix skip extra start visited (heap, st)"
    and pop: "heap_pop entry_le heap = Some (cur, heap')" and "qe_node_id cur \<in> set visited"
  shows "costs_inv ix skip extra start visited (heap', st)"
proof -
  note pre = entries_preorder [OF costs_inv_entries [OF inv]] and heap = set_heap_pop [OF pop]
  have "heap_ordered entry_le heap'"
    using bh.ordered_pop [OF _ _ pop] pre inv by (simp add: costs_inv_def)
  with assms heap show ?thesis
    unfolding costs_inv_def Let_def prod.case by (auto; fastforce)
qed

definition least_distance ::
  "index \<Rightarrow> (uuid \<Rightarrow> bool) \<Rightarrow> (uuid \<Rightarrow> f64) \<Rightarrow> uuid \<Rightarrow> uuid \<Rightarrow> f64 \<Rightarrow> bool"
where
  "least_distance ix skip_edge extra_cost start goal d =
     (reach_at ix skip_edge extra_cost start goal d
      \<and> (\<forall>c. reach_at ix skip_edge extra_cost start goal c \<longrightarrow> f64_le d c))"

lemma search_loop_least:
  "\<lbrakk> costs_ok ix extra; costs_inv ix skip extra start visited (heap, st);
     all_expanded ix skip extra visited st; dist_of st start = Some f64_zero;
     sr_found (search_loop ix goal skip extra heap visited st); \<not> sr_found st \<rbrakk>
   \<Longrightarrow> least_distance ix skip extra start goal
         (sr_distance (search_loop ix goal skip extra heap visited st))"
proof (induction ix goal skip extra heap visited st rule: search_loop.induct)
  case (1 ix goal skip extra heap visited st)
  note unfold = search_loop.simps [of ix goal skip extra heap visited st]
  show ?case
  proof (cases "heap_pop entry_le heap")
    case None
    with 1 show ?thesis by (simp add: unfold)
  next
    case (Some ch)
    obtain cur heap' where pop: "heap_pop entry_le heap = Some (cur, heap')"
      using Some by (cases ch) auto
    let ?v = "qe_node_id cur # visited"
    let ?fs = "foldl (relax skip extra cur ?v) (heap', st) (neighbors_of ix (qe_node_id cur))"
    consider (dup) "qe_node_id cur \<in> set visited" | (goal) "qe_node_id cur \<notin> set visited" "qe_node_id cur = goal"
      | (expand) "qe_node_id cur \<notin> set visited" "qe_node_id cur \<noteq> goal" by blast
    then show ?thesis
    proof cases
      case dup
      with 1(1) [OF pop refl dup] 1(3-) drop_costs [OF 1(4) pop dup] pop show ?thesis
        by (simp add: unfold)
    next
      case goal
      note visit = visit_costs [OF 1(3-6) pop goal(1)]
      have "reach_at ix skip extra start goal (qe_distance cur)"
        using visit(1,2) goal(2) by (simp add: costs_inv_def)
      with visit(3) goal pop show ?thesis by (simp add: unfold least_distance_def)
    next
      case expand
      obtain h2 st2 where fs: "?fs = (h2, st2)" by force
      note visit = visit_costs [OF 1(3-6) pop expand(1)]
      have fold: "costs_inv ix skip extra start ?v (h2, st2)"
        "\<forall>nb \<in> set (neighbors_of ix (qe_node_id cur)). expanded skip extra st2 (qe_node_id cur) nb"
        "\<forall>u nb. u \<in> set ?v \<longrightarrow> expanded skip extra st u nb \<longrightarrow> expanded skip extra st2 u nb"
        "dist_of st2 start = Some f64_zero"
        using relax_fold_costs [OF 1(3) refl order_refl visit(1)] visit(2) 1(6) by (simp_all add: fs)
      have exp: "all_expanded ix skip extra ?v st2"
        using fold(2,3) 1(5) by (simp add: all_expanded_def)
      have "\<not> sr_found st2"
        using relax_fold_found [of skip extra cur ?v "(heap', st)" "neighbors_of ix (qe_node_id cur)"]
          fs 1(8) by simp
      with 1(2) [OF pop refl expand(1) refl expand(2) refl] exp fold(1,4) 1(3,7) expand pop show ?thesis
        by (simp add: unfold fs)
    qed
  qed
qed

lemma dijkstra_least:
  assumes ok: "costs_ok ix extra" and found: "sr_found (dijkstra_inner ix start goal skip extra)"
  shows "least_distance ix skip extra start goal (sr_distance (dijkstra_inner ix start goal skip extra))"
proof (cases "start = goal")
  case True
  have "f64_le f64_zero c" if "reach_at ix skip extra start goal c" for c
    using reach_at_ok [OF that ok] by simp
  with True found at_start show ?thesis
    by (auto simp: dijkstra_inner_def search_default_def least_distance_def)
next
  case False
  let ?h = "heap_push entry_le \<lparr>qe_node_id = start, qe_distance = f64_zero\<rparr> []"
  let ?s = "search_default\<lparr>sr_distances := [(start, f64_zero)]\<rparr>"
  have "heap_ordered entry_le ?h"
    by (rule bh.ordered_push) (simp_all add: bh.ordered_empty entries_preorder)
  then have "costs_inv ix skip extra start [] (?h, ?s)"
    by (auto simp: costs_inv_def dist_of_def intro: at_start)
  from search_loop_least [OF ok this, of goal] found False show ?thesis
    by (auto simp: all_expanded_def dist_of_def search_default_def dijkstra_inner_def split: if_splits)
qed

text \<open>
  C35: on weights that are nonnegative, the distance of a search that finds the goal is the cost of an
  open route, summed in doubles from the start, and no open route costs less; for the search with
  penalties the traversal penalties are part of the cost, whatever the properties they are read from.
\<close>

theorem search_least_cost:
  assumes "weights_nonneg ix"
    and "sr_found (shortest_path_search_with_penalties ix start goal)"
    and "sr_found (shortest_path_search_with_blocking ix start goal)"
  shows "least_distance ix (is_edge_hard_blocked ix) (edge_traversal_penalty ix) start goal
           (sr_distance (shortest_path_search_with_penalties ix start goal))
    \<and> least_distance ix (is_edge_hard_blocked ix) (\<lambda>_. f64_zero) start goal
           (sr_distance (shortest_path_search_with_blocking ix start goal))"
  using assms dijkstra_least
  by (simp add: shortest_path_search_with_penalties_def shortest_path_search_with_blocking_def
      costs_ok_def penalty_nonneg)

section \<open>The price of the route found\<close>

text \<open>A node sequence and its cost, edge by edge, as the search adds it up.\<close>

inductive priced ::
  "index \<Rightarrow> (uuid \<Rightarrow> bool) \<Rightarrow> (uuid \<Rightarrow> f64) \<Rightarrow> uuid \<Rightarrow> uuid list \<Rightarrow> f64 \<Rightarrow> bool"
for ix skip_edge extra_cost start where
  price_start: "priced ix skip_edge extra_cost start [start] f64_zero"
| price_step: "\<lbrakk> priced ix skip_edge extra_cost start ns d; nb \<in> set (neighbors_of ix (last ns));
                 \<not> skip_edge (tn_edge_id nb) \<rbrakk>
               \<Longrightarrow> priced ix skip_edge extra_cost start (ns @ [tn_node_id nb])
                    (f64_add (f64_add d (tn_weight nb)) (extra_cost (tn_edge_id nb)))"

lemma priced_nonempty: "priced ix skip extra start ns d \<Longrightarrow> ns \<noteq> []"
  by (induction rule: priced.induct) auto

definition pred_prices ::
  "index \<Rightarrow> (uuid \<Rightarrow> bool) \<Rightarrow> (uuid \<Rightarrow> f64) \<Rightarrow> uuid \<Rightarrow> uuid list \<Rightarrow> search_state \<Rightarrow> bool"
where
  "pred_prices ix skip_edge extra_cost start visited st =
     (\<forall>n p. map_of (sr_predecessors st) n = Some p \<longrightarrow> n \<noteq> start \<longrightarrow>
        p \<in> set visited
        \<and> (\<exists>nb \<in> set (neighbors_of ix p). \<not> skip_edge (tn_edge_id nb) \<and> tn_node_id nb = n
             \<and> (\<exists>dp. dist_of st p = Some dp \<and> dist_of st n =
                  Some (f64_add (f64_add dp (tn_weight nb)) (extra_cost (tn_edge_id nb))))))"

lemma relax_prices:
  assumes "pred_prices ix skip extra start (v # vs) (snd fs)" "v = qe_node_id cur"
    and "dist_of (snd fs) v = Some (qe_distance cur)" "nb \<in> set (neighbors_of ix v)"
  defines "r \<equiv> relax skip extra cur (v # vs) fs nb"
  shows "pred_prices ix skip extra start (v # vs) (snd r) \<and> dist_of (snd r) v = Some (qe_distance cur)"
proof (rule relax_cases [of skip extra cur "v # vs" fs nb], goal_cases)
  case (3 d)
  have dist: "dist_of (snd r) m = (if m = tn_node_id nb then Some d else dist_of (snd fs) m)" for m
    using 3(1) by (simp add: r_def dist_of_def map_of_update)
  have pred: "map_of (sr_predecessors (snd r)) m =
      (if m = tn_node_id nb then Some v else map_of (sr_predecessors (snd fs)) m)" for m
    using 3(1) assms(2) by (simp add: r_def map_of_update)
  have ne: "tn_node_id nb \<noteq> v" "tn_node_id nb \<notin> set vs" using 3(2) by auto
  have "pred_prices ix skip extra start (v # vs) (snd r)"
    unfolding pred_prices_def
  proof (intro allI impI)
    fix n p assume np: "map_of (sr_predecessors (snd r)) n = Some p" "n \<noteq> start"
    show "p \<in> set (v # vs) \<and> (\<exists>nb \<in> set (neighbors_of ix p). \<not> skip (tn_edge_id nb) \<and> tn_node_id nb = n
        \<and> (\<exists>dp. dist_of (snd r) p = Some dp \<and> dist_of (snd r) n =
             Some (f64_add (f64_add dp (tn_weight nb)) (extra (tn_edge_id nb)))))"
    proof (cases "n = tn_node_id nb")
      case True
      with np assms(3,4) 3(3,4) ne show ?thesis by (auto simp: pred dist intro!: bexI [of _ nb])
    next
      case False
      with np have "map_of (sr_predecessors (snd fs)) n = Some p" by (simp add: pred)
      with assms(1) np(2) have old: "p \<in> set (v # vs)"
        "\<exists>nb \<in> set (neighbors_of ix p). \<not> skip (tn_edge_id nb) \<and> tn_node_id nb = n
        \<and> (\<exists>dp. dist_of (snd fs) p = Some dp \<and> dist_of (snd fs) n =
             Some (f64_add (f64_add dp (tn_weight nb)) (extra (tn_edge_id nb))))"
        by (auto simp: pred_prices_def)
      then have "p \<noteq> tn_node_id nb" using ne by auto
      with old False show ?thesis by (simp add: dist)
    qed
  qed
  with assms(3) ne show ?case by (simp add: dist)
qed (use assms in \<open>simp_all add: r_def\<close>)

lemma relax_fold_prices:
  assumes "v = qe_node_id cur" "set nbs \<subseteq> set (neighbors_of ix v)"
    and "pred_prices ix skip extra start (v # vs) (snd fs)" "dist_of (snd fs) v = Some (qe_distance cur)"
  shows "pred_prices ix skip extra start (v # vs) (snd (foldl (relax skip extra cur (v # vs)) fs nbs))"
  using assms(2-4)
proof (induction nbs arbitrary: fs)
  case (Cons nb nbs)
  then show ?case using relax_prices [OF Cons.prems(2) assms(1) Cons.prems(3)] by simp
qed simp

lemma pred_path_priced:
  assumes "pred_path (sr_predecessors st) start ns" "pred_prices ix skip extra start visited st"
    and "dist_of st start = Some f64_zero"
  shows "\<exists>d. dist_of st (last ns) = Some d \<and> priced ix skip extra start ns d"
  using assms
proof (induction rule: pred_path.induct)
  case pred_start
  then show ?case by (auto intro: price_start)
next
  case (pred_step ns n)
  then obtain d where d: "dist_of st (last ns) = Some d" "priced ix skip extra start ns d" by blast
  with pred_step obtain nb where nb: "nb \<in> set (neighbors_of ix (last ns))" "\<not> skip (tn_edge_id nb)"
    "tn_node_id nb = n"
    "dist_of st n = Some (f64_add (f64_add d (tn_weight nb)) (extra (tn_edge_id nb)))"
    unfolding pred_prices_def by fastforce
  from price_step [OF d(2) nb(1,2)] nb(3,4) show ?case by auto
qed

lemma search_loop_priced:
  "\<lbrakk> costs_ok ix extra; costs_inv ix skip extra start visited (heap, st);
     all_expanded ix skip extra visited st; dist_of st start = Some f64_zero;
     search_ok ix skip start visited (heap, st); pred_prices ix skip extra start visited st;
     sr_found (search_loop ix goal skip extra heap visited st); \<not> sr_found st \<rbrakk>
   \<Longrightarrow> \<exists>ns. pred_path (sr_predecessors (search_loop ix goal skip extra heap visited st)) start ns
         \<and> last ns = goal
         \<and> priced ix skip extra start ns (sr_distance (search_loop ix goal skip extra heap visited st))"
proof (induction ix goal skip extra heap visited st rule: search_loop.induct)
  case (1 ix goal skip extra heap visited st)
  note unfold = search_loop.simps [of ix goal skip extra heap visited st]
  show ?case
  proof (cases "heap_pop entry_le heap")
    case None
    with 1 show ?thesis by (simp add: unfold)
  next
    case (Some ch)
    obtain cur heap' where pop: "heap_pop entry_le heap = Some (cur, heap')"
      using Some by (cases ch) auto
    let ?v = "qe_node_id cur # visited"
    let ?fs = "foldl (relax skip extra cur ?v) (heap', st) (neighbors_of ix (qe_node_id cur))"
    consider (dup) "qe_node_id cur \<in> set visited" | (goal) "qe_node_id cur \<notin> set visited" "qe_node_id cur = goal"
      | (expand) "qe_node_id cur \<notin> set visited" "qe_node_id cur \<noteq> goal" by blast
    then show ?thesis
    proof cases
      case dup
      with 1(1) [OF pop refl dup] 1(3-) drop_costs [OF 1(4) pop dup] drop_ok [OF 1(7) pop dup] pop
      show ?thesis by (simp add: unfold)
    next
      case goal
      note visit = visit_costs [OF 1(3-6) pop goal(1)]
      have "preds_before (sr_predecessors st) start ?v" "distinct ?v"
        using visit_ok [OF 1(7) pop goal(1)] by (simp_all add: search_ok_def Let_def)
      from preds_before_path [OF this, of goal] goal(2) obtain ns
        where ns: "pred_path (sr_predecessors st) start ns" "last ns = goal" by auto
      with pred_path_priced [OF ns(1) 1(8,6)] visit(2) goal pop show ?thesis
        by (auto simp: unfold)
    next
      case expand
      obtain h2 st2 where fs: "?fs = (h2, st2)" by force
      note visit = visit_costs [OF 1(3-6) pop expand(1)]
      have fold: "costs_inv ix skip extra start ?v (h2, st2)"
        "\<forall>nb \<in> set (neighbors_of ix (qe_node_id cur)). expanded skip extra st2 (qe_node_id cur) nb"
        "\<forall>u nb. u \<in> set ?v \<longrightarrow> expanded skip extra st u nb \<longrightarrow> expanded skip extra st2 u nb"
        "dist_of st2 start = Some f64_zero"
        using relax_fold_costs [OF 1(3) refl order_refl visit(1)] visit(2) 1(6) by (simp_all add: fs)
      have exp: "all_expanded ix skip extra ?v st2"
        using fold(2,3) 1(5) by (simp add: all_expanded_def)
      have ok: "search_ok ix skip start ?v (h2, st2)"
        using relax_fold_ok [OF visit_ok [OF 1(7) pop expand(1)] order_refl, of extra] by (simp add: fs)
      have "pred_prices ix skip extra start ?v st"
        using 1(8) by (fastforce simp: pred_prices_def)
      then have prices: "pred_prices ix skip extra start ?v st2"
        using relax_fold_prices [OF refl order_refl, of ix skip extra start cur visited "(heap', st)"] visit(2)
        by (simp add: fs)
      have "\<not> sr_found st2"
        using relax_fold_found [of skip extra cur ?v "(heap', st)" "neighbors_of ix (qe_node_id cur)"]
          fs 1(10) by simp
      with 1(2) [OF pop refl expand(1) refl expand(2) refl] exp ok prices fold(1,4) 1(3,9) expand pop
      show ?thesis by (simp add: unfold fs)
    qed
  qed
qed

lemma dijkstra_priced:
  assumes ok: "costs_ok ix extra" and found: "sr_found (dijkstra_inner ix start goal skip extra)"
  shows "\<exists>ns. reconstruct_route_nodes (dijkstra_inner ix start goal skip extra) start goal = Some ns
     \<and> priced ix skip extra start ns (sr_distance (dijkstra_inner ix start goal skip extra))"
proof (cases "start = goal")
  case True
  with found show ?thesis
    by (auto simp: dijkstra_inner_def search_default_def reconstruct_route_nodes_def
        reconstruct_loop.simps intro: price_start)
next
  case False
  let ?h = "heap_push entry_le \<lparr>qe_node_id = start, qe_distance = f64_zero\<rparr> []"
  let ?s = "search_default\<lparr>sr_distances := [(start, f64_zero)]\<rparr>"
  have "heap_ordered entry_le ?h"
    by (rule bh.ordered_push) (simp_all add: bh.ordered_empty entries_preorder)
  then have inv: "costs_inv ix skip extra start [] (?h, ?s)"
    by (auto simp: costs_inv_def dist_of_def intro: at_start)
  have sok: "search_ok ix skip start [] (?h, ?s)"
    by (simp add: search_ok_def reached_def search_default_def)
  have "all_expanded ix skip extra [] ?s" "dist_of ?s start = Some f64_zero"
    "pred_prices ix skip extra start [] ?s" "\<not> sr_found ?s"
    by (simp_all add: all_expanded_def dist_of_def pred_prices_def search_default_def)
  note loop = search_loop_priced [OF ok inv this(1,2) sok this(3) _ this(4), of goal]
  have run: "dijkstra_inner ix start goal skip extra = search_loop ix goal skip extra ?h [] ?s"
    using found False by (auto simp: dijkstra_inner_def search_default_def split: if_splits)
  with loop found obtain ns where
    ns: "pred_path (sr_predecessors (dijkstra_inner ix start goal skip extra)) start ns" "last ns = goal"
      "priced ix skip extra start ns (sr_distance (dijkstra_inner ix start goal skip extra))" by auto
  from reconstruct_pred_path [OF ns(1), of "[]"] ns(2,3) found show ?thesis
    by (simp add: reconstruct_route_nodes_def)
qed

end
