(* ===== verification/Plan.thy ===== *)
theory Plan
  imports Search Sample
begin

text \<open>
  What the plans of \<open>route.rs\<close> promise: the shape check against its specification, when a plan can
  be built, that planning always ends with a plan or a failure and never both, and that on a graph
  without parallel edges the plan costs what the search found and crosses no blocked edge.
\<close>

section \<open>The shape of a plan\<close>

definition steps_match :: "uuid list \<Rightarrow> uuid list \<Rightarrow> route_step list \<Rightarrow> bool" where
  "steps_match nodes edges steps =
     (map st_node_id steps = nodes \<and> map st_incoming_edge_id steps = None # map Some edges)"

definition plan_shape :: "route_plan \<Rightarrow> bool" where
  "plan_shape p =
     (let nodes = rp_node_ids p; edges = rp_edge_ids p; steps = rp_steps p in
      if nodes = [] then edges = [] \<and> steps = []
      else rp_start_node_id p = hd nodes \<and> rp_goal_node_id p = last nodes
        \<and> length nodes = Suc (length edges)
        \<and> (steps = [] \<or> steps_match nodes edges steps)
        \<and> (rp_node_zone_ids p = [] \<or> length (rp_node_zone_ids p) = length nodes)
        \<and> (rp_edge_zone_ids p = [] \<or> length (rp_edge_zone_ids p) = length edges))"

lemma check_steps_tail:
  "check_steps nodes edges (Suc i) steps = Inr () \<longleftrightarrow>
     (\<forall>k < length steps. st_node_id (steps ! k) = nodes ! (Suc i + k)
        \<and> st_incoming_edge_id (steps ! k) = Some (edges ! (i + k)))"
proof (induction steps arbitrary: i)
  case (Cons s steps)
  show ?case
    unfolding check_steps.simps(2) using Cons [of "Suc i"]
    by (auto simp: less_Suc_eq_0_disj)
qed simp

lemma check_steps_iff:
  assumes "length nodes = Suc (length edges)" "length steps = length nodes"
  shows "check_steps nodes edges 0 steps = Inr () \<longleftrightarrow> steps_match nodes edges steps"
proof (cases steps)
  case (Cons s ss)
  with assms obtain n ns where n: "nodes = n # ns" "length ns = length edges" "length ss = length edges"
    by (cases nodes) auto
  have "map st_node_id ss = ns \<longleftrightarrow> (\<forall>k < length ss. st_node_id (ss ! k) = ns ! k)"
    "map st_incoming_edge_id ss = map Some edges \<longleftrightarrow>
       (\<forall>k < length ss. st_incoming_edge_id (ss ! k) = Some (edges ! k))"
    using n(2,3) by (simp_all add: list_eq_iff_nth_eq)
  moreover have "check_steps nodes edges (Suc 0) ss = Inr () \<longleftrightarrow>
      (\<forall>k < length ss. st_node_id (ss ! k) = ns ! k \<and> st_incoming_edge_id (ss ! k) = Some (edges ! k))"
    using check_steps_tail [of nodes edges 0 ss] by (simp add: n(1))
  ultimately show ?thesis
    by (cases "st_incoming_edge_id s"; cases "st_node_id s = n")
      (simp_all add: Cons steps_match_def n(1), blast+)
qed (use assms in simp)

lemma and_then_unit: "and_then r (\<lambda>_. Inr n) = Inr m \<longleftrightarrow> r = Inr () \<and> n = m"
  by (cases r) auto

lemma validate_iff:
  "validate_route_plan_shape p = Inr n \<longleftrightarrow> plan_shape p \<and> n = of_nat (length (rp_edge_ids p))"
proof (cases "rp_node_ids p = []")
  case True
  then show ?thesis by (auto simp: validate_route_plan_shape_def plan_shape_def Let_def)
next
  case False
  let ?g = "check_steps (rp_node_ids p) (rp_edge_ids p) 0 (rp_steps p)"
  have empty: "steps_match (rp_node_ids p) (rp_edge_ids p) [] = False"
    using False by (simp add: steps_match_def)
  have g: "?g = Inr () \<longleftrightarrow> rp_steps p = [] \<or> steps_match (rp_node_ids p) (rp_edge_ids p) (rp_steps p)"
    if "length (rp_node_ids p) = Suc (length (rp_edge_ids p))"
       "rp_steps p = [] \<or> length (rp_steps p) = length (rp_node_ids p)"
    using that check_steps_iff [OF that(1), of "rp_steps p"] empty
    by (cases "rp_steps p = []") auto
  have len: "steps_match (rp_node_ids p) (rp_edge_ids p) (rp_steps p) \<Longrightarrow>
      length (rp_steps p) = length (rp_node_ids p)"
    by (metis length_map steps_match_def)
  show ?thesis
    using False g len
    by (auto simp: validate_route_plan_shape_def plan_shape_def Let_def and_then_unit)
qed

text \<open>
  The shape check accepts a plan exactly when it is well shaped: start and goal are the ends of
  the node sequence, there is one edge between each two nodes, and the steps and zone lists, where
  present, follow the nodes and edges; the answer is the number of edges.
\<close>

theorem validate_shape_iff:
  "(validate_route_plan_shape p = Inr n) = (plan_shape p \<and> n = of_nat (length (rp_edge_ids p)))"
  by (rule validate_iff)

section \<open>When a plan can be built\<close>

definition linked :: "index \<Rightarrow> uuid \<Rightarrow> uuid \<Rightarrow> bool" where
  "linked ix a b = (edge_between ix a b \<noteq> None \<and> \<not> is_err (step_edge (ix_workspace ix) a b))"

fun all_linked :: "(uuid \<Rightarrow> uuid \<Rightarrow> bool) \<Rightarrow> uuid list \<Rightarrow> bool" where
  "all_linked r (a # b # ns) = (r a b \<and> all_linked r (b # ns))"
| "all_linked r _ = True"

lemma not_err_Inr: "\<not> is_err r \<longleftrightarrow> (\<exists>v. r = Inr v)"
  by (cases r) simp_all

lemma edge_ids_ok:
  "(\<exists>es. extract_traversed_edge_ids_from_nodes ix ns = Inr es) \<longleftrightarrow>
     all_linked (\<lambda>a b. edge_between ix a b \<noteq> None) ns"
  by (induction ix ns rule: extract_traversed_edge_ids_from_nodes.induct)
    (auto simp: and_then_Inr split: option.splits)

lemma edge_ids_length:
  "extract_traversed_edge_ids_from_nodes ix ns = Inr es \<Longrightarrow> length es = length ns - 1"
  by (induction ix ns arbitrary: es rule: extract_traversed_edge_ids_from_nodes.induct)
    (auto simp: and_then_Inr split: option.splits)

lemma cost_loop_ok:
  "(\<exists>c. cost_loop ix model acc ns = Inr c) \<longleftrightarrow>
     all_linked (\<lambda>a b. \<not> is_err (step_edge (ix_workspace ix) a b)) ns"
  by (induction ix model acc ns rule: cost_loop.induct) (auto simp: and_then_Inr not_err_Inr)

lemma pair_cost_ok:
  "(\<exists>c. accumulate_route_cost ix [a, b] model = Inr c) \<longleftrightarrow> \<not> is_err (step_edge (ix_workspace ix) a b)"
  using cost_loop_ok [of ix model f64_zero "[a, b]"] by (simp add: accumulate_route_cost_def)

lemma plan_steps_loop_ok:
  "length edges = length ns \<Longrightarrow>
   all_linked (\<lambda>a b. \<not> is_err (step_edge (ix_workspace ix) a b)) (prev # ns) \<Longrightarrow>
     \<exists>ss. plan_steps_loop ix model prev c ns edges = Inr ss
       \<and> map st_node_id ss = ns \<and> map st_incoming_edge_id ss = map Some edges"
proof (induction ix model prev c ns edges rule: plan_steps_loop.induct)
  case (1 ix model prev c n ns e es)
  then obtain k where k: "accumulate_route_cost ix [prev, n] model = Inr k"
    using pair_cost_ok [of ix prev n model] by auto
  from 1(1) [OF refl, of k] 1(2,3) obtain ss where
    "plan_steps_loop ix model n (f64_add c k) ns es = Inr ss"
    "map st_node_id ss = ns" "map st_incoming_edge_id ss = map Some es" by auto
  with k show ?case by (simp add: Let_def)
qed auto

lemma all_linked_conj: "all_linked (\<lambda>a b. r a b \<and> s a b) ns \<longleftrightarrow> all_linked r ns \<and> all_linked s ns"
  by (induction ns rule: induct_list012) auto

definition plannable :: "index \<Rightarrow> uuid \<Rightarrow> uuid \<Rightarrow> uuid list \<Rightarrow> bool" where
  "plannable ix start goal ns =
     ((ns = [] \<or> hd ns = start \<and> last ns = goal) \<and> all_linked (linked ix) ns)"

lemma build_ok:
  assumes "plannable ix start goal ns"
  shows "\<exists>p es c. build_route_plan ix start goal ns model = Inr p \<and> plan_shape p
    \<and> rp_node_ids p = ns \<and> rp_start_node_id p = start \<and> rp_goal_node_id p = goal
    \<and> extract_traversed_edge_ids_from_nodes ix ns = Inr es \<and> rp_edge_ids p = es
    \<and> accumulate_route_cost ix ns model = Inr c \<and> rp_total_cost p = c"
proof -
  have l: "all_linked (\<lambda>a b. edge_between ix a b \<noteq> None) ns"
    "all_linked (\<lambda>a b. \<not> is_err (step_edge (ix_workspace ix) a b)) ns"
    using assms by (auto simp: plannable_def linked_def [abs_def] all_linked_conj)
  obtain es where es: "extract_traversed_edge_ids_from_nodes ix ns = Inr es" "length es = length ns - 1"
    using edge_ids_ok l(1) edge_ids_length by blast
  obtain zs where zs: "extract_traversed_zone_ids_from_nodes ix ns = Inr zs"
    using es by (auto simp: extract_traversed_zone_ids_from_nodes_def Let_def)
  obtain c where c: "accumulate_route_cost ix ns model = Inr c"
    using cost_loop_ok [of ix model f64_zero ns] l(2)
    by (cases "ns = []") (auto simp: accumulate_route_cost_def)
  have "\<exists>ss. plan_steps ix model ns es = Inr ss \<and> (if ns = [] then ss = [] else steps_match ns es ss)"
  proof (cases ns)
    case (Cons n ms)
    with plan_steps_loop_ok [of es ms ix n model f64_zero] es(2) l(2) show ?thesis
      by (auto simp: plan_steps_def steps_match_def first_step_def)
  qed (simp add: plan_steps_def)
  then obtain ss where ss: "plan_steps ix model ns es = Inr ss"
    "if ns = [] then ss = [] else steps_match ns es ss" by blast
  let ?p = "\<lparr>rp_start_node_id = start, rp_goal_node_id = goal, rp_steps = ss,
     rp_node_ids = ns, rp_edge_ids = es, rp_zone_ids = zs,
     rp_node_zone_ids = map (\<lambda>n. map z_id (zones_of_node ix n)) ns,
     rp_edge_zone_ids = map (\<lambda>e. map z_id (zones_of_edge ix e)) es, rp_total_cost = c\<rparr>"
  have shape: "plan_shape ?p"
    using assms es ss(2) by (cases ns) (auto simp: plan_shape_def Let_def plannable_def)
  then have "validate_route_plan_shape ?p = Inr (of_nat (length es))"
    by (simp add: validate_iff)
  then have "build_route_plan ix start goal ns model = Inr ?p"
    using assms es(1) zs c ss(1) by (auto simp: build_route_plan_def plannable_def Let_def)
  with shape es c show ?thesis by (intro exI conjI) (assumption | simp)+
qed

lemma build_only_plannable:
  assumes "build_route_plan ix start goal ns model = Inr p"
  shows "plannable ix start goal ns"
proof -
  have "(ns = [] \<or> hd ns = start \<and> last ns = goal)
    \<and> (\<exists>es. extract_traversed_edge_ids_from_nodes ix ns = Inr es)
    \<and> (\<exists>c. accumulate_route_cost ix ns model = Inr c)"
    using assms by (auto simp: build_route_plan_def and_then_Inr split: if_splits)
  then have "ns = [] \<or> hd ns = start \<and> last ns = goal" "all_linked (linked ix) ns"
    using edge_ids_ok [of ix ns] cost_loop_ok [of ix model f64_zero ns]
    by (cases ns; auto simp: linked_def [abs_def] all_linked_conj accumulate_route_cost_def)+
  then show ?thesis by (simp add: plannable_def)
qed

text \<open>
  A plan is built for a node sequence exactly when the sequence runs from the start to the goal
  and each two consecutive nodes are joined by an edge that both lookups find; then the plan is well
  shaped and carries that sequence, so the builder's own shape check never fails.
\<close>

theorem build_route_plan_iff:
  "is_err (build_route_plan ix start goal ns model) = (\<not> plannable ix start goal ns)
   \<and> (case build_route_plan ix start goal ns model of
        Inl _ \<Rightarrow> True
      | Inr p \<Rightarrow> plan_shape p \<and> rp_node_ids p = ns
          \<and> rp_start_node_id p = start \<and> rp_goal_node_id p = goal)"
  using build_ok [of ix start goal ns model] build_only_plannable [of ix start goal ns model]
  by (cases "build_route_plan ix start goal ns model") auto

section \<open>Planning always answers\<close>

lemma search_nodes:
  "\<exists>ns. extract_traversed_node_ids (dijkstra_inner ix start goal skip extra) start goal = Some (Inr ns)
     \<and> (if sr_found (dijkstra_inner ix start goal skip extra) then open_route ix skip start goal ns else ns = [])"
  using search_route [of ix start goal skip extra]
  by (auto simp: extract_traversed_node_ids_def open_route_def reconstruct_route_nodes_def split: if_splits)

lemma diagnose_kinds:
  "map_option rf_kind (diagnose_route_failure ho ix start goal) =
     Some (if ix_node ix start = None then MissingStartNode
           else if ix_node ix goal = None then MissingGoalNode
           else if route_exists ix (\<lambda>_. False) start goal then PolicyBlocked
           else Unreachable)"
proof -
  have found: "sr_found (shortest_path_search ix start goal) = route_exists ix (\<lambda>_. False) start goal"
    by (simp add: shortest_path_search_def dijkstra_found)
  obtain ns where "reconstruct_route_nodes (shortest_path_search ix start goal) start goal = Some ns"
    using search_route [of ix start goal "\<lambda>_. False" "\<lambda>_. f64_zero"]
    by (auto simp: shortest_path_search_def)
  then show ?thesis
    by (simp add: diagnose_route_failure_def missing_node_failure_def found Let_def
        failure_default_def policy_failure_def unreachable_failure_def)
qed

text \<open>
  The diagnosis of a failed search always returns, and its kind is that of the cause: a missing
  start, else a missing goal, else blocked by policy when a legal route exists without the policies,
  else unreachable.
\<close>

theorem diagnose_kind:
  "map_option rf_kind (diagnose_route_failure ho ix start goal) =
     Some (if ix_node ix start = None then MissingStartNode
           else if ix_node ix goal = None then MissingGoalNode
           else if route_exists ix (\<lambda>_. False) start goal then PolicyBlocked
           else Unreachable)"
  by (rule diagnose_kinds)

definition plan_search :: "index \<Rightarrow> uuid \<Rightarrow> uuid \<Rightarrow> bool \<Rightarrow> search_state" where
  "plan_search ix start goal use_penalties =
     dijkstra_inner ix start goal (is_edge_hard_blocked ix)
       (if use_penalties then edge_traversal_penalty ix else (\<lambda>_. f64_zero))"

lemma plan_route_search:
  "plan_route ho ix start goal pen =
     (if \<not> sr_found (plan_search ix start goal pen)
      then map_option (\<lambda>f. \<lparr>pr_search = plan_search ix start goal pen, pr_plan = None, pr_failure = Some f\<rparr>)
             (diagnose_route_failure ho ix start goal)
      else map_option (\<lambda>r. case r of
               Inr plan \<Rightarrow> \<lparr>pr_search = plan_search ix start goal pen, pr_plan = Some plan, pr_failure = None\<rparr>
             | Inl err \<Rightarrow> \<lparr>pr_search = plan_search ix start goal pen, pr_plan = None,
                 pr_failure = Some (failure_default\<lparr>rf_kind := Unreachable, rf_message := error_display err,
                   rf_diagnostics := [Lit ''planner found a search path but route-plan reconstruction failed'']\<rparr>)\<rparr>)
             (build_route_plan_from_search ix (plan_search ix start goal pen) start goal
                (if pen then Penalized else GraphWeight)))"
proof -
  have "plan_search ix start goal pen =
    (if pen then shortest_path_search_with_penalties ix start goal
     else shortest_path_search_with_blocking ix start goal)"
    by (simp add: plan_search_def shortest_path_search_with_penalties_def
        shortest_path_search_with_blocking_def)
  then show ?thesis by (simp only: plan_route_def Let_def)
qed

lemma plan_search_found:
  "sr_found (plan_search ix start goal pen) = route_exists ix (is_edge_hard_blocked ix) start goal"
  by (simp add: plan_search_def dijkstra_found)

definition result_ok :: "index \<Rightarrow> uuid \<Rightarrow> uuid \<Rightarrow> planning_result \<Rightarrow> bool" where
  "result_ok ix start goal r =
     (sr_found (pr_search r) = route_exists ix (is_edge_hard_blocked ix) start goal
      \<and> (pr_plan r = None) = (pr_failure r \<noteq> None)
      \<and> (case pr_plan r of
           None \<Rightarrow> True
         | Some p \<Rightarrow> plan_shape p \<and> rp_start_node_id p = start \<and> rp_goal_node_id p = goal
             \<and> open_route ix (is_edge_hard_blocked ix) start goal (rp_node_ids p)))"

lemma build_from_search:
  assumes "sr_found (plan_search ix start goal pen)"
  shows "\<exists>ns. open_route ix (is_edge_hard_blocked ix) start goal ns
     \<and> reconstruct_route_nodes (plan_search ix start goal pen) start goal = Some ns
     \<and> build_route_plan_from_search ix (plan_search ix start goal pen) start goal model =
         Some (build_route_plan ix start goal ns model)"
proof -
  obtain ns where ns: "reconstruct_route_nodes (plan_search ix start goal pen) start goal = Some ns"
      "open_route ix (is_edge_hard_blocked ix) start goal ns"
    using dijkstra_nodes [OF assms [unfolded plan_search_def]] by (auto simp: plan_search_def)
  then have "extract_traversed_node_ids (plan_search ix start goal pen) start goal = Some (Inr ns)"
    using assms by (simp add: extract_traversed_node_ids_def open_route_def)
  with ns show ?thesis by (simp add: build_route_plan_from_search_def)
qed

lemma plan_route_answer: "\<exists>r. plan_route ho ix start goal pen = Some r \<and> result_ok ix start goal r"
proof (cases "sr_found (plan_search ix start goal pen)")
  case False
  obtain f where "diagnose_route_failure ho ix start goal = Some f"
    using diagnose_kinds [of ho ix start goal] by (cases "diagnose_route_failure ho ix start goal") auto
  with False plan_search_found [of ix start goal pen] show ?thesis
    by (simp add: plan_route_search result_ok_def)
next
  case True
  let ?m = "if pen then Penalized else GraphWeight"
  from build_from_search [OF True] obtain ns where
    ns: "open_route ix (is_edge_hard_blocked ix) start goal ns"
      "build_route_plan_from_search ix (plan_search ix start goal pen) start goal ?m =
         Some (build_route_plan ix start goal ns ?m)" by blast
  show ?thesis
  proof (cases "build_route_plan ix start goal ns ?m")
    case (Inl e)
    with True ns plan_search_found [of ix start goal pen] show ?thesis
      by (simp add: plan_route_search result_ok_def)
  next
    case (Inr p)
    with build_ok [OF build_only_plannable [OF Inr], of ?m] have
      "plan_shape p \<and> rp_node_ids p = ns \<and> rp_start_node_id p = start \<and> rp_goal_node_id p = goal" by auto
    with True ns Inr plan_search_found [of ix start goal pen] show ?thesis
      by (simp add: plan_route_search result_ok_def)
  qed
qed

section \<open>A policy failure names its walls\<close>

lemma dijkstra_closure:
  assumes "\<not> sr_found (dijkstra_inner ix start goal skip extra)"
    and "ix_node ix start \<noteq> None" "ix_node ix goal \<noteq> None"
  defines "st \<equiv> dijkstra_inner ix start goal skip extra"
  shows "start \<in> reached st" "goal \<notin> reached st"
    "\<And>a b. a \<in> reached st \<Longrightarrow> open_step ix skip a b \<Longrightarrow> b \<in> reached st"
  using dijkstra_answer [of ix skip start goal extra] assms by (auto simp: search_answer_def)

lemma open_step_weaken: "open_step ix skip a b \<Longrightarrow> open_step ix (\<lambda>_. False) a b"
  by (auto simp: open_step_def list_ex_iff)

text \<open>A legal route that leaves a set closed under the unblocked steps crosses a blocked edge.\<close>

lemma leaving_edge_blocked:
  assumes "(start, goal) \<in> (open_rel ix (\<lambda>_. False))\<^sup>*" "start \<in> R" "goal \<notin> R"
    and "\<And>a b. a \<in> R \<Longrightarrow> open_step ix skip a b \<Longrightarrow> b \<in> R"
  shows "\<exists>a \<in> R. \<exists>nb \<in> set (neighbors_of ix a). skip (tn_edge_id nb)"
proof -
  from assms(1-3) obtain a b where ab: "a \<in> R" "b \<notin> R" "open_step ix (\<lambda>_. False) a b"
    by (induction rule: rtrancl_induct) auto
  then obtain nb where nb: "nb \<in> set (neighbors_of ix a)" "tn_node_id nb = b"
    by (auto simp: open_step_def list_ex_iff)
  with assms(4) [OF ab(1)] ab show ?thesis by (auto simp: open_step_def list_ex_iff)
qed

text \<open>
  C38: when planning fails although a legal route exists, the failure is one of policy and names at
  least one edge; every edge it names is blocked, and so is every zone it names a wall of one of them.
\<close>

theorem policy_failure_names_walls:
  assumes "hash_order ho" "route_exists ix (\<lambda>_. False) start goal"
    and "\<not> route_exists ix (is_edge_hard_blocked ix) start goal"
  shows "\<exists>f. diagnose_route_failure ho ix start goal = Some f \<and> rf_kind f = PolicyBlocked
    \<and> rf_blocked_edge_ids f \<noteq> [] \<and> list_all (is_edge_hard_blocked ix) (rf_blocked_edge_ids f)
    \<and> set (rf_blocked_zone_ids f) =
        (\<Union>e \<in> set (rf_blocked_edge_ids f). set (blocked_zones_for_edge ix e))"
proof -
  let ?b = "shortest_path_search_with_blocking ix start goal"
  let ?seen = "concat (map (\<lambda>n. map tn_edge_id (neighbors_of ix n)) (reached_nodes ho ?b start))"
  have nf: "\<not> sr_found (dijkstra_inner ix start goal (is_edge_hard_blocked ix) (\<lambda>_. f64_zero))"
    using assms(3) by (simp add: dijkstra_found)
  have nodes: "ix_node ix start \<noteq> None" "ix_node ix goal \<noteq> None"
    "(start, goal) \<in> (open_rel ix (\<lambda>_. False))\<^sup>*"
    using assms(2) by (auto simp: route_exists_def)
  note cl = dijkstra_closure [OF nf nodes(1,2), folded shortest_path_search_with_blocking_def]
  have "set (reached_nodes ho ?b start) = reached ?b"
    using cl(1) hash_order_set [OF assms(1), of "map fst (sr_distances ?b)"]
    by (auto simp: reached_nodes_def Let_def reached_def)
  with leaving_edge_blocked [OF nodes(3) cl(1,2), of "is_edge_hard_blocked ix"] cl(3)
  have ne: "filter (is_edge_hard_blocked ix) ?seen \<noteq> []"
    by (fastforce simp: filter_empty_conv)
  have pu: "push_unseen [] (filter (is_edge_hard_blocked ix) ?seen) \<noteq> []"
    using ne set_push_unseen [of "[]" "filter (is_edge_hard_blocked ix) ?seen"]
    by (metis Un_empty_left empty_set set_empty)
  have found: "sr_found (shortest_path_search ix start goal)"
    using assms(2) by (simp add: shortest_path_search_def dijkstra_found)
  have miss: "missing_node_failure ix start goal = None"
    using nodes by (simp add: missing_node_failure_def)
  show ?thesis
    using ne pu
    by (simp add: diagnose_route_failure_def miss found policy_failure_def Let_def list_all_iff
        del: filter_concat)
qed

section \<open>Graphs without parallel edges\<close>

text \<open>
  On such a graph every lookup between two adjacent nodes gives the edge of the adjacency. The crates
  \<open>zoneout\<close> and \<open>graphix\<close> decide whether a workspace is one.
\<close>

definition step_agrees :: "index \<Rightarrow> uuid \<Rightarrow> traversal_neighbor \<Rightarrow> bool" where
  "step_agrees ix a nb =
     (let w = ix_workspace ix in
      case step_edge w a (tn_node_id nb) of
        Inl _ \<Rightarrow> False
      | Inr e \<Rightarrow>
          unwrap_or (ws_get_weight w e) f64_zero = tn_weight nb
          \<and> map_option ed_id (ws_edge_property w e) = Some (tn_edge_id nb)
          \<and> edge_between ix a (tn_node_id nb) = ws_edge_property w e)"

definition simple_graph :: "index \<Rightarrow> bool" where
  "simple_graph ix =
     list_all (\<lambda>(a, _). list_all (step_agrees ix a) (neighbors_of ix a)) (ix_adjacency ix)"

lemma simple_graph_step:
  assumes "simple_graph ix" "nb \<in> set (neighbors_of ix a)"
  shows "step_agrees ix a nb"
proof -
  have "neighbors ix a \<noteq> []" using assms(2) by (auto simp: neighbors_of_def)
  then have "a \<in> fst ` set (ix_adjacency ix)" using neighbors_outside by blast
  with assms show ?thesis by (auto simp: simple_graph_def list_all_iff)
qed

lemma cost_loop_snoc:
  "ns \<noteq> [] \<Longrightarrow> cost_loop ix model c (ns @ [n]) =
     and_then (cost_loop ix model c ns) (\<lambda>c. and_then (step_edge (ix_workspace ix) (last ns) n)
       (\<lambda>e. Inr (edge_cost ix model c e)))"
proof (induction ix model c ns rule: cost_loop.induct)
  case (1 ix model c a b ns)
  then show ?case by (cases "step_edge (ix_workspace ix) a b") auto
qed auto

lemma edge_ids_snoc:
  "ns \<noteq> [] \<Longrightarrow> extract_traversed_edge_ids_from_nodes ix (ns @ [n]) =
     and_then (extract_traversed_edge_ids_from_nodes ix ns) (\<lambda>es.
       case edge_between ix (last ns) n of
         None \<Rightarrow> Inl (NotFound (Lit ''route references adjacent nodes without a graph edge''))
       | Some e \<Rightarrow> Inr (es @ [ed_id e]))"
proof (induction ix ns rule: extract_traversed_edge_ids_from_nodes.induct)
  case (1 ix a b ns)
  then show ?case
    by (cases "edge_between ix a b"; cases "extract_traversed_edge_ids_from_nodes ix (b # ns)")
      (auto split: option.split)
qed (auto split: option.split)

definition model_cost :: "index \<Rightarrow> cost_model \<Rightarrow> uuid \<Rightarrow> f64" where
  "model_cost ix model = (if model = Penalized then edge_traversal_penalty ix else (\<lambda>_. f64_zero))"

lemma edge_cost_model:
  assumes "step_agrees ix a nb" "step_edge (ix_workspace ix) a (tn_node_id nb) = Inr e"
  shows "edge_cost ix model c e =
    f64_add (f64_add c (tn_weight nb)) (model_cost ix model (tn_edge_id nb))"
proof -
  obtain pr where "ws_edge_property (ix_workspace ix) e = Some pr" "ed_id pr = tn_edge_id nb"
    "unwrap_or (ws_get_weight (ix_workspace ix) e) f64_zero = tn_weight nb"
    using assms by (auto simp: step_agrees_def Let_def)
  then show ?thesis
    by (simp add: edge_cost_def model_cost_def Let_def f64_add_zero_right)
qed

lemma priced_route:
  assumes "simple_graph ix"
  shows "priced ix skip (model_cost ix model) start ns d \<Longrightarrow>
    cost_loop ix model f64_zero ns = Inr d
    \<and> (\<exists>es. extract_traversed_edge_ids_from_nodes ix ns = Inr es \<and> list_all (\<lambda>e. \<not> skip e) es)
    \<and> all_linked (linked ix) ns"
proof (induction rule: priced.induct)
  case (price_step ns d nb)
  have agree: "step_agrees ix (last ns) nb" by (rule simple_graph_step [OF assms price_step(2)])
  then obtain e pr where e: "step_edge (ix_workspace ix) (last ns) (tn_node_id nb) = Inr e"
    "edge_between ix (last ns) (tn_node_id nb) = Some pr" "ed_id pr = tn_edge_id nb"
    by (auto simp: step_agrees_def Let_def split: sum.splits)
  have ne: "ns \<noteq> []" using price_step(1) by (rule priced_nonempty)
  have link: "all_linked r (ns @ [n]) \<longleftrightarrow> all_linked r ns \<and> r (last ns) n" for r n
    using ne by (induction ns rule: induct_list012) auto
  show ?case
    using price_step(3,4) e ne edge_cost_model [OF agree e(1)]
    by (auto simp: cost_loop_snoc edge_ids_snoc link linked_def)
qed simp

text \<open>
  C37: on a graph without parallel edges and with nonnegative weights, planning between nodes that an
  unblocked route joins gives a plan; its total cost is exactly the distance the search found, and no
  edge it traverses is blocked.
\<close>

theorem plan_route_cost:
  assumes "simple_graph ix" "weights_nonneg ix" "route_exists ix (is_edge_hard_blocked ix) start goal"
  shows "\<exists>r p. plan_route ho ix start goal pen = Some r \<and> pr_plan r = Some p
    \<and> rp_total_cost p = sr_distance (pr_search r)
    \<and> list_all (\<lambda>e. \<not> is_edge_hard_blocked ix e) (rp_edge_ids p)"
proof -
  let ?m = "if pen then Penalized else GraphWeight"
  let ?s = "plan_search ix start goal pen"
  have found: "sr_found ?s" using assms(3) by (simp add: plan_search_found)
  have s: "?s = dijkstra_inner ix start goal (is_edge_hard_blocked ix) (model_cost ix ?m)"
    by (simp add: plan_search_def model_cost_def)
  have "costs_ok ix (model_cost ix ?m)"
    using assms(2) penalty_nonneg by (simp add: costs_ok_def model_cost_def)
  from dijkstra_priced [OF this, of start goal "is_edge_hard_blocked ix"] found obtain ns where
    ns: "reconstruct_route_nodes ?s start goal = Some ns"
      "priced ix (is_edge_hard_blocked ix) (model_cost ix ?m) start ns (sr_distance ?s)"
    by (auto simp: s)
  from priced_route [OF assms(1) ns(2)] obtain es where route:
    "cost_loop ix ?m f64_zero ns = Inr (sr_distance ?s)" "all_linked (linked ix) ns"
    "extract_traversed_edge_ids_from_nodes ix ns = Inr es" "list_all (\<lambda>e. \<not> is_edge_hard_blocked ix e) es"
    by blast
  from build_from_search [OF found, of ?m] ns(1) have
    nodes: "open_route ix (is_edge_hard_blocked ix) start goal ns"
    and build: "build_route_plan_from_search ix ?s start goal ?m = Some (build_route_plan ix start goal ns ?m)"
    by auto
  then have "plannable ix start goal ns" using route(2) by (simp add: plannable_def open_route_def)
  from build_ok [OF this, of ?m] obtain p where p: "build_route_plan ix start goal ns ?m = Inr p"
    "rp_edge_ids p = es" "accumulate_route_cost ix ns ?m = Inr (rp_total_cost p)"
    using route(3) by auto
  have "rp_total_cost p = sr_distance ?s"
    using p(3) route(1) nodes by (simp add: accumulate_route_cost_def open_route_def)
  with p build found route(4) show ?thesis by (simp add: plan_route_search)
qed

section \<open>What planning answers\<close>

text \<open>The edges of a plan: each is the one the lookup finds between two consecutive nodes.\<close>

definition edges_join :: "index \<Rightarrow> uuid list \<Rightarrow> uuid list \<Rightarrow> bool" where
  "edges_join ix ns es =
     (length es = length ns - 1
      \<and> (\<forall>i < length es. \<exists>e. edge_between ix (ns ! i) (ns ! Suc i) = Some e \<and> ed_id e = es ! i))"

definition lookups_complete :: "index \<Rightarrow> bool" where
  "lookups_complete ix = (\<forall>a. \<forall>nb \<in> set (neighbors_of ix a). linked ix a (tn_node_id nb))"

definition failure_cause :: "index \<Rightarrow> uuid \<Rightarrow> uuid \<Rightarrow> failure_kind" where
  "failure_cause ix start goal =
     (if ix_node ix start = None then MissingStartNode
      else if ix_node ix goal = None then MissingGoalNode
      else if route_exists ix (\<lambda>_. False) start goal then PolicyBlocked
      else Unreachable)"

definition planning_ok :: "index \<Rightarrow> uuid \<Rightarrow> uuid \<Rightarrow> planning_result \<Rightarrow> bool" where
  "planning_ok ix start goal r =
     (sr_found (pr_search r) = route_exists ix (is_edge_hard_blocked ix) start goal
      \<and> (case pr_plan r of
           None \<Rightarrow>
             \<exists>f. pr_failure r = Some f
               \<and> (route_exists ix (is_edge_hard_blocked ix) start goal \<or> rf_kind f = failure_cause ix start goal)
         | Some p \<Rightarrow>
             pr_failure r = None \<and> plan_shape p \<and> rp_start_node_id p = start \<and> rp_goal_node_id p = goal
             \<and> open_route ix (is_edge_hard_blocked ix) start goal (rp_node_ids p)
             \<and> edges_join ix (rp_node_ids p) (rp_edge_ids p)
             \<and> (simple_graph ix \<longrightarrow> list_all (\<lambda>e. \<not> is_edge_hard_blocked ix e) (rp_edge_ids p)))
      \<and> (lookups_complete ix \<longrightarrow>
           (pr_plan r \<noteq> None) = route_exists ix (is_edge_hard_blocked ix) start goal))"

lemma edge_ids_join: "extract_traversed_edge_ids_from_nodes ix ns = Inr es \<Longrightarrow> edges_join ix ns es"
proof (induction ix ns arbitrary: es rule: extract_traversed_edge_ids_from_nodes.induct)
  case (1 ix a b ns)
  then obtain e fs where e: "edge_between ix a b = Some e" "es = ed_id e # fs"
      "extract_traversed_edge_ids_from_nodes ix (b # ns) = Inr fs"
    by (auto simp: and_then_Inr split: option.splits)
  from 1(1) [OF _ e(3)] e(1) have fs: "edges_join ix (b # ns) fs" by simp
  show ?case
    unfolding edges_join_def
  proof (intro conjI allI impI)
    fix i assume "i < length es"
    with fs e(1,2) show "\<exists>e. edge_between ix ((a # b # ns) ! i) ((a # b # ns) ! Suc i) = Some e \<and> ed_id e = es ! i"
      by (cases i) (auto simp: edges_join_def)
  qed (use fs e(2) in \<open>simp add: edges_join_def\<close>)
qed (simp_all add: edges_join_def)

lemma route_linked:
  assumes "lookups_complete ix" "open_steps ix skip ns"
  shows "all_linked (linked ix) ns"
  using assms(2)
proof (induction ns rule: induct_list012)
  case (3 a b ns)
  then have "open_step ix skip a b" by simp
  then obtain nb where "nb \<in> set (neighbors_of ix a)" "tn_node_id nb = b"
    by (auto simp: open_step_def list_ex_iff)
  with assms(1) 3 show ?case by (auto simp: lookups_complete_def)
qed simp_all

text \<open>Without parallel edges the edge between two nodes is the one the search went by.\<close>

lemma simple_unblocked:
  assumes "simple_graph ix" "open_step ix skip a b" "edge_between ix a b = Some e"
  shows "\<not> skip (ed_id e)"
proof -
  obtain nb where nb: "nb \<in> set (neighbors_of ix a)" "tn_node_id nb = b" "\<not> skip (tn_edge_id nb)"
    using assms(2) by (auto simp: open_step_def list_ex_iff)
  from simple_graph_step [OF assms(1) nb(1)] nb(2) assms(3) have "ed_id e = tn_edge_id nb"
    by (auto simp: step_agrees_def Let_def split: sum.splits)
  with nb(3) show ?thesis by simp
qed

lemma open_steps_nth: "open_steps ix skip ns \<Longrightarrow> Suc i < length ns \<Longrightarrow> open_step ix skip (ns ! i) (ns ! Suc i)"
proof (induction ns arbitrary: i rule: induct_list012)
  case (3 a b ns)
  then show ?case by (cases i) auto
qed simp_all

lemma route_unblocked:
  assumes "simple_graph ix" "open_steps ix skip ns" "edges_join ix ns es"
  shows "list_all (\<lambda>e. \<not> skip e) es"
  unfolding list_all_length
proof (intro allI impI)
  fix i assume i: "i < length es"
  with assms(3) obtain e where e: "edge_between ix (ns ! i) (ns ! Suc i) = Some e" "ed_id e = es ! i"
    by (auto simp: edges_join_def)
  have "Suc i < length ns" using i assms(3) by (auto simp: edges_join_def)
  then have "open_step ix skip (ns ! i) (ns ! Suc i)" by (rule open_steps_nth [OF assms(2)])
  from simple_unblocked [OF assms(1) this e(1)] e(2) show "\<not> skip (es ! i)" by simp
qed

lemma planning_answer: "\<exists>r. plan_route ho ix start goal pen = Some r \<and> planning_ok ix start goal r"
proof (cases "sr_found (plan_search ix start goal pen)")
  case False
  obtain f where "diagnose_route_failure ho ix start goal = Some f" "rf_kind f = failure_cause ix start goal"
    using diagnose_kinds [of ho ix start goal]
    by (cases "diagnose_route_failure ho ix start goal") (auto simp: failure_cause_def)
  with False plan_search_found [of ix start goal pen] show ?thesis
    by (simp add: plan_route_search planning_ok_def)
next
  case True
  let ?m = "if pen then Penalized else GraphWeight"
  from build_from_search [OF True] obtain ns where
    ns: "open_route ix (is_edge_hard_blocked ix) start goal ns"
      "build_route_plan_from_search ix (plan_search ix start goal pen) start goal ?m =
         Some (build_route_plan ix start goal ns ?m)" by blast
  have route: "route_exists ix (is_edge_hard_blocked ix) start goal"
    using True by (simp add: plan_search_found)
  show ?thesis
  proof (cases "build_route_plan ix start goal ns ?m")
    case (Inl e)
    have "\<not> lookups_complete ix"
    proof
      assume "lookups_complete ix"
      from route_linked [OF this] ns(1) have "plannable ix start goal ns"
        by (auto simp: plannable_def open_route_def)
      from build_ok [OF this, of ?m] Inl show False by auto
    qed
    with True ns route Inl show ?thesis by (simp add: plan_route_search planning_ok_def)
  next
    case (Inr p)
    from build_ok [OF build_only_plannable [OF Inr], of ?m] Inr have
      p: "plan_shape p" "rp_node_ids p = ns" "rp_start_node_id p = start" "rp_goal_node_id p = goal"
        "extract_traversed_edge_ids_from_nodes ix ns = Inr (rp_edge_ids p)" by auto
    note join = edge_ids_join [OF p(5)]
    have "simple_graph ix \<longrightarrow> list_all (\<lambda>e. \<not> is_edge_hard_blocked ix e) (rp_edge_ids p)"
      using route_unblocked [OF _ _ join] ns(1) by (simp add: open_route_def)
    with True ns Inr p join route show ?thesis by (simp add: plan_route_search planning_ok_def)
  qed
qed

text \<open>
  C36: planning always returns, with either a plan or a failure and never both. A plan is well shaped,
  joins the requested nodes along an unblocked legal route without repetition, and names the edge the
  lookup finds between each two nodes, none of them blocked where no two edges are parallel. A failure
  without such a route names its cause; and where the lookups find an edge between all neighbours, a
  plan is given exactly when an unblocked legal route exists.
\<close>

theorem plan_route_returns:
  "\<exists>r. plan_route ho ix start goal pen = Some r \<and> planning_ok ix start goal r"
  by (rule planning_answer)

section \<open>The yard and the lane\<close>

lemma open_edge_allows:
  "ed_properties e = [] \<Longrightarrow> allows_traversal_from_node e s"
  by (simp add: allows_traversal_from_node_def edge_semantics_of_keyword edge_semantics_default_def)

lemma yard_neighbors_of:
  "map tn_edge_id (neighbors_of yard_ix 10) = [20]" "map tn_node_id (neighbors_of yard_ix 10) = [11]"
  "set (neighbors_of yard_ix a) \<subseteq> set [\<lparr>tn_node_id = 11, tn_edge_id = 20, tn_weight = Fin 2\<rparr>,
     \<lparr>tn_node_id = 10, tn_edge_id = 20, tn_weight = Fin 2\<rparr>,
     \<lparr>tn_node_id = 12, tn_edge_id = 21, tn_weight = Fin 3\<rparr>,
     \<lparr>tn_node_id = 11, tn_edge_id = 21, tn_weight = Fin 3\<rparr>]"
  by (auto simp: neighbors_of_def yard_neighbors yard_ix_edges yard_edge_def open_edge_allows)

lemma yard_zones_of_20: "map z_id (zones_of_edge yard_ix 20) = [2]"
  by (simp add: zones_of_edge_def yard_ix_edges yard_edge_def yard_find map_filter_simps)
    (simp add: find_in_tree_def yard_def)

lemma yard_open_20: "\<not> is_edge_hard_blocked yard_ix 20"
proof -
  obtain z where z: "zones_of_edge yard_ix 20 = [z]" "z_id z = 2"
    using yard_zones_of_20 by auto
  then show ?thesis
    by (simp add: is_edge_hard_blocked_def yard_ix_edges yard_edge_def yard_semantics Let_def
        edge_semantics_default_def blocked_zones_for_edge_def ix_zone_policy_def yard_policies
        policy_of_keyword zone_is_wall_def zone_policy_empty_def)
qed

lemma yard_node_ids: "ix_node yard_ix 10 \<noteq> None" "ix_node yard_ix 11 \<noteq> None"
  by (simp_all add: ix_node_def yard_nodes) (simp_all add: yard_ws_def yard_vertex_def)

lemma yard_route: "route_exists yard_ix (is_edge_hard_blocked yard_ix) 10 11"
proof -
  have "open_step yard_ix (is_edge_hard_blocked yard_ix) 10 11"
    using yard_neighbors_of(1,2) yard_open_20
    by (cases "neighbors_of yard_ix 10") (auto simp: open_step_def)
  then show ?thesis using yard_node_ids by (auto simp: route_exists_def)
qed

lemma weights_neighbors:
  assumes "\<And>a. \<forall>x \<in> set (neighbors ix a). f64_le f64_zero (adj_weight x)"
    and "distinct (map fst (ix_adjacency ix))"
  shows "weights_nonneg ix"
  unfolding weights_nonneg_def list_all_iff
proof (clarify)
  fix a as x assume "(a, as) \<in> set (ix_adjacency ix)" "x \<in> set as"
  with assms(2) have "x \<in> set (neighbors ix a)" by (simp add: neighbors_def lookup_list_def)
  with assms(1) show "f64_le f64_zero (adj_weight x)" by blast
qed

lemma adjacency_distinct: "distinct (map fst (ix_adjacency (rebuild ho w)))"
proof -
  have push: "distinct (map fst m) \<Longrightarrow> distinct (map fst (foldl (\<lambda>m (k, a). push_entry k a m) m xs))"
    for m :: "(uuid \<times> adjacency list) list" and xs
  proof (induction xs arbitrary: m)
    case (Cons x xs)
    then show ?case by (cases x) (simp add: push_entry_def distinct_update)
  qed simp
  have "distinct (map fst (ix_adjacency ix)) \<Longrightarrow>
      distinct (map fst (ix_adjacency (foldl (push_adjacency w) ix es)))" for ix es
    by (induction es arbitrary: ix) (simp_all add: push_adjacency_def push)
  then show ?thesis
    by (simp add: rebuild_def Let_def index_fold_frame [where f = ix_adjacency] index_zones_def
        empty_index_def)
qed

lemma yard_weights: "weights_nonneg yard_ix"
  by (rule weights_neighbors [OF _ adjacency_distinct]) (simp add: yard_neighbors)

lemma yard_edge_data:
  "ws_edge_property yard_ws = yard_edge" "ws_get_weight yard_ws 0 = Some (Fin 2)"
  "ws_get_weight yard_ws 1 = Some (Fin 3)" "ws_get_weight yard_ws (Suc 0) = Some (Fin 3)"
  by (simp_all add: yard_ws_def)

lemma yard_lookups:
  "edge_between yard_ix 10 11 = yard_edge 0" "edge_between yard_ix 11 10 = yard_edge 0"
  "edge_between yard_ix 11 12 = yard_edge 1" "edge_between yard_ix 12 11 = yard_edge 1"
  "step_edge yard_ws 10 11 = Inr 0" "step_edge yard_ws 11 10 = Inr 0"
  "step_edge yard_ws 11 12 = Inr 1" "step_edge yard_ws 12 11 = Inr 1"
  by (simp_all add: edge_between_def yard_nodes Let_def)
    (simp_all add: yard_ws_def step_edge_def ok_or_else_def)

lemma yard_simple: "simple_graph yard_ix"
proof -
  have "step_agrees yard_ix a nb" if "nb \<in> set (neighbors_of yard_ix a)" for a nb
  proof -
    have n: "(a, tn_node_id nb, tn_edge_id nb, tn_weight nb) \<in>
        {(10, 11, 20, Fin 2), (11, 10, 20, Fin 2), (11, 12, 21, Fin 3), (12, 11, 21, Fin 3)}"
      using that by (auto simp: neighbors_of_def yard_neighbors split: if_splits)
    then show ?thesis
      by (auto simp: step_agrees_def yard_lookups yard_edge_def Let_def yard_edge_data)
  qed
  then show ?thesis by (auto simp: simple_graph_def list_all_iff)
qed

theorem search_least_cost_witness:
  "least_distance yard_ix (is_edge_hard_blocked yard_ix) (edge_traversal_penalty yard_ix) 10 11
     (sr_distance (shortest_path_search_with_penalties yard_ix 10 11))"
  using search_least_cost [OF yard_weights, of 10 11] yard_route
  by (simp add: shortest_path_search_with_penalties_def shortest_path_search_with_blocking_def dijkstra_found)

theorem plan_route_cost_witness:
  "\<exists>r p. plan_route (\<lambda>xs. xs) yard_ix 10 11 True = Some r \<and> pr_plan r = Some p
     \<and> rp_total_cost p = sr_distance (pr_search r)"
  using plan_route_cost [OF yard_simple yard_weights yard_route] by blast

lemma lane_neighbors_of:
  "map tn_edge_id (neighbors_of (lane_ix two) 10) = 20 # (if two then [21] else [])"
  "map tn_node_id (neighbors_of (lane_ix two) 10) = 11 # (if two then [11] else [])"
proof -
  have "allows_traversal_from_node \<lparr>ed_id = 20, ed_zone_ids = [], ed_properties = [(''traffic.blocked'', ''true'')]\<rparr> s"
    for s by (simp add: allows_traversal_from_node_def edge_semantics_of_keyword)
  then show "map tn_edge_id (neighbors_of (lane_ix two) 10) = 20 # (if two then [21] else [])"
    "map tn_node_id (neighbors_of (lane_ix two) 10) = 11 # (if two then [11] else [])"
    by (cases two; simp add: neighbors_of_def lane_neighbors lane_ix_edges lane_edge_def open_edge_allows)+
qed

lemma lane_blocked: "is_edge_hard_blocked (lane_ix two) 20" "\<not> is_edge_hard_blocked (lane_ix True) 21"
  by (simp_all add: is_edge_hard_blocked_def lane_ix_edges lane_edge_def lane_semantics
      edge_semantics_of_keyword edge_semantics_default_def blocked_zones_for_edge_def
      zones_of_edge_def map_filter_simps Let_def)

lemma lane_node_ids: "ix_node (lane_ix two) 10 \<noteq> None" "ix_node (lane_ix two) 11 \<noteq> None"
  by (simp_all add: ix_node_def lane_nodes lane_vertex_def)

lemma lane_route: "route_exists (lane_ix True) (is_edge_hard_blocked (lane_ix True)) 10 11"
proof -
  have "\<exists>nb \<in> set (neighbors_of (lane_ix True) 10). tn_node_id nb = 11 \<and> tn_edge_id nb = 21"
    using lane_neighbors_of [of True] by (auto simp: map_eq_Cons_conv)
  then have "open_step (lane_ix True) (is_edge_hard_blocked (lane_ix True)) 10 11"
    using lane_blocked(2) by (auto simp: open_step_def list_ex_iff)
  then show ?thesis using lane_node_ids by (auto simp: route_exists_def)
qed

lemma lane_legal: "route_exists (lane_ix False) (\<lambda>_. False) 10 11"
proof -
  have "open_step (lane_ix False) (\<lambda>_. False) 10 11"
    using lane_neighbors_of(2) [of False] by (auto simp: open_step_def map_eq_Cons_conv)
  then show ?thesis using lane_node_ids by (auto simp: route_exists_def)
qed

lemma lane_walled: "\<not> route_exists (lane_ix False) (is_edge_hard_blocked (lane_ix False)) 10 11"
proof -
  have none: "\<not> open_step (lane_ix False) (is_edge_hard_blocked (lane_ix False)) 10 b" for b
    using lane_neighbors_of(1) [of False] lane_blocked(1) [of False]
    by (auto simp: open_step_def map_eq_Cons_conv)
  show ?thesis
  proof
    assume "route_exists (lane_ix False) (is_edge_hard_blocked (lane_ix False)) 10 11"
    then have "(10, 11 :: uuid) \<in> (open_rel (lane_ix False) (is_edge_hard_blocked (lane_ix False)))\<^sup>*"
      by (simp add: route_exists_def)
    then show False by (cases rule: converse_rtranclE) (simp_all add: none)
  qed
qed

theorem policy_failure_names_walls_witness:
  "\<exists>f. diagnose_route_failure (\<lambda>xs. xs) (lane_ix False) 10 11 = Some f \<and> rf_kind f = PolicyBlocked
     \<and> rf_blocked_edge_ids f \<noteq> []"
  using policy_failure_names_walls [OF hash_order_id lane_legal lane_walled] by blast

lemma lane_open_nodes:
  assumes "open_route (lane_ix True) skip 10 11 ns"
  shows "ns = [10, 11]"
proof -
  have next_node: "b = 11" if "open_step (lane_ix True) skip 10 b" for b
    using that lane_neighbors_of(2) [of True] by (auto simp: open_step_def map_eq_Cons_conv)
  from assms obtain b ms where "ns = 10 # b # ms"
    unfolding open_route_def by (cases ns; cases "tl ns") auto
  with assms next_node show ?thesis
    by (cases ms) (auto simp: open_route_def split: if_splits)
qed

text \<open>
  When two edges join the same nodes, the plan can name the blocked one although the search went
  by the other: the search finds an unblocked route, and the plan's only edge is blocked.
\<close>

theorem parallel_edge_plan_blocked:
  "\<exists>r p. plan_route (\<lambda>xs. xs) (lane_ix True) 10 11 False = Some r \<and> sr_found (pr_search r)
     \<and> pr_plan r = Some p \<and> rp_edge_ids p = [20] \<and> is_edge_hard_blocked (lane_ix True) 20"
proof -
  let ?s = "plan_search (lane_ix True) 10 11 False"
  have found: "sr_found ?s" using lane_route by (simp add: plan_search_found)
  from build_from_search [OF found, of GraphWeight] lane_open_nodes
  have build: "build_route_plan_from_search (lane_ix True) ?s 10 11 GraphWeight =
      Some (build_route_plan (lane_ix True) 10 11 [10, 11] GraphWeight)" by blast
  have link: "edge_between (lane_ix True) 10 11 = lane_edge 0" "linked (lane_ix True) 10 11"
    by (simp_all add: edge_between_def linked_def step_edge_def lane_nodes Let_def)
      (simp_all add: lane_ws_def lane_edge_def)
  then have "plannable (lane_ix True) 10 11 [10, 11]" by (simp add: plannable_def)
  from build_ok [OF this, of GraphWeight] link(1) obtain p where
    "build_route_plan (lane_ix True) 10 11 [10, 11] GraphWeight = Inr p" "rp_edge_ids p = [20]"
    by (auto simp: lane_edge_def)
  with build found lane_blocked(1) show ?thesis by (simp add: plan_route_search)
qed

end
