(* ===== verification/Wire.thy ===== *)
theory Wire
  imports Fleet Plan
begin

text \<open>
  \<open>wire/mod.rs\<close>: the flat operations that every transport (peerbus, REST, XML) ends in. The state is
  what \<open>ServeState\<close> shares: the coordinator behind its lock, the operator's settings and the ring of
  recent decisions. A call holds the coordinator's write lock to its end, so calls are the steps of
  the program; a poisoned lock is recovered (\<open>into_inner\<close>), so taking it never fails.

  What a call reads from outside is the record \<open>call_env\<close>: the wall clock, one value per reading; the
  monotonic clock; the salt of a password hash; the bytes it draws. The functions of foreign crates
  are the record \<open>crates\<close>.
\<close>

section \<open>What a call depends on\<close>

record crates =
  xt_crypto :: crypto
  xt_did_method :: "string \<Rightarrow> string option"
  xt_did_key :: "string \<Rightarrow> (bool \<times> string) option"
  xt_wgs_from_enu :: "point \<Rightarrow> geo \<Rightarrow> geo"
  xt_enu_from_wgs :: "geo \<Rightarrow> geo \<Rightarrow> point"

record call_env =
  en_ms :: "nat \<Rightarrow> u64"  \<comment> \<open>\<open>now_ms\<close>, by the number of the reading\<close>
  en_now :: nat  \<comment> \<open>\<open>Instant::now\<close>\<close>
  en_salt :: string
  en_draw :: random_draw

definition parse_key :: "crates \<Rightarrow> string \<Rightarrow> key_error + key" where
  "parse_key xt raw = key_parse (xt_did_method xt) (xt_did_key xt) raw"

section \<open>State\<close>

type_synonym u8 = "8 word"

datatype fleet_event_kind =
  EvRegistered | EvGranted | EvDenied | EvReleased | EvSwept | EvExpired | EvWorkspaceReplaced

record fleet_event =
  fe_at_ms :: u64
  fe_kind :: fleet_event_kind
  fe_robot_id :: "robot_id option"
  fe_zone_ids :: "uuid list"
  fe_zone_names :: "msg list"
  fe_reason :: u8
  fe_blocked :: "u64 option"

record serve_state =
  sv_coord :: coordinator
  sv_allow_default_key :: bool
  sv_admin_key :: "key option"
  sv_events :: "fleet_event list"

definition max_claim_targets :: nat where "max_claim_targets = 64"
definition max_zone_nesting :: nat where "max_zone_nesting = 64"
definition max_events :: nat where "max_events = 256"

definition default_key :: string where "default_key = ''0''"

definition serve_new :: "coordinator \<Rightarrow> serve_state" where
  "serve_new c = \<lparr>sv_coord = c, sv_allow_default_key = False, sv_admin_key = None, sv_events = []\<rparr>"

definition record_event :: "serve_state \<Rightarrow> fleet_event \<Rightarrow> serve_state" where
  "record_event sv ev =
     (let events = (if max_events \<le> length (sv_events sv) then tl (sv_events sv) else sv_events sv)
      in sv\<lparr>sv_events := events @ [ev]\<rparr>)"

datatype api_error = ApiError msg

definition with_kdf_params :: "serve_state \<Rightarrow> kdf_config \<Rightarrow> serve_state" where
  "with_kdf_params sv params = sv\<lparr>sv_coord := set_kdf_params (sv_coord sv) params\<rparr>"

definition with_default_key_allowed :: "serve_state \<Rightarrow> bool \<Rightarrow> serve_state" where
  "with_default_key_allowed sv allow = sv\<lparr>sv_allow_default_key := allow\<rparr>"

definition with_admin_key :: "crates \<Rightarrow> serve_state \<Rightarrow> string option \<Rightarrow> key_error + serve_state" where
  "with_admin_key xt sv raw =
     (case raw of
        None \<Rightarrow> Inr (sv\<lparr>sv_admin_key := None\<rparr>)
      | Some raw \<Rightarrow>
          (case parse_key xt raw of
             Inl e \<Rightarrow> Inl e | Inr k \<Rightarrow> Inr (sv\<lparr>sv_admin_key := Some k\<rparr>)))"

definition check_workspace_key :: "crates \<Rightarrow> serve_state \<Rightarrow> string option \<Rightarrow> api_error + unit" where
  "check_workspace_key xt sv presented =
     (case sv_admin_key sv of
        None \<Rightarrow> Inl (ApiError (Lit ''workspace replacement is disabled: set an operator key (SYNCBOT_ADMIN_KEY) to enable it''))
      | Some expected \<Rightarrow>
     (case presented of
        None \<Rightarrow> Inl (ApiError (Lit ''workspace replacement requires the operator key''))
      | Some raw \<Rightarrow>
     (case parse_key xt raw of
        Inl e \<Rightarrow> Inl (ApiError (Lit ''operator key is malformed''))
      | Inr parsed \<Rightarrow>
          if key_matches expected parsed then Inr ()
          else Inl (ApiError (Lit ''operator key does not match'')))))"

section \<open>Replies\<close>

text \<open>The reasons: \<open>0\<close> and \<open>1\<close> are the same on every endpoint.\<close>

abbreviation reason_ok :: u8 where "reason_ok \<equiv> 0"
abbreviation reason_mismatched_key :: u8 where "reason_mismatched_key \<equiv> 1"
abbreviation register_already_registered :: u8 where "register_already_registered \<equiv> 2"
abbreviation register_bad_id :: u8 where "register_bad_id \<equiv> 3"
abbreviation register_unsupported_key :: u8 where "register_unsupported_key \<equiv> 4"
abbreviation register_not_permitted :: u8 where "register_not_permitted \<equiv> 5"
abbreviation register_fleet_full :: u8 where "register_fleet_full \<equiv> 6"
abbreviation heartbeat_not_registered :: u8 where "heartbeat_not_registered \<equiv> 2"
abbreviation heartbeat_bad_position :: u8 where "heartbeat_bad_position \<equiv> 3"
abbreviation claim_conflict :: u8 where "claim_conflict \<equiv> 2"
abbreviation claim_capacity :: u8 where "claim_capacity \<equiv> 3"
abbreviation claim_unknown_resource :: u8 where "claim_unknown_resource \<equiv> 4"
abbreviation claim_bad_request :: u8 where "claim_bad_request \<equiv> 5"
abbreviation release_no_such_lease :: u8 where "release_no_such_lease \<equiv> 2"
abbreviation release_unknown_or_bad :: u8 where "release_unknown_or_bad \<equiv> 3"

record flat_reply =
  fr_decision :: u8
  fr_reason :: u8
  fr_blocked :: "u64 option"

definition reply_ok :: flat_reply where
  "reply_ok = \<lparr>fr_decision = 1, fr_reason = reason_ok, fr_blocked = None\<rparr>"

definition deny :: "u8 \<Rightarrow> flat_reply" where
  "deny r = \<lparr>fr_decision = 0, fr_reason = r, fr_blocked = None\<rparr>"

definition deny_blocked :: "u8 \<Rightarrow> u64 \<Rightarrow> flat_reply" where
  "deny_blocked r blocked = \<lparr>fr_decision = 0, fr_reason = r, fr_blocked = Some blocked\<rparr>"

definition plain_event :: "u64 \<Rightarrow> fleet_event_kind \<Rightarrow> robot_id option \<Rightarrow> fleet_event" where
  "plain_event at_ms kind rid =
     \<lparr>fe_at_ms = at_ms, fe_kind = kind, fe_robot_id = rid, fe_zone_ids = [], fe_zone_names = [],
      fe_reason = reason_ok, fe_blocked = None\<rparr>"

definition key_ok :: "crates \<Rightarrow> nat \<Rightarrow> coordinator \<Rightarrow> robot_id \<Rightarrow> string \<Rightarrow> bool \<times> coordinator" where
  "key_ok xt now c rid key_raw =
     (case parse_key xt key_raw of
        Inr k \<Rightarrow> validate_key (xt_crypto xt) now c rid k
      | Inl e \<Rightarrow> (False, c))"

section \<open>Registration\<close>

fun refusal_reason :: "refusal \<Rightarrow> u8" where
  "refusal_reason AlreadyRegistered = register_already_registered"
| "refusal_reason NotProvisioned = register_not_permitted"
| "refusal_reason Full = register_fleet_full"

definition flat_register ::
  "crates \<Rightarrow> call_env \<Rightarrow> string \<Rightarrow> string \<Rightarrow> u64 option \<Rightarrow> serve_state \<Rightarrow> flat_reply \<times> serve_state"
where
  "flat_register xt e robot_raw key_raw alive_secs sv =
     (case parse_key xt key_raw of
        Inl (Unsupported why) \<Rightarrow> (deny register_unsupported_key, sv)
      | Inl Malformed \<Rightarrow> (deny reason_mismatched_key, sv)
      | Inr k \<Rightarrow>
          if \<not> sv_allow_default_key sv \<and> str_trim key_raw = default_key
          then (deny register_not_permitted, sv)
          else if is_did_key k then (deny register_not_permitted, sv)
          else
            (case resolve_or_mint_robot_id (xt_crypto xt) (sv_coord sv) robot_raw of
               (None, c) \<Rightarrow> (deny register_bad_id, sv\<lparr>sv_coord := c\<rparr>)
             | (Some rid, c) \<Rightarrow>
                 (let (registered, c') = register_with_key (xt_crypto xt) (en_salt e) (en_now e) c rid k in
                  case registration_refusal c rid of
                    Some why \<Rightarrow> (deny (refusal_reason why), sv\<lparr>sv_coord := c'\<rparr>)
                  | None \<Rightarrow>
                      if registered then
                        (let interval = unwrap_or alive_secs default_alive_secs;
                             sv' = sv\<lparr>sv_coord := set_alive c' rid interval (en_ms e 0)\<rparr>
                         in (reply_ok, record_event sv' (plain_event (en_ms e 1) EvRegistered (Some rid))))
                      else (deny register_already_registered, sv\<lparr>sv_coord := c'\<rparr>))))"

definition known_robot :: "crates \<Rightarrow> coordinator \<Rightarrow> string \<Rightarrow> robot_id option" where
  \<comment> \<open>\<open>Some(id) if coord.has_robot(id)\<close>\<close>
  "known_robot xt c robot_raw =
     (case resolve_robot_id (xt_crypto xt) c robot_raw of
        Some rid \<Rightarrow> if has_robot c rid then Some rid else None
      | None \<Rightarrow> None)"

definition flat_deregister ::
  "crates \<Rightarrow> call_env \<Rightarrow> string \<Rightarrow> string \<Rightarrow> serve_state \<Rightarrow> flat_reply \<times> serve_state"
where
  "flat_deregister xt e robot_raw key_raw sv =
     (case known_robot xt (sv_coord sv) robot_raw of
        None \<Rightarrow> (deny heartbeat_not_registered, sv)
      | Some rid \<Rightarrow>
          (case key_ok xt (en_now e) (sv_coord sv) rid key_raw of
             (False, c) \<Rightarrow> (deny reason_mismatched_key, sv\<lparr>sv_coord := c\<rparr>)
           | (True, c) \<Rightarrow>
               (reply_ok,
                record_event (sv\<lparr>sv_coord := snd (unregister_robot c rid)\<rparr>)
                  (plain_event (en_ms e 0) EvReleased (Some rid)))))"

section \<open>Heartbeats\<close>

datatype reported_position = GlobalPos f64 f64 f64 | LocalPos f64 f64 f64

fun resolve_position :: "crates \<Rightarrow> index option \<Rightarrow> reported_position \<Rightarrow> robot_position" where
  "resolve_position xt oix (GlobalPos lat lon alt) = from_global (xt_enu_from_wgs xt) lat lon alt oix"
| "resolve_position xt oix (LocalPos x y z) = from_local (xt_wgs_from_enu xt) x y z oix"

fun f64_is_finite :: "f64 \<Rightarrow> bool" where
  "f64_is_finite (Fin q) = True"
| "f64_is_finite _ = False"

fun position_is_finite :: "reported_position \<Rightarrow> bool" where
  "position_is_finite (GlobalPos lat lon alt) =
     (f64_is_finite lat \<and> f64_is_finite lon \<and> f64_is_finite alt
      \<and> f64_le (Fin (- 90)) lat \<and> f64_le lat (Fin 90)
      \<and> f64_le (Fin (- 180)) lon \<and> f64_le lon (Fin 180))"
| "position_is_finite (LocalPos x y z) = (f64_is_finite x \<and> f64_is_finite y \<and> f64_is_finite z)"

record reported_attitude =
  at_roll :: "f64 option"
  at_pitch :: "f64 option"
  at_yaw :: "f64 option"

definition attitude_is_finite :: "reported_attitude \<Rightarrow> bool" where
  "attitude_is_finite a = list_all (map_or True f64_is_finite) [at_roll a, at_pitch a, at_yaw a]"

definition attitude_heading :: "reported_attitude \<Rightarrow> robot_heading option" where
  "attitude_heading a = map_option (from_rpy (at_roll a) (at_pitch a)) (at_yaw a)"

definition attitude_of_yaw :: "f64 option \<Rightarrow> reported_attitude" where
  "attitude_of_yaw yaw = \<lparr>at_roll = None, at_pitch = None, at_yaw = yaw\<rparr>"

text \<open>The body of a heartbeat, and the frame it reports a position in.\<close>

record flat_heartbeat_body =
  hb_key :: string
  hb_zone :: "64 word option"
  hb_node :: "u64 option"
  hb_edge :: "u64 option"
  hb_lat :: "f64 option"
  hb_lon :: "f64 option"
  hb_alt :: "f64 option"
  hb_x :: "f64 option"
  hb_y :: "f64 option"
  hb_z :: "f64 option"
  hb_yaw :: "f64 option"
  hb_roll :: "f64 option"
  hb_pitch :: "f64 option"

definition hb_attitude :: "flat_heartbeat_body \<Rightarrow> reported_attitude" where
  "hb_attitude b = \<lparr>at_roll = hb_roll b, at_pitch = hb_pitch b, at_yaw = hb_yaw b\<rparr>"

definition hb_position :: "flat_heartbeat_body \<Rightarrow> string + reported_position option" where
  "hb_position b =
     (let global = (hb_lat b \<noteq> None \<or> hb_lon b \<noteq> None); local = (hb_x b \<noteq> None \<or> hb_y b \<noteq> None) in
      case (global, local) of
        (True, True) \<Rightarrow> Inl ''send either lat/lon or x/y, not both''
      | (False, False) \<Rightarrow> Inr None
      | (True, False) \<Rightarrow>
          (case (hb_lat b, hb_lon b) of
             (Some lat, Some lon) \<Rightarrow> Inr (Some (GlobalPos lat lon (unwrap_or (hb_alt b) f64_zero)))
           | _ \<Rightarrow> Inl ''a global position needs both lat and lon'')
      | (False, True) \<Rightarrow>
          (case (hb_x b, hb_y b) of
             (Some x, Some y) \<Rightarrow> Inr (Some (LocalPos x y (unwrap_or (hb_z b) f64_zero)))
           | _ \<Rightarrow> Inl ''a local position needs both x and y''))"

definition heartbeat_places :: "index option \<Rightarrow> u64 option \<Rightarrow> u64 option \<Rightarrow> uuid option \<times> uuid option" where
  "heartbeat_places oix node edge =
     (case oix of
        Some ix \<Rightarrow> (opt_bind node (\<lambda>n. resolve_node (RefNumeric n) ix),
                    opt_bind edge (\<lambda>n. resolve_edge (RefNumeric n) ix))
      | None \<Rightarrow> (None, None))"

definition heartbeat_apply ::
  "crates \<Rightarrow> call_env \<Rightarrow> robot_id \<Rightarrow> u64 option \<Rightarrow> u64 option \<Rightarrow> reported_position option
   \<Rightarrow> reported_attitude \<Rightarrow> coordinator \<Rightarrow> coordinator"
where
  \<comment> \<open>what an accepted heartbeat does\<close>
  "heartbeat_apply xt e rid node edge pos attitude c =
     (let tick = map_or 1 (\<lambda>s. rs_updated_at_tick s + 1) (find_robot_state c rid);
          (node_uuid, edge_uuid) = heartbeat_places (co_index c) node edge;
          c1 = snd (update_robot_progress c rid node_uuid edge_uuid tick);
          resolved = map_option (resolve_position xt (co_index c)) pos;
          c2 = snd (update_robot_pose c1 rid resolved (attitude_heading attitude) (en_ms e 0))
      in touch_robot c2 rid (en_ms e 1))"

text \<open>The reported zone is read and not used (\<open>_known_zone\<close>).\<close>

definition flat_heartbeat ::
  "crates \<Rightarrow> call_env \<Rightarrow> string \<Rightarrow> string \<Rightarrow> 64 word option \<Rightarrow> u64 option \<Rightarrow> u64 option
   \<Rightarrow> reported_position option \<Rightarrow> reported_attitude \<Rightarrow> serve_state \<Rightarrow> flat_reply \<times> serve_state"
where
  "flat_heartbeat xt e robot_raw key_raw zone node edge pos attitude sv =
     (case known_robot xt (sv_coord sv) robot_raw of
        None \<Rightarrow> (deny heartbeat_not_registered, sv)
      | Some rid \<Rightarrow>
          (case key_ok xt (en_now e) (sv_coord sv) rid key_raw of
             (False, c) \<Rightarrow> (deny reason_mismatched_key, sv\<lparr>sv_coord := c\<rparr>)
           | (True, c) \<Rightarrow>
               if \<not> map_or True position_is_finite pos
               then (deny heartbeat_bad_position, sv\<lparr>sv_coord := c\<rparr>)
               else if \<not> attitude_is_finite attitude
               then (deny heartbeat_bad_position, sv\<lparr>sv_coord := c\<rparr>)
               else (reply_ok,
                     sv\<lparr>sv_coord := heartbeat_apply xt e rid node edge pos attitude c\<rparr>)))"

section \<open>Claims\<close>

fun resolve_kind :: "target_kind \<Rightarrow> u64 \<Rightarrow> index \<Rightarrow> uuid option" where
  "resolve_kind TZone n ix = resolve_zone (RefNumeric n) ix"
| "resolve_kind TNode n ix = resolve_node (RefNumeric n) ix"
| "resolve_kind TEdge n ix = resolve_edge (RefNumeric n) ix"

definition target_name :: "index \<Rightarrow> claim_target \<Rightarrow> msg" where
  "target_name ix t =
     (case ct_kind t of
        TZone \<Rightarrow>
          (case ix_zone ix (ct_resource_id t) of
             Some z \<Rightarrow> Lit (z_name z)
           | None \<Rightarrow> Format ''zone {}'' [AUuid (ct_resource_id t)])
      | TNode \<Rightarrow> Format ''node {}'' [AUuid (ct_resource_id t)]
      | TEdge \<Rightarrow> Format ''edge {}'' [AUuid (ct_resource_id t)])"

definition resource_names :: "index \<Rightarrow> claim_target list \<Rightarrow> msg list" where
  "resource_names ix targets = map (target_name ix) targets"

definition numeric_alias_for :: "index \<Rightarrow> claim_target \<Rightarrow> u64 option" where
  "numeric_alias_for ix t =
     parse_numeric_id
       (case ct_kind t of
          TZone \<Rightarrow> ix_zone_property ix (ct_resource_id t) numeric_id_property
        | TNode \<Rightarrow> opt_bind (ix_node ix (ct_resource_id t))
                     (\<lambda>node. map_of (nd_properties node) numeric_id_property)
        | TEdge \<Rightarrow> ix_edge_property ix (ct_resource_id t) numeric_id_property)"

text \<open>The loop over the requested ids: \<open>Inl\<close> is the first that does not resolve.\<close>

fun resolve_targets ::
  "index \<Rightarrow> (target_kind \<times> u64) list \<Rightarrow> (uuid \<times> u64) list \<Rightarrow> claim_target list
   \<Rightarrow> u64 + (uuid \<times> u64) list \<times> claim_target list"
where
  "resolve_targets ix [] numeric targets = Inr (numeric, targets)"
| "resolve_targets ix ((kind, i) # requested) numeric targets =
     (case resolve_kind kind i ix of
        None \<Rightarrow> Inl i
      | Some resource \<Rightarrow>
          resolve_targets ix requested (bt_insert resource i numeric)
            (targets @ [\<lparr>ct_kind = kind, ct_resource_id = resource\<rparr>]))"

definition claim_access :: "u8 option \<Rightarrow> access_mode option" where
  "claim_access mode =
     (case unwrap_or mode 1 of
        m \<Rightarrow> if m = 0 \<or> m = 1 then Some Exclusive else if m = 2 then Some Shared else None)"

definition claim_window_for :: "u64 \<Rightarrow> u64 option \<Rightarrow> claim_window" where
  "claim_window_for now lease_seconds =
     (let seconds = unwrap_or lease_seconds 0 in
      if seconds = 0 then window_default
      else \<lparr>cw_start_tick = Some now, cw_end_tick = Some (sat_add now (sat_mul seconds 1000))\<rparr>)"

definition wire_request ::
  "claim_id \<Rightarrow> robot_id \<Rightarrow> access_mode \<Rightarrow> claim_window \<Rightarrow> claim_target list \<Rightarrow> claim_request"
where
  "wire_request i rid access w targets =
     \<lparr>cr_id = i, cr_robot_id = rid, cr_mission_id = 0, cr_access_mode = access, cr_priority = 0,
      cr_requested_at_tick = None, cr_window = w, cr_targets = targets\<rparr>"

definition blocked_id :: "index \<Rightarrow> (uuid \<times> u64) list \<Rightarrow> evaluation \<Rightarrow> u64 option" where
  "blocked_id ix numeric ev =
     opt_bind (ev_blocking_target ev) (\<lambda>t.
       case map_of numeric (ct_resource_id t) of
         Some i \<Rightarrow> Some i | None \<Rightarrow> numeric_alias_for ix t)"

definition claim_event ::
  "u64 \<Rightarrow> fleet_event_kind \<Rightarrow> index \<Rightarrow> claim_request \<Rightarrow> u8 \<Rightarrow> u64 option \<Rightarrow> fleet_event"
where
  "claim_event at_ms kind ix r why blocked =
     \<lparr>fe_at_ms = at_ms, fe_kind = kind, fe_robot_id = Some (cr_robot_id r),
      fe_zone_ids = map ct_resource_id (cr_targets r), fe_zone_names = resource_names ix (cr_targets r),
      fe_reason = why, fe_blocked = blocked\<rparr>"

definition claim_decide ::
  "call_env \<Rightarrow> index \<Rightarrow> (uuid \<times> u64) list \<Rightarrow> claim_request \<Rightarrow> evaluation \<Rightarrow> serve_state
   \<Rightarrow> flat_reply \<times> serve_state"
where
  \<comment> \<open>after the evaluation\<close>
  "claim_decide e ix numeric r ev sv =
     (if ev_decision ev = Grant then
        (let c = sv_coord sv;
             c' = c\<lparr>co_claims := snd (upsert_request_for_robot (co_claims c) r)\<rparr>
         in (reply_ok, record_event (sv\<lparr>sv_coord := c'\<rparr>)
                         (claim_event (en_ms e 1) EvGranted ix r reason_ok None)))
      else
        (let blocked = blocked_id ix numeric ev;
             code = (if ev_denied_by_capacity ev then claim_capacity else claim_conflict)
         in (case blocked of Some b \<Rightarrow> deny_blocked code b | None \<Rightarrow> deny code,
             record_event sv (claim_event (en_ms e 1) EvDenied ix r code blocked))))"

definition claim_evaluate ::
  "call_env \<Rightarrow> index \<Rightarrow> robot_id \<Rightarrow> access_mode \<Rightarrow> claim_window \<Rightarrow> (uuid \<times> u64) list
   \<Rightarrow> claim_target list \<Rightarrow> serve_state \<Rightarrow> (flat_reply \<times> serve_state) option"
where
  \<comment> \<open>from the mint of the request's id on\<close>
  "claim_evaluate e ix rid access w numeric targets sv =
     (let (i, m) = next_request_id (co_claims (sv_coord sv));
          r = wire_request i rid access w targets
      in map_option (\<lambda>ev. claim_decide e ix numeric r ev
                          (sv\<lparr>sv_coord := (sv_coord sv)\<lparr>co_claims := m\<rparr>\<rparr>))
           (evaluate_request m r))"

text \<open>
  \<open>None\<close>: the evaluation does not return (\<open>ancestor_zones\<close> over a cycle of zone links).
\<close>

definition flat_claim_targets ::
  "crates \<Rightarrow> call_env \<Rightarrow> (target_kind \<times> u64) list \<Rightarrow> string \<Rightarrow> string \<Rightarrow> u8 option \<Rightarrow> u64 option
   \<Rightarrow> serve_state \<Rightarrow> (flat_reply \<times> serve_state) option"
where
  "flat_claim_targets xt e requested key_raw robot_raw mode lease_seconds sv =
     (case claim_access mode of
        None \<Rightarrow> Some (deny claim_bad_request, sv)
      | Some access \<Rightarrow>
          (let now = en_ms e 0;
               c = snd (expire_claims (sv_coord sv) now);
               w = claim_window_for now lease_seconds
           in case resolve_robot_id (xt_crypto xt) c robot_raw of
                None \<Rightarrow> Some (deny reason_mismatched_key, sv\<lparr>sv_coord := c\<rparr>)
              | Some rid \<Rightarrow>
                  (let (accepted, c) = key_ok xt (en_now e) c rid key_raw; sv = sv\<lparr>sv_coord := c\<rparr> in
                   if \<not> accepted then Some (deny reason_mismatched_key, sv)
                   else if requested = [] \<or> max_claim_targets < length requested
                   then Some (deny claim_bad_request, sv)
                   else case co_index c of
                     None \<Rightarrow> Some (deny claim_bad_request, sv)
                   | Some ix \<Rightarrow>
                       (case resolve_targets ix requested [] [] of
                          Inl i \<Rightarrow> Some (deny_blocked claim_unknown_resource i, sv)
                        | Inr (numeric, targets) \<Rightarrow>
                            claim_evaluate e ix rid access w numeric targets sv))))"

definition flat_claim ::
  "crates \<Rightarrow> call_env \<Rightarrow> target_kind \<Rightarrow> string \<Rightarrow> string \<Rightarrow> u64 list \<Rightarrow> u8 option \<Rightarrow> u64 option
   \<Rightarrow> serve_state \<Rightarrow> (flat_reply \<times> serve_state) option"
where
  "flat_claim xt e kind key_raw robot_raw ids mode lease_seconds sv =
     flat_claim_targets xt e (map (Pair kind) ids) key_raw robot_raw mode lease_seconds sv"

definition flat_claim_route ::
  "crates \<Rightarrow> call_env \<Rightarrow> string \<Rightarrow> string \<Rightarrow> u64 list \<Rightarrow> u64 list \<Rightarrow> u8 option \<Rightarrow> u64 option
   \<Rightarrow> serve_state \<Rightarrow> (flat_reply \<times> serve_state) option"
where
  "flat_claim_route xt e key_raw robot_raw nodes edges mode lease_seconds sv =
     flat_claim_targets xt e (map (Pair TNode) nodes @ map (Pair TEdge) edges) key_raw robot_raw
       mode lease_seconds sv"

definition flat_release ::
  "crates \<Rightarrow> call_env \<Rightarrow> target_kind \<Rightarrow> string \<Rightarrow> string \<Rightarrow> u64 \<Rightarrow> serve_state \<Rightarrow> flat_reply \<times> serve_state"
where
  "flat_release xt e kind key_raw robot_raw i sv =
     (case resolve_robot_id (xt_crypto xt) (sv_coord sv) robot_raw of
        None \<Rightarrow> (deny reason_mismatched_key, sv)
      | Some rid \<Rightarrow>
          (let (accepted, c) = key_ok xt (en_now e) (sv_coord sv) rid key_raw; sv = sv\<lparr>sv_coord := c\<rparr> in
           if \<not> accepted then (deny reason_mismatched_key, sv)
           else case co_index c of
             None \<Rightarrow> (deny release_unknown_or_bad, sv)
           | Some ix \<Rightarrow>
               (case resolve_kind kind i ix of
                  None \<Rightarrow> (deny release_unknown_or_bad, sv)
                | Some resource \<Rightarrow>
                    (let (released, m) = release_request_for_robot_target (co_claims c) rid resource in
                     if released
                     then (reply_ok,
                           record_event (sv\<lparr>sv_coord := c\<lparr>co_claims := m\<rparr>\<rparr>)
                             ((plain_event (en_ms e 0) EvReleased (Some rid))
                                \<lparr>fe_zone_ids := [resource],
                                  fe_zone_names := resource_names ix [\<lparr>ct_kind = kind, ct_resource_id = resource\<rparr>]\<rparr>))
                     else (deny release_no_such_lease, sv\<lparr>sv_coord := c\<lparr>co_claims := m\<rparr>\<rparr>)))))"

section \<open>Challenges and proofs\<close>

record challenge_view =
  cv_nonce :: string
  cv_expires_in :: u64

record token_view =
  tv_token :: string
  tv_expires_in :: u64

definition flat_challenge ::
  "crates \<Rightarrow> call_env \<Rightarrow> string \<Rightarrow> serve_state \<Rightarrow> (api_error + challenge_view) \<times> serve_state"
where
  "flat_challenge xt e robot_raw sv =
     (case resolve_or_mint_robot_id (xt_crypto xt) (sv_coord sv) robot_raw of
        (None, c) \<Rightarrow> (Inl (ApiError (Format ''unknown robot id {robot_raw:?}'' [AStr robot_raw])),
                      sv\<lparr>sv_coord := c\<rparr>)
      | (Some rid, c) \<Rightarrow>
          (let (nonce, c) = issue_challenge (en_draw e) (en_now e) c rid; sv = sv\<lparr>sv_coord := c\<rparr> in
           if nonce = [] then (Inl (ApiError (Lit ''could not generate a challenge'')), sv)
           else (Inr \<lparr>cv_nonce = concat (map hex_byte nonce), cv_expires_in = 30\<rparr>, sv)))"

text \<open>
  \<open>u8::from_str_radix(_, 16)\<close> of two bytes takes a leading plus sign. A \<open>&str\<close> is its UTF-8 bytes;
  slicing it inside a character panics.
\<close>

definition hex_value :: "char \<Rightarrow> nat option" where
  "hex_value ch =
     (let n = of_char ch :: nat in
      if 48 \<le> n \<and> n \<le> 57 then Some (n - 48)
      else if 97 \<le> n \<and> n \<le> 102 then Some (n - 87)
      else if 65 \<le> n \<and> n \<le> 70 then Some (n - 55)
      else None)"

definition from_str_radix_16 :: "char \<Rightarrow> char \<Rightarrow> char option" where
  "from_str_radix_16 a b =
     (case hex_value b of
        None \<Rightarrow> None
      | Some lo \<Rightarrow>
          if a = CHR ''+'' then Some (char_of lo)
          else map_option (\<lambda>hi. char_of (16 * hi + lo)) (hex_value a))"

definition is_char_boundary :: "string \<Rightarrow> bool" where
  \<comment> \<open>of the start of the rest of a string\<close>
  "is_char_boundary rest =
     (case rest of [] \<Rightarrow> True | ch # _ \<Rightarrow> \<not> (128 \<le> (of_char ch :: nat) \<and> of_char ch < (192 :: nat)))"

datatype 'a run = Panics | Returns 'a

fun decode_pairs :: "string \<Rightarrow> string option run" where
  "decode_pairs (a # b # rest) =
     (if \<not> is_char_boundary (a # b # rest) \<or> \<not> is_char_boundary rest then Panics
      else case from_str_radix_16 a b of
        None \<Rightarrow> Returns None
      | Some v \<Rightarrow>
          (case decode_pairs rest of
             Panics \<Rightarrow> Panics | Returns r \<Rightarrow> Returns (map_option (Cons v) r)))"
| "decode_pairs _ = Returns (Some [])"

definition decode_hex :: "string \<Rightarrow> string option run" where
  "decode_hex hex =
     (let hex = str_trim hex in
      if odd (length hex) \<or> hex = [] then Returns None else decode_pairs hex)"

definition flat_prove ::
  "crates \<Rightarrow> call_env \<Rightarrow> string \<Rightarrow> string \<Rightarrow> string \<Rightarrow> serve_state
   \<Rightarrow> ((api_error + token_view) \<times> serve_state) run"
where
  "flat_prove xt e robot_raw did signature_hex sv =
     (case parse_key xt did of
        Inr (DidKey pk) \<Rightarrow>
          (case decode_hex signature_hex of
             Panics \<Rightarrow> Panics
           | Returns None \<Rightarrow> Returns (Inl (ApiError (Lit ''signature must be hex encoded'')), sv)
           | Returns (Some signature) \<Rightarrow>
               (case resolve_or_mint_robot_id (xt_crypto xt) (sv_coord sv) robot_raw of
                  (None, c) \<Rightarrow>
                    Returns (Inl (ApiError (Format ''unknown robot id {robot_raw:?}'' [AStr robot_raw])),
                             sv\<lparr>sv_coord := c\<rparr>)
                | (Some rid, c) \<Rightarrow>
                    (case prove_identity (xt_crypto xt) (en_draw e) (en_now e) c rid pk signature of
                       (None, c) \<Rightarrow>
                         Returns (Inl (ApiError (Lit ''challenge was not answered correctly'')), sv\<lparr>sv_coord := c\<rparr>)
                     | (Some token, c) \<Rightarrow>
                         Returns (Inr \<lparr>tv_token = token, tv_expires_in = 3600\<rparr>, sv\<lparr>sv_coord := c\<rparr>))))
      | _ \<Rightarrow> Returns (Inl (ApiError (Lit ''expected a did:key identity'')), sv))"

section \<open>Sweeping\<close>

fun record_swept :: "(nat \<Rightarrow> u64) \<Rightarrow> nat \<Rightarrow> robot_id list \<Rightarrow> serve_state \<Rightarrow> serve_state" where
  "record_swept ms n [] sv = sv"
| "record_swept ms n (rid # rids) sv =
     record_swept ms (Suc n) rids (record_event sv (plain_event (ms n) EvSwept (Some rid)))"

definition wire_sweep :: "call_env \<Rightarrow> serve_state \<Rightarrow> robot_id list \<times> serve_state" where
  \<comment> \<open>\<open>wire::sweep_inactive\<close>\<close>
  "wire_sweep e sv =
     (let now = en_ms e 0;
          (expired, c) = expire_claims (sv_coord sv) now;
          sv = (if 0 < expired then record_event sv (plain_event now EvExpired None) else sv);
          (swept, c) = sweep_inactive c now
      in (swept, record_swept (en_ms e) 1 swept (sv\<lparr>sv_coord := c\<rparr>)))"

section \<open>Replacing the workspace\<close>

text \<open>
  \<open>parse\<close> is \<open>serde_json\<close> on \<open>zoneout::WorkspaceJson\<close> (the text of its error, or the name and the
  document), \<open>from_wire\<close> is \<open>Workspace::from_wire\<close>.
\<close>

record accepted_workspace =
  wa_name :: string
  wa_root_zone_id :: uuid
  wa_zones :: nat
  wa_nodes :: nat
  wa_zones_without_numeric_id :: "string list"
  wa_warnings :: "msg list"
  wa_stale_claims :: nat

definition issue_messages :: "severity \<Rightarrow> validation_issue list \<Rightarrow> msg list" where
  "issue_messages s issues = map vi_message (filter (\<lambda>i. vi_severity i = s) issues)"

definition is_stale :: "index \<Rightarrow> claim_request \<Rightarrow> bool" where
  "is_stale ix r = list_ex (target_missing ix) (cr_targets r)"

definition workspace_zones :: "index \<Rightarrow> (api_error + uuid \<times> zone list) option" where
  \<comment> \<open>the root zone, then everything below it\<close>
  "workspace_zones ix =
     (case root_zone_id ix of
        None \<Rightarrow> Some (Inl (ApiError (Lit ''workspace has no root zone'')))
      | Some rid \<Rightarrow>
          (case ix_zone ix rid of
             None \<Rightarrow> Some (Inl (ApiError (Lit ''root zone is missing from index'')))
           | Some top_zone \<Rightarrow>
               map_option (\<lambda>zs. Inr (rid, top_zone # zs)) (descendant_zones ix rid)))"

definition accept_workspace ::
  "call_env \<Rightarrow> string \<Rightarrow> index \<Rightarrow> validation_issue list \<Rightarrow> uuid \<Rightarrow> zone list \<Rightarrow> serve_state
   \<Rightarrow> accepted_workspace \<times> serve_state"
where
  "accept_workspace e name ix issues rid zones sv =
     (let accepted =
        \<lparr>wa_name = name, wa_root_zone_id = rid, wa_zones = length zones,
         wa_nodes = length (ws_vertices (ix_workspace ix)),
         wa_zones_without_numeric_id =
           map z_name (filter (\<lambda>z. map_of (z_properties z) numeric_id_property = None) zones),
         wa_warnings = issue_messages Warning issues,
         wa_stale_claims = length (filter (is_stale ix) (cm_requests (co_claims (sv_coord sv))))\<rparr>
      in (accepted,
          record_event (sv\<lparr>sv_coord := co_bind_index (sv_coord sv) ix\<rparr>)
            ((plain_event (en_ms e 0) EvWorkspaceReplaced None)\<lparr>fe_zone_names := [Lit name]\<rparr>)))"

definition set_workspace ::
  "crates \<Rightarrow> (uuid list \<Rightarrow> uuid list) \<Rightarrow> ((uuid \<times> nat) list \<Rightarrow> (uuid \<times> nat) list)
   \<Rightarrow> (string \<Rightarrow> string + string \<times> 'w) \<Rightarrow> ('w \<Rightarrow> string + workspace)
   \<Rightarrow> call_env \<Rightarrow> string \<Rightarrow> string option \<Rightarrow> serve_state
   \<Rightarrow> ((api_error + accepted_workspace) \<times> serve_state) option"
where
  "set_workspace xt ho hm parse from_wire e document key sv =
     (case check_workspace_key xt sv key of
        Inl err \<Rightarrow> Some (Inl err, sv)
      | Inr u \<Rightarrow>
     (case parse document of
        Inl err \<Rightarrow> Some (Inl (ApiError (Format ''workspace is not valid zoneout JSON: {err}'' [AStr err])), sv)
      | Inr (name, wire) \<Rightarrow>
     (case from_wire wire of
        Inl err \<Rightarrow> Some (Inl (ApiError (Format ''workspace is not loadable: {err}'' [AStr err])), sv)
      | Inr workspace \<Rightarrow>
          (let ix = rebuild ho workspace; depth = max_zone_depth ix; issues = validation_issues ho hm ix;
               errors = issue_messages Error issues
           in if max_zone_nesting < depth
              then Some (Inl (ApiError (Format ''workspace zone tree is {depth} deep; the limit is {MAX_ZONE_DEPTH}''
                            [AU64 (of_nat depth), AU64 (of_nat max_zone_nesting)])), sv)
              else if errors \<noteq> []
              then Some (Inl (ApiError (Format ''refusing a workspace with validation errors: {}''
                            (map AMsg errors))), sv)
              else map_option (\<lambda>r. case r of
                       Inl err \<Rightarrow> (Inl err, sv)
                     | Inr (rid, zones) \<Rightarrow>
                         (case accept_workspace e name ix issues rid zones sv of
                            (accepted, sv') \<Rightarrow> (Inr accepted, sv')))
                   (workspace_zones ix)))))"

section \<open>Views\<close>

record zone_view =
  zv_id :: uuid
  zv_numeric_id :: "u64 option"
  zv_name :: string
  zv_kind :: string
  zv_parent_id :: "uuid option"
  zv_child_ids :: "uuid list"
  zv_node_ids :: "uuid list"
  zv_properties :: props
  zv_datum :: geo

definition view_zone :: "(zone \<Rightarrow> geo) \<Rightarrow> index \<Rightarrow> zone \<Rightarrow> zone_view" where
  \<comment> \<open>\<open>zone_view\<close>; the datum of a zone is an accessor of \<open>zoneout\<close>\<close>
  "view_zone zone_datum ix z =
     \<lparr>zv_id = z_id z, zv_numeric_id = parse_numeric_id (map_of (z_properties z) numeric_id_property),
      zv_name = z_name z, zv_kind = z_kind z,
      zv_parent_id = map_option z_id (parent_zone ix (z_id z)),
      zv_child_ids = map z_id (child_zones ix (z_id z)), zv_node_ids = z_node_ids z,
      zv_properties = z_properties z, zv_datum = zone_datum z\<rparr>"

abbreviation no_index_error :: api_error where
  "no_index_error \<equiv> ApiError (Lit ''coordinator has no WorkspaceIndex bound'')"

definition list_zones :: "(zone \<Rightarrow> geo) \<Rightarrow> serve_state \<Rightarrow> (api_error + zone_view list) option" where
  "list_zones zone_datum sv =
     (case co_index (sv_coord sv) of
        None \<Rightarrow> Some (Inl no_index_error)
      | Some ix \<Rightarrow>
          map_option (\<lambda>r. case r of
              Inl err \<Rightarrow> Inl err
            | Inr (rid, zones) \<Rightarrow> Inr (map (view_zone zone_datum ix) zones))
            (workspace_zones ix))"

definition find_zone :: "(zone \<Rightarrow> geo) \<Rightarrow> (resource_ref \<Rightarrow> msg) \<Rightarrow> serve_state \<Rightarrow> resource_ref
  \<Rightarrow> api_error + zone_view"
where
  \<comment> \<open>\<open>shown\<close> is the derived \<open>Debug\<close> of the reference\<close>
  "find_zone zone_datum shown sv i =
     (case co_index (sv_coord sv) of
        None \<Rightarrow> Inl no_index_error
      | Some ix \<Rightarrow>
     (case resolve_zone i ix of
        None \<Rightarrow> Inl (ApiError (Format ''unknown zone id {:?}'' [AMsg (shown i)]))
      | Some zid \<Rightarrow>
     (case ix_zone ix zid of
        None \<Rightarrow> Inl (ApiError (Format ''unknown zone id {zone_id}'' [AUuid zid]))
      | Some z \<Rightarrow> Inr (view_zone zone_datum ix z))))"

record route_query =
  pq_start_node_id :: resource_ref
  pq_goal_node_id :: resource_ref
  pq_use_penalties :: bool

record route_answer =
  ps_found :: bool
  ps_distance :: f64
  ps_plan :: "route_plan option"
  ps_failure :: "route_failure option"

definition plan_route_request ::
  "(uuid list \<Rightarrow> uuid list) \<Rightarrow> (resource_ref \<Rightarrow> msg) \<Rightarrow> serve_state \<Rightarrow> route_query
   \<Rightarrow> (api_error + route_answer) option"
where
  "plan_route_request ho shown sv q =
     (case co_index (sv_coord sv) of
        None \<Rightarrow> Some (Inl no_index_error)
      | Some ix \<Rightarrow>
     (case resolve_node (pq_start_node_id q) ix of
        None \<Rightarrow> Some (Inl (ApiError (Format ''unknown start node id {:?}'' [AMsg (shown (pq_start_node_id q))])))
      | Some start \<Rightarrow>
     (case resolve_node (pq_goal_node_id q) ix of
        None \<Rightarrow> Some (Inl (ApiError (Format ''unknown goal node id {:?}'' [AMsg (shown (pq_goal_node_id q))])))
      | Some goal \<Rightarrow>
          map_option (\<lambda>r. Inr \<lparr>ps_found = sr_found (pr_search r), ps_distance = sr_distance (pr_search r),
                               ps_plan = pr_plan r, ps_failure = pr_failure r\<rparr>)
            (plan_route ho ix start goal (pq_use_penalties q)))))"

text \<open>The field \<open>distance\<close> on the wire (\<open>unreachable_distance\<close>): JSON has no infinity.\<close>

definition distance_serialize :: "f64 \<Rightarrow> f64 option" where
  "distance_serialize d = (if f64_is_finite d then Some d else None)"

definition distance_deserialize :: "f64 option \<Rightarrow> f64" where
  "distance_deserialize r = unwrap_or r PInf"

record fleet_view =
  fs_robots :: "robot_state list"
  fs_requests :: "claim_request list"
  fs_leases :: "lease list"
  fs_workspace_root_zone_id :: "uuid option"
  fs_inactive_robot_ids :: "robot_id list"
  fs_events :: "fleet_event list"
  fs_now_ms :: u64
  fs_datum :: "geo option"

definition fleet_snapshot :: "call_env \<Rightarrow> serve_state \<Rightarrow> fleet_view" where
  "fleet_snapshot e sv =
     (let c = sv_coord sv in
      \<lparr>fs_robots = co_robots c, fs_requests = cm_requests (co_claims c), fs_leases = cm_leases (co_claims c),
       fs_workspace_root_zone_id = opt_bind (co_index c) root_zone_id,
       fs_inactive_robot_ids = inactive_robots_at c (en_ms e 0), fs_events = sv_events sv,
       fs_now_ms = en_ms e 1, fs_datum = opt_bind (co_index c) (\<lambda>ix. ws_datum (ix_workspace ix))\<rparr>)"

record health_view =
  hl_status :: string
  hl_version :: string
  hl_datum :: "geo option"

definition health_with_datum :: "string \<Rightarrow> serve_state \<Rightarrow> health_view" where
  \<comment> \<open>the version is the package's, set by the build\<close>
  "health_with_datum version sv =
     \<lparr>hl_status = ''ok'', hl_version = version,
      hl_datum = opt_bind (co_index (sv_coord sv)) (\<lambda>ix. ws_datum (ix_workspace ix))\<rparr>"

end
