(* ===== verification/Session.thy ===== *)
theory Session
  imports Wire
begin

text \<open>
  Runs of the flat protocol. Every call of \<open>Wire.thy\<close> is a short run of coordinator calls, the steps
  of \<open>core_step\<close>; what \<open>Identity.thy\<close>, \<open>Fleet.thy\<close> and \<open>Safety.thy\<close> prove of the coordinator and of
  the claim manager therefore holds of the served state, whatever requests arrive in whatever order.
\<close>

section \<open>The coordinator calls of the protocol\<close>

text \<open>A claim is entered with room to spare: not under the last id, in lists a \<open>Vec\<close> can hold.\<close>

definition roomy :: "claim_manager \<Rightarrow> bool" where
  "roomy m = (fst (next_request_id m) \<noteq> u64_max \<and> length (cm_requests m) + length (cm_leases m) < 2 ^ 63)"

inductive core_step ::
  "crypto \<Rightarrow> (claim_manager \<Rightarrow> bool) \<Rightarrow> coordinator \<Rightarrow> event list \<Rightarrow> coordinator \<Rightarrow> bool" for cx guard where
  alive: "core_step cx guard c [] (set_alive c rid interval now)"
| touch: "core_step cx guard c [] (touch_robot c rid now)"
| expire: "core_step cx guard c [] (snd (expire_claims c now))"
| sweep: "core_step cx guard c [] (snd (sweep_inactive c now))"
| mint: "core_step cx guard c [] (snd (resolve_or_mint_robot_id cx c raw))"
| register: "\<not> is_did_key k \<Longrightarrow>
    core_step cx guard c [] (snd (register_with_verifier cx salt t c rid k cost))"
| challenge: "core_step cx guard c (if fst draw then [Challenged rid (snd draw)] else [])
    (snd (issue_challenge draw t c rid))"
| prove: "core_step cx guard c
    (if fst (prove_identity cx draw t c rid pk sig) \<noteq> None then [Proved rid pk (nonce_of c rid) sig] else [])
    (snd (prove_identity cx draw t c rid pk sig))"
| validate: "core_step cx guard c [] (snd (validate_key cx t c rid k))"
| unregister: "core_step cx guard c [] (snd (unregister_robot c rid))"
| progress: "core_step cx guard c [] (snd (update_robot_progress c rid node edge tick))"
| pose: "core_step cx guard c [] (snd (update_robot_pose c rid pos heading at_ms))"
| release: "core_step cx guard c []
    (c\<lparr>co_claims := snd (release_request_for_robot_target (co_claims c) rid resource)\<rparr>)"
| denied: "core_step cx guard c [] (c\<lparr>co_claims := snd (next_request_id (co_claims c))\<rparr>)"
| granted: "\<lbrakk> next_request_id (co_claims c) = (i, m); cr_id r = i; guard (co_claims c);
     evaluate_request m r = Some ev; ev_decision ev = Grant \<rbrakk>
   \<Longrightarrow> core_step cx guard c [] (c\<lparr>co_claims := snd (upsert_request_for_robot m r)\<rparr>)"

inductive core_run ::
  "crypto \<Rightarrow> (claim_manager \<Rightarrow> bool) \<Rightarrow> coordinator \<Rightarrow> event list \<Rightarrow> coordinator \<Rightarrow> bool" for cx guard c where
  stop: "core_run cx guard c [] c"
| more: "core_run cx guard c tr c' \<Longrightarrow> core_step cx guard c' es c'' \<Longrightarrow> core_run cx guard c (es @ tr) c''"

lemma core_one: "core_step cx guard c es c' \<Longrightarrow> core_run cx guard c es c'"
  using core_run.more [OF core_run.stop] by fastforce

lemma core_then: "core_run cx guard c tr c' \<Longrightarrow> core_step cx guard c' [] c'' \<Longrightarrow> core_run cx guard c tr c''"
  using core_run.more [of cx guard c tr c' "[]" c''] by simp

lemma core_label:
  "core_run cx guard c [] c' \<Longrightarrow> core_step cx guard c' es c'' \<Longrightarrow> core_run cx guard c es c''"
  using core_run.more [of cx guard c "[]" c' es c''] by simp

lemmas core_silent = core_one [OF core_step.alive] core_one [OF core_step.touch]
  core_one [OF core_step.expire] core_one [OF core_step.sweep] core_one [OF core_step.mint]
  core_one [OF core_step.validate] core_one [OF core_step.unregister]

section \<open>What a run keeps\<close>

lemma same_claims: "same_identity c (c\<lparr>co_claims := m\<rparr>)"
  by (simp add: same_identity_def)

lemma core_step_auth:
  "core_step cx guard c es c' \<Longrightarrow> auth_reach cx tr c \<Longrightarrow> auth_reach cx (es @ tr) c'"
proof (induction rule: core_step.induct)
  case (challenge c draw rid t)
  from auth_reach.challenge [OF this, of draw rid t] show ?case by (simp split: if_splits)
next
  case (prove c draw t rid pk sig)
  from auth_reach.prove [OF this, of draw t rid pk sig] show ?case by (simp split: if_splits)
next
  case (register k c salt t rid cost)
  then show ?case by (simp add: auth_reach.register)
next
  case (validate c t rid k)
  then show ?case by (simp add: auth_reach.validate)
next
  case (unregister c rid)
  then show ?case by (simp add: auth_reach.unregister)
qed (auto intro: auth_reach.other others_same_identity same_claims)

lemma core_run_auth:
  "core_run cx guard c es c' \<Longrightarrow> auth_reach cx tr c \<Longrightarrow> auth_reach cx (es @ tr) c'"
proof (induction rule: core_run.induct)
  case (more es c' fs c'')
  then have "auth_reach cx (es @ tr) c'" by simp
  from core_step_auth [OF more(2) this] show ?case by simp
qed simp

lemma core_step_fleet: "core_step cx guard c es c' \<Longrightarrow> fleet_step cx c c'"
  by (induction rule: core_step.induct) (auto intro: fleet_step.intros)

lemma core_run_fleet: "core_run cx guard c es c' \<Longrightarrow> fleet_reach cx c \<Longrightarrow> fleet_reach cx c'"
  by (induction rule: core_run.induct) (auto intro: fleet_reach.call core_step_fleet)

lemma core_step_index: "core_step cx guard c es c' \<Longrightarrow> co_index c' = co_index c"
proof (induction rule: core_step.induct)
  case (prove c draw t rid pk sig)
  then show ?case by (auto simp: prove_identity_def expire_tokens_def Let_def split: option.split prod.split)
next
  case (validate c t rid k)
  then show ?case
    by (cases k; simp add: validate_key_def try_verify_def clear_failures_def note_failure_def Let_def
        split: option.split prod.split)
next
  case (register k c salt t rid cost)
  then show ?case
    by (simp add: register_cases commit_binding_def drop_pending_def split: option.split)
qed (simp_all add: set_alive_def touch_robot_def expire_claims_def sweep_inactive_def
    resolve_or_mint_robot_id_def issue_challenge_def unregister_robot_def update_robot_progress_def
    update_robot_pose_def update_robot_def Let_def split: option.split prod.split)

lemma core_run_index: "core_run cx guard c es c' \<Longrightarrow> co_index c' = co_index c"
  by (induction rule: core_run.induct) (auto dest: core_step_index)

text \<open>The claims: every call is a few steps of the claim manager.\<close>

lemma snd_free_robot:
  "snd (free_robot m rid now) =
     snd (release_leases_for_robot (snd (remove_requests_for_robot m rid)) rid (Some now))"
  by (simp add: free_robot_def split: prod.split)

lemma reachable_sweep_loop:
  "reachable ix m \<Longrightarrow> reachable ix (snd (sweep_loop now rids freed m))"
proof (induction now rids freed m rule: sweep_loop.induct)
  case (2 now rid rids freed m)
  obtain n m' where f: "free_robot m rid now = (n, m')" by force
  have "reachable ix m'"
    using snd_free_robot [of m rid now] 2(2) unfolding f
    by (auto intro: reachable.step claim_step.intros)
  from 2(1) [OF f [symmetric] refl this] show ?case by (simp add: f)
qed simp

lemma core_step_claims:
  assumes "core_step cx guard c es c'" "\<And>m. guard m \<Longrightarrow> roomy m" "reachable ix (co_claims c)"
  shows "reachable ix (co_claims c')"
  using assms(1,3)
proof (induction rule: core_step.induct)
  case (expire c now)
  have "snd (expire_claims c now) = c\<lparr>co_claims := snd (expire_leases (snd (expire_requests (co_claims c) now)) now)\<rparr>"
    by (simp add: expire_claims_def split: prod.split)
  with expire show ?case by (auto intro: reachable.step claim_step.intros)
next
  case (sweep c now)
  then show ?case
    using reachable_sweep_loop [of ix "co_claims c" now "inactive_robots_at c now" "[]"]
    by (auto simp: sweep_inactive_def split: prod.split)
next
  case (unregister c rid)
  then show ?case
    by (auto simp: unregister_robot_def Let_def split: option.split intro: reachable.step claim_step.intros)
next
  case (granted c i m r ev)
  have "claim_step (co_claims c) (snd (upsert_request_for_robot m r))"
    by (rule claim_step.granted) (use assms(2) [OF granted(3)] granted in \<open>simp_all add: roomy_def\<close>)
  with granted(6) show ?case by (simp add: reachable.step)
next
  case (prove c draw t rid pk sig)
  then show ?case by (auto simp: prove_identity_def expire_tokens_def Let_def split: option.split prod.split)
next
  case (validate c t rid k)
  then show ?case
    by (cases k; simp add: validate_key_def try_verify_def clear_failures_def note_failure_def Let_def
        split: option.split prod.split)
next
  case (register k c salt t rid cost)
  then show ?case
    by (simp add: register_cases commit_binding_def drop_pending_def split: option.split)
qed (auto simp: set_alive_def touch_robot_def resolve_or_mint_robot_id_def issue_challenge_def
    update_robot_progress_def update_robot_pose_def Let_def split: option.split prod.split
    intro: reachable.step claim_step.intros)

lemma core_run_claims:
  assumes "core_run cx guard c es c'" "\<And>m. guard m \<Longrightarrow> roomy m" "reachable ix (co_claims c)"
  shows "reachable ix (co_claims c')"
  using assms(1,3) by (induction rule: core_run.induct) (auto dest: core_step_claims [OF _ assms(2)])

section \<open>Room is not lost by expiry\<close>

lemma foldr_max_mem: "xs \<noteq> [] \<Longrightarrow> foldr max xs (0 :: u64) \<in> set xs"
proof (induction xs)
  case (Cons x xs)
  then show ?case by (cases "xs = []") (auto simp: max_def)
qed simp

lemma floor_from_live:
  "next_id_floor m = 1 \<or> (\<exists>i \<in> live_ids m. next_id_floor m = sat_add i 1)"
proof -
  let ?a = "max_opt (map cr_id (cm_requests m))" and ?b = "max_opt (map le_claim_id (cm_leases m))"
  define top where "top = (case (?a, ?b) of
    (None, b) \<Rightarrow> b | (a, None) \<Rightarrow> a | (Some a, Some b) \<Rightarrow> Some (max a b))"
  have fl: "next_id_floor m = max (case top of None \<Rightarrow> 1 | Some m \<Rightarrow> sat_add m 1) 1"
    by (simp add: next_id_floor_def Let_def top_def)
  have "?a = Some t \<Longrightarrow> t \<in> live_ids m" for t
    using foldr_max_mem [of "map cr_id (cm_requests m)"]
    by (auto simp: max_opt_def live_ids_def split: if_splits)
  moreover have "?b = Some t \<Longrightarrow> t \<in> live_ids m" for t
    using foldr_max_mem [of "map le_claim_id (cm_leases m)"]
    by (auto simp: max_opt_def live_ids_def split: if_splits)
  ultimately have mem: "top = Some t \<Longrightarrow> t \<in> live_ids m" for t
    by (auto simp: top_def max_def split: option.splits if_splits)
  show ?thesis
  proof (cases top)
    case None
    with fl show ?thesis by simp
  next
    case (Some t)
    have "1 \<le> sat_add t 1 \<or> sat_add t 1 = 0"
      by (simp add: word_le_nat_alt unat_sat_add)
    moreover have "sat_add t 1 \<noteq> 0"
      using sat_add_1_gt_or_max [of t] sat_add_ge [of t 1] by auto
    ultimately have "next_id_floor m = sat_add t 1" using fl Some by (simp add: max_def)
    with mem [OF Some] show ?thesis by blast
  qed
qed

lemma floor_ge_live:
  assumes "i \<in> live_ids m"
  shows "sat_add i 1 \<le> next_id_floor m"
proof (cases "i = u64_max")
  case True
  with next_id_floor_gt [OF assms] have "next_id_floor m = u64_max" by auto
  then show ?thesis by simp
next
  case False
  have "unat i < unat (next_id_floor m) \<or> next_id_floor m = u64_max"
    using next_id_floor_gt [OF assms] by (auto simp: word_less_nat_alt)
  then show ?thesis
    using unat_u64_lt [of "sat_add i 1"] unat_u64_max by (auto simp: word_le_nat_alt unat_sat_add)
qed

lemma full_iff:
  "fst (next_request_id m) = u64_max \<longleftrightarrow>
     cm_next_id m = u64_max \<or> (\<exists>i \<in> live_ids m. sat_add i 1 = u64_max)"
proof -
  have "next_id_floor m = u64_max \<longleftrightarrow> (\<exists>i \<in> live_ids m. sat_add i 1 = u64_max)"
  proof
    assume "next_id_floor m = u64_max"
    with floor_from_live [of m] show "\<exists>i \<in> live_ids m. sat_add i 1 = u64_max" by auto
  next
    assume "\<exists>i \<in> live_ids m. sat_add i 1 = u64_max"
    then have "u64_max \<le> next_id_floor m" by (metis floor_ge_live)
    then show "next_id_floor m = u64_max" by (simp add: order_antisym)
  qed
  moreover have "max a b = u64_max \<longleftrightarrow> a = u64_max \<or> b = u64_max" for a b :: u64
    by (auto simp: max_def intro: order_antisym)
  ultimately show ?thesis by (simp add: next_request_id_def Let_def)
qed

lemma roomy_mono:
  assumes "roomy m" "cm_next_id m' = cm_next_id m" "live_ids m' \<subseteq> live_ids m"
    and "length (cm_requests m') + length (cm_leases m') \<le> length (cm_requests m) + length (cm_leases m)"
  shows "roomy m'"
  using assms by (auto simp: roomy_def full_iff)

lemma roomy_expire: "roomy (co_claims c) \<Longrightarrow> roomy (co_claims (snd (expire_claims c now)))"
  by (erule roomy_mono)
    (auto simp: expire_claims_def expire_requests_def expire_leases_spec live_ids_def Let_def
      split: prod.splits intro: add_mono)

section \<open>Every call is a run\<close>

definition push_event :: "fleet_event list \<Rightarrow> fleet_event \<Rightarrow> fleet_event list" where
  "push_event evs ev = (if max_events \<le> length evs then tl evs else evs) @ [ev]"

text \<open>The contract of a call: it runs coordinator calls, emits these identity events, and logs.\<close>

definition room_if :: "claim_manager \<Rightarrow> claim_manager \<Rightarrow> bool" where
  "room_if m m' = (roomy m \<longrightarrow> roomy m')"

locale wire_call =
  fixes xt :: crates and call :: "serve_state \<Rightarrow> serve_state" and labels :: "serve_state \<Rightarrow> event list"
  assumes core: "core_run (xt_crypto xt) (room_if (co_claims (sv_coord sv))) (sv_coord sv) (labels sv)
      (sv_coord (call sv))"
    and settings: "sv_admin_key (call sv) = sv_admin_key sv"
      "sv_allow_default_key (call sv) = sv_allow_default_key sv"
    and logs: "\<exists>evs. sv_events (call sv) = foldl push_event (sv_events sv) evs"
begin

lemma keeps_auth:
  "auth_reach (xt_crypto xt) tr (sv_coord sv) \<Longrightarrow>
   auth_reach (xt_crypto xt) (labels sv @ tr) (sv_coord (call sv))"
  using core_run_auth [OF core] .

lemma keeps_fleet:
  "fleet_reach (xt_crypto xt) (sv_coord sv) \<Longrightarrow> fleet_reach (xt_crypto xt) (sv_coord (call sv))"
  using core_run_fleet [OF core] .

lemma keeps_index: "co_index (sv_coord (call sv)) = co_index (sv_coord sv)"
  using core_run_index [OF core] .

lemma keeps_claims:
  "reachable ix (co_claims (sv_coord sv)) \<Longrightarrow> roomy (co_claims (sv_coord sv)) \<Longrightarrow>
   reachable ix (co_claims (sv_coord (call sv)))"
  using core_run_claims [OF core] by (simp add: room_if_def)

end

lemma record_event_fields [simp]:
  "sv_coord (record_event sv ev) = sv_coord sv"
  "sv_admin_key (record_event sv ev) = sv_admin_key sv"
  "sv_allow_default_key (record_event sv ev) = sv_allow_default_key sv"
  "sv_events (record_event sv ev) = push_event (sv_events sv) ev"
  by (simp_all add: record_event_def push_event_def Let_def)

lemma logs_none [intro]: "\<exists>evs. xs = foldl push_event xs evs"
  by (rule exI [of _ "[]"]) simp

lemma logs_one [intro]: "\<exists>evs. push_event xs ev = foldl push_event xs evs"
  by (rule exI [of _ "[ev]"]) simp

lemma key_ok_run:
  "core_run (xt_crypto xt) guard c [] (snd (key_ok xt now c rid raw))"
  by (auto simp: key_ok_def split: sum.split intro: core_silent core_run.stop)

lemma known_robot_some: "known_robot xt c raw = Some rid \<Longrightarrow> has_robot c rid"
  by (auto simp: known_robot_def split: option.splits if_splits)

lemma run_register:
  assumes "core_run cx guard c tr c'" "\<not> is_did_key k" "register_with_key cx salt now c' rid k = (b, d)"
  shows "core_run cx guard c tr d"
  using core_then [OF assms(1) core_step.register [OF assms(2), where c = c' and salt = salt and t = now
        and rid = rid and cost = "co_kdf c'"]] assms(3)
  by (simp add: register_with_key_def)

lemma register_run:
  "core_run (xt_crypto xt) guard (sv_coord sv) [] (sv_coord (snd (flat_register xt e robot key alive sv)))"
proof (cases "parse_key xt key")
  case (Inl err)
  then show ?thesis by (cases err) (simp_all add: flat_register_def core_run.stop)
next
  case (Inr k)
  show ?thesis
  proof (cases "is_did_key k")
    case True
    with Inr show ?thesis by (simp add: flat_register_def core_run.stop)
  next
    case False
    obtain oid c where mint: "resolve_or_mint_robot_id (xt_crypto xt) (sv_coord sv) robot = (oid, c)"
      by force
    then have c: "core_run (xt_crypto xt) guard (sv_coord sv) [] c"
      using core_one [OF core_step.mint, of "xt_crypto xt" guard "sv_coord sv" robot] by simp
    obtain b d where reg: "register_with_key (xt_crypto xt) (en_salt e) (en_now e) c (the oid) k = (b, d)"
      by force
    note d = run_register [OF c False reg]
    show ?thesis
      using False c d core_then [OF d core_step.alive] reg
      by (cases oid) (auto simp: flat_register_def Inr mint core_run.stop split: option.split)
  qed
qed

interpretation registering: wire_call xt "\<lambda>sv. snd (flat_register xt e robot key alive sv)" "\<lambda>_. []"
  for xt e robot key alive
proof
  show "core_run (xt_crypto xt) (room_if (co_claims (sv_coord sv))) (sv_coord sv) []
          (sv_coord (snd (flat_register xt e robot key alive sv)))" for sv
    by (rule register_run)
qed (auto simp: flat_register_def Let_def split: sum.split key_error.split option.split prod.split)

lemma key_ok_then:
  assumes "key_ok xt now c rid raw = (b, c')"
  shows "core_run (xt_crypto xt) guard c [] c'"
  using key_ok_run [of xt guard c now rid raw] assms by simp

interpretation deregistering: wire_call xt "\<lambda>sv. snd (flat_deregister xt e robot key sv)" "\<lambda>_. []"
  for xt e robot key
proof
  show "core_run (xt_crypto xt) (room_if (co_claims (sv_coord sv))) (sv_coord sv) []
          (sv_coord (snd (flat_deregister xt e robot key sv)))" for sv
    by (auto simp: flat_deregister_def core_run.stop split: option.split prod.split bool.split
        dest: key_ok_then intro: core_then [OF _ core_step.unregister])
qed (auto simp: flat_deregister_def split: option.split prod.split bool.split)

lemma heartbeat_run:
  "core_run cx guard c tr c' \<Longrightarrow> core_run cx guard c tr (heartbeat_apply xt e rid node edge pos att c')"
  unfolding heartbeat_apply_def Let_def
  by (auto split: prod.split intro!: core_then [OF _ core_step.touch] core_then [OF _ core_step.pose]
      core_then [OF _ core_step.progress])

interpretation beating: wire_call xt "\<lambda>sv. snd (flat_heartbeat xt e robot key zone node edge pos att sv)" "\<lambda>_. []"
  for xt e robot key zone node edge pos att
proof
  show "core_run (xt_crypto xt) (room_if (co_claims (sv_coord sv))) (sv_coord sv) []
          (sv_coord (snd (flat_heartbeat xt e robot key zone node edge pos att sv)))" for sv
    by (auto simp: flat_heartbeat_def core_run.stop split: option.split prod.split bool.split
        dest: key_ok_then intro: heartbeat_run)
qed (auto simp: flat_heartbeat_def split: option.split prod.split bool.split)

lemma run_release:
  "core_run cx guard c tr c' \<Longrightarrow> release_request_for_robot_target (co_claims c') rid resource = (b, m) \<Longrightarrow>
   core_run cx guard c tr (c'\<lparr>co_claims := m\<rparr>)"
  using core_then [OF _ core_step.release, of cx guard c tr c' rid resource] by simp

interpretation releasing: wire_call xt "\<lambda>sv. snd (flat_release xt e kind key robot i sv)" "\<lambda>_. []"
  for xt e kind key robot i
proof
  show "core_run (xt_crypto xt) (room_if (co_claims (sv_coord sv))) (sv_coord sv) []
          (sv_coord (snd (flat_release xt e kind key robot i sv)))" for sv
    by (auto simp: flat_release_def core_run.stop Let_def split: option.split prod.split
        dest: key_ok_then intro: run_release)
qed (auto simp: flat_release_def Let_def split: option.split prod.split)

text \<open>A claim whose evaluation does not return leaves the lock held, and the state as it was.\<close>

definition claim_call ::
  "crates \<Rightarrow> call_env \<Rightarrow> (target_kind \<times> u64) list \<Rightarrow> string \<Rightarrow> string \<Rightarrow> u8 option \<Rightarrow> u64 option
   \<Rightarrow> serve_state \<Rightarrow> serve_state"
where
  "claim_call xt e requested key robot mode lease sv =
     (case flat_claim_targets xt e requested key robot mode lease sv of
        None \<Rightarrow> sv | Some (reply, sv') \<Rightarrow> sv')"

lemma run_expire: "core_run cx guard c [] (snd (expire_claims c now))"
  by (rule core_one [OF core_step.expire])

lemma core_trans:
  assumes "core_run cx guard c' tr c''" "core_run cx guard c [] c'"
  shows "core_run cx guard c tr c''"
  using assms
proof (induction rule: core_run.induct)
  case (more tr c1 es c2)
  then show ?case by (blast intro: core_run.more)
qed

lemma key_ok_claims:
  assumes "key_ok xt now c rid raw = (b, c')"
  shows "co_claims c' = co_claims c"
  using assms
  by (auto simp: key_ok_def validate_key_def try_verify_def clear_failures_def note_failure_def Let_def
      split: sum.splits option.splits key.splits prod.splits if_splits)

lemma evaluate_run:
  assumes run: "core_run cx guard c [] (sv_coord sv)" and room: "guard (co_claims (sv_coord sv))"
    and ev: "claim_evaluate e ix rid access w numeric targets sv = Some (reply, sv')"
  shows "core_run cx guard c [] (sv_coord sv')"
proof -
  let ?c = "sv_coord sv"
  obtain i m where mint: "next_request_id (co_claims ?c) = (i, m)" by force
  let ?r = "wire_request i rid access w targets"
  from ev mint obtain x where x: "evaluate_request m ?r = Some x"
    "claim_decide e ix numeric ?r x (sv\<lparr>sv_coord := ?c\<lparr>co_claims := m\<rparr>\<rparr>) = (reply, sv')"
    by (auto simp: claim_evaluate_def Let_def)
  show ?thesis
  proof (cases "ev_decision x = Grant")
    case True
    have "core_step cx guard ?c [] (?c\<lparr>co_claims := snd (upsert_request_for_robot m ?r)\<rparr>)"
      by (rule core_step.granted [where guard = guard and c = ?c, OF mint])
        (use room x(1) True in \<open>simp_all add: wire_request_def\<close>)
    with run True x(2) show ?thesis by (auto simp: claim_decide_def Let_def intro: core_then)
  next
    case False
    have "core_step cx guard ?c [] (?c\<lparr>co_claims := m\<rparr>)"
      using core_step.denied [of cx guard ?c] mint by simp
    with run False x(2) show ?thesis by (auto simp: claim_decide_def Let_def intro: core_then)
  qed
qed

lemma claim_run:
  assumes "flat_claim_targets xt e requested key robot mode lease sv = Some (reply, sv')"
    and room: "\<And>now. guard (co_claims (snd (expire_claims (sv_coord sv) now)))"
  shows "core_run (xt_crypto xt) guard (sv_coord sv) [] (sv_coord sv')"
proof (cases "claim_access mode")
  case None
  with assms show ?thesis by (simp add: flat_claim_targets_def core_run.stop)
next
  case (Some access)
  let ?c = "snd (expire_claims (sv_coord sv) (en_ms e 0))"
  note ex = run_expire [of "xt_crypto xt" guard "sv_coord sv" "en_ms e 0"]
  show ?thesis
  proof (cases "resolve_robot_id (xt_crypto xt) ?c robot")
    case None
    with assms Some ex show ?thesis by (auto simp: flat_claim_targets_def Let_def)
  next
    case rid: (Some rid)
    obtain b c where k: "key_ok xt (en_now e) ?c rid key = (b, c)" by force
    have run: "core_run (xt_crypto xt) guard (sv_coord sv) [] c"
      by (rule core_trans [OF key_ok_then [OF k] ex])
    have room': "guard (co_claims c)" using room key_ok_claims [OF k] by simp
    have tail: "core_run (xt_crypto xt) guard (sv_coord sv) [] (sv_coord sv')"
      if "claim_evaluate e ix rid access w numeric targets (sv\<lparr>sv_coord := c\<rparr>) = Some (reply, sv')"
      for ix w numeric targets
      using evaluate_run [where sv = "sv\<lparr>sv_coord := c\<rparr>", OF _ _ that] run room' by simp
    show ?thesis
      using assms(1) Some rid k run tail
      by (auto simp: flat_claim_targets_def Let_def split: if_splits option.splits sum.splits prod.splits)
  qed
qed

lemma claim_logs:
  assumes "flat_claim_targets xt e requested key robot mode lease sv = Some (reply, sv')"
  shows "sv_admin_key sv' = sv_admin_key sv \<and> sv_allow_default_key sv' = sv_allow_default_key sv
    \<and> (\<exists>evs. sv_events sv' = foldl push_event (sv_events sv) evs)"
  using assms
  by (auto simp: flat_claim_targets_def Let_def claim_evaluate_def claim_decide_def
      split: if_splits option.splits sum.splits prod.splits)

lemma room_if_expire: "room_if (co_claims c) (co_claims (snd (expire_claims c now)))"
  by (simp add: room_if_def roomy_expire)

interpretation claiming: wire_call xt "claim_call xt e requested key robot mode lease" "\<lambda>_. []"
  for xt e requested key robot mode lease
proof
  show "core_run (xt_crypto xt) (room_if (co_claims (sv_coord sv))) (sv_coord sv) []
          (sv_coord (claim_call xt e requested key robot mode lease sv))" for sv
    by (auto simp: claim_call_def core_run.stop split: option.split intro: claim_run room_if_expire)
qed (auto simp: claim_call_def split: option.split dest: claim_logs)

definition challenge_label :: "crates \<Rightarrow> call_env \<Rightarrow> string \<Rightarrow> serve_state \<Rightarrow> event list" where
  "challenge_label xt e robot sv =
     (case fst (resolve_or_mint_robot_id (xt_crypto xt) (sv_coord sv) robot) of
        Some rid \<Rightarrow> if fst (en_draw e) then [Challenged rid (snd (en_draw e))] else []
      | None \<Rightarrow> [])"

lemma run_mint: "resolve_or_mint_robot_id cx c raw = (oid, d) \<Longrightarrow> core_run cx guard c [] d"
  using core_one [OF core_step.mint, of cx guard c raw] by simp

interpretation challenging: wire_call xt "\<lambda>sv. snd (flat_challenge xt e robot sv)" "challenge_label xt e robot"
  for xt e robot
proof
  fix sv :: serve_state
  obtain oid c where mint: "resolve_or_mint_robot_id (xt_crypto xt) (sv_coord sv) robot = (oid, c)" by force
  note c = run_mint [OF mint, of "room_if (co_claims (sv_coord sv))"]
  show "core_run (xt_crypto xt) (room_if (co_claims (sv_coord sv))) (sv_coord sv) (challenge_label xt e robot sv)
          (sv_coord (snd (flat_challenge xt e robot sv)))"
  proof (cases oid)
    case None
    with c show ?thesis by (simp add: flat_challenge_def mint challenge_label_def)
  next
    case (Some rid)
    obtain nonce d where i: "issue_challenge (en_draw e) (en_now e) c rid = (nonce, d)" by force
    from core_label [OF c core_step.challenge, of "en_draw e" rid "en_now e"] i Some
    show ?thesis by (auto simp: flat_challenge_def mint challenge_label_def Let_def split: if_splits)
  qed
qed (auto simp: flat_challenge_def Let_def split: prod.split option.split)

definition prove_call :: "crates \<Rightarrow> call_env \<Rightarrow> string \<Rightarrow> string \<Rightarrow> string \<Rightarrow> serve_state \<Rightarrow> serve_state" where
  "prove_call xt e robot did sig sv =
     (case flat_prove xt e robot did sig sv of Panics \<Rightarrow> sv | Returns (reply, sv') \<Rightarrow> sv')"

definition prove_label :: "crates \<Rightarrow> call_env \<Rightarrow> string \<Rightarrow> string \<Rightarrow> string \<Rightarrow> serve_state \<Rightarrow> event list" where
  "prove_label xt e robot did sig sv =
     (case (parse_key xt did, decode_hex sig, resolve_or_mint_robot_id (xt_crypto xt) (sv_coord sv) robot) of
        (Inr (DidKey pk), Returns (Some signature), (Some rid, c)) \<Rightarrow>
          if fst (prove_identity (xt_crypto xt) (en_draw e) (en_now e) c rid pk signature) \<noteq> None
          then [Proved rid pk (nonce_of c rid) signature] else []
      | _ \<Rightarrow> [])"

interpretation proving: wire_call xt "prove_call xt e robot did sig" "prove_label xt e robot did sig"
  for xt e robot did sig
proof
  fix sv :: serve_state
  let ?g = "room_if (co_claims (sv_coord sv))"
  show "core_run (xt_crypto xt) ?g (sv_coord sv) (prove_label xt e robot did sig sv)
          (sv_coord (prove_call xt e robot did sig sv))"
  proof (cases "\<exists>pk signature. parse_key xt did = Inr (DidKey pk) \<and> decode_hex sig = Returns (Some signature)")
    case False
    then show ?thesis
      by (auto simp: prove_call_def flat_prove_def prove_label_def core_run.stop
          split: sum.split key.split run.split option.split)
  next
    case True
    then obtain pk signature where ok: "parse_key xt did = Inr (DidKey pk)" "decode_hex sig = Returns (Some signature)"
      by blast
    obtain oid c where mint: "resolve_or_mint_robot_id (xt_crypto xt) (sv_coord sv) robot = (oid, c)" by force
    note c = run_mint [OF mint, of ?g]
    show ?thesis
    proof (cases oid)
      case None
      with c ok show ?thesis by (simp add: prove_call_def flat_prove_def prove_label_def mint)
    next
      case (Some rid)
      obtain tok d where p: "prove_identity (xt_crypto xt) (en_draw e) (en_now e) c rid pk signature = (tok, d)"
        by force
      from core_label [OF c core_step.prove, of "en_draw e" "en_now e" rid pk signature] p Some ok
      show ?thesis
        by (auto simp: prove_call_def flat_prove_def prove_label_def mint split: option.splits)
    qed
  qed
qed (auto simp: prove_call_def flat_prove_def split: sum.split key.split run.split option.split prod.split)

lemma record_swept_fields [simp]:
  "sv_coord (record_swept ms n rids sv) = sv_coord sv"
  "sv_admin_key (record_swept ms n rids sv) = sv_admin_key sv"
  "sv_allow_default_key (record_swept ms n rids sv) = sv_allow_default_key sv"
  by (induction ms n rids sv rule: record_swept.induct) simp_all

lemma record_swept_logs: "\<exists>evs. sv_events (record_swept ms n rids sv) = foldl push_event (sv_events sv) evs"
proof (induction ms n rids sv rule: record_swept.induct)
  case (2 ms n rid rids sv)
  then obtain evs where "sv_events (record_swept ms n (rid # rids) sv)
      = foldl push_event (push_event (sv_events sv) (plain_event (ms n) EvSwept (Some rid))) evs"
    by auto
  then show ?case by (intro exI [of _ "plain_event (ms n) EvSwept (Some rid) # evs"]) simp
qed auto

interpretation sweeping: wire_call xt "\<lambda>sv. snd (wire_sweep e sv)" "\<lambda>_. []" for xt e
proof
  fix sv :: serve_state
  obtain n c where x: "expire_claims (sv_coord sv) (en_ms e 0) = (n, c)" by force
  obtain rids d where s: "sweep_inactive c (en_ms e 0) = (rids, d)" by force
  show "core_run (xt_crypto xt) (room_if (co_claims (sv_coord sv))) (sv_coord sv) [] (sv_coord (snd (wire_sweep e sv)))"
    using run_expire [of "xt_crypto xt" "room_if (co_claims (sv_coord sv))" "sv_coord sv" "en_ms e 0"]
      core_then [OF _ core_step.sweep, of "xt_crypto xt" "room_if (co_claims (sv_coord sv))" "sv_coord sv" "[]" c "en_ms e 0"]
    by (simp add: wire_sweep_def x s)
  let ?evs = "if 0 < n then [plain_event (en_ms e 0) EvExpired None] else []"
  obtain evs where "sv_events (snd (wire_sweep e sv)) = foldl push_event (foldl push_event (sv_events sv) ?evs) evs"
    using record_swept_logs [of "en_ms e" 1 rids "(if 0 < n then record_event sv (plain_event (en_ms e 0) EvExpired None) else sv)\<lparr>sv_coord := d\<rparr>"]
    by (auto simp: wire_sweep_def x s split: if_splits)
  then show "\<exists>evs. sv_events (snd (wire_sweep e sv)) = foldl push_event (sv_events sv) evs"
    by (intro exI [of _ "?evs @ evs"]) simp
qed (simp_all add: wire_sweep_def Let_def split: prod.split)

section \<open>Sessions\<close>

text \<open>
  The requests a served core executes, in any order and with any clock. Only \<open>set_workspace\<close> changes
  the index; it is a rule of its own.
\<close>

inductive wire_step :: "crates \<Rightarrow> serve_state \<Rightarrow> event list \<Rightarrow> serve_state \<Rightarrow> bool" for xt where
  "wire_step xt sv [] (snd (flat_register xt e robot key alive sv))"
| "wire_step xt sv [] (snd (flat_deregister xt e robot key sv))"
| "wire_step xt sv [] (snd (flat_heartbeat xt e robot key zone node edge pos att sv))"
| "wire_step xt sv [] (claim_call xt e requested key robot mode lease sv)"
| "wire_step xt sv [] (snd (flat_release xt e kind key robot i sv))"
| "wire_step xt sv (challenge_label xt e robot sv) (snd (flat_challenge xt e robot sv))"
| "wire_step xt sv (prove_label xt e robot did sig sv) (prove_call xt e robot did sig sv)"
| "wire_step xt sv [] (snd (wire_sweep e sv))"

text \<open>A session over one workspace: no push, and room for the claims.\<close>

inductive session :: "crates \<Rightarrow> serve_state \<Rightarrow> event list \<Rightarrow> serve_state \<Rightarrow> bool" for xt sv0 where
  opened: "session xt sv0 [] sv0"
| served: "session xt sv0 tr sv \<Longrightarrow> roomy (co_claims (sv_coord sv)) \<Longrightarrow> wire_step xt sv es sv' \<Longrightarrow>
    session xt sv0 (es @ tr) sv'"

lemma wire_step_call:
  "wire_step xt sv es sv' \<Longrightarrow> \<exists>call labels. wire_call xt call labels \<and> es = labels sv \<and> sv' = call sv"
proof (induction rule: wire_step.induct)
  case (1 sv e robot key alive)
  then show ?case by (intro exI conjI, rule registering.wire_call_axioms) (rule refl)+
next
  case (2 sv e robot key)
  then show ?case by (intro exI conjI, rule deregistering.wire_call_axioms) (rule refl)+
next
  case (3 sv e robot key zone node edge pos att)
  then show ?case by (intro exI conjI, rule beating.wire_call_axioms) (rule refl)+
next
  case (4 sv e requested key robot mode lease)
  then show ?case by (intro exI conjI, rule claiming.wire_call_axioms) (rule refl)+
next
  case (5 sv e kind key robot i)
  then show ?case by (intro exI conjI, rule releasing.wire_call_axioms) (rule refl)+
next
  case (6 e robot sv)
  then show ?case by (intro exI conjI, rule challenging.wire_call_axioms) (rule refl)+
next
  case (7 e robot did sig sv)
  then show ?case by (intro exI conjI, rule proving.wire_call_axioms) (rule refl)+
next
  case (8 sv e)
  then show ?case by (intro exI conjI, rule sweeping.wire_call_axioms) (rule refl)+
qed

lemma step_auth:
  "wire_step xt sv es sv' \<Longrightarrow> auth_reach (xt_crypto xt) tr (sv_coord sv) \<Longrightarrow>
   auth_reach (xt_crypto xt) (es @ tr) (sv_coord sv')"
  using wire_step_call wire_call.keeps_auth by blast

lemma step_fleet:
  "wire_step xt sv es sv' \<Longrightarrow> fleet_reach (xt_crypto xt) (sv_coord sv) \<Longrightarrow> fleet_reach (xt_crypto xt) (sv_coord sv')"
  using wire_step_call wire_call.keeps_fleet by blast

lemma step_claims:
  "wire_step xt sv es sv' \<Longrightarrow> reachable ix (co_claims (sv_coord sv)) \<Longrightarrow> roomy (co_claims (sv_coord sv)) \<Longrightarrow>
   reachable ix (co_claims (sv_coord sv'))"
  using wire_step_call wire_call.keeps_claims by blast

lemma step_events: "wire_step xt sv es sv' \<Longrightarrow> \<exists>evs. sv_events sv' = foldl push_event (sv_events sv) evs"
  using wire_step_call wire_call.logs by blast

lemma session_auth:
  "session xt sv0 tr sv \<Longrightarrow> auth_reach (xt_crypto xt) [] (sv_coord sv0) \<Longrightarrow>
   auth_reach (xt_crypto xt) tr (sv_coord sv)"
  by (induction rule: session.induct) (auto intro: step_auth)

lemma session_fleet:
  "session xt sv0 tr sv \<Longrightarrow> fleet_reach (xt_crypto xt) (sv_coord sv0) \<Longrightarrow> fleet_reach (xt_crypto xt) (sv_coord sv)"
  by (induction rule: session.induct) (auto intro: step_fleet)

lemma session_claims:
  "session xt sv0 tr sv \<Longrightarrow> reachable ix (co_claims (sv_coord sv0)) \<Longrightarrow> reachable ix (co_claims (sv_coord sv))"
  by (induction rule: session.induct) (auto intro: step_claims)

end
