(* ===== verification/Protocol.thy ===== *)
theory Protocol
  imports Session
begin

text \<open>
  What the flat protocol guarantees: the claims a served core holds, who may act in a robot's name,
  what a claim changes, the ring of events, the hex codec of nonces and signatures, and the push of
  a workspace.
\<close>

section \<open>Claims over the wire\<close>

text \<open>
  C1: however robots register, claim, release, prove and fall silent over the wire, no two robots
  ever hold conflicting claims, and no zone ever holds more robots than it admits.
\<close>

theorem session_claims_safe:
  assumes "session xt sv0 tr sv" "cm_index (co_claims (sv_coord sv0)) = Some ix"
    and "cm_requests (co_claims (sv_coord sv0)) = []" "index_ok ix"
  shows "conflict_free ix (co_claims (sv_coord sv)) \<and> capacity_held ix (co_claims (sv_coord sv))"
proof -
  have "reachable ix (co_claims (sv_coord sv))"
    by (rule session_claims [OF assms(1) reachable.start [OF assms(2,3)]])
  then show ?thesis using assms(4) by (blast intro: reach_conflict_free reach_capacity_held)
qed

section \<open>Identity over the wire\<close>

text \<open>
  C5: a session of the wire is a run of the identity protocol of the coordinator: no request of any
  kind binds a bare \<open>did:key\<close>, and every challenge and proof of the run is one a request caused.
\<close>

theorem session_refines_auth:
  assumes "session xt sv0 tr sv" "fresh_start (sv_coord sv0)"
  shows "auth_reach (xt_crypto xt) tr (sv_coord sv)"
  by (rule session_auth [OF assms(1) auth_reach.start [OF assms(2)]])

text \<open>Every \<open>did:key\<close> a robot is bound to was proved.\<close>

definition dids_ok :: "event list \<Rightarrow> coordinator \<Rightarrow> bool" where
  "dids_ok tr c =
     (\<forall>rid pk. map_of (co_keys c) rid = Some (DidVerifier pk) \<longrightarrow>
        (\<exists>r nonce sig. Proved r pk nonce sig \<in> set tr))"

lemma dids_more: "dids_ok tr c \<Longrightarrow> co_keys c' = co_keys c \<Longrightarrow> set tr \<subseteq> set tr' \<Longrightarrow> dids_ok tr' c'"
  unfolding dids_ok_def by (metis subsetD)

lemma verifier_did:
  assumes "registration_verifier cx salt now c k cost = Some (DidVerifier pk)" "\<not> is_did_key k"
  shows "\<exists>t issued. map_of (co_tokens c) t = Some issued \<and> it_public_key issued = pk"
  using assms
  by (cases k) (auto simp: registration_verifier_def is_did_key_def token_identity_def
      split: option.splits sum.splits if_splits)

lemma dids_register:
  assumes "dids_ok tr c" "tokens_ok tr c" "\<not> is_did_key k"
  shows "dids_ok tr (snd (register_with_verifier cx salt now c rid k cost))"
proof (cases "registration_refusal c rid = None \<and> registration_verifier cx salt now c k cost \<noteq> None")
  case False
  then have "co_keys (snd (register_with_verifier cx salt now c rid k cost)) = co_keys c"
    by (auto simp: register_cases drop_pending_def split: option.split)
  with assms(1) show ?thesis by (rule dids_more) simp
next
  case True
  then obtain v where v: "registration_refusal c rid = None" "registration_verifier cx salt now c k cost = Some v"
    by auto
  have "co_keys (snd (register_with_verifier cx salt now c rid k cost)) = bt_insert rid v (co_keys c)"
    by (simp add: register_cases v commit_binding_def split: option.split)
  moreover have "\<exists>r nonce sig. Proved r pk nonce sig \<in> set tr" if did: "v = DidVerifier pk" for pk
  proof -
    obtain t issued where i: "map_of (co_tokens c) t = Some issued" "it_public_key issued = pk"
      using verifier_did [of cx salt now c k cost pk] v(2) did assms(3) by blast
    with assms(2) show ?thesis by (fastforce simp: tokens_ok_def dest: map_of_SomeD)
  qed
  ultimately show ?thesis
    using assms(1) by (auto simp: dids_ok_def map_of_bt_insert split: if_splits)
qed

lemma dids_unregister: "dids_ok tr c \<Longrightarrow> dids_ok tr (snd (unregister_robot c rid))"
  by (auto simp: dids_ok_def unregister_robot_def Let_def map_of_bt_remove split: option.split if_splits)

lemma dids_step:
  assumes "core_step cx guard c es c'" "dids_ok tr c" "tokens_ok tr c"
  shows "dids_ok (es @ tr) c'"
  using assms
proof (induction rule: core_step.induct)
  case (register k c salt t rid cost)
  then show ?case by (simp add: dids_register)
next
  case (unregister c rid)
  then show ?case by (simp add: dids_unregister)
qed (erule dids_more; auto simp: set_alive_def touch_robot_def expire_claims_def sweep_inactive_def
    resolve_or_mint_robot_id_def issue_challenge_def update_robot_progress_def update_robot_pose_def
    prove_fields validate_fields Let_def split: option.split prod.split)+

lemma dids_run:
  assumes "core_run cx guard c es c'" "crypto_ok cx" "auth_reach cx tr c" "dids_ok tr c"
  shows "dids_ok (es @ tr) c'"
  using assms(1)
proof (induction rule: core_run.induct)
  case stop
  then show ?case using assms(4) by simp
next
  case (more es c' fs c'')
  have "auth_inv cx (es @ tr) c'"
    using reach_inv [OF assms(2) core_run_auth [OF more(1) assms(3)]] .
  with dids_step [OF more(2,3)] show ?case by (simp add: auth_inv_def)
qed

lemma session_dids:
  assumes "session xt sv0 tr sv" "crypto_ok (xt_crypto xt)" "fresh_start (sv_coord sv0)" "co_keys (sv_coord sv0) = []"
  shows "dids_ok tr (sv_coord sv)"
  using assms(1)
proof (induction rule: session.induct)
  case opened
  then show ?case using assms(4) by (simp add: dids_ok_def)
next
  case (served tr sv es sv')
  obtain call labels where c: "wire_call xt call labels" "es = labels sv" "sv' = call sv"
    using wire_step_call [OF served(3)] by blast
  have "auth_reach (xt_crypto xt) tr (sv_coord sv)"
    using session_auth [OF served(1)] assms(3) by (simp add: auth_reach.start)
  from dids_run [OF wire_call.core [OF c(1), of sv] assms(2) this served(4)] c(2,3)
  show ?case by simp
qed

text \<open>
  C7: in a core that started empty, a robot is bound to a \<open>did:key\<close> only after somebody signed a
  challenge of this core with that key.
\<close>

theorem session_did_proved:
  assumes "session xt sv0 tr sv" "crypto_ok (xt_crypto xt)" "fresh_start (sv_coord sv0)"
    and "co_keys (sv_coord sv0) = []" "map_of (co_keys (sv_coord sv)) rid = Some (DidVerifier pk)"
  shows "\<exists>r nonce sig. Proved r pk nonce sig \<in> set tr \<and> nonce \<noteq> []
    \<and> cx_verify_detached (xt_crypto xt) sig nonce pk"
proof -
  obtain r nonce sig where p: "Proved r pk nonce sig \<in> set tr"
    using session_dids [OF assms(1-4)] assms(5) unfolding dids_ok_def by blast
  have "auth_inv (xt_crypto xt) tr (sv_coord sv)"
    by (rule reach_inv [OF assms(2) session_auth [OF assms(1) auth_reach.start [OF assms(3)]]])
  with p show ?thesis unfolding auth_inv_def proofs_ok_def by blast
qed

section \<open>What a claim does\<close>

lemma resolve_targets_Inr:
  "resolve_targets ix requested numeric targets = Inr (numeric', targets') \<Longrightarrow>
   list_all (\<lambda>(kind, i). resolve_kind kind i ix \<noteq> None) requested
   \<and> targets' = targets @ map (\<lambda>(kind, i). \<lparr>ct_kind = kind, ct_resource_id = the (resolve_kind kind i ix)\<rparr>) requested"
  by (induction ix requested numeric targets rule: resolve_targets.induct) (auto split: option.splits)

lemma resolve_targets_Inl:
  "resolve_targets ix requested numeric targets = Inl i \<Longrightarrow>
   \<exists>before kind after. requested = before @ (kind, i) # after \<and> resolve_kind kind i ix = None
     \<and> list_all (\<lambda>(k, j). resolve_kind k j ix \<noteq> None) before"
proof (induction ix requested numeric targets rule: resolve_targets.induct)
  case (2 ix kind j requested numeric targets)
  show ?case
  proof (cases "resolve_kind kind j ix")
    case None
    with 2(2) show ?thesis by (intro exI [of _ "[]"]) auto
  next
    case (Some u)
    with 2 obtain before k after where "requested = before @ (k, i) # after" "resolve_kind k i ix = None"
        "list_all (\<lambda>(k, j). resolve_kind k j ix \<noteq> None) before" by auto
    with Some show ?thesis by (intro exI [of _ "(kind, j) # before"]) auto
  qed
qed simp

text \<open>The claim a request stands for, once its robot is known and its ids resolve.\<close>

definition claim_of ::
  "crates \<Rightarrow> call_env \<Rightarrow> (target_kind \<times> u64) list \<Rightarrow> string \<Rightarrow> string \<Rightarrow> u8 option \<Rightarrow> u64 option
   \<Rightarrow> coordinator \<Rightarrow> claim_request option"
where
  "claim_of xt e requested key robot mode lease c =
     (case (claim_access mode, resolve_robot_id (xt_crypto xt) c robot, co_index c) of
        (Some access, Some rid, Some ix) \<Rightarrow>
          if fst (key_ok xt (en_now e) c rid key) \<and> requested \<noteq> [] \<and> length requested \<le> max_claim_targets
             \<and> list_all (\<lambda>(kind, i). resolve_kind kind i ix \<noteq> None) requested
          then Some (wire_request (fst (next_request_id (co_claims c))) rid access
                       (claim_window_for (en_ms e 0) lease)
                       (map (\<lambda>(kind, i). \<lparr>ct_kind = kind, ct_resource_id = the (resolve_kind kind i ix)\<rparr>) requested))
          else None
      | _ \<Rightarrow> None)"

lemma key_ok_index:
  assumes "key_ok xt now c rid raw = (b, c')"
  shows "co_index c' = co_index c"
  using core_run_index [OF key_ok_then [OF assms]] .

lemma claim_evaluate_spec:
  assumes "claim_evaluate e ix rid access w numeric targets sv = Some (reply, sv')"
  defines "m \<equiv> co_claims (sv_coord sv)"
  defines "r \<equiv> wire_request (fst (next_request_id m)) rid access w targets"
  shows "(fr_decision reply = 1) = grants (snd (next_request_id m)) r
    \<and> (fr_decision reply = 1 \<or> fr_decision reply = 0)
    \<and> co_claims (sv_coord sv') =
        (if fr_decision reply = 1 then snd (upsert_request_for_robot (snd (next_request_id m)) r)
         else snd (next_request_id m))"
  using assms(1)
  by (cases "next_request_id m")
    (auto simp: claim_evaluate_def claim_decide_def grants_def m_def [symmetric] r_def reply_ok_def
      deny_def deny_blocked_def Let_def split: option.splits if_splits)

lemma claim_spec:
  assumes "flat_claim_targets xt e requested key robot mode lease sv = Some (reply, sv')"
  defines "c \<equiv> snd (expire_claims (sv_coord sv) (en_ms e 0))"
  shows "case claim_of xt e requested key robot mode lease c of
      Some r \<Rightarrow>
        (fr_decision reply = 1) = grants (snd (next_request_id (co_claims c))) r
        \<and> co_claims (sv_coord sv') =
            (if fr_decision reply = 1
             then snd (upsert_request_for_robot (snd (next_request_id (co_claims c))) r)
             else snd (next_request_id (co_claims c)))
    | None \<Rightarrow> fr_decision reply = 0
        \<and> co_claims (sv_coord sv') \<in> {co_claims (sv_coord sv), co_claims c}"
proof (cases "claim_access mode")
  case None
  with assms show ?thesis by (auto simp: flat_claim_targets_def claim_of_def deny_def)
next
  case (Some access)
  show ?thesis
  proof (cases "resolve_robot_id (xt_crypto xt) c robot")
    case None
    with assms Some show ?thesis
      by (auto simp: flat_claim_targets_def claim_of_def deny_def Let_def)
  next
    case rid: (Some rid)
    obtain b d where k: "key_ok xt (en_now e) c rid key = (b, d)" by force
    note same = key_ok_claims [OF k] key_ok_index [OF k]
    show ?thesis
    proof (cases "\<exists>ix numeric targets. b \<and> requested \<noteq> [] \<and> length requested \<le> max_claim_targets
        \<and> co_index c = Some ix \<and> resolve_targets ix requested [] [] = Inr (numeric, targets)")
      case True
      then obtain ix numeric targets where ok: "b" "requested \<noteq> []" "length requested \<le> max_claim_targets"
          "co_index c = Some ix" "resolve_targets ix requested [] [] = Inr (numeric, targets)" by blast
      have "claim_evaluate e ix rid access (claim_window_for (en_ms e 0) lease) numeric targets
              (sv\<lparr>sv_coord := d\<rparr>) = Some (reply, sv')"
        using assms(1) Some rid k ok same by (auto simp: flat_claim_targets_def Let_def c_def [symmetric])
      from claim_evaluate_spec [OF this] show ?thesis
        using Some rid k ok same resolve_targets_Inr [OF ok(5)] by (auto simp: claim_of_def)
    next
      case False
      have "claim_of xt e requested key robot mode lease c = None"
      proof (rule ccontr)
        assume "claim_of xt e requested key robot mode lease c \<noteq> None"
        then obtain ix where ix: "b" "requested \<noteq> []" "length requested \<le> max_claim_targets" "co_index c = Some ix"
            "list_all (\<lambda>(kind, i). resolve_kind kind i ix \<noteq> None) requested"
          using Some rid k by (auto simp: claim_of_def split: option.splits if_splits)
        then obtain i where i: "resolve_targets ix requested [] [] = Inl i"
          using False by (cases "resolve_targets ix requested [] []") auto
        from resolve_targets_Inl [OF i] ix(5) show False by auto
      qed
      moreover have "fr_decision reply = 0 \<and> co_claims (sv_coord sv') = co_claims c"
        using assms(1) Some rid k False same
        by (auto simp: flat_claim_targets_def Let_def c_def [symmetric] deny_def deny_blocked_def
            split: if_splits option.splits sum.splits)
      ultimately show ?thesis by simp
    qed
  qed
qed

text \<open>
  C4: a claim is all or nothing. It is granted exactly when the caller is known and authenticated,
  the ids are between one and 64 and all resolve, and the manager grants the one request that names
  them all; that request is then entered, and otherwise no claim is added, changed or dropped but
  those whose lease had run out.
\<close>

theorem claim_all_or_nothing:
  assumes "flat_claim_targets xt e requested key robot mode lease sv = Some (reply, sv')"
  defines "c \<equiv> snd (expire_claims (sv_coord sv) (en_ms e 0))"
  shows "case claim_of xt e requested key robot mode lease c of
      Some r \<Rightarrow>
        (fr_decision reply = 1) = grants (snd (next_request_id (co_claims c))) r
        \<and> co_claims (sv_coord sv') =
            (if fr_decision reply = 1
             then snd (upsert_request_for_robot (snd (next_request_id (co_claims c))) r)
             else snd (next_request_id (co_claims c)))
    | None \<Rightarrow> fr_decision reply = 0
        \<and> co_claims (sv_coord sv') \<in> {co_claims (sv_coord sv), co_claims c}"
  unfolding c_def by (rule claim_spec [OF assms(1)])

section \<open>Who may act in a robot's name\<close>

text \<open>What a key that is accepted shows: the stored verifier takes it, or it is a token proved for.\<close>

definition shows_identity ::
  "crates \<Rightarrow> event list \<Rightarrow> nat \<Rightarrow> coordinator \<Rightarrow> robot_id \<Rightarrow> key \<Rightarrow> bool"
where
  "shows_identity xt tr now c rid k =
     (case k of
        Token t \<Rightarrow>
          (\<exists>issued nonce sig. map_of (co_tokens c) t = Some issued \<and> it_robot_id issued = rid
             \<and> now < it_expires_at issued \<and> Proved rid (it_public_key issued) nonce sig \<in> set tr)
      | _ \<Rightarrow> (\<exists>stored. map_of (co_keys c) rid = Some stored
             \<and> verify_key (cx_pw_verify (xt_crypto xt)) stored k))"

lemma accepted_identity:
  assumes "crypto_ok (xt_crypto xt)" "auth_inv (xt_crypto xt) tr c" "fst (key_ok xt now c rid raw)"
  shows "\<exists>k. parse_key xt raw = Inr k \<and> shows_identity xt tr now c rid k"
proof -
  obtain k where k: "parse_key xt raw = Inr k" "fst (validate_key (xt_crypto xt) now c rid k)"
    using assms(3) by (auto simp: key_ok_def split: sum.splits)
  show ?thesis
  proof (cases "is_token k")
    case True
    then obtain t where t: "k = Token t" by (auto simp: is_token_def split: key.splits)
    then obtain issued where i: "map_of (co_tokens c) t = Some issued" "it_robot_id issued = rid"
        "now < it_expires_at issued"
      using k(2) by (auto simp: validate_key_def token_holder_def split: option.splits if_splits)
    have "tokens_ok tr c" using assms(2) by (simp add: auth_inv_def)
    with map_of_SomeD [OF i(1)] i(2) have "\<exists>nonce sig. Proved rid (it_public_key issued) nonce sig \<in> set tr"
      by (fastforce simp: tokens_ok_def)
    with i k(1) t show ?thesis by (auto simp: shows_identity_def)
  next
    case False
    with validate_secret [OF assms(1,2) k(2)] k(1) show ?thesis
      by (auto simp: shows_identity_def is_token_def split: key.splits)
  qed
qed

lemma expire_same: "same_identity c (snd (expire_claims c now))"
  by (rule others_same_identity(3))

lemma shows_same:
  "same_identity c c' \<Longrightarrow> shows_identity xt tr now c' rid k = shows_identity xt tr now c rid k"
  by (simp add: shows_identity_def same_identity_def split: key.split)

lemma resolve_expire: "resolve_robot_id cx (snd (expire_claims c now)) raw = resolve_robot_id cx c raw"
  by (auto simp: resolve_robot_id_def expire_claims_def Let_def split: prod.split option.split)

section \<open>A robot touches no other robot's claims\<close>

definition foreign :: "robot_id \<Rightarrow> coordinator \<Rightarrow> claim_request list \<times> lease list" where
  "foreign rid c =
     (filter (\<lambda>r. cr_robot_id r \<noteq> rid) (cm_requests (co_claims c)),
      filter (\<lambda>l. le_robot_id l \<noteq> rid) (cm_leases (co_claims c)))"

lemma filter_replace_or_push:
  "(\<And>x. p x \<Longrightarrow> \<not> q x) \<Longrightarrow> \<not> q r \<Longrightarrow> filter q (replace_or_push p r xs) = filter q xs"
  by (induction xs) auto

lemma filter_remove_position:
  "position p xs = Some i \<Longrightarrow> (\<And>x. p x \<Longrightarrow> \<not> q x) \<Longrightarrow> filter q (take i xs @ drop (Suc i) xs) = filter q xs"
proof (induction xs arbitrary: i)
  case (Cons x xs)
  show ?case
  proof (cases "p x")
    case True
    with Cons.prems show ?thesis by auto
  next
    case False
    with Cons.prems obtain j where "i = Suc j" "position p xs = Some j" by auto
    with Cons.IH Cons.prems(2) show ?thesis by auto
  qed
qed simp

lemma foreign_claims: "co_claims c' = co_claims c \<Longrightarrow> foreign rid c' = foreign rid c"
  by (simp add: foreign_def)

lemma foreign_release:
  "release_request_for_robot_target (co_claims c) rid resource = (b, m) \<Longrightarrow>
   foreign rid (c\<lparr>co_claims := m\<rparr>) = foreign rid c"
  by (auto simp: release_request_for_robot_target_def foreign_def
      simp del: filter_append split: option.splits intro!: filter_remove_position)

lemma foreign_unregister: "foreign rid (snd (unregister_robot c rid)) = foreign rid c"
  by (simp add: unregister_robot_def foreign_def Let_def remove_requests_spec release_leases_spec
      split: option.split)

lemma foreign_grant:
  assumes "next_request_id m = (i, m')" "cr_robot_id r = rid"
  shows "foreign rid (c\<lparr>co_claims := snd (upsert_request_for_robot m' r)\<rparr>) = foreign rid (c\<lparr>co_claims := m\<rparr>)"
proof -
  have "filter (\<lambda>r. cr_robot_id r \<noteq> rid) (replace_or_push (same_robot_ground r) r (cm_requests m))
      = filter (\<lambda>r. cr_robot_id r \<noteq> rid) (cm_requests m)"
    by (rule filter_replace_or_push) (simp_all add: same_robot_ground_def assms(2))
  with minted_frame [OF assms(1)] show ?thesis
    by (simp add: foreign_def upsert_request_for_robot_def)
qed

lemma claim_of_robot:
  assumes "claim_of xt e requested key robot mode lease c = Some r"
  shows "resolve_robot_id (xt_crypto xt) c robot = Some (cr_robot_id r)"
  using assms by (auto simp: claim_of_def wire_request_def split: option.splits if_splits)

lemma foreign_claim:
  assumes "flat_claim_targets xt e requested key robot mode lease sv = Some (reply, sv')"
    and "resolve_robot_id (xt_crypto xt) (sv_coord sv) robot = Some rid"
  shows "foreign rid (sv_coord sv') \<in>
    {foreign rid (sv_coord sv), foreign rid (snd (expire_claims (sv_coord sv) (en_ms e 0)))}"
proof -
  let ?c = "snd (expire_claims (sv_coord sv) (en_ms e 0))"
  show ?thesis
  proof (cases "claim_of xt e requested key robot mode lease ?c")
    case None
    with claim_spec [OF assms(1)] show ?thesis by (auto intro: foreign_claims)
  next
    case (Some r)
    obtain i m where mint: "next_request_id (co_claims ?c) = (i, m)" by force
    have r: "cr_robot_id r = rid"
      using claim_of_robot [OF Some] assms(2) by (simp add: resolve_expire)
    have "foreign rid (sv_coord sv') = foreign rid ?c"
    proof (cases "fr_decision reply = 1")
      case True
      with claim_spec [OF assms(1)] Some mint
      have "co_claims (sv_coord sv') = snd (upsert_request_for_robot m r)" by simp
      with foreign_grant [OF mint r, of ?c] show ?thesis by (simp add: foreign_def)
    next
      case False
      with claim_spec [OF assms(1)] Some mint have "co_claims (sv_coord sv') = m" by simp
      with minted_frame [OF mint] show ?thesis by (simp add: foreign_def)
    qed
    then show ?thesis by simp
  qed
qed

lemma heartbeat_claims: "co_claims (heartbeat_apply xt e rid node edge pos att c) = co_claims c"
  by (simp add: heartbeat_apply_def touch_robot_def update_robot_pose_def update_robot_progress_def Let_def
      split: option.split prod.split)

text \<open>
  C14: a call made in the name of one robot leaves every claim and lease of the others in place: a
  release, a deregistration, a heartbeat and a registration touch none of them, and a claim drops
  only those that had expired.
\<close>

theorem others_untouched:
  assumes "resolve_robot_id (xt_crypto xt) (sv_coord sv) robot = Some rid"
  shows "foreign rid (sv_coord (snd (flat_release xt e kind key robot i sv))) = foreign rid (sv_coord sv)
    \<and> foreign rid (sv_coord (snd (flat_deregister xt e robot key sv))) = foreign rid (sv_coord sv)
    \<and> foreign rid (sv_coord (snd (flat_heartbeat xt e robot key zone node edge pos att sv))) = foreign rid (sv_coord sv)
    \<and> foreign rid (sv_coord (snd (flat_register xt e robot key alive sv))) = foreign rid (sv_coord sv)
    \<and> foreign rid (sv_coord (claim_call xt e requested key robot mode lease sv)) \<in>
        {foreign rid (sv_coord sv), foreign rid (snd (expire_claims (sv_coord sv) (en_ms e 0)))}"
proof (intro conjI)
  show "foreign rid (sv_coord (snd (flat_release xt e kind key robot i sv))) = foreign rid (sv_coord sv)"
    using assms by (auto simp: flat_release_def Let_def foreign_release dest!: key_ok_claims intro: foreign_claims
        split: option.split prod.split)
  show "foreign rid (sv_coord (snd (flat_deregister xt e robot key sv))) = foreign rid (sv_coord sv)"
    using assms by (auto simp: flat_deregister_def known_robot_def foreign_unregister dest!: key_ok_claims
        intro: foreign_claims split: option.split prod.split bool.split)
  show "foreign rid (sv_coord (snd (flat_heartbeat xt e robot key zone node edge pos att sv))) = foreign rid (sv_coord sv)"
    by (auto simp: flat_heartbeat_def heartbeat_claims dest!: key_ok_claims
        intro!: foreign_claims split: option.split prod.split bool.split)
  show "foreign rid (sv_coord (snd (flat_register xt e robot key alive sv))) = foreign rid (sv_coord sv)"
    by (rule foreign_claims)
      (auto simp: flat_register_def resolve_or_mint_robot_id_def register_with_key_def register_cases
        drop_pending_def commit_binding_def set_alive_def Let_def
        split: sum.split key_error.split option.split prod.split)
  show "foreign rid (sv_coord (claim_call xt e requested key robot mode lease sv)) \<in>
        {foreign rid (sv_coord sv), foreign rid (snd (expire_claims (sv_coord sv) (en_ms e 0)))}"
    using assms foreign_claim unfolding claim_call_def by (fastforce split: option.split)
qed

section \<open>The ring of events\<close>

lemma push_event_drop:
  "length evs \<le> max_events \<Longrightarrow> push_event evs ev = drop (length (evs @ [ev]) - max_events) (evs @ [ev])"
  by (cases evs) (auto simp: push_event_def max_events_def)

lemma push_events_drop:
  "length evs \<le> max_events \<Longrightarrow> foldl push_event evs es = drop (length (evs @ es) - max_events) (evs @ es)"
proof (induction es arbitrary: evs)
  case (Cons e es)
  have len: "length (push_event evs e) \<le> max_events"
    using Cons.prems by (simp add: push_event_drop)
  show ?case
  proof (cases "length evs < max_events")
    case True
    then have "push_event evs e = evs @ [e]" by (simp add: push_event_def)
    with Cons.IH [OF len] show ?thesis by simp
  next
    case False
    with Cons.prems have n: "length evs = max_events" by simp
    then obtain x xs where xs: "evs = x # xs" by (cases evs) (simp_all add: max_events_def)
    with n have "push_event evs e = xs @ [e]" by (simp add: push_event_def)
    moreover have "length (evs @ e # es) - max_events = Suc (length es)"
      "length ((xs @ [e]) @ es) - max_events = length es" using n xs by simp_all
    ultimately show ?thesis using Cons.IH [OF len] xs by (simp del: drop_append length_append)
  qed
qed simp

lemma session_events:
  assumes "session xt sv0 tr sv" "sv_events sv0 = []"
  shows "\<exists>es. sv_events sv = foldl push_event [] es"
  using assms(1)
proof (induction rule: session.induct)
  case opened
  then show ?case using assms(2) by (intro exI [of _ "[]"]) simp
next
  case (served tr sv es sv')
  obtain old new where "sv_events sv = foldl push_event [] old" "sv_events sv' = foldl push_event (sv_events sv) new"
    using served(4) step_events [OF served(3)] by blast
  then show ?case by (intro exI [of _ "old @ new"]) simp
qed

lemma session_events_bounded:
  assumes "session xt sv0 tr sv" "sv_events sv0 = []"
  shows "length (sv_events sv) \<le> max_events"
proof -
  obtain es where "sv_events sv = foldl push_event [] es" using session_events [OF assms] by blast
  then show ?thesis using push_events_drop [of "[]" es] by simp
qed

text \<open>
  The ring of events is the last 256 of the decisions recorded, in their order, and never more.
\<close>

theorem event_ring:
  assumes "length (sv_events sv) \<le> max_events"
  shows "sv_events (foldl record_event sv es) =
      (let all = sv_events sv @ es in drop (length all - max_events) all)
    \<and> length (sv_events (foldl record_event sv es)) \<le> max_events"
proof -
  have "sv_events (foldl record_event sv es) = foldl push_event (sv_events sv) es"
    by (induction es arbitrary: sv) simp_all
  with push_events_drop [OF assms, of es] show ?thesis by (simp add: Let_def)
qed

section \<open>Hex\<close>

lemma strip_any_none: "list_all (\<lambda>w. w \<noteq> [] \<and> hd w \<noteq> c) ws \<Longrightarrow> strip_any ws (c # cs) = None"
proof (induction ws)
  case (Cons w ws)
  then show ?case by (cases w) auto
qed simp

lemma trim_with_other: "list_all (\<lambda>w. w \<noteq> [] \<and> hd w \<noteq> c) ws \<Longrightarrow> trim_with ws (c # cs) = c # cs"
  by (subst trim_with.simps) (simp add: strip_any_none)

lemma ascii_not_space:
  assumes "of_char c < (128 :: nat)" "32 < (of_char c :: nat)"
  shows "list_all (\<lambda>w. w \<noteq> [] \<and> hd w \<noteq> c) ws_encodings"
    "list_all (\<lambda>w. w \<noteq> [] \<and> hd w \<noteq> c) (map rev ws_encodings)"
  using assms by (auto simp: ws_encodings_def)

lemma str_trim_ascii:
  assumes "list_all (\<lambda>c. of_char c < (128 :: nat) \<and> 32 < (of_char c :: nat)) s"
  shows "str_trim s = s"
proof (cases s)
  case (Cons c cs)
  then have c: "trim_with ws_encodings s = s" using assms ascii_not_space [of c] by (simp add: trim_with_other)
  obtain d ds where d: "rev s = d # ds" using Cons by (metis rev_is_Nil_conv list.exhaust list.distinct(1))
  then have "d \<in> set s" by (metis list.set_intros(1) set_rev)
  then have "trim_with (map rev ws_encodings) (rev s) = rev s"
    using assms d ascii_not_space [of d] by (simp add: trim_with_other list_all_iff)
  with c show ?thesis by (simp add: str_trim_def)
qed (simp add: str_trim_def trim_with.simps ws_encodings_def)

lemma hex_digit_code: "n < 16 \<Longrightarrow> of_char (hex_digit n) = (if n < 10 then 48 + n else 87 + n)"
  by (auto simp: hex_digit_def of_char_of)

lemma hex_value_digit: "n < 16 \<Longrightarrow> hex_value (hex_digit n) = Some n"
  by (simp add: hex_value_def hex_digit_code Let_def)

lemma hex_digit_plus: "n < 16 \<Longrightarrow> hex_digit n \<noteq> CHR ''+''"
proof
  assume "n < 16" "hex_digit n = CHR ''+''"
  then have "(of_char (hex_digit n) :: nat) = 43" by simp
  with hex_digit_code [OF \<open>n < 16\<close>] show False by (auto split: if_splits)
qed

lemma byte_parts: "of_char b div 16 < (16 :: nat)" "of_char b mod 16 < (16 :: nat)"
  using nat_of_char_less_256 [of b] by (simp_all add: less_mult_imp_div_less)

lemma hex_digit_range: "n < 16 \<Longrightarrow> 32 < (of_char (hex_digit n) :: nat) \<and> of_char (hex_digit n) < (128 :: nat)"
  by (simp add: hex_digit_code)

lemma hex_byte_back: "from_str_radix_16 (hex_digit (of_char b div 16)) (hex_digit (of_char b mod 16)) = Some b"
  using byte_parts [of b] by (simp add: from_str_radix_16_def hex_value_digit hex_digit_plus)

lemma hex_boundary: "is_char_boundary (concat (map hex_byte bs))"
  using hex_digit_range [OF byte_parts(1)] by (cases bs) (auto simp: is_char_boundary_def hex_byte_def not_le)

lemma decode_pairs_hex: "decode_pairs (concat (map hex_byte bs)) = Returns (Some bs)"
proof (induction bs)
  case (Cons b bs)
  have "is_char_boundary (concat (map hex_byte (b # bs)))" by (rule hex_boundary)
  with Cons hex_boundary [of bs] hex_byte_back [of b] show ?case
    unfolding hex_byte_def by (simp del: of_char_of)
qed simp

lemma hex_ascii: "list_all (\<lambda>c. of_char c < (128 :: nat) \<and> 32 < (of_char c :: nat)) (concat (map hex_byte bs))"
  using hex_digit_range [OF byte_parts(1)] hex_digit_range [OF byte_parts(2)]
  by (induction bs) (auto simp: hex_byte_def)

lemma hex_even: "even (length (concat (map hex_byte bs)))"
  by (induction bs) (simp_all add: hex_byte_def)

lemma hex_back:
  assumes "bs \<noteq> []"
  shows "decode_hex (concat (map hex_byte bs)) = Returns (Some bs)"
proof -
  have "concat (map hex_byte bs) \<noteq> []" using assms by (cases bs) (simp_all add: hex_byte_def)
  then show ?thesis
    using hex_even [of bs] by (simp add: decode_hex_def str_trim_ascii [OF hex_ascii] decode_pairs_hex)
qed

text \<open>
  What the core writes in hex (nonces, and the signatures it is handed as bytes) it reads back
  as it was, without a panic.
\<close>

theorem hex_round_trip:
  assumes "bs \<noteq> []"
  shows "decode_hex (concat (map hex_byte bs)) = Returns (Some bs)"
  using assms by (rule hex_back)

text \<open>Text that is not ASCII can panic: the cut falls inside a character.\<close>

lemma hex_panics: "decode_hex [CHR ''a'', CHR 0xC3, CHR 0xA9, CHR ''b''] = Panics"
  by code_simp

section \<open>Pushing a workspace\<close>

definition operator_key :: "crates \<Rightarrow> serve_state \<Rightarrow> string option \<Rightarrow> bool" where
  "operator_key xt sv presented =
     (case (sv_admin_key sv, presented) of
        (Some expected, Some raw) \<Rightarrow>
          (case parse_key xt raw of Inr k \<Rightarrow> k = expected | Inl e \<Rightarrow> False)
      | _ \<Rightarrow> False)"

lemma workspace_key_ok: "check_workspace_key xt sv key = Inr () \<longleftrightarrow> operator_key xt sv key"
  by (auto simp: check_workspace_key_def operator_key_def key_matches_iff split: option.split sum.split)

text \<open>What the push of a workspace has to pass.\<close>

definition may_serve ::
  "crates \<Rightarrow> (uuid list \<Rightarrow> uuid list) \<Rightarrow> ((uuid \<times> nat) list \<Rightarrow> (uuid \<times> nat) list) \<Rightarrow> serve_state
   \<Rightarrow> string option \<Rightarrow> workspace \<Rightarrow> bool"
where
  "may_serve xt ho hm sv key w =
     (operator_key xt sv key \<and> max_zone_depth (rebuild ho w) \<le> max_zone_nesting
      \<and> list_all (\<lambda>i. vi_severity i \<noteq> Error) (validation_issues ho hm (rebuild ho w)))"

lemma no_errors: "issue_messages Error issues = [] \<longleftrightarrow> list_all (\<lambda>i. vi_severity i \<noteq> Error) issues"
  by (auto simp: issue_messages_def filter_empty_conv list_all_iff)

lemma push_cases:
  assumes "set_workspace xt ho hm parse from_wire e document key sv = Some (result, sv')"
  obtains (refused) err where "result = Inl err" "sv' = sv"
  | (served) name wire w accepted rid zones where "parse document = Inr (name, wire)" "from_wire wire = Inr w"
     "may_serve xt ho hm sv key w" "result = Inr accepted" "workspace_zones (rebuild ho w) = Some (Inr (rid, zones))"
     "accept_workspace e name (rebuild ho w) (validation_issues ho hm (rebuild ho w)) rid zones sv = (accepted, sv')"
proof (cases "\<exists>name wire w. check_workspace_key xt sv key = Inr () \<and> parse document = Inr (name, wire)
    \<and> from_wire wire = Inr w")
  case False
  then show ?thesis using assms refused
    by (auto simp: set_workspace_def split: sum.splits)
next
  case True
  then obtain name wire w where ok: "check_workspace_key xt sv key = Inr ()" "parse document = Inr (name, wire)"
      "from_wire wire = Inr w" by blast
  show ?thesis
  proof (cases "may_serve xt ho hm sv key w")
    case False
    with assms ok refused show ?thesis
      by (auto simp: set_workspace_def may_serve_def no_errors workspace_key_ok Let_def split: if_splits)
  next
    case True
    then have go: "map_option (\<lambda>r. case r of
                       Inl err \<Rightarrow> (Inl err, sv)
                     | Inr (rid, zones) \<Rightarrow>
                         (case accept_workspace e name (rebuild ho w) (validation_issues ho hm (rebuild ho w)) rid zones sv of
                            (accepted, sv') \<Rightarrow> (Inr accepted, sv')))
                   (workspace_zones (rebuild ho w)) = Some (result, sv')"
      using assms ok by (simp add: set_workspace_def may_serve_def no_errors Let_def)
    then obtain r where r: "workspace_zones (rebuild ho w) = Some r" by auto
    show ?thesis
    proof (cases r)
      case (Inl err)
      with go r refused show ?thesis by auto
    next
      case (Inr p)
      obtain rid zones where p: "p = (rid, zones)" by (cases p)
      obtain accepted sv'' where a: "accept_workspace e name (rebuild ho w)
          (validation_issues ho hm (rebuild ho w)) rid zones sv = (accepted, sv'')" by (metis surj_pair)
      from go r Inr p a have "result = Inr accepted" "sv' = sv''" by simp_all
      with served [OF ok(2,3) True] r Inr p a show ?thesis by simp
    qed
  qed
qed

text \<open>
  C11: a pushed workspace is served only when the operator's key matches, the document loads, its
  zones nest at most 64 deep and its validation reports no error; the claims are then kept as they
  are, and counted as stale exactly where they name what the new index does not hold. A refused push
  changes nothing.
\<close>

theorem push_exact:
  assumes "set_workspace xt ho hm parse from_wire e document key sv = Some (result, sv')"
  shows "case result of
      Inl err \<Rightarrow> sv' = sv
    | Inr accepted \<Rightarrow>
        \<exists>name wire w. parse document = Inr (name, wire) \<and> from_wire wire = Inr w
          \<and> may_serve xt ho hm sv key w
          \<and> sv_coord sv' = co_bind_index (sv_coord sv) (rebuild ho w)
          \<and> cm_requests (co_claims (sv_coord sv')) = cm_requests (co_claims (sv_coord sv))
          \<and> cm_leases (co_claims (sv_coord sv')) = cm_leases (co_claims (sv_coord sv))
          \<and> wa_stale_claims accepted =
              length (filter (is_stale (rebuild ho w)) (cm_requests (co_claims (sv_coord sv))))"
  using assms
proof (cases rule: push_cases)
  case (served name wire w accepted rid zones)
  have "sv_coord sv' = co_bind_index (sv_coord sv) (rebuild ho w)"
    "wa_stale_claims accepted = length (filter (is_stale (rebuild ho w)) (cm_requests (co_claims (sv_coord sv))))"
    using served(6) by (auto simp: accept_workspace_def Let_def)
  with served show ?thesis by (auto simp: co_bind_index_def bind_index_def)
qed simp

section \<open>Who is turned away\<close>

text \<open>
  A caller speaks for the robot that is named when the id resolves, the key parses, and the key
  shows the identity of that robot.
\<close>

definition speaks_for ::
  "crates \<Rightarrow> event list \<Rightarrow> nat \<Rightarrow> coordinator \<Rightarrow> string \<Rightarrow> string \<Rightarrow> bool"
where
  "speaks_for xt tr now c robot key =
     (case (resolve_robot_id (xt_crypto xt) c robot, parse_key xt key) of
        (Some rid, Inr k) \<Rightarrow> shows_identity xt tr now c rid k
      | _ \<Rightarrow> False)"

text \<open>
  A call is turned away: it is denied, and what it leaves behind is at most a change of the count of
  wrong keys presented for the robot it named. No claim, lease, robot, key, token, challenge, pose,
  heartbeat or event is touched.
\<close>

definition turned_away :: "robot_id option \<Rightarrow> serve_state \<Rightarrow> flat_reply \<times> serve_state \<Rightarrow> bool" where
  "turned_away who sv p =
     (let f = co_failures (sv_coord (snd p)) in
      fr_decision (fst p) = 0
      \<and> snd p = sv\<lparr>sv_coord := (sv_coord sv)\<lparr>co_failures := f\<rparr>\<rparr>
      \<and> (\<forall>r. who \<noteq> Some r \<longrightarrow> map_of f r = map_of (co_failures (sv_coord sv)) r))"

lemma turned_away_same [simp]: "fr_decision reply = 0 \<Longrightarrow> turned_away who sv (reply, sv)"
  by (simp add: turned_away_def Let_def)

lemma turned_away_failures:
  "fr_decision reply = 0 \<Longrightarrow> c = (sv_coord sv)\<lparr>co_failures := f\<rparr> \<Longrightarrow>
   (\<And>r. r \<noteq> rid \<Longrightarrow> map_of f r = map_of (co_failures (sv_coord sv)) r) \<Longrightarrow>
   turned_away (Some rid) sv (reply, sv\<lparr>sv_coord := c\<rparr>)"
  by (auto simp: turned_away_def Let_def)

lemma try_verify_refused:
  "try_verify cx now c rid stored k = (False, c') \<Longrightarrow>
   \<exists>f. c' = c\<lparr>co_failures := f\<rparr> \<and> (\<forall>r. r \<noteq> rid \<longrightarrow> map_of f r = map_of (co_failures c) r)"
  by (auto simp: try_verify_def note_failure_def map_of_bt_insert Let_def split: if_splits prod.splits)

lemma cleared_failures:
  "co_failures (clear_failures c rid) = bt_remove rid (co_failures c)"
  "(clear_failures c rid)\<lparr>co_failures := f\<rparr> = c\<lparr>co_failures := f\<rparr>"
  by (simp_all add: clear_failures_def)

lemma secret_refused:
  assumes "\<not> is_token k" "validate_key cx now c rid k = (False, c')"
  shows "\<exists>f. c' = c\<lparr>co_failures := f\<rparr> \<and> (\<forall>r. r \<noteq> rid \<longrightarrow> map_of f r = map_of (co_failures c) r)"
proof -
  have "c' = c \<or> (\<exists>stored. try_verify cx now c rid stored k = (False, c'))
      \<or> (\<exists>stored. try_verify cx now (clear_failures c rid) rid stored k = (False, c'))"
    using assms
    by (cases k) (auto simp: validate_key_def is_token_def split: option.splits if_splits prod.splits)
  then show ?thesis
  proof (elim disjE exE)
    assume "c' = c"
    then show ?thesis by (intro exI [of _ "co_failures c"]) simp
  next
    fix stored assume "try_verify cx now (clear_failures c rid) rid stored k = (False, c')"
    from try_verify_refused [OF this] show ?thesis
      by (simp add: cleared_failures map_of_bt_remove)
  qed (blast dest: try_verify_refused)
qed

lemma key_refused:
  assumes "key_ok xt now c rid raw = (False, c')"
  shows "\<exists>f. c' = c\<lparr>co_failures := f\<rparr> \<and> (\<forall>r. r \<noteq> rid \<longrightarrow> map_of f r = map_of (co_failures c) r)"
proof (cases "parse_key xt raw")
  case (Inl err)
  with assms show ?thesis by (intro exI [of _ "co_failures c"]) (simp add: key_ok_def)
next
  case (Inr k)
  with assms have v: "validate_key (xt_crypto xt) now c rid k = (False, c')" by (simp add: key_ok_def)
  show ?thesis
  proof (cases "is_token k")
    case True
    with v have "c' = c"
      by (cases k) (auto simp: validate_key_def is_token_def split: option.splits)
    then show ?thesis by (intro exI [of _ "co_failures c"]) simp
  qed (rule secret_refused [OF _ v])
qed

lemma turned_away_key:
  assumes "key_ok xt now (sv_coord sv) rid raw = (False, c)" "fr_decision reply = 0"
  shows "turned_away (Some rid) sv (reply, sv\<lparr>sv_coord := c\<rparr>)"
  using key_refused [OF assms(1)] turned_away_failures [OF assms(2)] by blast

text \<open>
  The life of a core: the requests of \<open>wire_step\<close> in any order, and between them pushes of a workspace.
\<close>

inductive wire_life ::
  "crates \<Rightarrow> (string \<Rightarrow> string + string \<times> 'w) \<Rightarrow> ('w \<Rightarrow> string + workspace)
   \<Rightarrow> serve_state \<Rightarrow> event list \<Rightarrow> serve_state \<Rightarrow> bool"
for xt parse from_wire sv0 where
  begun: "wire_life xt parse from_wire sv0 [] sv0"
| asked: "wire_life xt parse from_wire sv0 tr sv \<Longrightarrow> wire_step xt sv es sv' \<Longrightarrow>
    wire_life xt parse from_wire sv0 (es @ tr) sv'"
| pushed: "wire_life xt parse from_wire sv0 tr sv \<Longrightarrow>
    set_workspace xt ho hm parse from_wire e document presented sv = Some (result, sv') \<Longrightarrow>
    wire_life xt parse from_wire sv0 tr sv'"

lemma session_life: "session xt sv0 tr sv \<Longrightarrow> wire_life xt parse from_wire sv0 tr sv"
  by (induction rule: session.induct) (auto intro: wire_life.intros)

lemma push_same:
  assumes "set_workspace xt ho hm parse from_wire e document presented sv = Some (result, sv')"
  shows "same_identity (sv_coord sv) (sv_coord sv')"
  using assms
proof (cases rule: push_cases)
  case refused
  then show ?thesis by (simp add: same_identity_def)
next
  case (served name wire w accepted rid zones)
  then have "sv_coord sv' = co_bind_index (sv_coord sv) (rebuild ho w)"
    by (auto simp: accept_workspace_def Let_def)
  then show ?thesis by (simp add: others_same_identity)
qed

lemma life_auth:
  "wire_life xt parse from_wire sv0 tr sv \<Longrightarrow> auth_reach (xt_crypto xt) [] (sv_coord sv0) \<Longrightarrow>
   auth_reach (xt_crypto xt) tr (sv_coord sv)"
  by (induction rule: wire_life.induct) (auto intro: step_auth auth_reach.other push_same)

lemma key_speaks:
  assumes "crypto_ok (xt_crypto xt)" "auth_inv (xt_crypto xt) tr c" "same_identity c c'"
    and "resolve_robot_id (xt_crypto xt) c robot = Some rid" "\<not> speaks_for xt tr now c robot key"
  shows "\<exists>d. key_ok xt now c' rid key = (False, d)"
proof -
  have "\<not> fst (key_ok xt now c' rid key)"
    using accepted_identity [OF assms(1) inv_frame [OF assms(2,3)], of now rid key] assms(4,5)
    by (auto simp: speaks_for_def shows_same [OF assms(3)])
  then show ?thesis by (metis prod.collapse)
qed

text \<open>
  C6: over the wire, whatever requests and pushes of a workspace came before, a release, a
  deregistration, a heartbeat or a claim of a caller who does not speak for the robot it names is
  turned away: it is denied, and it changes nothing but the count of wrong keys kept for that robot
  (a claim first drops the claims whose time has run out, as every claim does). To speak for a robot
  is to present a key that the verifier stored for it accepts, or a live bearer token issued to it
  after a proof by signature for that very robot.
\<close>

theorem wire_authenticated:
  assumes "crypto_ok (xt_crypto xt)" "wire_life xt parse from_wire sv0 tr sv" "fresh_start (sv_coord sv0)"
    and "\<not> speaks_for xt tr (en_now e) (sv_coord sv) robot key"
  defines "who \<equiv> resolve_robot_id (xt_crypto xt) (sv_coord sv) robot"
  shows "turned_away who sv (flat_release xt e kind key robot i sv)
    \<and> turned_away who sv (flat_deregister xt e robot key sv)
    \<and> turned_away who sv (flat_heartbeat xt e robot key zone node edge pos att sv)
    \<and> (\<exists>p. flat_claim_targets xt e requested key robot mode lease sv = Some p
         \<and> (turned_away who sv p
            \<or> turned_away who (sv\<lparr>sv_coord := snd (expire_claims (sv_coord sv) (en_ms e 0))\<rparr>) p))"
proof -
  have inv: "auth_inv (xt_crypto xt) tr (sv_coord sv)"
    by (rule reach_inv [OF assms(1) life_auth [OF assms(2) auth_reach.start [OF assms(3)]]])
  let ?x = "sv\<lparr>sv_coord := snd (expire_claims (sv_coord sv) (en_ms e 0))\<rparr>"
  show ?thesis
  proof (cases who)
    case None
    have "\<exists>p. flat_claim_targets xt e requested key robot mode lease sv = Some p
        \<and> (turned_away who sv p \<or> turned_away who ?x p)"
      using None [unfolded who_def]
      by (cases "claim_access mode") (simp_all add: flat_claim_targets_def resolve_expire Let_def deny_def)
    with None [unfolded who_def] show ?thesis
      by (simp add: flat_release_def flat_deregister_def flat_heartbeat_def known_robot_def deny_def)
  next
    case (Some rid)
    note who = Some [unfolded who_def]
    have at: "\<exists>d. key_ok xt (en_now e) c' rid key = (False, d)" if "same_identity (sv_coord sv) c'" for c'
      by (rule key_speaks [OF assms(1) inv that who assms(4)])
    obtain d where d: "key_ok xt (en_now e) (sv_coord sv) rid key = (False, d)"
      using at [of "sv_coord sv"] by (auto simp: same_identity_def)
    obtain d' where d': "key_ok xt (en_now e) (sv_coord ?x) rid key = (False, d')"
      using at [OF expire_same] by fastforce
    have "\<exists>p. flat_claim_targets xt e requested key robot mode lease sv = Some p
        \<and> (turned_away (Some rid) sv p \<or> turned_away (Some rid) ?x p)"
      using who d' turned_away_key [OF d', of "deny reason_mismatched_key"]
      by (cases "claim_access mode") (simp_all add: flat_claim_targets_def resolve_expire Let_def deny_def)
    moreover have "turned_away (Some rid) sv (deny r, sv\<lparr>sv_coord := d\<rparr>)" for r
      by (rule turned_away_key [OF d]) (simp add: deny_def)
    moreover have "turned_away (Some rid) sv (deny r, sv)" for r
      by (simp add: deny_def)
    ultimately show ?thesis
      using who d unfolding Some
      by (simp add: flat_release_def flat_deregister_def flat_heartbeat_def known_robot_def Let_def)
  qed
qed

section \<open>Registering, then being let in\<close>

lemma registered_verifier:
  assumes "flat_register xt e robot key alive sv = (reply, sv')" "fr_decision reply = 1"
    and "parse_key xt key = Inr k" "\<not> is_token k"
  shows "\<exists>c rid v. fst (resolve_or_mint_robot_id (xt_crypto xt) (sv_coord sv) robot) = Some rid
    \<and> \<not> is_did_key k \<and> co_pepper c = co_pepper (sv_coord sv)
    \<and> registration_verifier (xt_crypto xt) (en_salt e) (en_now e) c k (co_kdf c) = Some v
    \<and> map_of (co_keys (sv_coord sv')) rid = Some v
    \<and> map_of (co_verified (sv_coord sv')) rid = Some (fingerprint (xt_crypto xt) c k)
    \<and> co_pepper (sv_coord sv') = co_pepper c"
proof -
  obtain oid c where m: "resolve_or_mint_robot_id (xt_crypto xt) (sv_coord sv) robot = (oid, c)" by force
  have pep: "co_pepper c = co_pepper (sv_coord sv)"
    using m by (auto simp: resolve_or_mint_robot_id_def Let_def split: option.splits)
  show ?thesis
    using assms m pep
    by (auto simp: flat_register_def register_with_key_def register_cases deny_def set_alive_def
        commit_binding_def map_of_bt_insert Let_def
        split: if_splits option.splits prod.splits intro!: exI [of _ c])
qed

text \<open>A robot whose secret is the only one its verifier takes, and is in the cache.\<close>

definition enrolled :: "crypto \<Rightarrow> robot_id \<Rightarrow> key \<Rightarrow> coordinator \<Rightarrow> bool" where
  "enrolled cx rid k c =
     (\<exists>h. map_of (co_keys c) rid = Some (Secret h) \<and> (\<forall>m. cx_pw_verify cx h m = (m = material k))
        \<and> map_of (co_verified c) rid = Some (fingerprint cx c k))"

lemma enrolled_try:
  assumes "crypto_ok cx" "enrolled cx rid k c" "map_of (co_keys c) r = Some stored"
  shows "enrolled cx rid k (snd (try_verify cx now c r stored k'))"
proof (cases "verify_key (cx_pw_verify cx) stored k'")
  case False
  with assms(2) show ?thesis
    by (auto simp: try_verify_def enrolled_def note_failure_def fingerprint_def Let_def split: prod.split)
next
  case True
  obtain h where h: "map_of (co_keys c) rid = Some (Secret h)" "\<forall>m. cx_pw_verify cx h m = (m = material k)"
      "map_of (co_verified c) rid = Some (fingerprint cx c k)"
    using assms(2) by (auto simp: enrolled_def)
  let ?d = "snd (try_verify cx now c r stored k')"
  have d: "co_keys ?d = co_keys c" "co_pepper ?d = co_pepper c"
      "co_verified ?d = bt_insert r (fingerprint cx c k') (co_verified c)"
    using True by (simp_all add: try_verify_def clear_failures_def)
  have fp: "fingerprint cx ?d k = fingerprint cx c k" by (simp only: fingerprint_def d(2))
  have "map_of (co_verified ?d) rid = Some (fingerprint cx c k)"
  proof (cases "r = rid")
    case same: True
    then have "stored = Secret h" using h(1) assms(3) by simp
    with True have "cx_pw_verify cx h (material k')" by simp
    then have "material k' = material k" using h(2) by blast
    then have "fingerprint cx c k' = fingerprint cx c k" by (simp only: fingerprint_def)
    with same show ?thesis unfolding d(3) by (simp add: map_of_bt_insert)
  next
    case False
    with h(3) show ?thesis unfolding d(3) by (simp add: map_of_bt_insert)
  qed
  with h(1,2) show ?thesis unfolding enrolled_def fp d(1) by blast
qed

lemma enrolled_clear: "enrolled cx rid k c \<Longrightarrow> enrolled cx rid k (clear_failures c r)"
  by (simp add: enrolled_def clear_failures_def fingerprint_def)

lemma enrolled_validate:
  assumes "crypto_ok cx" "enrolled cx rid k c"
  shows "enrolled cx rid k (snd (validate_key cx now c r k'))"
proof (cases "map_of (co_keys c) r")
  case None
  with assms(2) show ?thesis by (simp add: validate_key_def)
next
  case (Some stored)
  show ?thesis
  proof (cases "is_token k'")
    case True
    with assms(2) Some show ?thesis by (auto simp: validate_key_def is_token_def split: key.splits)
  next
    case False
    have "map_of (co_keys (clear_failures c r)) r = Some stored" using Some by simp
    note kept = enrolled_try [OF assms Some, of now k'] enrolled_clear [OF assms(2), of r] assms(2)
      enrolled_try [OF assms(1) enrolled_clear [OF assms(2)] this, of now k']
    from validate_cases [OF Some False, of cx now] show ?thesis
    proof (elim disjE conjE)
      assume "validate_key cx now c r k' = (True, clear_failures c r)"
      then show ?thesis using kept(2) by (simp only: snd_conv)
    next
      assume "validate_key cx now c r k' = (False, c)"
      then show ?thesis using assms(2) by (simp only: snd_conv)
    next
      assume e: "validate_key cx now c r k' = try_verify cx now (clear_failures c r) r stored k'"
      show ?thesis unfolding e by (rule kept(4))
    next
      assume e: "validate_key cx now c r k' = try_verify cx now c r stored k'"
      show ?thesis unfolding e by (rule kept(1))
    qed
  qed
qed

lemma enrolled_tries:
  "crypto_ok (xt_crypto xt) \<Longrightarrow> enrolled (xt_crypto xt) rid k c \<Longrightarrow>
   enrolled (xt_crypto xt) rid k (foldl (\<lambda>c (t, r, raw). snd (key_ok xt t c r raw)) c tries)"
  by (induction tries arbitrary: c) (auto simp: key_ok_def enrolled_validate split: sum.split)

lemma enrolled_in:
  assumes "crypto_ok cx" "enrolled cx rid k c" "is_secret_key k"
  shows "fst (validate_key cx now c rid k)"
  using assms
  by (cases k) (auto simp: enrolled_def validate_key_def known_fingerprint_def crypto_ok_def is_secret_key_def)

lemma register_enrols:
  assumes "crypto_ok (xt_crypto xt)" "flat_register xt e robot key alive sv = (reply, sv')" "fr_decision reply = 1"
    and "parse_key xt key = Inr k" "\<not> is_token k"
  shows "is_secret_key k \<and> (\<exists>rid. fst (resolve_or_mint_robot_id (xt_crypto xt) (sv_coord sv) robot) = Some rid
    \<and> enrolled (xt_crypto xt) rid k (sv_coord sv'))"
proof -
  obtain c rid v where r: "fst (resolve_or_mint_robot_id (xt_crypto xt) (sv_coord sv) robot) = Some rid"
      "\<not> is_did_key k" "registration_verifier (xt_crypto xt) (en_salt e) (en_now e) c k (co_kdf c) = Some v"
      "map_of (co_keys (sv_coord sv')) rid = Some v"
      "map_of (co_verified (sv_coord sv')) rid = Some (fingerprint (xt_crypto xt) c k)"
      "co_pepper (sv_coord sv') = co_pepper c"
    using registered_verifier [OF assms(2-5)] by blast
  have s: "is_secret_key k"
    using r(2) assms(5) by (cases k) (auto simp: is_did_key_def is_token_def is_secret_key_def)
  then obtain h where h: "v = Secret h" "cx_hash_with (xt_crypto xt) (en_salt e) (material k) (co_kdf c) = Some h"
    using r(3) by (cases k) (auto simp: registration_verifier_def is_secret_key_def split: option.splits)
  then have "\<forall>m. cx_pw_verify (xt_crypto xt) h m = (m = material k)"
    using assms(1) by (simp add: crypto_ok_def)
  with h r have "enrolled (xt_crypto xt) rid k (sv_coord sv')"
    by (auto simp: enrolled_def fingerprint_def)
  with s r(1) show ?thesis by blast
qed

text \<open>
  C15: a robot that registers with a number or a password is let in with it from then on, at any
  time, however many keys, right or wrong, are tried in the meantime in its name or another's: the
  cooldown of failed attempts never locks out the robot itself.
\<close>

theorem registered_key_works:
  assumes "crypto_ok (xt_crypto xt)" "flat_register xt e robot key alive sv = (reply, sv')" "fr_decision reply = 1"
    and "parse_key xt key = Inr k" "\<not> is_token k"
  shows "\<exists>rid. fst (resolve_or_mint_robot_id (xt_crypto xt) (sv_coord sv) robot) = Some rid
    \<and> fst (key_ok xt now (foldl (\<lambda>c (t, r, raw). snd (key_ok xt t c r raw)) (sv_coord sv') tries) rid key)"
proof -
  obtain rid where r: "is_secret_key k" "fst (resolve_or_mint_robot_id (xt_crypto xt) (sv_coord sv) robot) = Some rid"
      "enrolled (xt_crypto xt) rid k (sv_coord sv')"
    using register_enrols [OF assms] by blast
  from enrolled_in [OF assms(1) enrolled_tries [OF assms(1) r(3), of tries] r(1)] r(2) assms(4)
  show ?thesis by (auto simp: key_ok_def)
qed

section \<open>What the wire does not let in\<close>

text \<open>A robot named by a UUID that no registration has bound.\<close>

definition unbound_uuid :: "crypto \<Rightarrow> coordinator \<Rightarrow> string \<Rightarrow> bool" where
  "unbound_uuid cx c raw =
     (parse_u64_str (str_trim raw) = None
      \<and> (\<exists>canon. cx_canonical_uuid cx (str_trim raw) = Some canon \<and> map_of (co_uuids c) canon = None))"

lemma unbound_mint:
  assumes "unbound_uuid cx c raw"
  obtains c' where "resolve_or_mint_robot_id cx c raw = (Some (co_next_synthetic c), c')"
    "co_next_synthetic c' = sat_add (co_next_synthetic c) 1" "co_challenges c' = co_challenges c"
    "co_uuids c' = co_uuids c"
  using assms by (auto simp: unbound_uuid_def resolve_or_mint_robot_id_def Let_def)

lemma sat_add_succ:
  assumes "a \<noteq> u64_max"
  shows "sat_add a 1 = a + 1"
proof -
  have "unat a \<noteq> 2 ^ 64 - 1" using assms by (metis unat_u64_max word_eq_iff_unsigned)
  moreover have "unat a < 2 ^ 64" using unsigned_less [of a] by simp
  ultimately have "unat a + 1 < 2 ^ 64" by linarith
  then show ?thesis by (simp add: sat_add_def)
qed

lemma prove_ok:
  "flat_prove xt e robot did sig sv = Returns (Inr token, sv') \<Longrightarrow>
   \<exists>rid c pk s. resolve_or_mint_robot_id (xt_crypto xt) (sv_coord sv) robot = (Some rid, c)
     \<and> fst (prove_identity (xt_crypto xt) (en_draw e) (en_now e) c rid pk s) \<noteq> None"
  by (auto simp: flat_prove_def split: sum.splits key.splits run.splits option.splits prod.splits)
    (metis fst_conv option.distinct(1))

lemma prove_unchallenged:
  "map_of (co_challenges c) rid = None \<Longrightarrow> fst (prove_identity cx draw now c rid pk sig) = None"
  by (simp add: prove_identity_def)

text \<open>
  The handshake of the documentation, for a robot named by a UUID that has not registered: it asks for
  a challenge and answers it in the very next call. The challenge is stored under one synthetic id and
  the answer is checked under the next; unless a challenge happens to be outstanding under that next id
  - somebody asked for one by its number - the proof is refused.
\<close>

theorem uuid_cannot_prove:
  assumes "unbound_uuid (xt_crypto xt) (sv_coord sv) robot"
    and "map_of (co_challenges (sv_coord sv)) (co_next_synthetic (sv_coord sv) + 1) = None"
    and "co_next_synthetic (sv_coord sv) \<noteq> u64_max"
    and "flat_prove xt e' robot did sig (snd (flat_challenge xt e robot sv)) = Returns (result, sv')"
  shows "\<exists>err. result = Inl err"
proof -
  let ?i = "co_next_synthetic (sv_coord sv)"
  obtain c where m: "resolve_or_mint_robot_id (xt_crypto xt) (sv_coord sv) robot = (Some ?i, c)"
      "co_next_synthetic c = sat_add ?i 1" "co_challenges c = co_challenges (sv_coord sv)"
      "co_uuids c = co_uuids (sv_coord sv)"
    using unbound_mint [OF assms(1)] .
  let ?d = "sv_coord (snd (flat_challenge xt e robot sv))"
  have d: "co_next_synthetic ?d = sat_add ?i 1" "co_uuids ?d = co_uuids (sv_coord sv)"
      "\<And>j. j \<noteq> ?i \<Longrightarrow> map_of (co_challenges ?d) j = map_of (co_challenges (sv_coord sv)) j"
    using m by (auto simp: flat_challenge_def issue_challenge_def map_of_bt_insert Let_def)
  have nxt: "sat_add ?i 1 = ?i + 1" "?i + 1 \<noteq> ?i"
    using assms(3) by (simp_all add: sat_add_succ)
  have "unbound_uuid (xt_crypto xt) ?d robot" using assms(1) d(2) by (simp add: unbound_uuid_def)
  then obtain c' where m': "resolve_or_mint_robot_id (xt_crypto xt) ?d robot = (Some (?i + 1), c')"
      "co_challenges c' = co_challenges ?d"
    using unbound_mint d(1) nxt(1) by metis
  have "map_of (co_challenges c') (?i + 1) = None" using m'(2) d(3) nxt(2) assms(2) by simp
  then have no: "\<And>pk s. fst (prove_identity (xt_crypto xt) (en_draw e') (en_now e') c' (?i + 1) pk s) = None"
    by (rule prove_unchallenged)
  show ?thesis
  proof (rule ccontr)
    assume "\<not> ?thesis"
    then obtain token where r: "result = Inr token" by (cases result) auto
    with prove_ok [of xt e' robot did sig "snd (flat_challenge xt e robot sv)" token sv'] assms(4) m'(1) no
    show False by auto
  qed
qed

lemma zero_text: "str_trim ''00'' = ''00''" "str_trim ''0'' = ''0''"
  by (simp_all add: str_trim_def trim_with.simps ws_encodings_def)

lemma zero_key: "parse_key xt ''00'' = Inr (Numeric 0)" "parse_key xt ''0'' = Inr (Numeric 0)"
  by (simp_all add: parse_key_def key_parse_def zero_text parse_u64_str_def is_digit_def digits_val_def)

text \<open>
  The guard on the shared default key looks at the text only: a robot that sends \<open>00\<close> is
  registered exactly as one that sends the default \<open>0\<close> to a core that allows it.
\<close>

theorem default_key_bypass:
  "flat_register xt e robot ''00'' alive sv =
     (let (reply, sv') = flat_register xt e robot ''0'' alive (sv\<lparr>sv_allow_default_key := True\<rparr>)
      in (reply, sv'\<lparr>sv_allow_default_key := sv_allow_default_key sv\<rparr>))"
  by (auto simp: flat_register_def zero_key zero_text default_key_def is_did_key_def Let_def
      split: option.split prod.split)

text \<open>
  A token that is unknown or has expired is answered with the reason of an id that is taken, though
  the id is free.
\<close>

lemma stale_token_reason:
  assumes "parse_key xt key = Inr (Token t)" "str_trim key \<noteq> default_key"
    and "resolve_or_mint_robot_id (xt_crypto xt) (sv_coord sv) robot = (Some rid, c)"
    and "registration_refusal c rid = None" "token_identity c (en_now e) t = None"
  shows "fr_reason (fst (flat_register xt e robot key alive sv)) = register_already_registered"
  using assms
  by (simp add: flat_register_def is_did_key_def register_with_key_def register_cases registration_verifier_def
      deny_def Let_def)

end
