(* ===== verification/Peer.thy ===== *)
theory Peer
  imports Protocol
begin

text \<open>
  The peerbus boundary (\<open>wire/peerbus.rs\<close>): the canonical messages, the decoding of a request into
  a flat operation, the replies, the reassembly of a workspace pushed in chunks, and the client. The
  datapod codec and the transport are not modelled: a request arrives decoded, or with the text of
  its decode error.
\<close>

section \<open>UTF-8\<close>

text \<open>
  \<open>str::from_utf8\<close>: the length of the first sequence and whether it is whole, broken by a byte, or
  cut off by the end.
\<close>

datatype utf8_verdict = Whole | Broken | Cut

definition cont_byte :: "char \<Rightarrow> bool" where
  "cont_byte ch = (128 \<le> (of_char ch :: nat) \<and> of_char ch < (192 :: nat))"

fun need_cont :: "nat \<Rightarrow> nat \<Rightarrow> string \<Rightarrow> nat \<times> utf8_verdict" where
  \<comment> \<open>\<open>n\<close> bytes read, \<open>k\<close> continuation bytes to come\<close>
  "need_cont n 0 bs = (n, Whole)"
| "need_cont n (Suc k) [] = (n, Cut)"
| "need_cont n (Suc k) (b # bs) = (if cont_byte b then need_cont (Suc n) k bs else (n, Broken))"

definition second_byte :: "nat \<Rightarrow> nat \<Rightarrow> nat \<Rightarrow> string \<Rightarrow> nat \<times> utf8_verdict" where
  "second_byte lo hi k bs =
     (case bs of
        [] \<Rightarrow> (1, Cut)
      | b # bs \<Rightarrow> if lo \<le> of_char b \<and> of_char b \<le> hi then need_cont 2 k bs else (1, Broken))"

definition utf8_first :: "nat \<Rightarrow> string \<Rightarrow> nat \<times> utf8_verdict" where
  "utf8_first b bs =
     (if b < 128 then (1, Whole)
      else if 194 \<le> b \<and> b < 224 then need_cont 1 1 bs
      else if b = 224 then second_byte 160 191 1 bs
      else if b = 237 then second_byte 128 159 1 bs
      else if 225 \<le> b \<and> b < 240 then second_byte 128 191 1 bs
      else if b = 240 then second_byte 144 191 2 bs
      else if 241 \<le> b \<and> b < 244 then second_byte 128 191 2 bs
      else if b = 244 then second_byte 128 143 2 bs
      else (1, Broken))"

lemma need_cont_ge: "n \<le> fst (need_cont n k bs)"
  by (induction n k bs rule: need_cont.induct) auto

lemma second_byte_pos: "1 \<le> fst (second_byte lo hi k bs)"
  using need_cont_ge [of 2 k "tl bs"] by (auto simp: second_byte_def split: list.split)

lemma utf8_first_pos: "0 < fst (utf8_first b bs)"
proof -
  have "1 \<le> fst (utf8_first b bs)"
    unfolding utf8_first_def using need_cont_ge [of 1 1 bs] second_byte_pos by (simp del: One_nat_def)
  then show ?thesis by simp
qed

text \<open>The first fault: where the valid part ends, and the length of what is wrong, if it is whole.\<close>

datatype utf8_error = Utf8Error nat "nat option"

function utf8_fault :: "nat \<Rightarrow> string \<Rightarrow> utf8_error option" where
  "utf8_fault i [] = None"
| "utf8_fault i (b # bs) =
     (case utf8_first (of_char b) bs of
        (n, Whole) \<Rightarrow> utf8_fault (i + n) (drop (n - 1) bs)
      | (n, Broken) \<Rightarrow> Some (Utf8Error i (Some n))
      | (n, Cut) \<Rightarrow> Some (Utf8Error i None))"
  by pat_completeness auto
termination
  by (relation "measure (\<lambda>(i, bs). length bs)") auto

declare utf8_fault.simps(2) [simp del]

definition utf8 :: "string \<Rightarrow> utf8_error + string" where
  "utf8 bs = (case utf8_fault 0 bs of None \<Rightarrow> Inr bs | Some err \<Rightarrow> Inl err)"

fun utf8_message :: "utf8_error \<Rightarrow> msg" where
  "utf8_message (Utf8Error i (Some n)) =
     Format ''invalid utf-8 sequence of {} bytes from index {}'' [AU64 (of_nat n), AU64 (of_nat i)]"
| "utf8_message (Utf8Error i None) =
     Format ''incomplete utf-8 byte sequence from index {}'' [AU64 (of_nat i)]"

text \<open>\<open>String::from_utf8_lossy\<close>: what is wrong is replaced by U+FFFD.\<close>

function from_utf8_lossy :: "string \<Rightarrow> string" where
  "from_utf8_lossy [] = []"
| "from_utf8_lossy (b # bs) =
     (let (n, verdict) = utf8_first (of_char b) bs in
      (if verdict = Whole then take n (b # bs) else [CHR 0xEF, CHR 0xBF, CHR 0xBD])
      @ from_utf8_lossy (drop (n - 1) bs))"
  by pat_completeness auto
termination
  by (relation "measure length") auto

declare from_utf8_lossy.simps(2) [simp del]

lemma lossy_valid: "utf8_fault i bs = None \<Longrightarrow> from_utf8_lossy bs = bs"
proof (induction i bs rule: utf8_fault.induct)
  case (2 i b bs)
  obtain n v where f: "utf8_first (of_char b) bs = (n, v)" by force
  with 2(2) have v: "v = Whole" "utf8_fault (i + n) (drop (n - 1) bs) = None"
    by (auto simp: utf8_fault.simps split: utf8_verdict.splits)
  have "0 < n" using utf8_first_pos [of "of_char b" bs] f by simp
  then have "take n (b # bs) @ drop (n - 1) bs = b # bs" by (cases n) simp_all
  with 2(1) [OF f [symmetric] v(1,2)] f v(1) show ?case
    by (simp add: from_utf8_lossy.simps del: drop_append)
qed simp

lemma utf8_Inr [simp]: "utf8 bs = Inr s \<longleftrightarrow> s = bs \<and> utf8_fault 0 bs = None"
  by (auto simp: utf8_def split: option.split)

section \<open>Messages\<close>

text \<open>An optional field travels as a value and a presence flag. The padding says nothing and is left out.\<close>

definition u8_of :: "bool \<Rightarrow> u8" where
  "u8_of b = (if b then 1 else 0)"

definition then_some :: "u8 \<Rightarrow> 'a \<Rightarrow> 'a option" where
  \<comment> \<open>\<open>(flag != 0).then_some(x)\<close>\<close>
  "then_some flag x = (if flag \<noteq> 0 then Some x else None)"

record register_msg =
  rg_alive :: u64
  rg_has_alive :: u8
  rg_robot :: string
  rg_key :: string

record deregister_msg =
  dg_robot :: string
  dg_key :: string

record heartbeat_msg =
  hm_zone :: "64 word"
  hm_node :: u64
  hm_edge :: u64
  hm_pos_a :: f64
  hm_pos_b :: f64
  hm_pos_c :: f64
  hm_roll :: f64
  hm_pitch :: f64
  hm_yaw :: f64
  hm_has_zone :: u8
  hm_has_node :: u8
  hm_has_edge :: u8
  hm_pos_frame :: u8
  hm_has_roll :: u8
  hm_has_pitch :: u8
  hm_has_yaw :: u8
  hm_robot :: string
  hm_key :: string

abbreviation pos_frame_none :: u8 where "pos_frame_none \<equiv> 0"
abbreviation pos_frame_global :: u8 where "pos_frame_global \<equiv> 1"
abbreviation pos_frame_local :: u8 where "pos_frame_local \<equiv> 2"

record claim_msg =
  cl_lease_time :: u64
  cl_access_mode :: u8
  cl_has_access_mode :: u8
  cl_has_lease_time :: u8
  cl_robot :: string
  cl_key :: string
  cl_id :: "u64 list"

record claim_route_msg =
  cq_lease_time :: u64
  cq_access_mode :: u8
  cq_has_access_mode :: u8
  cq_has_lease_time :: u8
  cq_robot :: string
  cq_key :: string
  cq_node :: "u64 list"
  cq_edge :: "u64 list"

record release_msg =
  rl_id :: u64
  rl_robot :: string
  rl_key :: string

record resource_get_msg =
  rq_id :: string

record route_plan_msg =
  rt_use_penalties :: u8
  rt_start :: string
  rt_goal :: string

record challenge_msg =
  am_robot :: string

record prove_msg =
  pm_robot :: string
  pm_did :: string
  pm_signature :: string

record workspace_chunk =
  ck_transfer :: u64
  ck_index :: "32 word"
  ck_total :: "32 word"
  ck_body :: string
  ck_key :: string

record reply_msg =
  rp_blocked :: u64
  rp_decision :: u8
  rp_reason :: u8
  rp_has_blocked :: u8

record read_reply =
  rd_success :: u8
  rd_body :: string

definition reply_of_flat :: "flat_reply \<Rightarrow> reply_msg" where
  "reply_of_flat r =
     \<lparr>rp_blocked = unwrap_or (fr_blocked r) 0, rp_decision = fr_decision r, rp_reason = fr_reason r,
      rp_has_blocked = u8_of (fr_blocked r \<noteq> None)\<rparr>"

definition flat_of_reply :: "reply_msg \<Rightarrow> flat_reply" where
  "flat_of_reply m =
     \<lparr>fr_decision = rp_decision m, fr_reason = rp_reason m,
      fr_blocked = then_some (rp_has_blocked m) (rp_blocked m)\<rparr>"

section \<open>Reassembly\<close>

record pending_workspace =
  pw_total :: "32 word"
  pw_chunks :: "(32 word \<times> string) list"
  pw_bytes :: nat
  pw_key :: string

type_synonym assembler = "(u64 \<times> pending_workspace) list"

definition workspace_chunk_bytes :: nat where "workspace_chunk_bytes = 512 * 1024"
definition max_workspace_bytes :: nat where "max_workspace_bytes = 256 * 1024 * 1024"

text \<open>
  \<open>accept\<close>: the whole document and the key of its first chunk once the last missing chunk is in.
  The entry of the transfer is made before its count is compared. A body is at most \<open>isize::MAX\<close>
  bytes, so the count of bytes does not overflow before the ceiling stops it.
\<close>

definition fresh_pending :: "workspace_chunk \<Rightarrow> pending_workspace" where
  "fresh_pending ck = \<lparr>pw_total = ck_total ck, pw_chunks = [], pw_bytes = 0, pw_key = ck_key ck\<rparr>"

definition take_chunk :: "pending_workspace \<Rightarrow> workspace_chunk \<Rightarrow> pending_workspace" where
  "take_chunk p ck =
     p\<lparr>pw_bytes := pw_bytes p + length (ck_body ck),
       pw_chunks := bt_insert (ck_index ck) (ck_body ck) (pw_chunks p)\<rparr>"

definition assemble ::
  "assembler \<Rightarrow> workspace_chunk \<Rightarrow> (api_error + (string \<times> string) option) \<times> assembler"
where
  "assemble a ck =
     (if ck_total ck = 0 then (Inl (ApiError (Lit ''workspace push declares zero chunks'')), a)
      else if ck_total ck \<le> ck_index ck
      then (Inl (ApiError (Format ''workspace chunk {} out of range for a {}-chunk push''
              [AU64 (ucast (ck_index ck)), AU64 (ucast (ck_total ck))])), a)
      else
        (let t = ck_transfer ck; p = unwrap_or (map_of a t) (fresh_pending ck) in
         if pw_total p \<noteq> ck_total ck
         then (Inl (ApiError (Lit ''workspace push changed its chunk count mid-transfer'')), bt_remove t a)
         else
           (let p = take_chunk p ck in
            if max_workspace_bytes < pw_bytes p
            then (Inl (ApiError (Format ''workspace push exceeds the {MAX_WORKSPACE_BYTES}-byte ceiling''
                    [AU64 (of_nat max_workspace_bytes)])), bt_remove t a)
            else if of_nat (length (pw_chunks p)) \<noteq> pw_total p then (Inr None, bt_insert t p a)
            else (Inr (Some (concat (map snd (pw_chunks p)), pw_key p)), bt_remove t a))))"

section \<open>Requests\<close>

text \<open>A request by its topic: the message, or the text of its decode error.\<close>

type_synonym 'm decoded = "string + 'm"

datatype bus_request =
  OpRegister "register_msg decoded"
| OpDeregister "deregister_msg decoded"
| OpHeartbeat "heartbeat_msg decoded"
| OpClaim target_kind "claim_msg decoded"
| OpClaimRoute "claim_route_msg decoded"
| OpRelease target_kind "release_msg decoded"
| OpRoutePlan "route_plan_msg decoded"
| OpAuthChallenge "challenge_msg decoded"
| OpAuthProve "prove_msg decoded"
| OpZonesList "unit decoded"
| OpZoneGet "resource_get_msg decoded"
| OpFleetSnapshot "unit decoded"
| OpWorkspaceSet "workspace_chunk decoded"
| OpHealth "unit decoded"

fun bad_request :: "bus_request \<Rightarrow> flat_reply" where
  "bad_request (OpRegister m) = deny register_bad_id"
| "bad_request (OpDeregister m) = deny heartbeat_not_registered"
| "bad_request (OpHeartbeat m) = deny heartbeat_not_registered"
| "bad_request (OpClaim kind m) = deny claim_bad_request"
| "bad_request (OpClaimRoute m) = deny claim_bad_request"
| "bad_request (OpRelease kind m) = deny release_unknown_or_bad"
| "bad_request _ = deny claim_bad_request"

definition key_text :: "string \<Rightarrow> string" where
  \<comment> \<open>\<open>key\<close>\<close>
  "key_text bs = (case utf8 bs of Inr s \<Rightarrow> if s = [] then default_key else s | Inl err \<Rightarrow> default_key)"

definition robot_text :: "string \<Rightarrow> string" where
  \<comment> \<open>\<open>utf8(&req.robot).unwrap_or("")\<close>\<close>
  "robot_text bs = (case utf8 bs of Inr s \<Rightarrow> s | Inl err \<Rightarrow> [])"

definition parse_resource_ref :: "(string \<Rightarrow> uuid option) \<Rightarrow> string \<Rightarrow> api_error + resource_ref" where
  "parse_resource_ref parse_uuid raw =
     (case parse_uuid (str_trim raw) of
        Some u \<Rightarrow> Inr (RefUuid u)
      | None \<Rightarrow>
          (case parse_u64_str (str_trim raw) of
             Some n \<Rightarrow> Inr (RefNumeric n)
           | None \<Rightarrow> Inl (ApiError (Format ''resource id {raw:?} is neither a UUID nor an unsigned integer'' [AStr raw]))))"

definition frame_position :: "heartbeat_msg \<Rightarrow> reported_position option" where
  "frame_position m =
     (if hm_pos_frame m = pos_frame_global then Some (GlobalPos (hm_pos_a m) (hm_pos_b m) (hm_pos_c m))
      else if hm_pos_frame m = pos_frame_local then Some (LocalPos (hm_pos_a m) (hm_pos_b m) (hm_pos_c m))
      else None)"

definition msg_attitude :: "heartbeat_msg \<Rightarrow> reported_attitude" where
  "msg_attitude m =
     \<lparr>at_roll = then_some (hm_has_roll m) (hm_roll m), at_pitch = then_some (hm_has_pitch m) (hm_pitch m),
      at_yaw = then_some (hm_has_yaw m) (hm_yaw m)\<rparr>"

text \<open>The operations answered with a flat reply. \<open>None\<close>: the evaluation of a claim does not return.\<close>

fun handle_flat ::
  "crates \<Rightarrow> call_env \<Rightarrow> serve_state \<Rightarrow> bus_request \<Rightarrow> (flat_reply \<times> serve_state) option"
where
  "handle_flat xt e sv (OpRegister (Inr m)) =
     Some (flat_register xt e (robot_text (rg_robot m)) (key_text (rg_key m))
             (then_some (rg_has_alive m) (rg_alive m)) sv)"
| "handle_flat xt e sv (OpDeregister (Inr m)) =
     Some (flat_deregister xt e (robot_text (dg_robot m)) (key_text (dg_key m)) sv)"
| "handle_flat xt e sv (OpHeartbeat (Inr m)) =
     Some (flat_heartbeat xt e (robot_text (hm_robot m)) (key_text (hm_key m))
             (then_some (hm_has_zone m) (hm_zone m)) (then_some (hm_has_node m) (hm_node m))
             (then_some (hm_has_edge m) (hm_edge m)) (frame_position m) (msg_attitude m) sv)"
| "handle_flat xt e sv (OpClaim kind (Inr m)) =
     flat_claim xt e kind (key_text (cl_key m)) (robot_text (cl_robot m)) (cl_id m)
       (then_some (cl_has_access_mode m) (cl_access_mode m)) (then_some (cl_has_lease_time m) (cl_lease_time m)) sv"
| "handle_flat xt e sv (OpClaimRoute (Inr m)) =
     flat_claim_route xt e (key_text (cq_key m)) (robot_text (cq_robot m)) (cq_node m) (cq_edge m)
       (then_some (cq_has_access_mode m) (cq_access_mode m)) (then_some (cq_has_lease_time m) (cq_lease_time m)) sv"
| "handle_flat xt e sv (OpRelease kind (Inr m)) =
     Some (flat_release xt e kind (key_text (rl_key m)) (robot_text (rl_robot m)) (rl_id m) sv)"
| "handle_flat xt e sv request = Some (bad_request request, sv)"

section \<open>Reads\<close>

datatype read_value =
  VChallenge challenge_view
| VToken token_view
| VRoute route_answer
| VZones "zone_view list"
| VZone zone_view
| VFleet fleet_view
| VHealth health_view
| VAccepted "accepted_workspace option"

text \<open>What the core is built with: hash orders, parsers, printers, the package's version.\<close>

record 'w site =
  si_ho :: "uuid list \<Rightarrow> uuid list"
  si_hm :: "(uuid \<times> nat) list \<Rightarrow> (uuid \<times> nat) list"
  si_parse :: "string \<Rightarrow> string + string \<times> 'w"
  si_from_wire :: "'w \<Rightarrow> string + workspace"
  si_zone_datum :: "zone \<Rightarrow> geo"
  si_shown :: "resource_ref \<Rightarrow> msg"
  si_version :: string
  si_uuid :: "string \<Rightarrow> uuid option"

datatype 'a outcome = Done 'a | Died | Stuck

definition bad_read :: "string \<Rightarrow> string \<Rightarrow> api_error" where
  "bad_read what err = ApiError (Format (''invalid '' @ what @ '' request: {err}'') [AStr err])"

definition utf8_field :: "string \<Rightarrow> string \<Rightarrow> api_error + string" where
  "utf8_field what bs =
     (case utf8 bs of
        Inl err \<Rightarrow> Inl (ApiError (Format (what @ '': {err}'') [AMsg (utf8_message err)])) | Inr s \<Rightarrow> Inr s)"

definition given :: "string \<Rightarrow> string option" where
  \<comment> \<open>\<open>(!key.is_empty()).then_some(key)\<close>\<close>
  "given key = (if key = [] then None else Some key)"

definition signature_hex :: "string \<Rightarrow> string" where
  "signature_hex bs = concat (map hex_byte bs)"

definition workspace_request ::
  "'w site \<Rightarrow> crates \<Rightarrow> call_env \<Rightarrow> workspace_chunk decoded \<Rightarrow> serve_state \<times> assembler
   \<Rightarrow> ((api_error + accepted_workspace option) \<times> serve_state \<times> assembler) option"
where
  "workspace_request si xt e m sa =
     (case sa of (sv, a) \<Rightarrow>
     (case m of
        Inl err \<Rightarrow> Some (Inl (bad_read ''workspace/set'' err), sv, a)
      | Inr ck \<Rightarrow>
     (case utf8_field ''operator key'' (ck_key ck) of
        Inl err \<Rightarrow> Some (Inl err, sv, a)
      | Inr key \<Rightarrow>
     (case check_workspace_key xt sv (given key) of
        Inl err \<Rightarrow> Some (Inl err, sv, a)
      | Inr u \<Rightarrow>
     (case assemble a ck of
        (Inl err, a) \<Rightarrow> Some (Inl err, sv, a)
      | (Inr None, a) \<Rightarrow> Some (Inr None, sv, a)
      | (Inr (Some (bytes, key)), a) \<Rightarrow>
          map_option (\<lambda>(r, sv). (map_sum id Some r, sv, a))
            (set_workspace xt (si_ho si) (si_hm si) (si_parse si) (si_from_wire si) e bytes
               (given (from_utf8_lossy key)) sv))))))"

definition challenge_request ::
  "crates \<Rightarrow> call_env \<Rightarrow> challenge_msg decoded \<Rightarrow> serve_state \<Rightarrow> (api_error + challenge_view) \<times> serve_state"
where
  "challenge_request xt e m sv =
     (case m of
        Inl err \<Rightarrow> (Inl (bad_read ''auth/challenge'' err), sv)
      | Inr m \<Rightarrow>
     (case utf8_field ''robot id'' (am_robot m) of
        Inl err \<Rightarrow> (Inl err, sv)
      | Inr robot \<Rightarrow> flat_challenge xt e robot sv))"

definition prove_request ::
  "crates \<Rightarrow> call_env \<Rightarrow> prove_msg decoded \<Rightarrow> serve_state \<Rightarrow> ((api_error + token_view) \<times> serve_state) run"
where
  "prove_request xt e m sv =
     (case m of
        Inl err \<Rightarrow> Returns (Inl (bad_read ''auth/prove'' err), sv)
      | Inr m \<Rightarrow>
     (case utf8_field ''robot id'' (pm_robot m) of
        Inl err \<Rightarrow> Returns (Inl err, sv)
      | Inr robot \<Rightarrow>
     (case utf8_field ''did'' (pm_did m) of
        Inl err \<Rightarrow> Returns (Inl err, sv)
      | Inr did \<Rightarrow> flat_prove xt e robot did (signature_hex (pm_signature m)) sv)))"

definition resource_field :: "'w site \<Rightarrow> string \<Rightarrow> string \<Rightarrow> api_error + resource_ref" where
  "resource_field si what bs =
     (case utf8_field what bs of Inl err \<Rightarrow> Inl err | Inr s \<Rightarrow> parse_resource_ref (si_uuid si) s)"

definition plan_request ::
  "'w site \<Rightarrow> route_plan_msg decoded \<Rightarrow> serve_state \<Rightarrow> (api_error + route_answer) option"
where
  "plan_request si m sv =
     (case m of
        Inl err \<Rightarrow> Some (Inl (bad_read ''routes/plan'' err))
      | Inr m \<Rightarrow>
     (case resource_field si ''start node'' (rt_start m) of
        Inl err \<Rightarrow> Some (Inl err)
      | Inr start \<Rightarrow>
     (case resource_field si ''goal node'' (rt_goal m) of
        Inl err \<Rightarrow> Some (Inl err)
      | Inr goal \<Rightarrow>
          plan_route_request (si_ho si) (si_shown si) sv
            \<lparr>pq_start_node_id = start, pq_goal_node_id = goal, pq_use_penalties = (rt_use_penalties m \<noteq> 0)\<rparr>)))"

definition zone_request :: "'w site \<Rightarrow> resource_get_msg decoded \<Rightarrow> serve_state \<Rightarrow> api_error + zone_view" where
  "zone_request si m sv =
     (case m of
        Inl err \<Rightarrow> Inl (bad_read ''zones/get'' err)
      | Inr m \<Rightarrow>
     (case resource_field si ''zone id'' (rq_id m) of
        Inl err \<Rightarrow> Inl err
      | Inr i \<Rightarrow> find_zone (si_zone_datum si) (si_shown si) sv i))"

definition outcome_of :: "'a option \<Rightarrow> 'a outcome" where
  "outcome_of r = (case r of None \<Rightarrow> Stuck | Some x \<Rightarrow> Done x)"

definition outcome_of_run :: "'a run \<Rightarrow> 'a outcome" where
  "outcome_of_run r = (case r of Panics \<Rightarrow> Died | Returns x \<Rightarrow> Done x)"

fun handle_read ::
  "'w site \<Rightarrow> crates \<Rightarrow> call_env \<Rightarrow> serve_state \<times> assembler \<Rightarrow> bus_request
   \<Rightarrow> ((api_error + read_value) \<times> serve_state \<times> assembler) outcome"
where
  "handle_read si xt e (sv, a) (OpAuthChallenge m) =
     (case challenge_request xt e m sv of (r, sv) \<Rightarrow> Done (map_sum id VChallenge r, sv, a))"
| "handle_read si xt e (sv, a) (OpAuthProve m) =
     map_outcome (\<lambda>(r, sv). (map_sum id VToken r, sv, a)) (outcome_of_run (prove_request xt e m sv))"
| "handle_read si xt e (sv, a) (OpRoutePlan m) =
     map_outcome (\<lambda>r. (map_sum id VRoute r, sv, a)) (outcome_of (plan_request si m sv))"
| "handle_read si xt e (sv, a) (OpZonesList (Inl err)) = Done (Inl (bad_read ''zones/list'' err), sv, a)"
| "handle_read si xt e (sv, a) (OpZonesList (Inr m)) =
     map_outcome (\<lambda>r. (map_sum id VZones r, sv, a)) (outcome_of (list_zones (si_zone_datum si) sv))"
| "handle_read si xt e (sv, a) (OpZoneGet m) = Done (map_sum id VZone (zone_request si m sv), sv, a)"
| "handle_read si xt e (sv, a) (OpFleetSnapshot (Inl err)) = Done (Inl (bad_read ''fleet/snapshot'' err), sv, a)"
| "handle_read si xt e (sv, a) (OpFleetSnapshot (Inr m)) = Done (Inr (VFleet (fleet_snapshot e sv)), sv, a)"
| "handle_read si xt e (sv, a) (OpHealth (Inl err)) = Done (Inl (bad_read ''health'' err), sv, a)"
| "handle_read si xt e (sv, a) (OpHealth (Inr m)) = Done (Inr (VHealth (health_with_datum (si_version si) sv)), sv, a)"
| "handle_read si xt e (sv, a) (OpWorkspaceSet m) =
     map_outcome (\<lambda>(r, s). (map_sum id VAccepted r, s)) (outcome_of (workspace_request si xt e m (sv, a)))"
| "handle_read si xt e s request = Stuck"

section \<open>One request\<close>

text \<open>
  \<open>json\<close> is \<open>serde_json::to_vec\<close> (or the text of its error), \<open>shown\<close> prints a message. A flat
  operation leaves the assembler alone.
\<close>

definition into_read_message ::
  "(read_value \<Rightarrow> string + string) \<Rightarrow> (msg \<Rightarrow> string) \<Rightarrow> api_error + read_value \<Rightarrow> read_reply"
where
  "into_read_message json shown r =
     (case r of
        Inr v \<Rightarrow>
          (case json v of
             Inr body \<Rightarrow> \<lparr>rd_success = 1, rd_body = body\<rparr>
           | Inl err \<Rightarrow> \<lparr>rd_success = 0, rd_body = shown (Format ''serialize canonical read reply: {err}'' [AStr err])\<rparr>)
      | Inl (ApiError m) \<Rightarrow> \<lparr>rd_success = 0, rd_body = shown m\<rparr>)"

datatype bus_reply = FlatReplyMsg reply_msg | ReadReplyMsg read_reply

fun is_flat :: "bus_request \<Rightarrow> bool" where
  "is_flat (OpRegister m) = True"
| "is_flat (OpDeregister m) = True"
| "is_flat (OpHeartbeat m) = True"
| "is_flat (OpClaim kind m) = True"
| "is_flat (OpClaimRoute m) = True"
| "is_flat (OpRelease kind m) = True"
| "is_flat _ = False"

definition handle_request ::
  "(read_value \<Rightarrow> string + string) \<Rightarrow> (msg \<Rightarrow> string) \<Rightarrow> 'w site \<Rightarrow> crates \<Rightarrow> call_env
   \<Rightarrow> serve_state \<times> assembler \<Rightarrow> bus_request \<Rightarrow> (bus_reply \<times> serve_state \<times> assembler) outcome"
where
  "handle_request json shown si xt e sa request =
     (if is_flat request
      then map_outcome (\<lambda>(r, sv). (FlatReplyMsg (reply_of_flat r), sv, snd sa))
             (outcome_of (handle_flat xt e (fst sa) request))
      else map_outcome (\<lambda>(r, s). (ReadReplyMsg (into_read_message json shown r), s))
             (handle_read si xt e sa request))"

section \<open>The client\<close>

definition register_call :: "string \<Rightarrow> string \<Rightarrow> u64 option \<Rightarrow> bus_request" where
  "register_call robot key alive =
     OpRegister (Inr \<lparr>rg_alive = unwrap_or alive 0, rg_has_alive = u8_of (alive \<noteq> None), rg_robot = robot, rg_key = key\<rparr>)"

definition deregister_call :: "string \<Rightarrow> string \<Rightarrow> bus_request" where
  "deregister_call robot key = OpDeregister (Inr \<lparr>dg_robot = robot, dg_key = key\<rparr>)"

fun pos_fields :: "reported_position option \<Rightarrow> u8 \<times> f64 \<times> f64 \<times> f64" where
  "pos_fields (Some (GlobalPos lat lon alt)) = (pos_frame_global, lat, lon, alt)"
| "pos_fields (Some (LocalPos x y z)) = (pos_frame_local, x, y, z)"
| "pos_fields None = (pos_frame_none, f64_zero, f64_zero, f64_zero)"

definition heartbeat_call ::
  "string \<Rightarrow> string \<Rightarrow> 64 word option \<Rightarrow> u64 option \<Rightarrow> u64 option \<Rightarrow> reported_position option
   \<Rightarrow> reported_attitude \<Rightarrow> bus_request"
where
  "heartbeat_call robot key zone node edge pos att =
     (case pos_fields pos of (frame, a, b, c) \<Rightarrow>
        OpHeartbeat (Inr
          \<lparr>hm_zone = unwrap_or zone 0, hm_node = unwrap_or node 0, hm_edge = unwrap_or edge 0,
           hm_pos_a = a, hm_pos_b = b, hm_pos_c = c,
           hm_roll = unwrap_or (at_roll att) f64_zero, hm_pitch = unwrap_or (at_pitch att) f64_zero,
           hm_yaw = unwrap_or (at_yaw att) f64_zero,
           hm_has_zone = u8_of (zone \<noteq> None), hm_has_node = u8_of (node \<noteq> None),
           hm_has_edge = u8_of (edge \<noteq> None), hm_pos_frame = frame,
           hm_has_roll = u8_of (at_roll att \<noteq> None), hm_has_pitch = u8_of (at_pitch att \<noteq> None),
           hm_has_yaw = u8_of (at_yaw att \<noteq> None), hm_robot = robot, hm_key = key\<rparr>))"

definition claim_call_msg ::
  "target_kind \<Rightarrow> string \<Rightarrow> string \<Rightarrow> u64 list \<Rightarrow> u8 option \<Rightarrow> u64 option \<Rightarrow> bus_request"
where
  "claim_call_msg kind key robot ids mode lease =
     OpClaim kind (Inr
       \<lparr>cl_lease_time = unwrap_or lease 0, cl_access_mode = unwrap_or mode 0,
        cl_has_access_mode = u8_of (mode \<noteq> None), cl_has_lease_time = u8_of (lease \<noteq> None),
        cl_robot = robot, cl_key = key, cl_id = ids\<rparr>)"

definition claim_route_call ::
  "string \<Rightarrow> string \<Rightarrow> u64 list \<Rightarrow> u64 list \<Rightarrow> u8 option \<Rightarrow> u64 option \<Rightarrow> bus_request"
where
  "claim_route_call key robot nodes edges mode lease =
     OpClaimRoute (Inr
       \<lparr>cq_lease_time = unwrap_or lease 0, cq_access_mode = unwrap_or mode 0,
        cq_has_access_mode = u8_of (mode \<noteq> None), cq_has_lease_time = u8_of (lease \<noteq> None),
        cq_robot = robot, cq_key = key, cq_node = nodes, cq_edge = edges\<rparr>)"

definition release_call :: "target_kind \<Rightarrow> string \<Rightarrow> string \<Rightarrow> u64 \<Rightarrow> bus_request" where
  "release_call kind key robot i = OpRelease kind (Inr \<lparr>rl_id = i, rl_robot = robot, rl_key = key\<rparr>)"

definition challenge_call :: "string \<Rightarrow> bus_request" where
  "challenge_call robot = OpAuthChallenge (Inr \<lparr>am_robot = robot\<rparr>)"

definition prove_call_msg :: "string \<Rightarrow> string \<Rightarrow> string \<Rightarrow> bus_request" where
  "prove_call_msg robot did signature =
     OpAuthProve (Inr \<lparr>pm_robot = robot, pm_did = did, pm_signature = signature\<rparr>)"

definition plan_call :: "string \<Rightarrow> string \<Rightarrow> bool \<Rightarrow> bus_request" where
  "plan_call start goal use_penalties =
     OpRoutePlan (Inr \<lparr>rt_use_penalties = u8_of use_penalties, rt_start = start, rt_goal = goal\<rparr>)"

definition zone_call :: "string \<Rightarrow> bus_request" where
  "zone_call i = OpZoneGet (Inr \<lparr>rq_id = i\<rparr>)"

text \<open>The end of \<open>call\<close> and of \<open>call_read\<close>: what the client makes of a reply.\<close>

definition client_flat ::
  "crates \<Rightarrow> call_env \<Rightarrow> bus_request \<Rightarrow> serve_state \<Rightarrow> (flat_reply \<times> serve_state) option"
where
  "client_flat xt e request sv =
     map_option (\<lambda>(r, sv). (flat_of_reply (reply_of_flat r), sv)) (handle_flat xt e sv request)"

definition client_read :: "(string \<Rightarrow> string + 'a) \<Rightarrow> read_reply \<Rightarrow> api_error + 'a" where
  "client_read from_json m =
     (if rd_success m = 0 then Inl (ApiError (Lit (from_utf8_lossy (rd_body m))))
      else case from_json (rd_body m) of
        Inr v \<Rightarrow> Inr v
      | Inl err \<Rightarrow> Inl (ApiError (Format ''decode canonical read reply: {err}'' [AStr err])))"

text \<open>\<open>slice::chunks\<close>, and the chunks of a push.\<close>

function slice_chunks :: "nat \<Rightarrow> 'a list \<Rightarrow> 'a list list" where
  "slice_chunks k xs = (if k = 0 \<or> xs = [] then [] else take k xs # slice_chunks k (drop k xs))"
  by pat_completeness auto
termination
  by (relation "measure (\<lambda>(k, xs). length xs)") auto

declare slice_chunks.simps [simp del]

definition doc_chunks :: "u64 \<Rightarrow> string \<Rightarrow> string \<Rightarrow> workspace_chunk list" where
  "doc_chunks transfer key document =
     (let bodies = slice_chunks workspace_chunk_bytes document in
      map (\<lambda>(i, body). \<lparr>ck_transfer = transfer, ck_index = of_nat i, ck_total = of_nat (length bodies),
                        ck_body = body, ck_key = key\<rparr>) (enumerate 0 bodies))"

fun push_chunks ::
  "(workspace_chunk \<Rightarrow> 's \<Rightarrow> ((api_error + 'a option) \<times> 's) option) \<Rightarrow> workspace_chunk list \<Rightarrow> 'a option \<Rightarrow> 's
   \<Rightarrow> ((api_error + 'a option) \<times> 's) option"
where
  "push_chunks serve [] applied s = Some (Inr applied, s)"
| "push_chunks serve (ck # cks) applied s =
     (case serve ck s of
        None \<Rightarrow> None
      | Some (Inl err, s) \<Rightarrow> Some (Inl err, s)
      | Some (Inr accepted, s) \<Rightarrow> push_chunks serve cks accepted s)"

definition client_set_workspace ::
  "(workspace_chunk \<Rightarrow> 's \<Rightarrow> ((api_error + 'a option) \<times> 's) option) \<Rightarrow> u64 \<Rightarrow> string \<Rightarrow> string \<Rightarrow> 's
   \<Rightarrow> ((api_error + 'a) \<times> 's) option"
where
  "client_set_workspace serve transfer document key s =
     (if document = [] then Some (Inl (ApiError (Lit ''workspace push is empty'')), s)
      else if 2 ^ 32 \<le> length (slice_chunks workspace_chunk_bytes document)
      then Some (Inl (ApiError (Lit ''workspace is too large to address in one push'')), s)
      else map_option (\<lambda>(r, s). (case r of
               Inl err \<Rightarrow> Inl err
             | Inr (Some accepted) \<Rightarrow> Inr accepted
             | Inr None \<Rightarrow>
                 Inl (ApiError (Lit ''core buffered every workspace chunk but never applied the workspace'')), s))
             (push_chunks serve (doc_chunks transfer key document) None s))"

unbundle bit_operations_syntax

definition next_transfer_id :: "32 word \<Rightarrow> u64 \<Rightarrow> u64" where
  \<comment> \<open>of the process id and the counter\<close>
  "next_transfer_id pid counter = push_bit 32 (ucast pid) OR (counter AND 0xffffffff)"

section \<open>The polling loop\<close>

text \<open>What \<open>take\<close> gives, call after call: a request, nothing, or an error.\<close>

datatype 'r taken = Took 'r | NothingThere | Failed

fun discard_one :: "'r taken list \<Rightarrow> 'r taken list" where
  \<comment> \<open>\<open>while let Ok(Some(_)) = server.take()\<close>\<close>
  "discard_one (Took r # feed) = discard_one feed"
| "discard_one (_ # feed) = feed"
| "discard_one [] = []"

definition discard_requests_predating_this_core :: "'r taken list list \<Rightarrow> 'r taken list list" where
  "discard_requests_predating_this_core feeds = map discard_one feeds"

text \<open>One round: every server is asked once, in order; what it gives is handled and answered.\<close>

fun poll_round ::
  "('r \<Rightarrow> 's \<Rightarrow> ('m \<times> 's) outcome) \<Rightarrow> 'r taken list list \<Rightarrow> 's \<Rightarrow> ('m list \<times> 'r taken list list \<times> 's) outcome"
where
  "poll_round handle [] s = Done ([], [], s)"
| "poll_round handle ((Took r # feed) # feeds) s =
     (case handle r s of
        Done (m, s) \<Rightarrow> map_outcome (\<lambda>(ms, fs, s). (m # ms, feed # fs, s)) (poll_round handle feeds s)
      | Died \<Rightarrow> Died
      | Stuck \<Rightarrow> Stuck)"
| "poll_round handle (feed # feeds) s =
     map_outcome (\<lambda>(ms, fs, s). (ms, tl feed # fs, s)) (poll_round handle feeds s)"

end
