(* ===== verification/Berth.thy ===== *)
theory Berth
  imports Protocol
begin

text \<open>
  One run of the wire, worked out: a workspace of one node, a robot that registers with a number,
  claims the node and is let in, and a robot that proves a \<open>did:key\<close> and registers with its token.
\<close>

definition berth_ws :: workspace where
  "berth_ws =
     \<lparr>ws_root_zone = Zone 1 ''berth'' ''site'' [] [] [], ws_find_zone = find_in_tree (Zone 1 ''berth'' ''site'' [] [] []),
      ws_vertices = [0],
      ws_get_vertex = (\<lambda>v. if v = 0 then
         Some \<lparr>nd_id = 10, nd_zone_ids = [], nd_properties = [(numeric_id_property, ''5'')]\<rparr> else None),
      ws_find_node = (\<lambda>i. if i = 10 then Some 0 else None),
      ws_edges = [], ws_edge_property = (\<lambda>_. None), ws_source = (\<lambda>_. None), ws_target = (\<lambda>_. None),
      ws_get_weight = (\<lambda>_. None), ws_get_edge = (\<lambda>_ _. None), ws_coord_mode = Global, ws_datum = None\<rparr>"

abbreviation berth_ix :: index where
  "berth_ix \<equiv> rebuild (\<lambda>xs. xs) berth_ws"

lemma berth_index_ok: "index_ok berth_ix"
  unfolding index_ok_def
  by (intro exI [of _ "\<lambda>xs. xs"] exI [of _ berth_ws])
    (simp add: hash_order_id find_in_tree_ok berth_ws_def)

definition berth_crates :: crates where
  "berth_crates =
     \<lparr>xt_crypto = demo_crypto, xt_did_method = (\<lambda>s. Some ''key''), xt_did_key = (\<lambda>s. Some (True, ''pk'')),
      xt_wgs_from_enu = (\<lambda>p g. g), xt_enu_from_wgs = (\<lambda>g o'. \<lparr>pt_x = f64_zero, pt_y = f64_zero, pt_z = f64_zero\<rparr>)\<rparr>"

definition berth_env :: "string \<Rightarrow> call_env" where
  "berth_env draw = \<lparr>en_ms = (\<lambda>_. 1000), en_now = 0, en_salt = [], en_draw = (True, draw)\<rparr>"

definition berth_start :: serve_state where
  "berth_start = serve_new (co_with_index (replicate 32 CHR 0x00) insecure_test_cost berth_ix)"

definition berth_register :: "flat_reply \<times> serve_state" where
  "berth_register = flat_register berth_crates (berth_env []) ''7'' ''42'' None berth_start"

lemma berth_text: "str_trim ''42'' = ''42''" "str_trim ''7'' = ''7''" "str_trim ''5'' = ''5''"
  by (simp_all add: str_trim_def trim_with.simps ws_encodings_def)

lemma berth_numbers: "parse_u64_str ''42'' = Some 42" "parse_u64_str ''7'' = Some 7" "parse_u64_str ''5'' = Some 5"
  by (simp_all add: parse_u64_str_def is_digit_def digits_val_def)

lemma berth_key: "parse_key berth_crates ''42'' = Inr (Numeric 42)"
  by (simp add: parse_key_def key_parse_def berth_text berth_numbers)

lemma berth_crates_simps [simp]: "xt_crypto berth_crates = demo_crypto"
  by (simp add: berth_crates_def)

lemma berth_links: "zone_links_of berth_ws = \<lparr>zl_zone_ids = [1], zl_parents = [], zl_children = [], zl_duplicates = []\<rparr>"
  by (simp add: zone_links_of_def berth_ws_def link_zone_def Let_def)

lemma berth_index: "ix_nodes berth_ix = [(10, 0)]" "ix_nodes_by_numeric_id berth_ix = [(5, 10)]"
  "ix_edges berth_ix = []" "ix_zone_ids berth_ix = [1]" "ix_children berth_ix = []" "ix_workspace berth_ix = berth_ws"
  "ix_duplicate_zone_ids berth_ix = []" "ix_duplicate_node_ids berth_ix = []" "ix_duplicate_edge_ids berth_ix = []"
  "ix_duplicate_zone_numeric_ids berth_ix = []" "ix_duplicate_node_numeric_ids berth_ix = []"
  "ix_duplicate_edge_numeric_ids berth_ix = []"
  by (simp_all add: rebuild_def berth_ws_def index_zones_def link_zone_def index_node_def index_zone_def
      empty_index_def find_in_tree_def parse_numeric_id_def berth_text berth_numbers insert_numeric_id_def
      numeric_id_property_def Let_def)

lemma berth_node: "node_uuid_by_numeric_id berth_ix 5 = Some 10"
  by (simp add: node_uuid_by_numeric_id_def berth_index)

definition berth_robot :: coordinator where
  "berth_robot = (co_with_index (replicate 32 CHR 0x00) insecure_test_cost berth_ix)
     \<lparr>co_robots := [robot_default\<lparr>rs_robot_id := 7\<rparr>], co_keys := [(7, Secret (material (Numeric 42)))],
       co_verified := [(7, material (Numeric 42))]\<rparr>"

lemma berth_register_eq:
  "berth_register = (reply_ok, record_event
     (berth_start\<lparr>sv_coord := set_alive berth_robot 7 default_alive_secs 1000\<rparr>)
     (plain_event 1000 EvRegistered (Some 7)))"
  by (simp add: berth_register_def flat_register_def berth_key berth_text berth_start_def serve_new_def berth_env_def
      default_key_def is_did_key_def resolve_or_mint_robot_id_def berth_numbers register_with_key_def
      register_cases registration_refusal_def is_provisioned_def berth_robot_def
      find_robot_state_def co_with_index_def co_default_def max_registered_robots_def is_token_def
      registration_verifier_def demo_crypto_def commit_binding_def fingerprint_def Let_def del: material.simps)

section \<open>Robot 7 claims the node\<close>

definition berth_claim :: "(flat_reply \<times> serve_state) option" where
  "berth_claim = flat_claim_targets berth_crates (berth_env []) [(TNode, 5)] ''42'' ''7'' None None (snd berth_register)"

definition berth_request :: claim_request where
  "berth_request = wire_request 1 7 Exclusive window_default [\<lparr>ct_kind = TNode, ct_resource_id = 10\<rparr>]"

definition berth_manager :: "u64 \<Rightarrow> claim_manager" where
  "berth_manager n = (cm_with_index berth_ix)\<lparr>cm_next_id := n\<rparr>"

lemma berth_manager_simps [simp]:
  "cm_index (berth_manager n) = Some berth_ix" "cm_requests (berth_manager n) = []"
  "cm_leases (berth_manager n) = []" "cm_next_id (berth_manager n) = n"
  by (simp_all add: berth_manager_def cm_with_index_def cm_new_def)

lemma berth_mint: "next_request_id (berth_manager 1) = (1, berth_manager 2)"
  by (simp add: next_request_id_def next_id_floor_def max_opt_def sat_add_def) (simp add: berth_manager_def)

lemma berth_new: "cm_with_index berth_ix = berth_manager 1"
  by (simp add: berth_manager_def cm_with_index_def cm_new_def)

lemma berth_grants: "grants (berth_manager 2) berth_request"
proof -
  have "ix_node berth_ix 10 = Some \<lparr>nd_id = 10, nd_zone_ids = [], nd_properties = [(numeric_id_property, ''5'')]\<rparr>"
    by (simp add: ix_node_def berth_index) (simp add: berth_ws_def)
  moreover from this have "occupied_zones (berth_manager 2) berth_request = Some []"
    by (simp add: occupied_zones_def berth_request_def wire_request_def target_zones_def zones_of_node_def)
  ultimately show ?thesis
    by (simp add: grant_iff grant_conditions_def first_invalid_target_def target_missing_def
        first_edge_capacity_violation_def first_occupancy_violation_def berth_request_def wire_request_def)
qed

lemma berth_expire: "expire_claims c 1000 = (0, c)" if "co_claims c = berth_manager n"
proof -
  have "c\<lparr>co_claims := berth_manager n\<rparr> = c" using that [symmetric] by simp
  then show ?thesis
    using that by (simp add: expire_claims_def expire_requests_def expire_leases_def drain_loop.simps)
qed

lemma demo_fingerprint: "fingerprint demo_crypto c k = material k"
  by (simp add: fingerprint_def demo_crypto_def)

lemma demo_compare: "cx_secure_compare demo_crypto a b = (a = b)"
  by (simp add: demo_crypto_def)

lemma berth_registered [simp]: "sv_coord (snd berth_register) = set_alive berth_robot 7 default_alive_secs 1000"
  by (simp add: berth_register_eq)

lemma berth_robot_simps [simp]:
  "co_claims berth_robot = berth_manager 1" "co_index berth_robot = Some berth_ix" "co_keys berth_robot = [(7, Secret (material (Numeric 42)))]"
  by (simp_all add: berth_robot_def co_with_index_def berth_new)

lemma berth_key_ok: "fst (key_ok berth_crates 0 (sv_coord (snd berth_register)) 7 ''42'')"
  by (simp add: key_ok_def berth_key validate_key_def known_fingerprint_def set_alive_def
     demo_fingerprint demo_compare berth_robot_def del: material.simps)

lemma berth_claim_of:
  "claim_of berth_crates (berth_env []) [(TNode, 5)] ''42'' ''7'' None None (sv_coord (snd berth_register)) = Some berth_request"
  using berth_key_ok
  by (simp add: claim_of_def claim_access_def resolve_robot_id_def berth_text berth_numbers max_claim_targets_def
    berth_node set_alive_def berth_mint berth_env_def claim_window_for_def berth_request_def)

lemma berth_claim_granted: "\<exists>sv'. berth_claim = Some (reply_ok, sv')"
proof -
  obtain ev where ev: "evaluate_request (berth_manager 2) berth_request = Some ev" "ev_decision ev = Grant"
    using berth_grants by (auto simp: grants_def split: option.splits)
  obtain c where k: "key_ok berth_crates 0 (sv_coord (snd berth_register)) 7 ''42'' = (True, c)"
    using berth_key_ok by (cases "key_ok berth_crates 0 (sv_coord (snd berth_register)) 7 ''42''") auto
  note same = key_ok_claims [OF k] key_ok_index [OF k]
  have x: "expire_claims (sv_coord (snd berth_register)) 1000 = (0, sv_coord (snd berth_register))"
    by (rule berth_expire [of _ 1]) (simp add: set_alive_def)
  have "sv_coord (snd berth_register) = set_alive berth_robot 7 default_alive_secs 1000" by simp
  with ev k same x show ?thesis
    by (simp add: berth_claim_def flat_claim_targets_def claim_access_def resolve_robot_id_def berth_text
        berth_numbers max_claim_targets_def berth_node set_alive_def berth_mint berth_env_def claim_window_for_def
        claim_evaluate_def claim_decide_def Let_def flip: berth_request_def)
qed

definition berth_claimed :: serve_state where
  "berth_claimed = claim_call berth_crates (berth_env []) [(TNode, 5)] ''42'' ''7'' None None (snd berth_register)"

lemma berth_claim_eq: "berth_claim = Some (reply_ok, berth_claimed)"
  using berth_claim_granted by (auto simp: berth_claimed_def claim_call_def berth_claim_def)

lemma berth_opened: "sv_coord berth_start = co_with_index (replicate 32 CHR 0x00) insecure_test_cost berth_ix"
  by (simp add: berth_start_def serve_new_def)

lemma berth_fresh: "fresh_start (sv_coord berth_start)" "co_keys (sv_coord berth_start) = []"
  "co_claims (sv_coord berth_start) = berth_manager 1"
  by (simp_all add: berth_opened fresh_start_def co_with_index_def co_default_def berth_new)

lemma berth_room: "roomy (berth_manager 1)"
  by (simp add: roomy_def berth_mint)

lemma berth_session_registered: "session berth_crates berth_start [] (snd berth_register)"
  using session.served [OF session.opened _ wire_step.intros(1)
      [of berth_crates berth_start "berth_env []" "''7''" "''42''" None]]
  by (simp add: berth_fresh berth_room flip: berth_register_def)

lemma berth_session: "session berth_crates berth_start [] berth_claimed"
  unfolding berth_claimed_def
  using session.served [OF berth_session_registered _ wire_step.intros(4)]
  by (simp add: set_alive_def berth_room)

theorem session_claims_safe_witness:
  "session berth_crates berth_start [] berth_claimed
   \<and> conflict_free berth_ix (co_claims (sv_coord berth_claimed)) \<and> capacity_held berth_ix (co_claims (sv_coord berth_claimed))"
  using session_claims_safe [OF berth_session _ _ berth_index_ok] berth_session by (simp add: berth_fresh)

theorem claim_all_or_nothing_witness:
  "co_claims (sv_coord berth_claimed) = snd (upsert_request_for_robot (berth_manager 2) berth_request)"
proof -
  have x: "snd (expire_claims (sv_coord (snd berth_register)) (en_ms (berth_env []) 0)) = sv_coord (snd berth_register)"
    using berth_expire [of "sv_coord (snd berth_register)" 1] by (simp add: set_alive_def berth_env_def)
  from claim_all_or_nothing [OF berth_claim_eq [unfolded berth_claim_def], unfolded x berth_claim_of]
  show ?thesis by (simp add: set_alive_def berth_mint reply_ok_def)
qed

text \<open>Robot 7 is asked to go by somebody who holds the key 13: it stays.\<close>

lemma berth_wrong_key: "parse_key berth_crates ''13'' = Inr (Numeric 13)"
  by (simp add: parse_key_def key_parse_def str_trim_def trim_with.simps ws_encodings_def parse_u64_str_def
      is_digit_def digits_val_def)

lemma berth_bytes: "le_bytes 42 \<noteq> le_bytes 13"
proof
  assume "le_bytes 42 = le_bytes 13"
  then have "le_bytes 42 ! 0 = le_bytes 13 ! 0" by simp
  then show False by (simp add: le_bytes_def)
qed

lemma berth_stranger: "\<not> speaks_for berth_crates [] 0 (sv_coord (snd berth_register)) ''7'' ''13''"
  by (simp add: speaks_for_def berth_wrong_key resolve_robot_id_def berth_text berth_numbers shows_identity_def
      set_alive_def berth_robot_def demo_crypto_def berth_bytes)

theorem wire_authenticated_witness:
  "turned_away (Some 7) (snd berth_register)
     (flat_deregister berth_crates (berth_env []) ''7'' ''13'' (snd berth_register))
   \<and> fr_decision (fst (flat_deregister berth_crates (berth_env []) ''7'' ''13'' (snd berth_register))) = 0"
proof -
  have life: "wire_life berth_crates (\<lambda>d. Inr (''berth'', ())) (\<lambda>_. Inr berth_ws) berth_start [] (snd berth_register)"
    using berth_session_registered by (rule session_life)
  have "resolve_robot_id demo_crypto (sv_coord (snd berth_register)) ''7'' = Some 7"
    by (simp add: resolve_robot_id_def berth_text berth_numbers)
  moreover have "en_now (berth_env []) = 0" by (simp add: berth_env_def)
  ultimately have "turned_away (Some 7) (snd berth_register)
     (flat_deregister berth_crates (berth_env []) ''7'' ''13'' (snd berth_register))"
    using wire_authenticated [OF _ life berth_fresh(1), of "berth_env []" "''7''" "''13''"] berth_stranger
    by (simp add: demo_crypto_ok)
  then show ?thesis by (simp add: turned_away_def Let_def)
qed

theorem others_untouched_witness:
  "resolve_robot_id demo_crypto (sv_coord berth_claimed) ''7'' = Some 7
   \<and> foreign 7 (sv_coord (snd (flat_deregister berth_crates (berth_env []) ''7'' ''42'' berth_claimed)))
     = foreign 7 (sv_coord berth_claimed)"
proof -
  have "resolve_robot_id demo_crypto (sv_coord berth_claimed) ''7'' = Some 7"
    by (simp add: resolve_robot_id_def berth_text berth_numbers)
  with others_untouched [of berth_crates berth_claimed "''7''" 7] show ?thesis by simp
qed

theorem event_ring_witness:
  "sv_events (foldl record_event berth_start [plain_event 1 EvExpired None]) = [plain_event 1 EvExpired None]"
proof -
  have e: "sv_events berth_start = []" by (simp add: berth_start_def serve_new_def)
  then have "length (sv_events berth_start) \<le> max_events" by simp
  from event_ring [OF this, of "[plain_event 1 EvExpired None]"] e show ?thesis
    by (simp add: max_events_def Let_def)
qed

theorem hex_round_trip_witness: "decode_hex ''6e706b'' = Returns (Some ''npk'')"
proof -
  have "concat (map hex_byte ''npk'') = ''6e706b''" by code_simp
  with hex_round_trip [of "''npk''"] show ?thesis by simp
qed

theorem registered_key_works_witness:
  "fst (key_ok berth_crates 900
     (foldl (\<lambda>c (t, r, raw). snd (key_ok berth_crates t c r raw)) (sv_coord (snd berth_register))
        (replicate 20 (5, 7, ''13''))) 7 ''42'')"
proof -
  have "flat_register berth_crates (berth_env []) ''7'' ''42'' None berth_start = (fst berth_register, snd berth_register)"
    by (simp add: berth_register_def)
  from registered_key_works [OF _ this _ berth_key, of 900 "replicate 20 (5, 7, ''13'')"]
  have "\<exists>rid. fst (resolve_or_mint_robot_id demo_crypto (sv_coord berth_start) ''7'') = Some rid
      \<and> fst (key_ok berth_crates 900
         (foldl (\<lambda>c (t, r, raw). snd (key_ok berth_crates t c r raw)) (sv_coord (snd berth_register))
            (replicate 20 (5, 7, ''13''))) rid ''42'')"
    by (simp add: demo_crypto_ok berth_register_eq reply_ok_def is_token_def)
  then show ?thesis
    by (simp add: resolve_or_mint_robot_id_def berth_text berth_numbers)
qed

section \<open>Robot 8 proves a key\<close>

lemma proof_text: "str_trim ''8'' = ''8''" "str_trim ''did:key:z'' = ''did:key:z''" "str_trim ''tok:72'' = ''tok:72''"
    "str_trim ''6e706b'' = ''6e706b''"
  by (simp_all add: str_trim_def trim_with.simps ws_encodings_def)

lemma proof_numbers: "parse_u64_str ''8'' = Some 8" "parse_u64_str ''did:key:z'' = None" "parse_u64_str ''tok:72'' = None"
  by (simp_all add: parse_u64_str_def is_digit_def digits_val_def)

lemma proof_keys: "parse_key berth_crates ''did:key:z'' = Inr (DidKey ''pk'')" "parse_key berth_crates ''tok:72'' = Inr (Token ''72'')"
  by (simp_all add: parse_key_def key_parse_def proof_text proof_numbers starts_with_def berth_crates_def)

definition proof_challenged :: serve_state where
  "proof_challenged = snd (flat_challenge berth_crates (berth_env ''n'') ''8'' berth_start)"

definition proof_proved :: serve_state where
  "proof_proved = prove_call berth_crates (berth_env ''r'') ''8'' ''did:key:z'' ''6e706b'' proof_challenged"

definition proof_registered :: serve_state where
  "proof_registered = snd (flat_register berth_crates (berth_env []) ''8'' ''tok:72'' None proof_proved)"

lemma proof_challenged_eq:
  "proof_challenged = berth_start\<lparr>sv_coord := (sv_coord berth_start)\<lparr>co_challenges := [(8, ''n'', 0)]\<rparr>\<rparr>"
  by (simp add: proof_challenged_def flat_challenge_def resolve_or_mint_robot_id_def proof_text proof_numbers
      issue_challenge_def berth_env_def berth_opened co_with_index_def co_default_def Let_def)

lemma proof_claims: "co_claims (sv_coord proof_challenged) = berth_manager 1"
  by (simp add: proof_challenged_eq berth_fresh)

lemma proof_signature: "decode_hex ''6e706b'' = Returns (Some ''npk'')"
proof -
  have "concat (map hex_byte ''npk'') = ''6e706b''" by code_simp
  with hex_back [of "''npk''"] show ?thesis by simp
qed

lemma proof_mint: "resolve_or_mint_robot_id cx c ''8'' = (Some 8, c)"
  by (simp add: resolve_or_mint_robot_id_def proof_text proof_numbers)

lemma proof_prove:
  "prove_identity demo_crypto (True, ''r'') 0 (sv_coord proof_challenged) 8 ''pk'' ''npk'' =
     (Some ''72'', (sv_coord berth_start)\<lparr>co_tokens :=
        [(''72'', \<lparr>it_robot_id = 8, it_public_key = ''pk'', it_expires_at = token_ttl\<rparr>)]\<rparr>)"
  by (simp add: proof_challenged_eq prove_identity_def berth_opened co_with_index_def co_default_def
      challenge_ttl_def identity_allowed_def demo_crypto_def expire_tokens_def bt_remove_def hex_r Let_def)

lemma proof_proved_eq:
  "sv_coord proof_proved = (sv_coord berth_start)\<lparr>co_tokens :=
     [(''72'', \<lparr>it_robot_id = 8, it_public_key = ''pk'', it_expires_at = token_ttl\<rparr>)]\<rparr>"
  using proof_prove
  by (simp add: proof_proved_def prove_call_def flat_prove_def proof_keys proof_signature proof_mint berth_env_def)

lemma proof_label:
  "prove_label berth_crates (berth_env ''r'') ''8'' ''did:key:z'' ''6e706b'' proof_challenged
     = [Proved 8 ''pk'' ''n'' ''npk'']"
  using proof_prove
  by (simp add: prove_label_def proof_keys proof_signature proof_mint berth_env_def)
    (simp add: nonce_of_def proof_challenged_eq)

lemma proof_session:
  "session berth_crates berth_start [Proved 8 ''pk'' ''n'' ''npk'', Challenged 8 ''n''] proof_registered"
proof -
  have "challenge_label berth_crates (berth_env ''n'') ''8'' berth_start = [Challenged 8 ''n'']"
    by (simp add: challenge_label_def proof_mint berth_env_def)
  then have "session berth_crates berth_start [Challenged 8 ''n''] proof_challenged"
    using session.served [OF session.opened _ wire_step.intros(6)
        [of berth_crates berth_start "berth_env ''n''" "''8''"]]
    by (simp add: berth_fresh berth_room proof_challenged_def)
  from session.served [OF this _ wire_step.intros(7)
      [of berth_crates _ "berth_env ''r''" "''8''" "''did:key:z''" "''6e706b''"], unfolded proof_label]
  have "session berth_crates berth_start [Proved 8 ''pk'' ''n'' ''npk'', Challenged 8 ''n''] proof_proved"
    by (simp add: proof_claims berth_room flip: proof_proved_def)
  from session.served [OF this _ wire_step.intros(1)
      [of berth_crates _ "berth_env []" "''8''" "''tok:72''" None]]
  show ?thesis
    by (simp add: proof_proved_eq berth_fresh berth_room flip: proof_registered_def)
qed

lemma proof_bound: "map_of (co_keys (sv_coord proof_registered)) 8 = Some (DidVerifier ''pk'')"
  by (simp add: proof_registered_def flat_register_def proof_keys proof_text proof_mint default_key_def is_did_key_def
      register_with_key_def register_cases registration_refusal_def is_provisioned_def find_robot_state_def
      proof_proved_eq berth_opened co_with_index_def co_default_def max_registered_robots_def is_token_def
      registration_verifier_def token_identity_def token_ttl_def berth_env_def commit_binding_def set_alive_def Let_def)

theorem session_did_proved_witness:
  "cx_verify_detached demo_crypto ''npk'' ''n'' ''pk''
   \<and> (\<exists>r nonce sig. Proved r ''pk'' nonce sig \<in> {Proved 8 ''pk'' ''n'' ''npk'', Challenged 8 ''n''})"
  using session_did_proved [OF proof_session _ berth_fresh(1,2) proof_bound] demo_crypto_ok by auto

theorem session_refines_auth_witness:
  "auth_reach demo_crypto [Proved 8 ''pk'' ''n'' ''npk'', Challenged 8 ''n''] (sv_coord proof_registered)"
  using session_refines_auth [OF proof_session berth_fresh(1)] by simp

section \<open>An operator pushes the workspace\<close>

definition berth_push :: "((api_error + accepted_workspace) \<times> serve_state) option" where
  "berth_push = set_workspace berth_crates (\<lambda>xs. xs) (\<lambda>xs. xs) (\<lambda>d. Inr (''berth'', ())) (\<lambda>_. Inr berth_ws)
     (berth_env []) [] (Some ''42'') (berth_claimed\<lparr>sv_admin_key := Some (Numeric 42)\<rparr>)"

lemma berth_top: "z_id (ws_root_zone berth_ws) = 1"
  by (simp add: berth_ws_def)

lemma berth_depth: "max_zone_depth berth_ix = 1"
  by (simp add: max_zone_depth_def root_zone_id_def berth_links lookup_list_def berth_top)

lemma berth_valid: "validation_issues (\<lambda>xs. xs) (\<lambda>xs. xs) berth_ix = []"
  by (simp add: validation_issues_def duplicate_issues_def reference_issues_def zone_issues_def node_issues_def
      berth_index berth_links Let_def)
    (simp add: berth_ws_def find_in_tree_def validate_zone_traffic_properties_def stop_conflict_issues_def
      sort_traffic_issues_def)

lemma berth_find: "ws_find_zone berth_ws 1 = Some (Zone 1 ''berth'' ''site'' [] [] [])"
  by (simp add: berth_ws_def find_in_tree_def)

lemma berth_below: "descendant_zones berth_ix 1 = Some []"
  by (simp add: descendant_zones_def descendant_loop.simps child_zones_def lookup_list_def berth_links berth_find)

lemma berth_zones: "\<exists>zs. workspace_zones berth_ix = Some (Inr (1, zs))"
  by (simp add: workspace_zones_def root_zone_id_def ix_zone_def berth_links berth_below berth_find berth_top)

lemma berth_pushed: "\<exists>accepted sv'. berth_push = Some (Inr accepted, sv')"
proof -
  obtain zs where z: "workspace_zones berth_ix = Some (Inr (1, zs))" using berth_zones by blast
  have "check_workspace_key berth_crates (berth_claimed\<lparr>sv_admin_key := Some (Numeric 42)\<rparr>) (Some ''42'') = Inr ()"
    by (simp add: workspace_key_ok operator_key_def berth_key)
  with z show ?thesis
    by (simp add: berth_push_def set_workspace_def berth_depth max_zone_nesting_def berth_valid issue_messages_def
        Let_def split: prod.split)
qed

theorem push_exact_witness:
  "\<exists>accepted sv'. berth_push = Some (Inr accepted, sv')
    \<and> cm_requests (co_claims (sv_coord sv')) = cm_requests (co_claims (sv_coord berth_claimed))"
proof -
  obtain accepted sv' where p: "berth_push = Some (Inr accepted, sv')" using berth_pushed by blast
  from push_exact [OF this [unfolded berth_push_def]]
  have "cm_requests (co_claims (sv_coord sv')) = cm_requests (co_claims (sv_coord berth_claimed))"
    by (auto simp: co_bind_index_def bind_index_def)
  with p show ?thesis by blast
qed

section \<open>A robot with a UUID of its own\<close>

theorem uuid_cannot_prove_witness:
  "\<exists>result sv'. flat_prove berth_crates (berth_env ''r'') ''u'' ''did:key:z'' ''6e706b''
       (snd (flat_challenge berth_crates (berth_env ''n'') ''u'' berth_start)) = Returns (result, sv')
     \<and> (\<exists>err. result = Inl err)"
proof -
  let ?p = "flat_prove berth_crates (berth_env ''r'') ''u'' ''did:key:z'' ''6e706b''
       (snd (flat_challenge berth_crates (berth_env ''n'') ''u'' berth_start))"
  have u: "str_trim ''u'' = ''u''" "parse_u64_str ''u'' = None"
    by (simp_all add: str_trim_def trim_with.simps ws_encodings_def parse_u64_str_def is_digit_def)
  have new: "unbound_uuid (xt_crypto berth_crates) (sv_coord berth_start) ''u''"
    by (simp add: unbound_uuid_def u) (simp add: demo_crypto_def berth_opened co_with_index_def co_default_def)
  have ids: "co_challenges (sv_coord berth_start) = []" "co_next_synthetic (sv_coord berth_start) \<noteq> u64_max"
    by (simp_all add: berth_opened co_with_index_def co_default_def synthetic_robot_id_base_def)
  have "?p \<noteq> Panics"
    by (simp add: flat_prove_def proof_keys proof_signature split: prod.split option.split)
  then obtain result sv' where r: "?p = Returns (result, sv')" by (cases ?p) auto
  from uuid_cannot_prove [OF new _ ids(2) this] ids(1) r show ?thesis by simp
qed

end
