(* ===== verification/Bus.thy ===== *)
theory Bus
  imports Peer Berth
begin

text \<open>
  What the peerbus boundary guarantees: replies survive it, a call through it is the flat operation,
  a push arrives whole in whatever order its chunks come, and what it buffers is bounded.
\<close>

section \<open>Reassembly\<close>

fun assemble_all ::
  "assembler \<Rightarrow> workspace_chunk list \<Rightarrow> (api_error + (string \<times> string) option) list \<times> assembler"
where
  "assemble_all a [] = ([], a)"
| "assemble_all a (ck # cks) =
     (case assemble a ck of (r, a) \<Rightarrow> (case assemble_all a cks of (rs, a) \<Rightarrow> (r # rs, a)))"

lemma assemble_all_append:
  "assemble_all a (xs @ ys) =
     (case assemble_all a xs of (rs, a) \<Rightarrow> (case assemble_all a ys of (qs, a) \<Rightarrow> (rs @ qs, a)))"
  by (induction xs arbitrary: a) (auto split: prod.split)

text \<open>What a chunk does depends on, and touches, its own transfer only.\<close>

lemma assemble_frame: "ck_transfer ck \<noteq> t \<Longrightarrow> map_of (snd (assemble a ck)) t = map_of a t"
  by (simp add: assemble_def Let_def map_of_bt_insert map_of_bt_remove)

lemma assemble_local:
  "map_of a (ck_transfer ck) = map_of b (ck_transfer ck) \<Longrightarrow>
   fst (assemble a ck) = fst (assemble b ck)
   \<and> map_of (snd (assemble a ck)) (ck_transfer ck) = map_of (snd (assemble b ck)) (ck_transfer ck)"
  by (simp add: assemble_def Let_def map_of_bt_insert map_of_bt_remove)

definition of_transfer :: "u64 \<Rightarrow> 'r list \<Rightarrow> workspace_chunk list \<Rightarrow> 'r list" where
  "of_transfer t rs cks = map fst (filter (\<lambda>(r, ck). ck_transfer ck = t) (zip rs cks))"

lemma assemble_all_local:
  assumes "map_of a t = map_of b t"
  shows "of_transfer t (fst (assemble_all a cks)) cks = fst (assemble_all b (filter (\<lambda>ck. ck_transfer ck = t) cks))
    \<and> map_of (snd (assemble_all a cks)) t = map_of (snd (assemble_all b (filter (\<lambda>ck. ck_transfer ck = t) cks))) t"
  using assms
proof (induction cks arbitrary: a b)
  case (Cons ck cks)
  obtain r a' where a': "assemble a ck = (r, a')" by force
  show ?case
  proof (cases "ck_transfer ck = t")
    case True
    obtain q b' where b': "assemble b ck = (q, b')" by force
    have "q = r" "map_of a' t = map_of b' t"
      using assemble_local [of a ck b] Cons.prems True a' b' by auto
    with Cons.IH [of a' b'] a' b' True show ?thesis
      by (auto simp: of_transfer_def split: prod.split)
  next
    case False
    then have "map_of a' t = map_of b t" using assemble_frame [of ck t a] Cons.prems a' by simp
    with Cons.IH [of a' b] a' False show ?thesis
      by (auto simp: of_transfer_def split: prod.split)
  qed
qed (simp add: of_transfer_def)

text \<open>A push of \<open>n\<close> chunks, of which those in \<open>S\<close> have come.\<close>

definition nth_chunk :: "u64 \<Rightarrow> string \<Rightarrow> 32 word \<Rightarrow> (32 word \<Rightarrow> string) \<Rightarrow> 32 word \<Rightarrow> workspace_chunk" where
  "nth_chunk t key n body i =
     \<lparr>ck_transfer = t, ck_index = i, ck_total = n, ck_body = body i, ck_key = key\<rparr>"

definition received :: "string \<Rightarrow> 32 word \<Rightarrow> (32 word \<Rightarrow> string) \<Rightarrow> 32 word set \<Rightarrow> pending_workspace" where
  "received key n body S =
     \<lparr>pw_total = n, pw_chunks = map (\<lambda>i. (i, body i)) (sorted_list_of_set S),
      pw_bytes = (\<Sum>i\<in>S. length (body i)), pw_key = key\<rparr>"

definition holds_part ::
  "u64 \<Rightarrow> string \<Rightarrow> 32 word \<Rightarrow> (32 word \<Rightarrow> string) \<Rightarrow> 32 word set \<Rightarrow> assembler \<Rightarrow> bool"
where
  "holds_part t key n body S a = (map_of a t = (if S = {} then None else Some (received key n body S)))"

lemma bt_ok_sorted: "finite S \<Longrightarrow> bt_ok (map (\<lambda>i. (i, body i)) (sorted_list_of_set S))"
  by (simp add: bt_ok_def o_def strict_sorted_iff)

lemma insert_received:
  assumes "finite (S :: 'k :: linorder set)"
  shows "bt_insert i (body i) (map (\<lambda>i. (i, body i)) (sorted_list_of_set S)) =
    map (\<lambda>i. (i, body i)) (sorted_list_of_set (insert i S))"
proof (rule bt_ext)
  show "bt_ok (bt_insert i (body i) (map (\<lambda>i. (i, body i)) (sorted_list_of_set S)))"
    using assms by (simp add: bt_ok_insert bt_ok_sorted)
  show "bt_ok (map (\<lambda>i. (i, body i)) (sorted_list_of_set (insert i S)))"
    by (rule bt_ok_sorted) (simp add: assms)
  have "map_of (map (\<lambda>i. (i, body i)) xs) = (\<lambda>k. if k \<in> set xs then Some (body k) else None)" for xs
    by (induction xs) auto
  then show "map_of (bt_insert i (body i) (map (\<lambda>i. (i, body i)) (sorted_list_of_set S))) =
      map_of (map (\<lambda>i. (i, body i)) (sorted_list_of_set (insert i S)))"
    using assms by (auto simp: map_of_bt_insert fun_eq_iff simp del: sorted_list_of_set_insert_remove)
qed

lemma take_received:
  assumes "finite S" "i \<notin> S"
  shows "take_chunk (if S = {} then fresh_pending (nth_chunk t key n body i) else received key n body S)
      (nth_chunk t key n body i) = received key n body (insert i S)"
  using assms insert_received [of S i body] insert_received [of "{}" i body]
  by (auto simp: take_chunk_def fresh_pending_def nth_chunk_def received_def)

lemma unwrap_received:
  "holds_part t key n body S a \<Longrightarrow>
   unwrap_or (map_of a t) (fresh_pending (nth_chunk t key n body i)) =
     (if S = {} then fresh_pending (nth_chunk t key n body i) else received key n body S)"
  by (simp add: holds_part_def)

lemma assemble_part:
  assumes "holds_part t key n body S a" "finite S" "i \<notin> S" "i < n"
    and "(\<Sum>j\<in>insert i S. length (body j)) \<le> max_workspace_bytes"
  shows "assemble a (nth_chunk t key n body i) =
    (if of_nat (card (insert i S)) \<noteq> n
     then (Inr None, bt_insert t (received key n body (insert i S)) a)
     else (Inr (Some (concat (map body (sorted_list_of_set (insert i S))), key)), bt_remove t a))"
proof -
  let ?c = "nth_chunk t key n body i"
  have c: "ck_total ?c = n" "ck_index ?c = i" "ck_transfer ?c = t" by (simp_all add: nth_chunk_def)
  have n: "n \<noteq> 0" "\<not> n \<le> i" using assms(4) by (auto simp: word_gt_0 [symmetric])
  have p: "take_chunk (unwrap_or (map_of a t) (fresh_pending ?c)) ?c = received key n body (insert i S)"
    unfolding unwrap_received [OF assms(1)] by (rule take_received [OF assms(2,3)])
  have tot: "pw_total (unwrap_or (map_of a t) (fresh_pending ?c)) = n"
    unfolding unwrap_received [OF assms(1)] by (simp add: fresh_pending_def received_def c)
  have len: "length (pw_chunks (received key n body (insert i S))) = card (insert i S)"
    by (simp add: received_def del: sorted_list_of_set_insert_remove)
  show ?thesis
    using n assms(5) len by (simp add: assemble_def c p tot Let_def) (simp add: received_def o_def)
qed

lemma bt_remove_insert: "map_of m k = None \<Longrightarrow> bt_remove k (bt_insert k v m) = m"
  by (induction k v m rule: bt_insert.induct) (auto simp: bt_remove_def filter_id_conv dest: weak_map_of_SomeI split: if_splits)

lemma unat_small:
  assumes "k \<le> unat (n :: 32 word)"
  shows "unat (of_nat k :: 32 word) = k"
proof -
  have "unat n < 2 ^ LENGTH(32)" by (rule unsigned_less)
  with assms have "k < 2 ^ 32" by simp
  then show ?thesis by (simp add: unsigned_of_nat take_bit_nat_eq_self)
qed

lemma words_below: "finite {i :: 32 word. i < n}" "card {i :: 32 word. i < n} = unat n"
proof -
  have "{i :: 32 word. i < n} = of_nat ` {0..<unat n}"
  proof (intro set_eqI iffI)
    fix i :: "32 word" assume "i \<in> {i. i < n}"
    then show "i \<in> of_nat ` {0..<unat n}" by (intro image_eqI [of _ _ "unat i"]) (simp_all add: word_less_nat_alt)
  next
    fix i :: "32 word" assume "i \<in> of_nat ` {0..<unat n}"
    then obtain k where k: "i = of_nat k" "k < unat n" by auto
    then show "i \<in> {i. i < n}" using unat_small [of k n] by (simp add: word_less_nat_alt)
  qed
  moreover have "inj_on (of_nat :: nat \<Rightarrow> 32 word) {0..<unat n}"
  proof (rule inj_onI)
    fix j k assume "j \<in> {0..<unat n}" "k \<in> {0..<unat n}" "(of_nat j :: 32 word) = of_nat k"
    then show "j = k" by (metis atLeastLessThan_iff less_imp_le unat_small)
  qed
  ultimately show "card {i :: 32 word. i < n} = unat n" by (simp add: card_image)
qed simp

lemma all_received:
  fixes n :: "32 word"
  assumes "S \<subseteq> {i. i < n}"
  shows "of_nat (card S) = n \<longleftrightarrow> S = {i. i < n}"
proof
  assume n: "of_nat (card S) = n"
  have "card S \<le> unat n" using card_mono [OF words_below(1) assms] words_below(2) by simp
  from unat_small [OF this] n have "card S = unat n" by simp
  then show "S = {i. i < n}" using card_subset_eq [OF words_below(1) assms] by (simp add: words_below(2))
qed (simp add: words_below(2))

lemma assemble_order:
  assumes "holds_part t key n body S a" "distinct is" "set is \<inter> S = {}" "S \<union> set is = {i. i < n}" "is \<noteq> []"
    and "(\<Sum>j | j < n. length (body j)) \<le> max_workspace_bytes"
  shows "fst (assemble_all a (map (nth_chunk t key n body) is)) =
      replicate (length is - 1) (Inr None) @ [Inr (Some (concat (map body (sorted_list_of_set {i. i < n})), key))]
    \<and> map_of (snd (assemble_all a (map (nth_chunk t key n body) is))) t = None"
  using assms(1-5)
proof (induction "is" arbitrary: S a)
  case (Cons i rest)
  have S: "S \<subseteq> {i. i < n}" "finite S" "i < n" "i \<notin> S"
    using Cons.prems words_below(1) by (auto intro: finite_subset)
  have sub: "insert i S \<subseteq> {i. i < n}" using S by auto
  have "(\<Sum>j\<in>insert i S. length (body j)) \<le> (\<Sum>j | j < n. length (body j))"
    by (rule sum_mono2 [OF words_below(1) sub]) simp
  with assms(6) have le: "(\<Sum>j\<in>insert i S. length (body j)) \<le> max_workspace_bytes" by simp
  note step = assemble_part [OF Cons.prems(1) S(2,4,3) le]
  show ?case
  proof (cases "rest = []")
    case True
    then have full: "insert i S = {i. i < n}" using Cons.prems(4) by auto
    show ?thesis
      using step True by (simp add: full all_received [OF order.refl] map_of_bt_remove)
  next
    case False
    have "insert i S \<noteq> {i. i < n}"
      using Cons.prems(2-4) False by (cases rest) auto
    then have a': "assemble a (nth_chunk t key n body i) =
        (Inr None, bt_insert t (received key n body (insert i S)) a)"
      using step all_received [OF sub] by simp
    have "holds_part t key n body (insert i S) (bt_insert t (received key n body (insert i S)) a)"
      by (simp add: holds_part_def map_of_bt_insert)
    from Cons.IH [OF this] Cons.prems False
    have ih: "fst (assemble_all (bt_insert t (received key n body (insert i S)) a) (map (nth_chunk t key n body) rest)) =
          replicate (length rest - 1) (Inr None) @ [Inr (Some (concat (map body (sorted_list_of_set {i. i < n})), key))]
        \<and> map_of (snd (assemble_all (bt_insert t (received key n body (insert i S)) a) (map (nth_chunk t key n body) rest))) t = None"
      by auto
    have "Inr None # replicate (length rest - 1) (Inr None) = replicate (length rest) (Inr None)"
      using False by (cases rest) auto
    with ih a' show ?thesis by (auto split: prod.split)
  qed
qed simp


section \<open>The chunks of a document\<close>

lemma concat_slices: "0 < k \<Longrightarrow> concat (slice_chunks k xs) = xs"
proof (induction k xs rule: slice_chunks.induct)
  case (1 k xs)
  then show ?case by (cases "xs = []") (simp_all add: slice_chunks.simps)
qed

lemma slices_length: "0 < k \<Longrightarrow> length (slice_chunks k xs) * k < length xs + k"
proof (induction k xs rule: slice_chunks.induct)
  case (1 k xs)
  show ?case
  proof (cases "xs = []")
    case True
    with 1 show ?thesis by (simp add: slice_chunks.simps)
  next
    case False
    with 1 have ih: "length (slice_chunks k (drop k xs)) * k < length xs - k + k" by simp
    show ?thesis
    proof (cases "k \<le> length xs")
      case True
      with ih False 1(2) show ?thesis by (simp add: slice_chunks.simps [of k xs])
    next
      case small: False
      with False 1(2) show ?thesis by (simp add: slice_chunks.simps)
    qed
  qed
qed

lemma slices_nonempty: "0 < k \<Longrightarrow> xs \<noteq> [] \<Longrightarrow> slice_chunks k xs \<noteq> []"
  by (simp add: slice_chunks.simps)

lemma slices_few:
  assumes "length document \<le> max_workspace_bytes"
  shows "length (slice_chunks workspace_chunk_bytes document) < 2 ^ 32"
proof -
  have "length (slice_chunks workspace_chunk_bytes document) * workspace_chunk_bytes < max_workspace_bytes + workspace_chunk_bytes"
    using slices_length [of workspace_chunk_bytes document] assms by (simp add: workspace_chunk_bytes_def)
  then show ?thesis by (simp add: workspace_chunk_bytes_def max_workspace_bytes_def)
qed

definition doc_body :: "string \<Rightarrow> 32 word \<Rightarrow> string" where
  "doc_body document i = slice_chunks workspace_chunk_bytes document ! unat i"

definition doc_total :: "string \<Rightarrow> 32 word" where
  "doc_total document = of_nat (length (slice_chunks workspace_chunk_bytes document))"

lemma doc_total_unat:
  "length document \<le> max_workspace_bytes \<Longrightarrow>
   unat (doc_total document) = length (slice_chunks workspace_chunk_bytes document)"
  using slices_few [of document] by (simp add: doc_total_def unsigned_of_nat take_bit_nat_eq_self)

lemma words_up:
  "sorted_list_of_set {i :: 32 word. i < n} = map of_nat [0..<unat n]"
proof (rule sorted_list_of_set_unique [THEN iffD1])
  show "finite {i :: 32 word. i < n}" by (rule words_below(1))
  have u: "k < unat n \<Longrightarrow> unat (of_nat k :: 32 word) = k" for k by (rule unat_small [of k n]) simp
  have "sorted_wrt (\<lambda>j k. (of_nat j :: 32 word) < of_nat k) [0..<unat n]"
    by (rule sorted_wrt_mono_rel [OF _ sorted_wrt_upt]) (simp add: word_less_nat_alt u)
  then have sorted: "sorted_wrt (<) (map of_nat [0..<unat n] :: 32 word list)" by (simp add: sorted_wrt_map)
  moreover have "(of_nat ` {0..<unat n} :: 32 word set) = {i. i < n}"
  proof (intro set_eqI iffI)
    fix i :: "32 word" assume "i \<in> {i. i < n}"
    then show "i \<in> of_nat ` {0..<unat n}" by (intro image_eqI [of _ _ "unat i"]) (simp_all add: word_less_nat_alt)
  qed (auto simp: word_less_nat_alt u)
  ultimately show "sorted_wrt (<) (map of_nat [0..<unat n] :: 32 word list) \<and>
      set (map of_nat [0..<unat n]) = {i :: 32 word. i < n} \<and>
      length (map of_nat [0..<unat n] :: 32 word list) = card {i :: 32 word. i < n}"
    by (simp add: words_below(2))
qed

lemma doc_bodies:
  assumes "length document \<le> max_workspace_bytes"
  shows "map (doc_body document) (sorted_list_of_set {i. i < doc_total document}) =
    slice_chunks workspace_chunk_bytes document"
proof -
  let ?bs = "slice_chunks workspace_chunk_bytes document"
  note n = doc_total_unat [OF assms]
  have "map (doc_body document \<circ> of_nat) [0..<length ?bs] = map ((!) ?bs) [0..<length ?bs]"
    using unat_small [of _ "doc_total document"] n by (auto simp: doc_body_def)
  then show ?thesis by (simp add: words_up n map_nth)
qed

lemma doc_concat:
  "length document \<le> max_workspace_bytes \<Longrightarrow>
   concat (map (doc_body document) (sorted_list_of_set {i. i < doc_total document})) = document"
  by (simp add: doc_bodies concat_slices workspace_chunk_bytes_def)

lemma doc_sum:
  assumes "length document \<le> max_workspace_bytes"
  shows "(\<Sum>i | i < doc_total document. length (doc_body document i)) = length document"
proof -
  have "(\<Sum>i | i < doc_total document. length (doc_body document i)) =
      sum_list (map (length \<circ> doc_body document) (sorted_list_of_set {i. i < doc_total document}))"
    using words_below(1) [of "doc_total document"] by (simp add: sum_list_distinct_conv_sum_set)
  also have "\<dots> = length (concat (map (doc_body document) (sorted_list_of_set {i. i < doc_total document})))"
    by (simp add: length_concat o_def)
  finally show ?thesis by (simp only: doc_concat [OF assms])
qed

lemma doc_chunks_eq:
  assumes "length document \<le> max_workspace_bytes"
  shows "doc_chunks t key document =
    map (nth_chunk t key (doc_total document) (doc_body document)) (map of_nat [0..<unat (doc_total document)])"
proof -
  let ?bs = "slice_chunks workspace_chunk_bytes document"
  have "k < length ?bs \<Longrightarrow> unat (of_nat k :: 32 word) = k" for k
    using unat_small [of k "doc_total document"] doc_total_unat [OF assms] by simp
  then show ?thesis
    by (intro nth_equalityI)
      (simp_all add: doc_chunks_def doc_total_unat [OF assms] Let_def nth_enumerate_eq nth_chunk_def doc_body_def
        flip: doc_total_def)
qed

lemma doc_chunks_arrive:
  assumes "document \<noteq> []" "length document \<le> max_workspace_bytes" "map_of a t = None"
    and "mset xs = mset (doc_chunks t key document)"
  shows "fst (assemble_all a xs) = replicate (length xs - 1) (Inr None) @ [Inr (Some (document, key))]
    \<and> map_of (snd (assemble_all a xs)) t = None"
proof -
  let ?n = "doc_total document"
  let ?f = "nth_chunk t key ?n (doc_body document)"
  let ?js = "map of_nat [0..<unat ?n] :: 32 word list"
  have all: "mset xs = mset (map ?f ?js)" using assms(4) doc_chunks_eq [OF assms(2)] by simp
  have idx: "ck_index (?f i) = i" for i by (simp add: nth_chunk_def)
  have "x \<in> set xs \<Longrightarrow> ?f (ck_index x) = x" for x
    using arg_cong [OF all, of set_mset] idx by auto
  then have xs: "map ?f (map ck_index xs) = xs" by (simp add: map_idI)
  have "mset (map ck_index xs) = image_mset ck_index (mset (map ?f ?js))"
    unfolding all [symmetric] by (rule mset_map)
  also have "\<dots> = mset ?js" by (simp add: idx image_mset.compositionality o_def)
  finally have js: "mset (map ck_index xs) = mset ?js" .
  have "?js = sorted_list_of_set {i. i < ?n}" by (simp only: words_up)
  then have "distinct ?js" "set ?js = {i. i < ?n}" using words_below(1) [of ?n] by simp_all
  then have order: "distinct (map ck_index xs)" "set (map ck_index xs) = {i. i < ?n}"
    using js mset_eq_imp_distinct_iff mset_eq_setD by metis+
  have "unat ?n \<noteq> 0"
    using slices_nonempty [OF _ assms(1)] doc_total_unat [OF assms(2)] by (simp add: workspace_chunk_bytes_def)
  then have "0 \<in> {i. i < ?n}" by (simp add: word_less_nat_alt)
  with order(2) have "map ck_index xs \<noteq> []" by fastforce
  with assemble_order [of t key ?n "doc_body document" "{}" a "map ck_index xs"] assms(2,3) order
  show ?thesis
    unfolding xs by (simp add: holds_part_def doc_concat doc_sum)
qed

text \<open>
  C3: a workspace pushed in chunks arrives whole, once, under the key it was sent with, in whatever
  order its chunks come and however the chunks of other pushes, good or bad, fall between them; until
  its last chunk is in nothing is handed on, and then nothing of it is kept.
\<close>

theorem push_arrives_whole:
  assumes "document \<noteq> []" "length document \<le> max_workspace_bytes" "map_of a t = None"
    and "mset (filter (\<lambda>ck. ck_transfer ck = t) cks) = mset (doc_chunks t key document)"
  shows "of_transfer t (fst (assemble_all a cks)) cks =
      replicate (length (doc_chunks t key document) - 1) (Inr None) @ [Inr (Some (document, key))]
    \<and> map_of (snd (assemble_all a cks)) t = None"
proof -
  let ?xs = "filter (\<lambda>ck. ck_transfer ck = t) cks"
  have "length ?xs = length (doc_chunks t key document)"
    using assms(4) by (metis size_mset)
  with doc_chunks_arrive [OF assms(1,2) _ assms(4), of a] assemble_all_local [of a t a cks] assms(3)
  show ?thesis by simp
qed


section \<open>What is buffered\<close>

definition pending_ok :: "pending_workspace \<Rightarrow> bool" where
  "pending_ok p =
     (sum_list (map (length \<circ> snd) (pw_chunks p)) \<le> pw_bytes p \<and> pw_bytes p \<le> max_workspace_bytes
      \<and> (\<forall>i \<in> fst ` set (pw_chunks p). i < pw_total p) \<and> bt_ok (pw_chunks p)
      \<and> of_nat (length (pw_chunks p)) \<noteq> pw_total p)"

lemma bt_insert_bytes:
  "sum_list (map (length \<circ> snd) (bt_insert i body m)) \<le> sum_list (map (length \<circ> snd) m) + length body"
  by (induction i body m rule: bt_insert.induct) auto

definition partial_ok :: "pending_workspace \<Rightarrow> bool" where
  "partial_ok p =
     (sum_list (map (length \<circ> snd) (pw_chunks p)) \<le> pw_bytes p
      \<and> (\<forall>i \<in> fst ` set (pw_chunks p). i < pw_total p) \<and> bt_ok (pw_chunks p))"

lemma take_partial:
  assumes "partial_ok p" "ck_index ck < pw_total p"
  shows "partial_ok (take_chunk p ck)"
  using assms bt_insert_bytes [of "ck_index ck" "ck_body ck" "pw_chunks p"]
  by (auto simp: partial_ok_def take_chunk_def bt_ok_insert fst_bt_insert)

lemma assemble_ok:
  assumes "\<forall>(t, p) \<in> set a. pending_ok p"
  shows "\<forall>(t, p) \<in> set (snd (assemble a ck)). pending_ok p"
proof -
  let ?p = "unwrap_or (map_of a (ck_transfer ck)) (fresh_pending ck)"
  have old: "partial_ok ?p"
  proof (cases "map_of a (ck_transfer ck)")
    case None
    then show ?thesis by (simp add: partial_ok_def fresh_pending_def bt_ok_def)
  next
    case (Some p)
    then have "pending_ok p" using assms map_of_SomeD by fastforce
    with Some show ?thesis by (simp add: partial_ok_def pending_ok_def)
  qed
  have same: "pw_total (take_chunk ?p ck) = pw_total ?p" by (simp add: take_chunk_def)
  have new: "pending_ok (take_chunk ?p ck)"
    if "ck_index ck < ck_total ck" "pw_total ?p = ck_total ck" "pw_bytes (take_chunk ?p ck) \<le> max_workspace_bytes"
      "of_nat (length (pw_chunks (take_chunk ?p ck))) \<noteq> pw_total ?p"
    using take_partial [OF old, of ck] that same by (simp add: pending_ok_def partial_ok_def)
  show ?thesis
  proof (cases "snd (assemble a ck) = bt_insert (ck_transfer ck) (take_chunk ?p ck) a")
    case False
    then have "set (snd (assemble a ck)) \<subseteq> set a"
      by (auto simp: assemble_def Let_def split: if_splits dest: subsetD [OF set_bt_remove])
    with assms show ?thesis by blast
  next
    case True
    show ?thesis
    proof (cases "pending_ok (take_chunk ?p ck)")
      case True
      then show ?thesis
        using assms \<open>snd (assemble a ck) = _\<close> set_bt_insert [of "ck_transfer ck" "take_chunk ?p ck" a] by auto
    next
      case False
      then have "set (snd (assemble a ck)) \<subseteq> set a"
        using new same by (auto simp: assemble_def Let_def not_le not_less split: if_splits dest: subsetD [OF set_bt_remove])
      with assms show ?thesis by blast
    qed
  qed
qed

lemma assemble_all_ok:
  "\<forall>(t, p) \<in> set a. pending_ok p \<Longrightarrow> \<forall>(t, p) \<in> set (snd (assemble_all a cks)). pending_ok p"
proof (induction cks arbitrary: a)
  case (Cons ck cks)
  from Cons.IH [OF assemble_ok [OF Cons.prems, of ck]] show ?case by (simp split: prod.splits)
qed simp

text \<open>
  C16: whatever chunks come, what a transfer in flight buffers is at most 256 MiB, in chunks of
  distinct indices below its count, and never all of them.
\<close>

theorem buffer_bounded:
  assumes "(t, p) \<in> set (snd (assemble_all [] cks))"
  shows "length (concat (map snd (pw_chunks p))) \<le> max_workspace_bytes
    \<and> distinct (map fst (pw_chunks p)) \<and> fst ` set (pw_chunks p) \<subseteq> {i. i < pw_total p}
    \<and> length (pw_chunks p) < unat (pw_total p)"
proof -
  have p: "pending_ok p" using assemble_all_ok [of "[]" cks] assms by auto
  then have d: "distinct (map fst (pw_chunks p))" by (simp add: pending_ok_def bt_ok_distinct)
  have below: "fst ` set (pw_chunks p) \<subseteq> {i. i < pw_total p}" using p by (auto simp: pending_ok_def)
  then have "card (fst ` set (pw_chunks p)) \<le> unat (pw_total p)"
    using card_mono [OF words_below(1)] words_below(2) by metis
  moreover have "card (fst ` set (pw_chunks p)) = length (pw_chunks p)"
    using distinct_card [OF d] by simp
  moreover have "length (pw_chunks p) \<noteq> unat (pw_total p)" using p by (auto simp: pending_ok_def)
  ultimately show ?thesis using p d below by (simp add: pending_ok_def length_concat o_def)
qed

section \<open>Replies\<close>

text \<open>A reply survives the bus: what the client reads is what the core answered.\<close>

theorem reply_round_trip: "flat_of_reply (reply_of_flat r) = r"
  by (cases "fr_blocked r") (simp_all add: flat_of_reply_def reply_of_flat_def then_some_def u8_of_def)

lemma then_some_of [simp]:
  "then_some (u8_of (x \<noteq> None)) (unwrap_or x d) = x" "then_some (u8_of (\<exists>y. x = Some y)) (unwrap_or x d) = x"
  by (cases x; simp add: then_some_def u8_of_def)+

lemma client_flat_id: "client_flat xt e request sv = handle_flat xt e sv request"
proof -
  have "(\<lambda>(r, sv). (flat_of_reply (reply_of_flat r), sv)) = (id :: flat_reply \<times> serve_state \<Rightarrow> _)"
    by (auto simp: fun_eq_iff flat_of_reply_def reply_of_flat_def)
  then show ?thesis by (simp add: client_flat_def option.map_id)
qed

section \<open>Calls through the bus\<close>

definition default_if_empty :: "string \<Rightarrow> string" where
  "default_if_empty key = (if key = [] then default_key else key)"

lemma key_text_valid: "utf8_fault 0 key = None \<Longrightarrow> key_text key = default_if_empty key"
  by (simp add: key_text_def default_if_empty_def utf8_def)

lemma robot_text_valid: "utf8_fault 0 robot = None \<Longrightarrow> robot_text robot = robot"
  by (simp add: robot_text_def utf8_def)

lemma pos_fields_back:
  "pos_fields pos = (frame, a, b, c) \<Longrightarrow>
   hm_pos_frame m = frame \<Longrightarrow> hm_pos_a m = a \<Longrightarrow> hm_pos_b m = b \<Longrightarrow> hm_pos_c m = c \<Longrightarrow> frame_position m = pos"
  by (cases pos rule: pos_fields.cases) (auto simp: frame_position_def)

text \<open>
  C9: a call through the bus is the flat operation itself, with the same arguments, reply and effect;
  an empty key stands for the shared default key.
\<close>

theorem bus_transparent:
  assumes "utf8_fault 0 robot = None" "utf8_fault 0 key = None"
  shows "client_flat xt e (register_call robot key alive) sv =
      Some (flat_register xt e robot (default_if_empty key) alive sv)
    \<and> client_flat xt e (deregister_call robot key) sv =
        Some (flat_deregister xt e robot (default_if_empty key) sv)
    \<and> client_flat xt e (heartbeat_call robot key zone node edge pos att) sv =
        Some (flat_heartbeat xt e robot (default_if_empty key) zone node edge pos att sv)
    \<and> client_flat xt e (claim_call_msg kind key robot ids mode lease) sv =
        flat_claim xt e kind (default_if_empty key) robot ids mode lease sv
    \<and> client_flat xt e (claim_route_call key robot nodes edges mode lease) sv =
        flat_claim_route xt e (default_if_empty key) robot nodes edges mode lease sv
    \<and> client_flat xt e (release_call kind key robot i) sv =
        Some (flat_release xt e kind (default_if_empty key) robot i sv)"
proof -
  obtain frame a b c where f: "pos_fields pos = (frame, a, b, c)" by (metis surj_pair)
  have att: "\<lparr>at_roll = at_roll att, at_pitch = at_pitch att, at_yaw = at_yaw att\<rparr> = att" by (cases att) simp
  note valid = client_flat_id key_text_valid [OF assms(2)] robot_text_valid [OF assms(1)]
  show ?thesis
    by (simp add: valid register_call_def deregister_call_def heartbeat_call_def claim_call_msg_def
        claim_route_call_def release_call_def f pos_fields_back [OF f] msg_attitude_def att)
qed


section \<open>No request kills the core\<close>

lemma signature_decodes: "\<exists>r. decode_hex (signature_hex bs) = Returns r"
proof (cases "bs = []")
  case True
  then show ?thesis
    by (simp add: signature_hex_def decode_hex_def str_trim_def trim_with.simps ws_encodings_def)
next
  case False
  from hex_back [OF this] show ?thesis by (simp add: signature_hex_def)
qed

lemma prove_returns: "\<exists>x. prove_request xt e m sv = Returns x"
proof (cases m)
  case (Inr p)
  obtain r where r: "decode_hex (signature_hex (pm_signature p)) = Returns r" using signature_decodes by blast
  show ?thesis
    by (auto simp: prove_request_def Inr flat_prove_def r split: sum.split key.split option.split prod.split)
qed (simp add: prove_request_def)

lemma map_outcome_died [simp]: "map_outcome f r = Died \<longleftrightarrow> r = Died"
  by (cases r) simp_all

lemma outcome_of_died [simp]: "outcome_of r \<noteq> Died"
  by (simp add: outcome_of_def split: option.split)

lemma read_never_dies: "handle_read si xt e (sv, a) request \<noteq> Died"
proof (cases "\<exists>m. request = OpAuthProve m")
  case True
  then obtain m where m: "request = OpAuthProve m" by blast
  obtain x where "prove_request xt e m sv = Returns x" using prove_returns by blast
  then show ?thesis by (simp add: m outcome_of_run_def)
next
  case False
  then show ?thesis
    by (cases "(si, xt, e, (sv, a), request)" rule: handle_read.cases) (auto split: prod.splits)
qed

text \<open>
  No request that comes over the bus, whatever its bytes, makes the handler panic: a signature
  is written out in hex before it is decoded, so the slicing of \<open>decode_hex\<close> stays inside characters.
\<close>

theorem bus_never_dies: "handle_request json shown si xt e sa request \<noteq> Died"
proof -
  obtain sv a where "sa = (sv, a)" by force
  then show ?thesis using read_never_dies [of si xt e sv a request] by (simp add: handle_request_def)
qed

fun undecodable :: "bus_request \<Rightarrow> bool" where
  "undecodable (OpRegister (Inl err)) = True"
| "undecodable (OpDeregister (Inl err)) = True"
| "undecodable (OpHeartbeat (Inl err)) = True"
| "undecodable (OpClaim kind (Inl err)) = True"
| "undecodable (OpClaimRoute (Inl err)) = True"
| "undecodable (OpRelease kind (Inl err)) = True"
| "undecodable (OpRoutePlan (Inl err)) = True"
| "undecodable (OpAuthChallenge (Inl err)) = True"
| "undecodable (OpAuthProve (Inl err)) = True"
| "undecodable (OpZonesList (Inl err)) = True"
| "undecodable (OpZoneGet (Inl err)) = True"
| "undecodable (OpFleetSnapshot (Inl err)) = True"
| "undecodable (OpWorkspaceSet (Inl err)) = True"
| "undecodable (OpHealth (Inl err)) = True"
| "undecodable _ = False"

fun refused_reply :: "bus_reply \<Rightarrow> bool" where
  "refused_reply (FlatReplyMsg m) = (rp_decision m = 0)"
| "refused_reply (ReadReplyMsg m) = (rd_success m = 0)"

lemma bad_request_denied: "rp_decision (reply_of_flat (bad_request request)) = 0"
  by (cases request) (simp_all add: reply_of_flat_def deny_def)

text \<open>
  A request that does not decode is answered with a refusal and changes nothing, neither the
  core nor the pushes in flight.
\<close>

theorem undecodable_inert:
  assumes "undecodable request"
  shows "\<exists>m. handle_request json shown si xt e sa request = Done (m, sa) \<and> refused_reply m"
proof -
  obtain sv a where sa: "sa = (sv, a)" by force
  show ?thesis
    using assms
    by (cases request rule: undecodable.cases)
      (simp_all add: handle_request_def sa outcome_of_def outcome_of_run_def into_read_message_def bad_read_def
        challenge_request_def prove_request_def plan_request_def zone_request_def workspace_request_def
        reply_of_flat_def deny_def)
qed

section \<open>A push through the bus\<close>

definition serve_chunk ::
  "'w site \<Rightarrow> crates \<Rightarrow> call_env \<Rightarrow> workspace_chunk \<Rightarrow> serve_state \<times> assembler
   \<Rightarrow> ((api_error + accepted_workspace option) \<times> serve_state \<times> assembler) option"
where
  \<comment> \<open>the core, as the client sees it\<close>
  "serve_chunk si xt e ck sa = workspace_request si xt e (Inr ck) sa"

lemma serve_chunk_authorised:
  assumes "utf8_fault 0 (ck_key ck) = None" "check_workspace_key xt sv (given (ck_key ck)) = Inr ()"
  shows "serve_chunk si xt e ck (sv, a) =
    (case assemble a ck of
       (Inl err, a) \<Rightarrow> Some (Inl err, sv, a)
     | (Inr None, a) \<Rightarrow> Some (Inr None, sv, a)
     | (Inr (Some (bytes, key)), a) \<Rightarrow>
         map_option (\<lambda>(r, sv). (map_sum id Some r, sv, a))
           (set_workspace xt (si_ho si) (si_hm si) (si_parse si) (si_from_wire si) e bytes
              (given (from_utf8_lossy key)) sv))"
  using assms by (simp add: serve_chunk_def workspace_request_def utf8_field_def utf8_def)

lemma push_run:
  assumes "\<forall>ck \<in> set (cks @ [last_ck]). ck_key ck = key" "utf8_fault 0 key = None"
    and "check_workspace_key xt sv (given key) = Inr ()"
    and "fst (assemble_all a (cks @ [last_ck])) = replicate (length cks) (Inr None) @ [Inr (Some (document, key))]"
  shows "push_chunks (serve_chunk si xt e) (cks @ [last_ck]) applied (sv, a) =
    map_option (\<lambda>(r, sv'). (map_sum id Some r, sv', snd (assemble_all a (cks @ [last_ck]))))
      (set_workspace xt (si_ho si) (si_hm si) (si_parse si) (si_from_wire si) e document (given key) sv)"
  using assms(1,4)
proof (induction cks arbitrary: a applied)
  case Nil
  obtain r a' where a': "assemble a last_ck = (r, a')" by force
  with Nil have r: "r = Inr (Some (document, key))" by simp
  have k: "ck_key last_ck = key" using Nil by simp
  have "serve_chunk si xt e last_ck (sv, a) =
      map_option (\<lambda>(r, sv). (map_sum id Some r, sv, a'))
        (set_workspace xt (si_ho si) (si_hm si) (si_parse si) (si_from_wire si) e document (given key) sv)"
    using serve_chunk_authorised [of last_ck xt sv si e a] assms(2,3) k a' r by (simp add: lossy_valid)
  then show ?case
    using a' by (auto simp: id_def split: option.split sum.split)
next
  case (Cons ck cks)
  obtain a' where a': "assemble a ck = (Inr None, a')"
    using Cons.prems by (auto split: prod.splits)
  have "serve_chunk si xt e ck (sv, a) = Some (Inr None, sv, a')"
    using serve_chunk_authorised [of ck xt sv si e a] assms(2,3) Cons.prems(1) a' by simp
  with Cons.IH [of a'] Cons.prems a' show ?case by (auto split: prod.splits)
qed

lemma bt_remove_insert_same: "bt_remove k (bt_insert k v m) = bt_remove k m"
  by (induction k v m rule: bt_insert.induct) (auto simp: bt_remove_def)

lemma bt_remove_none: "map_of m k = None \<Longrightarrow> bt_remove k m = m"
  unfolding bt_remove_def by (induction m) auto

lemma assemble_own: "bt_remove (ck_transfer ck) (snd (assemble a ck)) = bt_remove (ck_transfer ck) a"
proof -
  have "bt_remove k (bt_remove k m) = bt_remove k m" for k and m :: assembler by (simp add: bt_remove_def)
  then show ?thesis by (simp add: assemble_def Let_def bt_remove_insert_same)
qed

lemma assemble_all_own:
  "\<forall>ck \<in> set cks. ck_transfer ck = t \<Longrightarrow> bt_remove t (snd (assemble_all a cks)) = bt_remove t a"
proof (induction cks arbitrary: a)
  case (Cons ck cks)
  obtain r a' where a': "assemble a ck = (r, a')" by force
  have "bt_remove t a' = bt_remove t a" using assemble_own [of ck a] a' Cons.prems by simp
  with Cons.IH [of a'] Cons.prems a' show ?case by (cases "assemble_all a' cks") simp
qed simp

lemma doc_chunks_fields:
  "ck \<in> set (doc_chunks t key document) \<Longrightarrow> ck_transfer ck = t \<and> ck_key ck = key"
  by (auto simp: doc_chunks_def Let_def)

lemma doc_chunks_split:
  assumes "document \<noteq> []"
  obtains cks ck where "doc_chunks t key document = cks @ [ck]"
proof -
  have "slice_chunks workspace_chunk_bytes document \<noteq> []"
    using assms by (intro slices_nonempty) (simp_all add: workspace_chunk_bytes_def)
  then have "doc_chunks t key document \<noteq> []" by (simp add: doc_chunks_def Let_def enumerate_eq_zip)
  then show ?thesis using that by (metis rev_exhaust)
qed

lemma push_refused:
  assumes "utf8_fault 0 key = None" "check_workspace_key xt sv (given key) = Inl err" "ck_key ck = key"
  shows "push_chunks (serve_chunk si xt e) (ck # cks) applied (sv, a) = Some (Inl err, sv, a)"
  using assms by (simp add: serve_chunk_def workspace_request_def utf8_field_def utf8_def)

text \<open>
  C8: pushing a workspace through the bus, in as many chunks as it takes, is handing the core the
  whole document: the same answer, the same effect and nothing left buffered; without the operator's
  key nothing is buffered at all.
\<close>

theorem push_through_bus:
  assumes "document \<noteq> []" "length document \<le> max_workspace_bytes" "map_of a t = None" "utf8_fault 0 key = None"
  shows "client_set_workspace (serve_chunk si xt e) t document key (sv, a) =
    map_option (\<lambda>(r, sv'). (r, sv', a))
      (set_workspace xt (si_ho si) (si_hm si) (si_parse si) (si_from_wire si) e document (given key) sv)"
proof -
  obtain cks ck where d: "doc_chunks t key document = cks @ [ck]" using doc_chunks_split [OF assms(1)] .
  have few: "\<not> 2 ^ 32 \<le> length (slice_chunks workspace_chunk_bytes document)"
    using slices_few [OF assms(2)] by simp
  have fields: "\<forall>c \<in> set (cks @ [ck]). ck_transfer c = t \<and> ck_key c = key"
    using doc_chunks_fields [of _ t key document] d by auto
  show ?thesis
  proof (cases "check_workspace_key xt sv (given key)")
    case (Inl err)
    obtain c cs where c: "cks @ [ck] = c # cs" by (cases cks) simp_all
    with fields have "ck_key c = key" by auto
    then have "push_chunks (serve_chunk si xt e) (cks @ [ck]) None (sv, a) = Some (Inl err, sv, a)"
      unfolding c by (rule push_refused [OF assms(4) Inl])
    with d few assms(1) Inl show ?thesis by (simp add: client_set_workspace_def set_workspace_def)
  next
    case (Inr u)
    note arrive = doc_chunks_arrive [OF assms(1-3) refl, of key, unfolded d]
    have kept: "snd (assemble_all a (cks @ [ck])) = a"
      using assemble_all_own [of "cks @ [ck]" t a] fields arrive assms(3) bt_remove_none [of _ t] by metis
    have "push_chunks (serve_chunk si xt e) (cks @ [ck]) None (sv, a) =
        map_option (\<lambda>(r, sv'). (map_sum id Some r, sv', a))
          (set_workspace xt (si_ho si) (si_hm si) (si_parse si) (si_from_wire si) e document (given key) sv)"
      using push_run [of cks ck key xt sv a document si e None] fields assms(4) Inr arrive kept by simp
    note push = this
    show ?thesis
    proof (cases "set_workspace xt (si_ho si) (si_hm si) (si_parse si) (si_from_wire si) e document (given key) sv")
      case None
      with push d few assms(1) show ?thesis by (simp add: client_set_workspace_def)
    next
      case (Some p)
      obtain r sv' where "p = (r, sv')" by force
      with push d few assms(1) Some show ?thesis by (cases r) (simp_all add: client_set_workspace_def)
    qed
  qed
qed

section \<open>Small things\<close>

text \<open>Transfer ids of one process differ within \<open>2^32\<close> pushes, and those of two processes always.\<close>

unbundle bit_operations_syntax

lemma transfer_parts:
  "ucast (drop_bit 32 (next_transfer_id pid counter)) = pid"
  "ucast (next_transfer_id pid counter) = (ucast counter :: 32 word)"
proof -
  have m: "(0xffffffff :: 64 word) = mask 32" by (simp add: mask_eq_exp_minus_1)
  show "ucast (drop_bit 32 (next_transfer_id pid counter)) = pid"
    "ucast (next_transfer_id pid counter) = (ucast counter :: 32 word)"
    unfolding next_transfer_id_def m by (rule bit_word_eqI; auto simp: bit_simps)+
qed

lemma transfer_ids:
  "next_transfer_id pid counter = next_transfer_id pid' counter' \<longleftrightarrow>
   pid = pid' \<and> (ucast counter :: 32 word) = ucast counter'"
proof
  assume "next_transfer_id pid counter = next_transfer_id pid' counter'"
  with transfer_parts show "pid = pid' \<and> (ucast counter :: 32 word) = ucast counter'" by metis
next
  assume same: "pid = pid' \<and> (ucast counter :: 32 word) = ucast counter'"
  have "counter AND 0xffffffff = ucast (ucast counter :: 32 word)" for counter :: u64
  proof -
    have m: "(0xffffffff :: 64 word) = mask 32" by (simp add: mask_eq_exp_minus_1)
    show ?thesis unfolding m by (rule bit_word_eqI) (auto simp: bit_simps)
  qed
  with same show "next_transfer_id pid counter = next_transfer_id pid' counter'"
    by (simp add: next_transfer_id_def)
qed

text \<open>What was queued before the core started is thrown away, up to the first empty answer.\<close>

lemma nothing_stale: "discard_one (map Took stale @ NothingThere # feed) = feed"
  by (induction stale) simp_all

text \<open>
  A push that changes its count is refused and dropped; the chunk does not open a fresh transfer.
\<close>

lemma changed_count_dropped:
  assumes "map_of a (ck_transfer ck) = Some p" "pw_total p \<noteq> ck_total ck" "ck_index ck < ck_total ck"
  shows "assemble a ck = (Inl (ApiError (Lit ''workspace push changed its chunk count mid-transfer'')),
    bt_remove (ck_transfer ck) a)"
  using assms by (auto simp: assemble_def Let_def not_le)

text \<open>A chunk sent again counts again towards the ceiling, though it replaces the first copy.\<close>

lemma resent_counts_twice:
  assumes "map_of (pw_chunks p) (ck_index ck) = Some (ck_body ck)" "bt_ok (pw_chunks p)"
  shows "pw_chunks (take_chunk p ck) = pw_chunks p
    \<and> pw_bytes (take_chunk p ck) = pw_bytes p + length (ck_body ck)"
proof -
  have "bt_insert (ck_index ck) (ck_body ck) (pw_chunks p) = pw_chunks p"
    by (rule bt_ext) (use assms in \<open>auto simp: bt_ok_insert map_of_bt_insert fun_eq_iff\<close>)
  then show ?thesis by (simp add: take_chunk_def)
qed

section \<open>At the berth\<close>

definition berth_site :: "unit site" where
  "berth_site =
     \<lparr>si_ho = (\<lambda>xs. xs), si_hm = (\<lambda>xs. xs), si_parse = (\<lambda>d. Inr (''berth'', ())), si_from_wire = (\<lambda>_. Inr berth_ws),
      si_zone_datum = (\<lambda>_. \<lparr>geo_lat = f64_zero, geo_lon = f64_zero, geo_alt = f64_zero\<rparr>), si_shown = (\<lambda>_. Lit []),
      si_version = ''1'', si_uuid = (\<lambda>_. None)\<rparr>"

lemma berth_utf8: "utf8_fault 0 ''7'' = None" "utf8_fault 0 ''42'' = None"
  by (simp_all add: utf8_fault.simps utf8_first_def)

lemma berth_chunks:
  "doc_chunks 1 ''42'' ''ab'' = [\<lparr>ck_transfer = 1, ck_index = 0, ck_total = 1, ck_body = ''ab'', ck_key = ''42''\<rparr>]"
  by (simp add: doc_chunks_def slice_chunks.simps workspace_chunk_bytes_def)

theorem push_arrives_whole_witness:
  "fst (assemble_all [] (doc_chunks 1 ''42'' ''ab'')) = [Inr (Some (''ab'', ''42''))]"
  using push_arrives_whole [of "''ab''" "[]" 1 "doc_chunks 1 ''42'' ''ab''" "''42''"]
  by (simp add: berth_chunks max_workspace_bytes_def of_transfer_def split: prod.splits)

theorem buffer_bounded_witness:
  "snd (assemble_all [] [\<lparr>ck_transfer = 1, ck_index = 1, ck_total = 2, ck_body = ''b'', ck_key = []\<rparr>]) =
     [(1, \<lparr>pw_total = 2, pw_chunks = [(1, ''b'')], pw_bytes = 1, pw_key = []\<rparr>)]
   \<and> (1 :: 32 word) < 2"
proof -
  let ?p = "\<lparr>pw_total = 2, pw_chunks = [(1, ''b'')], pw_bytes = 1, pw_key = []\<rparr>"
  have a: "snd (assemble_all [] [\<lparr>ck_transfer = 1, ck_index = 1, ck_total = 2, ck_body = ''b'', ck_key = []\<rparr>]) = [(1, ?p)]"
    by (simp add: assemble_def fresh_pending_def take_chunk_def max_workspace_bytes_def Let_def word_le_nat_alt)
  then have "(1, ?p) \<in> set (snd (assemble_all [] [\<lparr>ck_transfer = 1, ck_index = 1, ck_total = 2, ck_body = ''b'', ck_key = []\<rparr>]))"
    by simp
  from buffer_bounded [OF this] a show ?thesis by simp
qed

theorem bus_transparent_witness:
  "client_flat berth_crates (berth_env []) (register_call ''7'' ''42'' None) berth_start = Some berth_register"
  using bus_transparent [OF berth_utf8, of berth_crates "berth_env []" None berth_start]
  by (simp add: default_if_empty_def flip: berth_register_def)

theorem undecodable_inert_witness:
  "\<exists>m. handle_request (\<lambda>v. Inr []) (\<lambda>m. []) berth_site berth_crates (berth_env []) (berth_start, [])
       (OpHealth (Inl ''truncated'')) = Done (m, berth_start, []) \<and> refused_reply m"
  by (rule undecodable_inert) simp

theorem push_through_bus_witness:
  "\<exists>accepted sv'. client_set_workspace (serve_chunk berth_site berth_crates (berth_env [])) 1 ''ab'' ''42''
       (berth_claimed\<lparr>sv_admin_key := Some (Numeric 42)\<rparr>, []) = Some (Inr accepted, sv', [])"
proof -
  obtain accepted sv' where p: "berth_push = Some (Inr accepted, sv')" using berth_pushed by blast
  have "set_workspace berth_crates (si_ho berth_site) (si_hm berth_site) (si_parse berth_site) (si_from_wire berth_site)
      (berth_env []) ''ab'' (given ''42'') (berth_claimed\<lparr>sv_admin_key := Some (Numeric 42)\<rparr>) = berth_push"
    by (simp add: berth_push_def berth_site_def given_def set_workspace_def)
  with push_through_bus [of "''ab''" "[]" 1 "''42''" berth_site berth_crates "berth_env []"
      "berth_claimed\<lparr>sv_admin_key := Some (Numeric 42)\<rparr>"] p
  have "client_set_workspace (serve_chunk berth_site berth_crates (berth_env [])) 1 ''ab'' ''42''
      (berth_claimed\<lparr>sv_admin_key := Some (Numeric 42)\<rparr>, []) = Some (Inr accepted, sv', [])"
    by (simp add: max_workspace_bytes_def berth_utf8)
  then show ?thesis by blast
qed

end
