(* ===== verification/Http.thy ===== *)
theory Http
  imports Bus "HOL-Library.Sublist"
begin

text \<open>
  The HTTP adapters: \<open>wire/rest.rs\<close> (JSON, and XML where the feature \<open>xmlt\<close> is compiled in) and
  \<open>wire/xmlt.rs\<close> (XML only). A handler reads the body and makes one call on a peerbus client; the
  server (crate \<open>axum\<close>) routes, captures and limits. The decoders of bodies, the XML printer, the
  text of a header, the decoding of a captured path segment and the text the server itself rejects a
  request with are parameters.
\<close>

section \<open>The client the adapters own\<close>

datatype client_call =
  CallHealth
| CallFleetSnapshot
| CallSetWorkspace string string
| CallChallenge string
| CallProve string string string
| CallPlanRoute string string bool
| CallListZones
| CallZone string
| CallRegister string string "u64 option"
| CallDeregister string string
| CallHeartbeat string string "64 word option" "u64 option" "u64 option" "reported_position option" reported_attitude
| CallClaim target_kind string string "u64 list" "u8 option" "u64 option"
| CallClaimRoute string string "u64 list" "u64 list" "u8 option" "u64 option"
| CallRelease target_kind string string u64

datatype client_value = FlatValue flat_reply | ReadValue read_value | Applied accepted_workspace

text \<open>
  The client of \<open>wire/peerbus.rs\<close> over a bus that delivers: \<open>bl_json\<close> and \<open>bl_shown\<close> encode the
  core's replies, \<open>bl_read\<close> and \<open>bl_accepted\<close> decode them, \<open>bl_transfer\<close> is the id the next push
  takes.
\<close>

record 'w bus_link =
  bl_site :: "'w site"
  bl_json :: "read_value \<Rightarrow> string + string"
  bl_shown :: "msg \<Rightarrow> string"
  bl_read :: "bus_request \<Rightarrow> string \<Rightarrow> string + read_value"
  bl_accepted :: "string \<Rightarrow> string + accepted_workspace option"
  bl_transfer :: u64

definition bus_exchange ::
  "'w bus_link \<Rightarrow> crates \<Rightarrow> call_env \<Rightarrow> (string \<Rightarrow> string + 'a) \<Rightarrow> bus_request \<Rightarrow> serve_state \<times> assembler
   \<Rightarrow> ((api_error + 'a) \<times> serve_state \<times> assembler) outcome"
where
  \<comment> \<open>\<open>call_read\<close>\<close>
  "bus_exchange bl xt e decode request sa =
     (case handle_request (bl_json bl) (bl_shown bl) (bl_site bl) xt e sa request of
        Done (ReadReplyMsg m, sa) \<Rightarrow> Done (client_read decode m, sa)
      | Done (FlatReplyMsg m, sa) \<Rightarrow> Stuck
      | Died \<Rightarrow> Died
      | Stuck \<Rightarrow> Stuck)"

definition bus_chunk ::
  "'w bus_link \<Rightarrow> crates \<Rightarrow> call_env \<Rightarrow> workspace_chunk \<Rightarrow> serve_state \<times> assembler
   \<Rightarrow> ((api_error + accepted_workspace option) \<times> serve_state \<times> assembler) option"
where
  "bus_chunk bl xt e ck sa =
     (case bus_exchange bl xt e (bl_accepted bl) (OpWorkspaceSet (Inr ck)) sa of Done r \<Rightarrow> Some r | _ \<Rightarrow> None)"

fun call_request :: "client_call \<Rightarrow> bus_request option" where
  "call_request CallHealth = Some (OpHealth (Inr ()))"
| "call_request CallFleetSnapshot = Some (OpFleetSnapshot (Inr ()))"
| "call_request (CallSetWorkspace document key) = None"
| "call_request (CallChallenge robot) = Some (challenge_call robot)"
| "call_request (CallProve robot did signature) = Some (prove_call_msg robot did signature)"
| "call_request (CallPlanRoute start goal penalties) = Some (plan_call start goal penalties)"
| "call_request CallListZones = Some (OpZonesList (Inr ()))"
| "call_request (CallZone i) = Some (zone_call i)"
| "call_request (CallRegister robot key alive) = Some (register_call robot key alive)"
| "call_request (CallDeregister robot key) = Some (deregister_call robot key)"
| "call_request (CallHeartbeat robot key zone node edge pos att) =
     Some (heartbeat_call robot key zone node edge pos att)"
| "call_request (CallClaim kind key robot ids mode lease) = Some (claim_call_msg kind key robot ids mode lease)"
| "call_request (CallClaimRoute key robot nodes edges mode lease) =
     Some (claim_route_call key robot nodes edges mode lease)"
| "call_request (CallRelease kind key robot i) = Some (release_call kind key robot i)"

definition bus_client ::
  "'w bus_link \<Rightarrow> crates \<Rightarrow> call_env \<Rightarrow> client_call \<Rightarrow> serve_state \<times> assembler
   \<Rightarrow> ((api_error + client_value) \<times> serve_state \<times> assembler) outcome"
where
  "bus_client bl xt e call sa =
     (case call of
        CallSetWorkspace document key \<Rightarrow>
          map_outcome (\<lambda>(r, sa). (map_sum id Applied r, sa))
            (outcome_of (client_set_workspace (bus_chunk bl xt e) (bl_transfer bl) document key sa))
      | _ \<Rightarrow>
     (case call_request call of
        None \<Rightarrow> Stuck
      | Some request \<Rightarrow>
          if is_flat request
          then map_outcome (\<lambda>(r, sv). (Inr (FlatValue r), sv, snd sa)) (outcome_of (client_flat xt e request (fst sa)))
          else map_outcome (\<lambda>(r, sa). (map_sum id ReadValue r, sa)) (bus_exchange bl xt e (bl_read bl request) request sa)))"

section \<open>Bodies\<close>

record register_body =
  rb_robot :: string
  rb_key :: string
  rb_alive :: "u64 option"

record claim_body =
  cb_key :: string
  cb_robot :: string
  cb_id :: "u64 list"
  cb_access_mode :: "u8 option"
  cb_lease_time :: "u64 option"

record claim_route_body =
  cr_body_key :: string
  cr_body_robot :: string
  cr_body_node :: "u64 list"
  cr_body_edge :: "u64 list"
  cr_body_access_mode :: "u8 option"
  cr_body_lease_time :: "u64 option"

record release_body =
  lb_key :: string
  lb_robot :: string
  lb_id :: u64

record prove_body =
  pb_robot :: string
  pb_did :: string
  pb_signature :: string

record plan_body =
  pl_start_node_id :: string
  pl_goal_node_id :: string
  pl_use_penalties :: bool

text \<open>\<open>FlatDeregister\<close> and \<open>FlatChallenge\<close> have one field, and are that field.\<close>

record 'a codec =
  cd_json :: "string \<Rightarrow> string + 'a"
  cd_xml :: "string \<Rightarrow> string + 'a"

record http =
  ht_xmlt :: bool
  ht_text :: "string \<Rightarrow> string option"
  ht_segment :: "string \<Rightarrow> string option"
  ht_rejection :: "nat \<Rightarrow> string"
  ht_challenge :: "string codec"
  ht_prove :: "prove_body codec"
  ht_plan :: "plan_body codec"
  ht_register :: "register_body codec"
  ht_deregister :: "string codec"
  ht_heartbeat :: "flat_heartbeat_body codec"
  ht_claim :: "claim_body codec"
  ht_claim_route :: "claim_route_body codec"
  ht_release :: "release_body codec"
  ht_print :: "client_value \<Rightarrow> string + string"
  ht_print_error :: "api_error \<Rightarrow> string + string"

section \<open>Formats and responses\<close>

datatype wire_format = Json | Xml

type_synonym header_map = "(string \<times> string) list"

datatype http_body = JsonValue client_value | JsonError api_error | XmlText string | PlainText msg

datatype response = Response nat http_body

definition header_contains :: "http \<Rightarrow> header_map \<Rightarrow> string \<Rightarrow> string \<Rightarrow> bool" where
  "header_contains ht h name needle =
     (case opt_bind (map_of h name) (ht_text ht) of
        None \<Rightarrow> False | Some v \<Rightarrow> sublist needle (to_ascii_lowercase v))"

definition preferred_format :: "http \<Rightarrow> header_map \<Rightarrow> wire_format" where
  "preferred_format ht h =
     (if header_contains ht h ''accept'' ''application/xml'' \<or> header_contains ht h ''accept'' ''text/xml''
      then Xml else Json)"

definition request_format :: "http \<Rightarrow> header_map \<Rightarrow> wire_format" where
  "request_format ht h =
     (if header_contains ht h ''content-type'' ''application/xml'' \<or> header_contains ht h ''content-type'' ''text/xml''
      then Xml else Json)"

definition xml_missing :: api_error where
  "xml_missing = ApiError (Lit ''XML support is not compiled; enable feature xmlt'')"

definition parse_xml_body :: "bool \<Rightarrow> 'a codec \<Rightarrow> string \<Rightarrow> api_error + 'a" where
  "parse_xml_body xmlt cd body =
     (if \<not> xmlt then Inl xml_missing
      else case utf8 body of
        Inl err \<Rightarrow> Inl (ApiError (Format ''XML body is not UTF-8: {err}'' [AMsg (utf8_message err)]))
      | Inr s \<Rightarrow>
          (case cd_xml cd s of
             Inl err \<Rightarrow> Inl (ApiError (Format ''invalid XML body: {err}'' [AStr err])) | Inr v \<Rightarrow> Inr v))"

definition parse_body :: "http \<Rightarrow> wire_format \<Rightarrow> 'a codec \<Rightarrow> string \<Rightarrow> api_error + 'a" where
  "parse_body ht format cd body =
     (case format of
        Json \<Rightarrow>
          (case cd_json cd body of
             Inl err \<Rightarrow> Inl (ApiError (Format ''invalid JSON body: {err}'' [AStr err])) | Inr v \<Rightarrow> Inr v)
      | Xml \<Rightarrow> parse_xml_body (ht_xmlt ht) cd body)"

text \<open>\<open>respond_xml\<close> with the feature compiled in: the status is set whatever the printer says, save on failure.\<close>

definition printed_xml :: "nat \<Rightarrow> string + string \<Rightarrow> response" where
  "printed_xml status r =
     (case r of
        Inr body \<Rightarrow> Response status (XmlText body)
      | Inl err \<Rightarrow> Response 500 (PlainText (Format ''serialize XML: {err}'' [AStr err])))"

definition respond_xml :: "http \<Rightarrow> api_error + client_value \<Rightarrow> response" where
  "respond_xml ht r =
     (if \<not> ht_xmlt ht then Response 400 (JsonError xml_missing)
      else case r of
        Inr v \<Rightarrow> printed_xml 200 (ht_print ht v)
      | Inl err \<Rightarrow> printed_xml 400 (ht_print_error ht err))"

definition respond :: "http \<Rightarrow> wire_format \<Rightarrow> api_error + client_value \<Rightarrow> response" where
  "respond ht format r =
     (case format of
        Json \<Rightarrow> (case r of Inr v \<Rightarrow> Response 200 (JsonValue v) | Inl err \<Rightarrow> Response 400 (JsonError err))
      | Xml \<Rightarrow> respond_xml ht r)"

section \<open>The handlers of \<open>rest.rs\<close>\<close>

datatype endpoint =
  EpHealth | EpFleetSnapshot | EpWorkspace | EpChallenge | EpProve | EpPlanRoute | EpZones | EpZone
| EpRegister | EpDeregister | EpHeartbeat | EpClaim target_kind | EpClaimRoute | EpRelease target_kind

text \<open>
  A handler answers at once, calls the client and answers in a format, or panics: then the server
  drops the connection.
\<close>

datatype handled = Answer response | Forward "api_error + client_value \<Rightarrow> response" client_call | HandlerPanics

definition with_body ::
  "http \<Rightarrow> 'a codec \<Rightarrow> header_map \<Rightarrow> string \<Rightarrow> (wire_format \<Rightarrow> 'a \<Rightarrow> handled) \<Rightarrow> handled"
where
  "with_body ht cd h body k =
     (let format = request_format ht h in
      case parse_body ht format cd body of
        Inl err \<Rightarrow> Answer (respond ht format (Inl err)) | Inr req \<Rightarrow> k format req)"

definition admin_header :: "http \<Rightarrow> header_map \<Rightarrow> string" where
  "admin_header ht h = unwrap_or (opt_bind (map_of h ''x-ares-admin-key'') (ht_text ht)) []"

definition heartbeat_of :: "string \<Rightarrow> flat_heartbeat_body \<Rightarrow> reported_position option \<Rightarrow> client_call" where
  "heartbeat_of robot b pos = CallHeartbeat robot (hb_key b) (hb_zone b) (hb_node b) (hb_edge b) pos (hb_attitude b)"

definition signature_missing :: api_error where
  "signature_missing = ApiError (Lit ''signature must be hex encoded'')"

text \<open>\<open>captured\<close> is the path segment of the routes that have one.\<close>

definition rest_register :: "http \<Rightarrow> header_map \<Rightarrow> string \<Rightarrow> handled" where
  "rest_register ht h body =
     with_body ht (ht_register ht) h body (\<lambda>format req.
       Forward (respond ht format) (CallRegister (rb_robot req) (rb_key req) (rb_alive req)))"

definition rest_deregister :: "http \<Rightarrow> header_map \<Rightarrow> string \<Rightarrow> string \<Rightarrow> handled" where
  "rest_deregister ht h captured body =
     (if body = [] then Forward (respond ht (request_format ht h)) (CallDeregister captured default_key)
      else with_body ht (ht_deregister ht) h body
        (\<lambda>format key. Forward (respond ht format) (CallDeregister captured key)))"

definition rest_heartbeat :: "http \<Rightarrow> header_map \<Rightarrow> string \<Rightarrow> string \<Rightarrow> handled" where
  "rest_heartbeat ht h captured body =
     with_body ht (ht_heartbeat ht) h body (\<lambda>format req.
       case hb_position req of
         Inl err \<Rightarrow> Answer (respond ht format (Inl (ApiError (Lit err))))
       | Inr pos \<Rightarrow> Forward (respond ht format) (heartbeat_of captured req pos))"

definition rest_claim :: "http \<Rightarrow> target_kind \<Rightarrow> header_map \<Rightarrow> string \<Rightarrow> handled" where
  "rest_claim ht kind h body =
     with_body ht (ht_claim ht) h body (\<lambda>format req.
       Forward (respond ht format)
         (CallClaim kind (cb_key req) (cb_robot req) (cb_id req) (cb_access_mode req) (cb_lease_time req)))"

definition rest_claim_route :: "http \<Rightarrow> header_map \<Rightarrow> string \<Rightarrow> handled" where
  "rest_claim_route ht h body =
     with_body ht (ht_claim_route ht) h body (\<lambda>format req.
       Forward (respond ht format)
         (CallClaimRoute (cr_body_key req) (cr_body_robot req) (cr_body_node req) (cr_body_edge req)
            (cr_body_access_mode req) (cr_body_lease_time req)))"

definition rest_release :: "http \<Rightarrow> target_kind \<Rightarrow> header_map \<Rightarrow> string \<Rightarrow> handled" where
  "rest_release ht kind h body =
     with_body ht (ht_release ht) h body (\<lambda>format req.
       Forward (respond ht format) (CallRelease kind (lb_key req) (lb_robot req) (lb_id req)))"

fun rest_handler :: "http \<Rightarrow> endpoint \<Rightarrow> header_map \<Rightarrow> string \<Rightarrow> string \<Rightarrow> handled" where
  "rest_handler ht EpHealth h captured body = Forward (respond ht (preferred_format ht h)) CallHealth"
| "rest_handler ht EpFleetSnapshot h captured body =
     Forward (respond ht (preferred_format ht h)) CallFleetSnapshot"
| "rest_handler ht EpWorkspace h captured body =
     Forward (respond ht (preferred_format ht h)) (CallSetWorkspace body (admin_header ht h))"
| "rest_handler ht EpChallenge h captured body =
     with_body ht (ht_challenge ht) h body
       (\<lambda>format robot. Forward (respond ht (preferred_format ht h)) (CallChallenge robot))"
| "rest_handler ht EpProve h captured body =
     with_body ht (ht_prove ht) h body (\<lambda>format req.
       case decode_hex (pb_signature req) of
         Panics \<Rightarrow> HandlerPanics
       | Returns None \<Rightarrow> Answer (respond ht format (Inl signature_missing))
       | Returns (Some signature) \<Rightarrow>
           Forward (respond ht (preferred_format ht h)) (CallProve (pb_robot req) (pb_did req) signature))"
| "rest_handler ht EpPlanRoute h captured body =
     with_body ht (ht_plan ht) h body (\<lambda>format req.
       Forward (respond ht (preferred_format ht h))
         (CallPlanRoute (pl_start_node_id req) (pl_goal_node_id req) (pl_use_penalties req)))"
| "rest_handler ht EpZones h captured body = Forward (respond ht (preferred_format ht h)) CallListZones"
| "rest_handler ht EpZone h captured body = Forward (respond ht (preferred_format ht h)) (CallZone captured)"
| "rest_handler ht EpRegister h captured body = rest_register ht h body"
| "rest_handler ht EpDeregister h captured body = rest_deregister ht h captured body"
| "rest_handler ht EpHeartbeat h captured body = rest_heartbeat ht h captured body"
| "rest_handler ht (EpClaim kind) h captured body = rest_claim ht kind h body"
| "rest_handler ht EpClaimRoute h captured body = rest_claim_route ht h body"
| "rest_handler ht (EpRelease kind) h captured body = rest_release ht kind h body"

lemmas rest_handlers = rest_register_def rest_deregister_def rest_heartbeat_def rest_claim_def
  rest_claim_route_def rest_release_def

declare rest_handlers [simp]

section \<open>The handlers of \<open>xmlt.rs\<close>\<close>

text \<open>
  The extractor answers in plain text. The status of an error is set last, over what the printer
  answered. This adapter has no way to replace the workspace.
\<close>

definition xml_extract :: "'a codec \<Rightarrow> string \<Rightarrow> ('a \<Rightarrow> handled) \<Rightarrow> handled" where
  "xml_extract cd body k =
     (case utf8 body of
        Inl err \<Rightarrow> Answer (Response 400 (PlainText (Format ''body is not UTF-8: {err}'' [AMsg (utf8_message err)])))
      | Inr s \<Rightarrow>
     (case cd_xml cd s of
        Inl err \<Rightarrow> Answer (Response 400 (PlainText (Format ''invalid XML: {err}'' [AStr err])))
      | Inr req \<Rightarrow> k req))"

fun with_status :: "nat \<Rightarrow> response \<Rightarrow> response" where
  "with_status status (Response s body) = Response status body"

definition xml_result :: "http \<Rightarrow> api_error + client_value \<Rightarrow> response" where
  "xml_result ht r =
     (case r of
        Inr v \<Rightarrow> printed_xml 200 (ht_print ht v)
      | Inl err \<Rightarrow> with_status 400 (printed_xml 200 (ht_print_error ht err)))"

fun xml_handler :: "http \<Rightarrow> endpoint \<Rightarrow> string \<Rightarrow> string \<Rightarrow> handled option" where
  "xml_handler ht EpHealth captured body = Some (Forward (xml_result ht) CallHealth)"
| "xml_handler ht EpFleetSnapshot captured body = Some (Forward (xml_result ht) CallFleetSnapshot)"
| "xml_handler ht EpWorkspace captured body = None"
| "xml_handler ht EpChallenge captured body =
     Some (xml_extract (ht_challenge ht) body (\<lambda>robot. Forward (xml_result ht) (CallChallenge robot)))"
| "xml_handler ht EpProve captured body =
     Some (xml_extract (ht_prove ht) body (\<lambda>req.
       case decode_hex (pb_signature req) of
         Panics \<Rightarrow> HandlerPanics
       | Returns None \<Rightarrow> Answer (xml_result ht (Inl signature_missing))
       | Returns (Some signature) \<Rightarrow>
           Forward (xml_result ht) (CallProve (pb_robot req) (pb_did req) signature)))"
| "xml_handler ht EpPlanRoute captured body =
     Some (xml_extract (ht_plan ht) body (\<lambda>req. Forward (xml_result ht)
       (CallPlanRoute (pl_start_node_id req) (pl_goal_node_id req) (pl_use_penalties req))))"
| "xml_handler ht EpZones captured body = Some (Forward (xml_result ht) CallListZones)"
| "xml_handler ht EpZone captured body = Some (Forward (xml_result ht) (CallZone captured))"
| "xml_handler ht EpRegister captured body =
     Some (xml_extract (ht_register ht) body (\<lambda>req.
       Forward (xml_result ht) (CallRegister (rb_robot req) (rb_key req) (rb_alive req))))"
| "xml_handler ht EpDeregister captured body =
     Some (xml_extract (ht_deregister ht) body (\<lambda>key. Forward (xml_result ht) (CallDeregister captured key)))"
| "xml_handler ht EpHeartbeat captured body =
     Some (xml_extract (ht_heartbeat ht) body (\<lambda>req.
       case hb_position req of
         Inl err \<Rightarrow> Answer (xml_result ht (Inl (ApiError (Lit err))))
       | Inr pos \<Rightarrow> Forward (xml_result ht) (heartbeat_of captured req pos)))"
| "xml_handler ht (EpClaim kind) captured body =
     Some (xml_extract (ht_claim ht) body (\<lambda>req. Forward (xml_result ht)
       (CallClaim kind (cb_key req) (cb_robot req) (cb_id req) (cb_access_mode req) (cb_lease_time req))))"
| "xml_handler ht EpClaimRoute captured body =
     Some (xml_extract (ht_claim_route ht) body (\<lambda>req. Forward (xml_result ht)
       (CallClaimRoute (cr_body_key req) (cr_body_robot req) (cr_body_node req) (cr_body_edge req)
          (cr_body_access_mode req) (cr_body_lease_time req))))"
| "xml_handler ht (EpRelease kind) captured body =
     Some (xml_extract (ht_release ht) body (\<lambda>req.
       Forward (xml_result ht) (CallRelease kind (lb_key req) (lb_robot req) (lb_id req))))"

section \<open>Routing\<close>

text \<open>The server answers a HEAD request as a Get.\<close>

datatype http_method = Get | Post | OtherMethod

datatype path_part = Fixed string | Hole

type_synonym route_table = "(path_part list \<times> http_method \<times> endpoint) list"

text \<open>Below \<open>/ares/v1\<close>, in the order of \<open>router\<close>; the adapter for XML has all but the second.\<close>

definition workspace_route :: "path_part list \<times> http_method \<times> endpoint" where
  "workspace_route = ([Fixed ''workspace''], Post, EpWorkspace)"

definition xml_routes :: route_table where
  "xml_routes =
     [([Fixed ''health''], Get, EpHealth),
      ([Fixed ''fleet'', Fixed ''snapshot''], Get, EpFleetSnapshot),
      ([Fixed ''auth'', Fixed ''challenge''], Post, EpChallenge),
      ([Fixed ''auth'', Fixed ''prove''], Post, EpProve),
      ([Fixed ''routes'', Fixed ''plan''], Post, EpPlanRoute),
      ([Fixed ''zones''], Get, EpZones),
      ([Fixed ''zones'', Hole], Get, EpZone),
      ([Fixed ''robots''], Post, EpRegister),
      ([Fixed ''robots'', Fixed ''register''], Post, EpRegister),
      ([Fixed ''robots'', Hole, Fixed ''deregister''], Post, EpDeregister),
      ([Fixed ''robots'', Hole, Fixed ''heartbeat''], Post, EpHeartbeat),
      ([Fixed ''claims'', Fixed ''zone''], Post, EpClaim TZone),
      ([Fixed ''claims'', Fixed ''node''], Post, EpClaim TNode),
      ([Fixed ''claims'', Fixed ''edge''], Post, EpClaim TEdge),
      ([Fixed ''claims'', Fixed ''route''], Post, EpClaimRoute),
      ([Fixed ''leases'', Fixed ''release'', Fixed ''zone''], Post, EpRelease TZone),
      ([Fixed ''leases'', Fixed ''release'', Fixed ''node''], Post, EpRelease TNode),
      ([Fixed ''leases'', Fixed ''release'', Fixed ''edge''], Post, EpRelease TEdge)]"

definition rest_routes :: route_table where
  "rest_routes = take 2 xml_routes @ workspace_route # drop 2 xml_routes"

text \<open>A hole takes any segment that is not empty; the segments it took, in order.\<close>

fun match_path :: "path_part list \<Rightarrow> string list \<Rightarrow> string list option" where
  "match_path [] [] = Some []"
| "match_path (Fixed s # ps) (t # ts) = (if s = t then match_path ps ts else None)"
| "match_path (Hole # ps) (t # ts) = (if t = [] then None else map_option (Cons t) (match_path ps ts))"
| "match_path _ _ = None"

datatype routed = NotFound | WrongMethod | Routed endpoint "string list"

definition route_request :: "route_table \<Rightarrow> http_method \<Rightarrow> string list \<Rightarrow> routed" where
  "route_request routes meth path =
     (case filter (\<lambda>(pattern, _, _). match_path pattern path \<noteq> None) routes of
        [] \<Rightarrow> NotFound
      | (pattern, m, ep) # _ \<Rightarrow>
          if m = meth then Routed ep (unwrap_or (match_path pattern path) []) else WrongMethod)"

section \<open>One request\<close>

record http_request =
  rq_method :: http_method
  rq_path :: "string list"
  rq_headers :: header_map
  rq_body :: string

definition default_body_limit :: nat where "default_body_limit = 2 * 1024 * 1024"
definition max_workspace_body_bytes :: nat where "max_workspace_body_bytes = 256 * 1024 * 1024"

definition body_limit :: "endpoint \<Rightarrow> nat" where
  "body_limit ep = (if ep = EpWorkspace then max_workspace_body_bytes else default_body_limit)"

fun takes_body :: "endpoint \<Rightarrow> bool" where
  "takes_body EpHealth = False"
| "takes_body EpFleetSnapshot = False"
| "takes_body EpZones = False"
| "takes_body EpZone = False"
| "takes_body _ = True"

text \<open>The extractors run in the order of the handler's arguments: the captured segment, then the body.\<close>

definition captured_segment :: "http \<Rightarrow> string list \<Rightarrow> string option" where
  "captured_segment ht segments = (case segments of [] \<Rightarrow> Some [] | s # _ \<Rightarrow> ht_segment ht s)"

definition rest_handle :: "http \<Rightarrow> http_request \<Rightarrow> handled" where
  "rest_handle ht rq =
     (case route_request rest_routes (rq_method rq) (rq_path rq) of
        NotFound \<Rightarrow> Answer (Response 404 (PlainText (Lit (ht_rejection ht 404))))
      | WrongMethod \<Rightarrow> Answer (Response 405 (PlainText (Lit (ht_rejection ht 405))))
      | Routed ep segments \<Rightarrow>
     (case captured_segment ht segments of
        None \<Rightarrow> Answer (Response 400 (PlainText (Lit (ht_rejection ht 400))))
      | Some captured \<Rightarrow>
          if takes_body ep \<and> body_limit ep < length (rq_body rq)
          then Answer (Response 413 (PlainText (Lit (ht_rejection ht 413))))
          else rest_handler ht ep (rq_headers rq) captured (rq_body rq)))"

definition xml_handle :: "http \<Rightarrow> http_request \<Rightarrow> handled" where
  "xml_handle ht rq =
     (case route_request xml_routes (rq_method rq) (rq_path rq) of
        NotFound \<Rightarrow> Answer (Response 404 (PlainText (Lit (ht_rejection ht 404))))
      | WrongMethod \<Rightarrow> Answer (Response 405 (PlainText (Lit (ht_rejection ht 405))))
      | Routed ep segments \<Rightarrow>
     (case captured_segment ht segments of
        None \<Rightarrow> Answer (Response 400 (PlainText (Lit (ht_rejection ht 400))))
      | Some captured \<Rightarrow>
          if takes_body ep \<and> default_body_limit < length (rq_body rq)
          then Answer (Response 400 (PlainText (Format ''read body: {err}'' [AStr (ht_rejection ht 413)])))
          else case xml_handler ht ep captured (rq_body rq) of
            None \<Rightarrow> Answer (Response 404 (PlainText (Lit (ht_rejection ht 404)))) | Some r \<Rightarrow> r))"

text \<open>What a client of HTTP sees, \<open>None\<close> when the connection is dropped, and what the core becomes.\<close>

definition http_serve ::
  "(client_call \<Rightarrow> 's \<Rightarrow> ((api_error + client_value) \<times> 's) outcome) \<Rightarrow> handled \<Rightarrow> 's
   \<Rightarrow> (response option \<times> 's) outcome"
where
  "http_serve perform r s =
     (case r of
        Answer response \<Rightarrow> Done (Some response, s)
      | HandlerPanics \<Rightarrow> Done (None, s)
      | Forward answer call \<Rightarrow> map_outcome (\<lambda>(r, s). (Some (answer r), s)) (perform call s))"

end
