(* ===== verification/Web.thy ===== *)
theory Web
  imports Http
begin

text \<open>
  What the HTTP adapters guarantee: a request over HTTP is the flat operation it names, the two
  adapters mean the same by the same document, and only the operator's key redraws the map.
\<close>

section \<open>Calls through the client\<close>

lemma map_outcome_cases:
  "map_outcome f (outcome_of r) = (case r of None \<Rightarrow> Stuck | Some x \<Rightarrow> Done (f x))"
  by (cases r) (simp_all add: outcome_of_def)

lemma bus_client_flat:
  assumes "call_request call = Some request" "is_flat request"
  shows "bus_client bl xt e call (sv, a) =
    (case handle_flat xt e sv request of
       None \<Rightarrow> Stuck | Some (r, sv') \<Rightarrow> Done (Inr (FlatValue r), sv', a))"
  using assms
  by (cases call; cases "handle_flat xt e sv request")
    (simp_all add: bus_client_def client_flat_id map_outcome_cases split: prod.split)

lemmas flat_calls = register_call_def deregister_call_def heartbeat_call_def claim_call_msg_def
  claim_route_call_def release_call_def

lemmas read_calls = challenge_call_def prove_call_msg_def plan_call_def zone_call_def

text \<open>The flat operation a call stands for; the texts it carries are the robot's and the key.\<close>

fun flat_op :: "crates \<Rightarrow> call_env \<Rightarrow> client_call \<Rightarrow> serve_state \<Rightarrow> (flat_reply \<times> serve_state) option" where
  "flat_op xt e (CallRegister robot key alive) sv =
     Some (flat_register xt e robot (default_if_empty key) alive sv)"
| "flat_op xt e (CallDeregister robot key) sv = Some (flat_deregister xt e robot (default_if_empty key) sv)"
| "flat_op xt e (CallHeartbeat robot key zone node edge pos att) sv =
     Some (flat_heartbeat xt e robot (default_if_empty key) zone node edge pos att sv)"
| "flat_op xt e (CallClaim kind key robot ids mode lease) sv =
     flat_claim xt e kind (default_if_empty key) robot ids mode lease sv"
| "flat_op xt e (CallClaimRoute key robot nodes edges mode lease) sv =
     flat_claim_route xt e (default_if_empty key) robot nodes edges mode lease sv"
| "flat_op xt e (CallRelease kind key robot i) sv =
     Some (flat_release xt e kind (default_if_empty key) robot i sv)"
| "flat_op xt e _ sv = None"

fun call_names :: "client_call \<Rightarrow> (string \<times> string) option" where
  "call_names (CallRegister robot key alive) = Some (robot, key)"
| "call_names (CallDeregister robot key) = Some (robot, key)"
| "call_names (CallHeartbeat robot key zone node edge pos att) = Some (robot, key)"
| "call_names (CallClaim kind key robot ids mode lease) = Some (robot, key)"
| "call_names (CallClaimRoute key robot nodes edges mode lease) = Some (robot, key)"
| "call_names (CallRelease kind key robot i) = Some (robot, key)"
| "call_names _ = None"

lemma transparent_call:
  assumes "call_names call = Some (robot, key)" "utf8_fault 0 robot = None" "utf8_fault 0 key = None"
  shows "bus_client bl xt e call (sv, a) =
    (case flat_op xt e call sv of
       None \<Rightarrow> Stuck | Some (r, sv') \<Rightarrow> Done (Inr (FlatValue r), sv', a))"
proof -
  note valid = key_text_valid [OF assms(3)] robot_text_valid [OF assms(2)]
  show ?thesis
  proof (cases call)
    case (CallHeartbeat r k zone node edge pos att)
    obtain frame x y z where f: "pos_fields pos = (frame, x, y, z)" by (metis surj_pair)
    have att: "\<lparr>at_roll = at_roll att, at_pitch = at_pitch att, at_yaw = at_yaw att\<rparr> = att" by (cases att) simp
    from CallHeartbeat assms(1) show ?thesis
      by (simp add: bus_client_flat heartbeat_call_def f valid pos_fields_back [OF f] msg_attitude_def att)
  qed (use assms(1) in \<open>simp_all add: bus_client_flat flat_calls valid split: option.split prod.split\<close>)
qed

section \<open>The flat operations over HTTP\<close>

definition web ::
  "'w bus_link \<Rightarrow> crates \<Rightarrow> call_env \<Rightarrow> http \<Rightarrow> endpoint \<Rightarrow> header_map \<Rightarrow> string \<Rightarrow> string
   \<Rightarrow> serve_state \<times> assembler \<Rightarrow> (response option \<times> serve_state \<times> assembler) outcome"
where
  "web bl xt e ht ep h captured body s = http_serve (bus_client bl xt e) (rest_handler ht ep h captured body) s"

definition text_ok :: "string \<Rightarrow> bool" where
  "text_ok s = (utf8_fault 0 s = None)"

definition flat_answer ::
  "http \<Rightarrow> header_map \<Rightarrow> assembler \<Rightarrow> (flat_reply \<times> serve_state) option
   \<Rightarrow> (response option \<times> serve_state \<times> assembler) outcome"
where
  "flat_answer ht h a r =
     (case r of
        None \<Rightarrow> Stuck
      | Some (r, sv) \<Rightarrow> Done (Some (respond ht (request_format ht h) (Inr (FlatValue r))), sv, a))"

lemma web_flat:
  assumes "rest_handler ht ep h captured body = Forward (respond ht (request_format ht h)) call"
    and "call_names call = Some (robot, key)" "text_ok robot" "text_ok key"
  shows "web bl xt e ht ep h captured body (sv, a) = flat_answer ht h a (flat_op xt e call sv)"
  using assms transparent_call [of call robot key bl xt e sv a]
  by (auto simp: web_def http_serve_def flat_answer_def text_ok_def split: option.split)

lemma text_ok_default: "text_ok default_key"
  by (simp add: text_ok_def default_key_def utf8_fault.simps(2) utf8_first_def)

text \<open>
  The answer to a request that was carried out: status 200 with the reply, as JSON or in the text the
  XML printer makes of it; a printer that fails is a server error.
\<close>

definition reply_answer :: "http \<Rightarrow> header_map \<Rightarrow> flat_reply \<Rightarrow> response" where
  "reply_answer ht h r =
     (if request_format ht h = Json then Response 200 (JsonValue (FlatValue r))
      else case ht_print ht (FlatValue r) of
        Inr text \<Rightarrow> Response 200 (XmlText text)
      | Inl err \<Rightarrow> Response 500 (PlainText (Format ''serialize XML: {err}'' [AStr err])))"

definition carried ::
  "http \<Rightarrow> header_map \<Rightarrow> assembler \<Rightarrow> (flat_reply \<times> serve_state) option
   \<Rightarrow> (response option \<times> serve_state \<times> assembler) outcome"
where
  "carried ht h a r =
     (case r of None \<Rightarrow> Stuck | Some (r, sv) \<Rightarrow> Done (Some (reply_answer ht h r), sv, a))"

lemma respond_reply:
  assumes "ht_xmlt ht \<or> request_format ht h = Json"
  shows "respond ht (request_format ht h) (Inr (FlatValue r)) = reply_answer ht h r"
  using assms
  by (cases "request_format ht h")
    (auto simp: respond_def respond_xml_def reply_answer_def printed_xml_def split: sum.split)

lemma web_carried:
  assumes "ht_xmlt ht \<or> request_format ht h = Json"
    and "rest_handler ht ep h captured body = Forward (respond ht (request_format ht h)) call"
    and "call_names call = Some (robot, key)" "text_ok robot" "text_ok key"
  shows "web bl xt e ht ep h captured body (sv, a) = carried ht h a (flat_op xt e call sv)"
  using web_flat [OF assms(2-5), of bl xt e sv a]
  by (auto simp: flat_answer_def carried_def respond_reply [OF assms(1)] split: option.split)

text \<open>A body that was read is in a format the build has.\<close>

lemma parsed_format: "parse_body ht (request_format ht h) cd body = Inr req \<Longrightarrow> ht_xmlt ht \<or> request_format ht h = Json"
  by (cases "request_format ht h") (auto simp: parse_body_def parse_xml_body_def split: if_splits)

lemma body_carried:
  assumes "parse_body ht (request_format ht h) cd body = Inr req"
    and "rest_handler ht ep h captured body = with_body ht cd h body k"
    and "k (request_format ht h) req = Forward (respond ht (request_format ht h)) call"
    and "call_names call = Some (robot, key)" "text_ok robot" "text_ok key"
  shows "web bl xt e ht ep h captured body (sv, a) = carried ht h a (flat_op xt e call sv)"
  by (rule web_carried [OF parsed_format [OF assms(1)] _ assms(4-6)]) (simp add: assms(1-3) with_body_def)

text \<open>
  C10: over HTTP, in JSON or in XML, a robot's request is the flat operation on the fields of its
  body: the state it leaves is the operation's, and the answer is 200 with the operation's reply in
  the format of the request (500 when the XML printer fails). An empty body says goodbye with the
  shared default key, any other with the key it holds.
\<close>

theorem http_is_flat:
  assumes "text_ok captured"
  shows "(parse_body ht (request_format ht h) (ht_register ht) body = Inr rb
            \<and> text_ok (rb_robot rb) \<and> text_ok (rb_key rb) \<longrightarrow>
          web bl xt e ht EpRegister h captured body (sv, a) =
            carried ht h a (Some (flat_register xt e (rb_robot rb) (default_if_empty (rb_key rb)) (rb_alive rb) sv)))
       \<and> (ht_xmlt ht \<or> request_format ht h = Json \<longrightarrow>
          web bl xt e ht EpDeregister h captured [] (sv, a) =
            carried ht h a (Some (flat_deregister xt e captured default_key sv)))
       \<and> (body \<noteq> [] \<and> parse_body ht (request_format ht h) (ht_deregister ht) body = Inr dkey \<and> text_ok dkey \<longrightarrow>
          web bl xt e ht EpDeregister h captured body (sv, a) =
            carried ht h a (Some (flat_deregister xt e captured (default_if_empty dkey) sv)))
       \<and> (parse_body ht (request_format ht h) (ht_heartbeat ht) body = Inr hb
            \<and> hb_position hb = Inr pos \<and> text_ok (hb_key hb) \<longrightarrow>
          web bl xt e ht EpHeartbeat h captured body (sv, a) =
            carried ht h a (Some (flat_heartbeat xt e captured (default_if_empty (hb_key hb)) (hb_zone hb)
              (hb_node hb) (hb_edge hb) pos (hb_attitude hb) sv)))
       \<and> (parse_body ht (request_format ht h) (ht_claim ht) body = Inr cb
            \<and> text_ok (cb_robot cb) \<and> text_ok (cb_key cb) \<longrightarrow>
          web bl xt e ht (EpClaim kind) h captured body (sv, a) =
            carried ht h a (flat_claim xt e kind (default_if_empty (cb_key cb)) (cb_robot cb) (cb_id cb)
              (cb_access_mode cb) (cb_lease_time cb) sv))
       \<and> (parse_body ht (request_format ht h) (ht_claim_route ht) body = Inr rtb
            \<and> text_ok (cr_body_robot rtb) \<and> text_ok (cr_body_key rtb) \<longrightarrow>
          web bl xt e ht EpClaimRoute h captured body (sv, a) =
            carried ht h a (flat_claim_route xt e (default_if_empty (cr_body_key rtb)) (cr_body_robot rtb)
              (cr_body_node rtb) (cr_body_edge rtb) (cr_body_access_mode rtb) (cr_body_lease_time rtb) sv))
       \<and> (parse_body ht (request_format ht h) (ht_release ht) body = Inr lb
            \<and> text_ok (lb_robot lb) \<and> text_ok (lb_key lb) \<longrightarrow>
          web bl xt e ht (EpRelease kind) h captured body (sv, a) =
            carried ht h a (Some (flat_release xt e kind (default_if_empty (lb_key lb)) (lb_robot lb) (lb_id lb) sv)))"
    (is "?register \<and> ?empty \<and> ?deregister \<and> ?heartbeat \<and> ?claim \<and> ?route \<and> ?release")
proof (intro conjI)
  show ?register
    by (auto intro!: trans [OF body_carried [where robot = "rb_robot rb" and key = "rb_key rb"
          and call = "CallRegister (rb_robot rb) (rb_key rb) (rb_alive rb)"]])
next
  show ?empty
    by (auto simp: default_if_empty_def default_key_def assms
        intro!: trans [OF web_carried [where call = "CallDeregister captured default_key" and robot = captured
          and key = default_key]] text_ok_default)
next
  show ?deregister
    by (auto simp: assms intro!: trans [OF body_carried [where robot = captured and key = dkey
          and call = "CallDeregister captured dkey"]])
next
  show ?heartbeat
    by (auto simp: assms heartbeat_of_def intro!: trans [OF body_carried [where robot = captured and key = "hb_key hb"
          and call = "heartbeat_of captured hb pos"]])
next
  show ?claim
    by (auto intro!: trans [OF body_carried [where robot = "cb_robot cb" and key = "cb_key cb"
          and call = "CallClaim kind (cb_key cb) (cb_robot cb) (cb_id cb) (cb_access_mode cb) (cb_lease_time cb)"]])
next
  show ?route
    by (auto intro!: trans [OF body_carried [where robot = "cr_body_robot rtb" and key = "cr_body_key rtb"
          and call = "CallClaimRoute (cr_body_key rtb) (cr_body_robot rtb) (cr_body_node rtb) (cr_body_edge rtb)
            (cr_body_access_mode rtb) (cr_body_lease_time rtb)"]])
next
  show ?release
    by (auto intro!: trans [OF body_carried [where robot = "lb_robot lb" and key = "lb_key lb"
          and call = "CallRelease kind (lb_key lb) (lb_robot lb) (lb_id lb)"]])
qed

section \<open>Who may redraw the map\<close>

text \<open>The map a core serves: the index of the coordinator, and the index its claims are judged by.\<close>

definition served :: "serve_state \<Rightarrow> index option \<times> index option" where
  "served sv = (co_index (sv_coord sv), cm_index (co_claims (sv_coord sv)))"

lemma free_robot_index: "cm_index (snd (free_robot m rid now)) = cm_index m"
  by (simp add: snd_free_robot release_leases_for_robot_def remove_requests_for_robot_def Let_def split: prod.split)

lemma sweep_loop_index: "cm_index (snd (sweep_loop now rids freed m)) = cm_index m"
proof (induction now rids freed m rule: sweep_loop.induct)
  case (2 now rid rids freed m)
  obtain n m' where f: "free_robot m rid now = (n, m')" by force
  with 2 [OF f [symmetric] refl] free_robot_index [of m rid now] show ?case by (simp add: f)
qed simp

lemma core_step_manager: "core_step cx guard c es c' \<Longrightarrow> cm_index (co_claims c') = cm_index (co_claims c)"
proof (induction rule: core_step.induct)
  case (sweep c now)
  then show ?case
    using sweep_loop_index [of now "inactive_robots_at c now" "[]" "co_claims c"]
    by (cases "sweep_loop now (inactive_robots_at c now) [] (co_claims c)") (simp add: sweep_inactive_def)
next
  case (prove c draw t rid pk sig)
  then show ?case by (auto simp: prove_identity_def expire_tokens_def Let_def split: option.split prod.split)
next
  case (validate c t rid k)
  then show ?case
    by (cases k; simp add: validate_key_def try_verify_def clear_failures_def note_failure_def Let_def
        split: option.split prod.split)
next
  case (register k c salt t rid cost)
  then show ?case
    by (simp add: register_cases commit_binding_def drop_pending_def split: option.split)
qed (auto simp: set_alive_def touch_robot_def resolve_or_mint_robot_id_def issue_challenge_def expire_claims_def
    expire_requests_def expire_leases_def unregister_robot_def remove_requests_for_robot_def
    release_leases_for_robot_def release_request_for_robot_target_def next_request_id_def
    upsert_request_for_robot_def update_robot_progress_def update_robot_pose_def Let_def
    split: option.split prod.split)

lemma run_served:
  assumes "core_run cx guard (sv_coord sv) es (sv_coord sv')"
  shows "served sv' = served sv"
proof -
  have "co_index c' = co_index c \<and> cm_index (co_claims c') = cm_index (co_claims c)" if "core_run cx guard c es c'" for c c'
    using that by (induction rule: core_run.induct) (simp_all add: core_step_index core_step_manager)
  with assms show ?thesis by (auto simp: served_def)
qed

context wire_call
begin

lemma keeps_served: "served (call sv) = served sv"
  by (rule run_served [OF core])

end

lemma claim_keeps_index:
  "flat_claim_targets xt e requested key robot mode lease sv = Some (r, sv') \<Longrightarrow>
   served sv' = served sv"
  using claiming.keeps_served [of xt e requested key robot mode lease sv] by (simp add: claim_call_def)

lemma prove_keeps_index:
  "flat_prove xt e robot did sig sv = Returns (r, sv') \<Longrightarrow> served sv' = served sv"
  using proving.keeps_served [of xt e robot did sig sv] by (simp add: prove_call_def)

lemma flat_keeps_index:
  "handle_flat xt e sv request = Some (r, sv') \<Longrightarrow> served sv' = served sv"
proof (induction xt e sv request rule: handle_flat.induct)
  case (1 xt e sv m)
  then show ?case using registering.keeps_served [of xt e _ _ _ sv] by (simp add: prod_eq_iff) metis
next
  case (2 xt e sv m)
  then show ?case using deregistering.keeps_served [of xt e _ _ sv] by (simp add: prod_eq_iff) metis
next
  case (3 xt e sv m)
  then show ?case using beating.keeps_served [of xt e _ _ _ _ _ _ _ sv] by (simp add: prod_eq_iff) metis
next
  case (6 xt e sv kind m)
  then show ?case using releasing.keeps_served [of xt e _ _ _ _ sv] by (simp add: prod_eq_iff) metis
qed (auto simp: flat_claim_def flat_claim_route_def dest: claim_keeps_index split: if_splits)

lemma challenge_request_index:
  "challenge_request xt e m sv = (r, sv') \<Longrightarrow> served sv' = served sv"
  using challenging.keeps_served [of xt e _ sv]
  by (auto simp: challenge_request_def prod_eq_iff split: sum.splits)

lemma prove_request_index:
  "prove_request xt e m sv = Returns (r, sv') \<Longrightarrow> served sv' = served sv"
  by (auto simp: prove_request_def dest: prove_keeps_index split: sum.splits)

lemma read_keeps_index:
  assumes "handle_read si xt e (sv, a) request = Done (r, sv', a')" "\<And>m. request \<noteq> OpWorkspaceSet m"
  shows "served sv' = served sv"
  using assms
  by (induction si xt e "(sv, a)" request rule: handle_read.induct)
    (auto simp: outcome_of_def outcome_of_run_def dest: challenge_request_index prove_request_index
      split: option.splits run.splits prod.splits)

lemma chunk_refused:
  assumes "check_workspace_key xt sv (given (ck_key ck)) = Inl err"
  shows "\<exists>err. bus_chunk bl xt e ck (sv, a) = Some (Inl err, sv, a)"
proof -
  obtain err where "workspace_request (bl_site bl) xt e (Inr ck) (sv, a) = Some (Inl err, sv, a)"
    using assms by (cases "utf8 (ck_key ck)") (auto simp: workspace_request_def utf8_field_def utf8_def split: option.splits)
  then show ?thesis
    by (cases err) (simp add: bus_chunk_def bus_exchange_def handle_request_def outcome_of_def into_read_message_def client_read_def)
qed

lemma push_unauthorised:
  assumes "check_workspace_key xt sv (given key) = Inl err"
  shows "\<exists>err. client_set_workspace (bus_chunk bl xt e) t document key (sv, a) = Some (Inl err, sv, a)"
proof -
  have "\<exists>err. push_chunks (bus_chunk bl xt e) (ck # cks) None (sv, a) = Some (Inl err, sv, a)" if "ck_key ck = key" for ck cks
    using chunk_refused [of xt sv ck err bl e a] assms that by auto
  moreover have "doc_chunks t key document = [] \<longrightarrow> document = []"
    using doc_chunks_split [of document t key] by force
  ultimately show ?thesis
    using doc_chunks_fields [of _ t key document]
    by (cases "doc_chunks t key document") (force simp: client_set_workspace_def)+
qed

lemma map_outcome_Done_iff: "map_outcome f r = Done y \<longleftrightarrow> (\<exists>x. r = Done x \<and> f x = y)"
  by (cases r) auto

lemma exchange_keeps_index:
  assumes "bus_exchange bl xt e decode request (sv, a) = Done (r, sv', a')" "\<And>m. request \<noteq> OpWorkspaceSet m"
  shows "served sv' = served sv"
proof (cases "is_flat request")
  case True
  with assms(1) show ?thesis
    by (cases "handle_flat xt e sv request") (auto simp: bus_exchange_def handle_request_def outcome_of_def)
next
  case False
  with assms(1) obtain q where "handle_read (bl_site bl) xt e (sv, a) request = Done (q, sv', a')"
    by (auto simp: bus_exchange_def handle_request_def map_outcome_Done_iff split: outcome.splits bus_reply.splits)
  then show ?thesis using assms(2) by (rule read_keeps_index)
qed

lemma client_keeps_index:
  assumes "bus_client bl xt e call (sv, a) = Done (r, sv', a')"
    and "\<And>document key u. call = CallSetWorkspace document key \<Longrightarrow> check_workspace_key xt sv (given key) \<noteq> Inr u"
  shows "served sv' = served sv"
proof (cases "call_request call")
  case None
  then obtain document key where c: "call = CallSetWorkspace document key" by (cases call) simp_all
  with assms(2) obtain err where "check_workspace_key xt sv (given key) = Inl err"
    by (cases "check_workspace_key xt sv (given key)") auto
  from push_unauthorised [OF this, of bl e "bl_transfer bl" document a] assms(1) c show ?thesis
    by (auto simp: bus_client_def outcome_of_def)
next
  case (Some request)
  show ?thesis
  proof (cases "is_flat request")
    case True
    from bus_client_flat [OF Some True, of bl xt e sv a] assms(1) show ?thesis
      by (auto dest: flat_keeps_index split: option.splits)
  next
    case False
    from Some have w: "\<And>m. request \<noteq> OpWorkspaceSet m" by (cases call) (auto simp: flat_calls read_calls split: prod.splits)
    from Some False assms(1) obtain q where "bus_exchange bl xt e (bl_read bl request) request (sv, a) = Done (q, sv', a')"
      by (cases call) (auto simp: bus_client_def map_outcome_Done_iff)
    then show ?thesis using w by (rule exchange_keeps_index)
  qed
qed

text \<open>What a handler hands to the client as a push is a post to the one route that takes it.\<close>

lemma with_body_forward:
  "with_body ht cd h body k = Forward answer call \<Longrightarrow> \<exists>req. k (request_format ht h) req = Forward answer call"
  by (auto simp: with_body_def Let_def split: sum.splits)

lemma rest_handler_push:
  "rest_handler ht ep h captured body = Forward answer (CallSetWorkspace document key) \<Longrightarrow>
   ep = EpWorkspace \<and> key = admin_header ht h"
  by (cases "(ht, ep, h, captured, body)" rule: rest_handler.cases)
    (auto simp: heartbeat_of_def dest!: with_body_forward split: if_splits run.splits option.splits sum.splits)

lemma xml_extract_forward:
  "xml_extract cd body k = Forward answer call \<Longrightarrow> \<exists>req. k req = Forward answer call"
  by (auto simp: xml_extract_def split: sum.splits)

lemma xml_handler_push: "xml_handler ht ep captured body \<noteq> Some (Forward answer (CallSetWorkspace document key))"
  by (cases "(ht, ep, captured, body)" rule: xml_handler.cases)
    (auto simp: heartbeat_of_def dest!: xml_extract_forward split: run.splits option.splits sum.splits)

lemma match_path_nil: "match_path [] path = (if path = [] then Some [] else None)"
  by (cases path) simp_all

lemma match_path_fixed:
  "match_path (Fixed s # ps) path = (case path of [] \<Rightarrow> None | t # ts \<Rightarrow> if s = t then match_path ps ts else None)"
  by (cases path) simp_all

lemma match_workspace: "match_path [Fixed ''workspace''] path \<noteq> None \<longleftrightarrow> path = [''workspace'']"
  by (auto simp: match_path_fixed match_path_nil split: list.splits if_splits)

lemma routed_in_table:
  assumes "route_request routes meth path = Routed ep segments"
  shows "\<exists>pattern. (pattern, meth, ep) \<in> set routes \<and> match_path pattern path = Some segments"
proof -
  obtain pattern m ep' rest where f: "filter (\<lambda>(pattern, _, _). match_path pattern path \<noteq> None) routes = (pattern, m, ep') # rest"
    using assms by (auto simp: route_request_def split: list.splits)
  then have "(pattern, m, ep') \<in> set routes \<and> match_path pattern path \<noteq> None"
    using Cons_eq_filterD [OF f [symmetric]] by auto
  then show ?thesis using assms f by (auto simp: route_request_def unwrap_or_def split: if_splits option.splits)
qed

lemma routed_workspace:
  assumes "route_request rest_routes meth path = Routed EpWorkspace segments"
  shows "meth = Post \<and> path = [''workspace'']"
proof -
  obtain pattern where p: "(pattern, meth, EpWorkspace) \<in> set rest_routes" "match_path pattern path = Some segments"
    using routed_in_table [OF assms] by blast
  then have "pattern = [Fixed ''workspace'']" "meth = Post"
    by (auto simp: rest_routes_def xml_routes_def workspace_route_def)
  with p(2) match_workspace [of path] show ?thesis by simp
qed

lemma rest_handle_push:
  assumes "rest_handle ht rq = Forward answer (CallSetWorkspace document key)"
  shows "rq_method rq = Post \<and> rq_path rq = [''workspace''] \<and> key = admin_header ht (rq_headers rq)"
proof -
  obtain ep segments where r: "route_request rest_routes (rq_method rq) (rq_path rq) = Routed ep segments"
    using assms by (auto simp: rest_handle_def split: routed.splits)
  then obtain captured where
    "rest_handler ht ep (rq_headers rq) captured (rq_body rq) = Forward answer (CallSetWorkspace document key)"
    using assms by (auto simp: rest_handle_def split: option.splits if_splits)
  from rest_handler_push [OF this] r routed_workspace show ?thesis by auto
qed

lemma xml_handle_push: "xml_handle ht rq \<noteq> Forward answer (CallSetWorkspace document key)"
  using xml_handler_push by (auto simp: xml_handle_def split: routed.splits option.splits)

lemma serve_keeps_index:
  assumes "http_serve (bus_client bl xt e) handled (sv, a) = Done (answer, sv', a')"
    and "\<And>respond document key u. handled = Forward respond (CallSetWorkspace document key) \<Longrightarrow>
           check_workspace_key xt sv (given key) \<noteq> Inr u"
  shows "served sv' = served sv"
proof (cases handled)
  case (Forward respond call)
  with assms(1) obtain r where c: "bus_client bl xt e call (sv, a) = Done (r, sv', a')"
    by (auto simp: http_serve_def map_outcome_Done_iff)
  show ?thesis by (rule client_keeps_index [OF c]) (use Forward assms(2) in blast)
qed (use assms(1) in \<open>simp_all add: http_serve_def\<close>)

lemma check_workspace_key_ok:
  "check_workspace_key xt sv (given key) = Inr u \<longleftrightarrow>
   key \<noteq> [] \<and> (\<exists>k k'. sv_admin_key sv = Some k \<and> parse_key xt key = Inr k' \<and> key_matches k k')"
  by (auto simp: check_workspace_key_def given_def split: option.split sum.split)

text \<open>
  C13: a request over HTTP changes the map only as a post to \<open>/ares/v1/workspace\<close> of the JSON
  adapter whose header carries the operator's key; without an operator's key there is no such
  request, and the XML adapter has none at all.
\<close>

theorem map_guarded:
  assumes "http_serve (bus_client bl xt e) handled (sv, a) = Done (answer, sv', a')"
    and "co_index (sv_coord sv') \<noteq> co_index (sv_coord sv)"
  shows "handled \<noteq> xml_handle ht rq
    \<and> (handled = rest_handle ht rq \<longrightarrow> rq_method rq = Post \<and> rq_path rq = [''workspace'']
        \<and> (\<exists>k k'. sv_admin_key sv = Some k \<and> parse_key xt (admin_header ht (rq_headers rq)) = Inr k'
             \<and> key_matches k k'))"
proof -
  obtain respond document key u where
    h: "handled = Forward respond (CallSetWorkspace document key)" "check_workspace_key xt sv (given key) = Inr u"
    using serve_keeps_index [OF assms(1)] assms(2) by (auto simp: served_def)
  show ?thesis
    using h(2) rest_handle_push [of ht rq respond document key] xml_handle_push [of ht rq respond document key]
    unfolding h(1) check_workspace_key_ok by auto
qed

section \<open>The two adapters\<close>

text \<open>What a client and the core can tell apart, but for the wording of the answer.\<close>

fun status_of :: "response \<Rightarrow> nat" where
  "status_of (Response status body) = status"

definition observed :: "(response \<Rightarrow> 'v) \<Rightarrow> (response option \<times> 's) outcome \<Rightarrow> ('v option \<times> 's) outcome" where
  \<comment> \<open>the state of the core, and what \<open>view\<close> shows of the answer\<close>
  "observed view r = map_outcome (\<lambda>(answer, s). (map_option view answer, s)) r"

lemma printed_status: "\<not> isl r \<Longrightarrow> status_of (printed_xml status r) = status"
  by (cases r) (simp_all add: printed_xml_def)

lemma with_status_of [simp]: "status_of (with_status status r) = status"
  by (cases r) simp

lemma same_routes:
  assumes "path \<noteq> [''workspace'']"
  shows "route_request rest_routes meth path = route_request xml_routes meth path"
proof -
  have "filter (\<lambda>(pattern, _, _). match_path pattern path \<noteq> None) rest_routes =
        filter (\<lambda>(pattern, _, _). match_path pattern path \<noteq> None) xml_routes"
    using match_workspace [of path] assms
    by (subst append_take_drop_id [of 2 xml_routes, symmetric], simp only: rest_routes_def filter_append)
      (simp add: workspace_route_def)
  then show ?thesis by (simp add: route_request_def)
qed

text \<open>A view of the answers that does not tell the two adapters apart.\<close>

definition alike :: "http \<Rightarrow> (response \<Rightarrow> 'v) \<Rightarrow> bool" where
  "alike ht view =
     ((\<forall>r. view (respond ht Xml r) = view (xml_result ht r))
      \<and> (\<forall>err m. view (respond ht Xml (Inl err)) = view (Response 400 (PlainText m))))"

lemma alike_nothing: "alike ht (\<lambda>_. ())"
  by (simp add: alike_def)

lemma alike_status:
  assumes "ht_xmlt ht" "\<And>err. \<not> isl (ht_print_error ht err)"
  shows "alike ht status_of"
  using assms(1) printed_status [OF assms(2)]
  by (auto simp: alike_def respond_def respond_xml_def xml_result_def split: sum.split)

lemma observed_forward:
  "(\<And>r. view (f r) = view (g r)) \<Longrightarrow>
   observed view (http_serve perform (Forward f call) s) = observed view (http_serve perform (Forward g call) s)"
  by (cases "perform call s") (auto simp: observed_def http_serve_def split: prod.split)

lemma observed_answer:
  "view r = view q \<Longrightarrow>
   observed view (http_serve perform (Answer r) s) = observed view (http_serve perform (Answer q) s)"
  by (simp add: observed_def http_serve_def)

lemma observed_body:
  assumes "alike ht view" "ht_xmlt ht" "request_format ht h = Xml"
    and "\<And>req. observed view (http_serve perform (k Xml req) s) = observed view (http_serve perform (k' req) s)"
  shows "observed view (http_serve perform (with_body ht cd h body k) s) =
         observed view (http_serve perform (xml_extract cd body k') s)"
  using assms
  by (cases "utf8_fault 0 body"; cases "cd_xml cd body")
    (auto simp: utf8_def with_body_def xml_extract_def parse_body_def parse_xml_body_def alike_def
      intro!: observed_answer)

lemma handlers_agree:
  assumes "alike ht view" "ht_xmlt ht" "request_format ht h = Xml" "preferred_format ht h = Xml"
    and "ep = EpDeregister \<longrightarrow> body \<noteq> []" "xml_handler ht ep captured body = Some handled"
  shows "observed view (http_serve perform (rest_handler ht ep h captured body) s) =
         observed view (http_serve perform handled s)"
proof -
  have same_result: "view (respond ht Xml r) = view (xml_result ht r)" for r using assms(1) by (simp add: alike_def)
  note same = observed_body [OF assms(1-3)] observed_forward observed_answer
  show ?thesis
    using assms(3-6)
    by (cases "(ht, ep, captured, body)" rule: xml_handler.cases)
      (auto simp: same_result intro!: same split: run.split option.split sum.split)
qed

lemma adapters_alike:
  assumes "alike ht view" "ht_xmlt ht" "request_format ht (rq_headers rq) = Xml" "preferred_format ht (rq_headers rq) = Xml"
    and "rq_path rq \<noteq> [''workspace'']" "rq_body rq = [] \<longrightarrow> last (rq_path rq) \<noteq> ''deregister''"
    and "length (rq_body rq) \<le> default_body_limit"
  shows "observed view (http_serve perform (rest_handle ht rq) s) = observed view (http_serve perform (xml_handle ht rq) s)"
proof (cases "route_request xml_routes (rq_method rq) (rq_path rq)")
  case (Routed ep segments)
  then obtain pattern where p: "(pattern, rq_method rq, ep) \<in> set xml_routes" "match_path pattern (rq_path rq) = Some segments"
    using routed_in_table by blast
  then have ep: "ep \<noteq> EpWorkspace" by (auto simp: xml_routes_def)
  have some: "xml_handler ht ep captured (rq_body rq) = None \<longleftrightarrow> False" for captured
    using ep by (cases ep) simp_all
  have bye: "ep = EpDeregister \<longrightarrow> rq_body rq \<noteq> []"
  proof
    assume "ep = EpDeregister"
    with p(1) have "pattern = [Fixed ''robots'', Hole, Fixed ''deregister'']" by (auto simp: xml_routes_def)
    with p(2) have "last (rq_path rq) = ''deregister''"
      by (cases "rq_path rq"; cases "tl (rq_path rq)"; cases "tl (tl (rq_path rq))")
        (auto simp: match_path_nil split: if_splits)
    with assms(6) show "rq_body rq \<noteq> []" by blast
  qed
  show ?thesis
    using Routed ep assms(7) same_routes [OF assms(5)]
    by (auto simp: rest_handle_def xml_handle_def body_limit_def some split: option.split
        intro: handlers_agree [OF assms(1-4) bye])
qed (simp_all add: rest_handle_def xml_handle_def same_routes [OF assms(5)])

text \<open>
  C30: where XML is compiled in, both adapters mean the same by the same XML request, a bodyless get
  included: the core ends in the same state, and while the printer can print an error the answer has
  the same status. They differ on three points only: the route that pushes a workspace, a goodbye
  without a body, and the limit on a body, a client error in both.
\<close>

theorem adapters_agree:
  assumes "ht_xmlt ht" "request_format ht (rq_headers rq) = Xml" "preferred_format ht (rq_headers rq) = Xml"
    and "rq_path rq \<noteq> [''workspace'']" "rq_body rq = [] \<longrightarrow> last (rq_path rq) \<noteq> ''deregister''"
    and "length (rq_body rq) \<le> default_body_limit"
  shows "observed (\<lambda>_. ()) (http_serve perform (rest_handle ht rq) s) =
           observed (\<lambda>_. ()) (http_serve perform (xml_handle ht rq) s)
    \<and> ((\<forall>err. \<not> isl (ht_print_error ht err)) \<longrightarrow>
         observed status_of (http_serve perform (rest_handle ht rq) s) =
           observed status_of (http_serve perform (xml_handle ht rq) s))"
proof (intro conjI impI)
  show "observed (\<lambda>_. ()) (http_serve perform (rest_handle ht rq) s) =
      observed (\<lambda>_. ()) (http_serve perform (xml_handle ht rq) s)"
    by (rule adapters_alike [OF alike_nothing assms])
  assume "\<forall>err. \<not> isl (ht_print_error ht err)"
  then have "alike ht status_of" by (intro alike_status assms(1)) blast
  then show "observed status_of (http_serve perform (rest_handle ht rq) s) =
      observed status_of (http_serve perform (xml_handle ht rq) s)"
    by (rule adapters_alike [OF _ assms])
qed

section \<open>An answer that hides the effect\<close>

text \<open>
  Without XML compiled in, a request that asks for an XML answer is answered with a client error
  after it took effect: the robot is gone, and the workspace is replaced.
\<close>

lemma xml_unavailable_still_acts:
  assumes "\<not> ht_xmlt ht" "text_ok captured"
  shows "request_format ht h = Xml \<Longrightarrow>
      web bl xt e ht EpDeregister h captured [] (sv, a) =
        Done (Some (Response 400 (JsonError xml_missing)), snd (flat_deregister xt e captured default_key sv), a)"
    and "preferred_format ht h = Xml \<Longrightarrow>
      http_serve perform (rest_handler ht EpWorkspace h captured body) s =
        map_outcome (\<lambda>(r, s). (Some (Response 400 (JsonError xml_missing)), s))
          (perform (CallSetWorkspace body (admin_header ht h)) s)"
proof -
  have a: "respond ht Xml r = Response 400 (JsonError xml_missing)" for r
    using assms(1) by (cases r) (simp_all add: respond_def respond_xml_def)
  show "web bl xt e ht EpDeregister h captured [] (sv, a) =
      Done (Some (Response 400 (JsonError xml_missing)), snd (flat_deregister xt e captured default_key sv), a)"
    if "request_format ht h = Xml" for a
    using web_flat [of ht EpDeregister h captured "[]" "CallDeregister captured default_key" captured default_key bl xt e sv a]
      that a assms(2) text_ok_default
    by (simp add: default_if_empty_def default_key_def flat_answer_def split: prod.split)
  show "http_serve perform (rest_handler ht EpWorkspace h captured body) s =
      map_outcome (\<lambda>(r, s). (Some (Response 400 (JsonError xml_missing)), s))
        (perform (CallSetWorkspace body (admin_header ht h)) s)"
    if "preferred_format ht h = Xml"
    using that a by (simp add: http_serve_def)
qed

section \<open>At the berth\<close>

definition deaf :: "'a codec" where
  "deaf = \<lparr>cd_json = (\<lambda>_. Inl []), cd_xml = (\<lambda>_. Inl [])\<rparr>"

definition berth_http :: http where
  "berth_http =
     \<lparr>ht_xmlt = True, ht_text = Some, ht_segment = Some, ht_rejection = (\<lambda>_. []), ht_challenge = deaf, ht_prove = deaf, ht_plan = deaf,
      ht_register = \<lparr>cd_json = (\<lambda>_. Inr \<lparr>rb_robot = ''7'', rb_key = ''42'', rb_alive = None\<rparr>), cd_xml = (\<lambda>_. Inl [])\<rparr>,
      ht_deregister = deaf, ht_heartbeat = deaf, ht_claim = deaf, ht_claim_route = deaf, ht_release = deaf,
      ht_print = (\<lambda>_. Inr ''<v/>''), ht_print_error = (\<lambda>_. Inr ''<e/>'')\<rparr>"

definition berth_link :: "unit bus_link" where
  "berth_link =
     \<lparr>bl_site = berth_site, bl_json = (\<lambda>_. Inr []), bl_shown = (\<lambda>_. []), bl_read = (\<lambda>_ _. Inl []),
      bl_accepted = (\<lambda>_. Inr None), bl_transfer = 1\<rparr>"

theorem http_is_flat_witness:
  "web berth_link berth_crates (berth_env []) berth_http EpRegister [] [] ''{}'' (berth_start, []) =
     Done (Some (Response 200 (JsonValue (FlatValue reply_ok))), snd berth_register, [])"
proof -
  have e: "request_format berth_http [] = Json" by (simp add: request_format_def header_contains_def opt_bind_def)
  have "web berth_link berth_crates (berth_env []) berth_http EpRegister [] [] ''{}'' (berth_start, []) =
      carried berth_http [] [] (Some berth_register)"
    using http_is_flat [of "[]" berth_http "[]" "''{}''" "\<lparr>rb_robot = ''7'', rb_key = ''42'', rb_alive = None\<rparr>"
        berth_link berth_crates "berth_env []" berth_start "[]"]
    by (simp add: text_ok_def berth_utf8 e parse_body_def default_if_empty_def flip: berth_register_def)
      (simp add: berth_http_def)
  then show ?thesis by (simp add: carried_def e reply_answer_def berth_register_eq)
qed

definition open_berth :: serve_state where
  "open_berth = (serve_new (co_default (replicate 32 CHR 0x00) insecure_test_cost))\<lparr>sv_admin_key := Some (Numeric 42)\<rparr>"

definition berth_post :: http_request where
  "berth_post = \<lparr>rq_method = Post, rq_path = [''workspace''], rq_headers = [(''x-ares-admin-key'', ''42'')], rq_body = ''ab''\<rparr>"

lemma berth_post_handled:
  "rest_handle berth_http berth_post = Forward (respond berth_http Json) (CallSetWorkspace ''ab'' ''42'')"
  by (simp add: rest_handle_def berth_post_def route_request_def rest_routes_def xml_routes_def workspace_route_def
      captured_segment_def body_limit_def max_workspace_body_bytes_def preferred_format_def header_contains_def
      admin_header_def opt_bind_def unwrap_or_def)
    (simp add: berth_http_def)

lemma open_berth_fields [simp]:
  "sv_admin_key open_berth = Some (Numeric 42)" "co_index (sv_coord open_berth) = None"
  by (simp_all add: open_berth_def serve_new_def co_default_def)

lemma berth_site_fields [simp]:
  "si_ho berth_site = (\<lambda>xs. xs)" "si_hm berth_site = (\<lambda>xs. xs)" "si_parse berth_site = (\<lambda>d. Inr (''berth'', ()))"
  "si_from_wire berth_site = (\<lambda>_. Inr berth_ws)"
  by (simp_all add: berth_site_def)

lemma open_berth_pushed:
  "\<exists>accepted sv'. set_workspace berth_crates (\<lambda>xs. xs) (\<lambda>xs. xs) (\<lambda>d. Inr (''berth'', ())) (\<lambda>_. Inr berth_ws)
       (berth_env []) ''ab'' (Some ''42'') open_berth = Some (Inr accepted, sv') \<and> co_index (sv_coord sv') = Some berth_ix"
proof -
  obtain zs where z: "workspace_zones berth_ix = Some (Inr (1, zs))" using berth_zones by blast
  have "check_workspace_key berth_crates open_berth (Some ''42'') = Inr ()"
    by (simp add: workspace_key_ok operator_key_def berth_key)
  with z show ?thesis
    by (simp add: set_workspace_def berth_depth max_zone_nesting_def berth_valid issue_messages_def accept_workspace_def
        co_bind_index_def Let_def)
qed

definition berth_chunk :: workspace_chunk where
  "berth_chunk = \<lparr>ck_transfer = 1, ck_index = 0, ck_total = 1, ck_body = ''ab'', ck_key = ''42''\<rparr>"

lemma berth_chunk_served:
  "\<exists>accepted sv'. workspace_request berth_site berth_crates (berth_env []) (Inr berth_chunk) (open_berth, []) =
      Some (Inr (Some accepted), sv', []) \<and> co_index (sv_coord sv') = Some berth_ix"
proof -
  obtain accepted sv' where p: "set_workspace berth_crates (\<lambda>xs. xs) (\<lambda>xs. xs) (\<lambda>d. Inr (''berth'', ())) (\<lambda>_. Inr berth_ws)
      (berth_env []) ''ab'' (Some ''42'') open_berth = Some (Inr accepted, sv')" "co_index (sv_coord sv') = Some berth_ix"
    using open_berth_pushed by blast
  have k: "check_workspace_key berth_crates open_berth (given ''42'') = Inr ()"
    by (simp add: given_def workspace_key_ok operator_key_def berth_key)
  have a: "assemble [] berth_chunk = (Inr (Some (''ab'', ''42'')), [])"
    by (simp add: berth_chunk_def assemble_def fresh_pending_def take_chunk_def max_workspace_bytes_def bt_remove_def Let_def
        word_le_nat_alt unwrap_or_def)
  from p(2) show ?thesis
    using serve_chunk_authorised [of berth_chunk berth_crates open_berth berth_site "berth_env []" "[]"] k a p(1)
    by (simp add: berth_chunk_def berth_utf8 serve_chunk_def lossy_valid [OF berth_utf8(2)] given_def)
qed

lemma berth_post_served:
  "\<exists>answer sv'. http_serve (bus_client berth_link berth_crates (berth_env [])) (rest_handle berth_http berth_post)
       (open_berth, []) = Done (answer, sv', []) \<and> co_index (sv_coord sv') \<noteq> None"
proof -
  obtain accepted sv' where "workspace_request berth_site berth_crates (berth_env []) (Inr berth_chunk) (open_berth, []) =
      Some (Inr (Some accepted), sv', [])" and p: "co_index (sv_coord sv') = Some berth_ix"
    using berth_chunk_served by blast
  then have "bus_chunk berth_link berth_crates (berth_env []) berth_chunk (open_berth, []) = Some (Inr None, sv', [])"
    by (simp add: bus_chunk_def bus_exchange_def handle_request_def berth_link_def outcome_of_def into_read_message_def
        client_read_def)
  then show ?thesis
    using p
    by (simp add: berth_post_handled http_serve_def bus_client_def client_set_workspace_def berth_chunks outcome_of_def
        slice_chunks.simps workspace_chunk_bytes_def berth_link_def berth_chunk_def)
qed

theorem map_guarded_witness:
  "rq_path berth_post = [''workspace'']
   \<and> (\<exists>k'. parse_key berth_crates (admin_header berth_http (rq_headers berth_post)) = Inr k'
        \<and> key_matches (Numeric 42) k')"
proof -
  obtain answer sv' where
    "http_serve (bus_client berth_link berth_crates (berth_env [])) (rest_handle berth_http berth_post)
       (open_berth, []) = Done (answer, sv', [])" "co_index (sv_coord sv') \<noteq> None"
    using berth_post_served by blast
  with map_guarded [OF this(1), of berth_http berth_post] show ?thesis by auto
qed

definition berth_get :: http_request where
  "berth_get = \<lparr>rq_method = Get, rq_path = [''health''],
     rq_headers = [(''content-type'', ''text/xml''), (''accept'', ''text/xml'')], rq_body = []\<rparr>"

theorem adapters_agree_witness:
  "observed status_of (http_serve (bus_client berth_link berth_crates (berth_env [])) (rest_handle berth_http berth_get)
     (berth_start, [])) =
   observed status_of (http_serve (bus_client berth_link berth_crates (berth_env [])) (xml_handle berth_http berth_get)
     (berth_start, []))"
proof -
  have w: "ht_xmlt berth_http" "request_format berth_http (rq_headers berth_get) = Xml"
    "preferred_format berth_http (rq_headers berth_get) = Xml" "rq_path berth_get \<noteq> [''workspace'']"
    "rq_body berth_get = [] \<longrightarrow> last (rq_path berth_get) \<noteq> ''deregister''"
    "length (rq_body berth_get) \<le> default_body_limit" "\<forall>err. \<not> isl (ht_print_error berth_http err)"
    by (simp_all add: berth_get_def berth_http_def request_format_def preferred_format_def header_contains_def
        opt_bind_def to_ascii_lowercase_def ascii_lower_def default_body_limit_def)
  show ?thesis by (rule adapters_agree [OF w(1-6), THEN conjunct2, THEN mp, OF w(7)])
qed

end
