(* ===== verification/Descend.thy ===== *)
theory Descend
  imports Sample
begin

text \<open>
  What lies below a zone. On a workspace whose zone ids are distinct \<open>descendant_zones\<close>, which has no
  guard against a cycle, ends and lists the subtree; so does everything that prints, serves or counts
  the zones of a workspace that validation accepted.
\<close>

section \<open>The children of a zone\<close>

lemma link_pair_children:
  "lookup_list (zl_children (link_pair l v)) p =
     lookup_list (zl_children l) p @ (if snd v = Some p then [fst v] else [])"
  by (auto simp: link_pair_def link_zone_def Let_def lookup_push_entry split: option.split)

lemma fold_link_children:
  "lookup_list (zl_children (foldl link_pair l vs)) p =
     lookup_list (zl_children l) p @ map fst (filter (\<lambda>v. snd v = Some p) vs)"
  by (induction vs arbitrary: l) (simp_all add: link_pair_children)

lemma subtree_distinct:
  "z \<in> set (zone_tree y) \<Longrightarrow> distinct (map z_id (zone_tree y)) \<Longrightarrow> distinct (map z_id (zone_tree z))"
proof (induction y rule: zone_tree.induct)
  case (1 i n k p ns cs)
  show ?case
  proof (cases "z = Zone i n k p ns cs")
    case False
    with 1(2) obtain c where c: "c \<in> set cs" "z \<in> set (zone_tree c)" by auto
    with 1(3) have "distinct (map z_id (zone_tree c))" by (auto simp: map_concat distinct_concat_iff)
    with 1(1) c show ?thesis by blast
  qed (use 1(3) in simp)
qed

lemma children_distinct: "distinct (map z_id (concat (map zone_tree cs))) \<Longrightarrow> distinct (map z_id cs)"
proof (induction cs)
  case (Cons c cs)
  have "z_id c \<notin> z_id ` set cs"
  proof
    assume "z_id c \<in> z_id ` set cs"
    then obtain d where d: "d \<in> set cs" "z_id c = z_id d" by blast
    have "d \<in> (\<Union>x \<in> set cs. set (zone_tree x))" by (rule UN_I [OF d(1) zone_tree_refl])
    then have "d \<in> set (concat (map zone_tree cs))" by simp
    then have "z_id c \<in> set (map z_id (concat (map zone_tree cs)))" using d(2) by simp
    moreover have "z_id c \<in> set (map z_id (zone_tree c))" by simp
    ultimately show False using Cons.prems by (simp only: list.map concat.simps map_append distinct_append) blast
  qed
  with Cons show ?case by simp
qed simp

lemma root_visits_iff:
  "(c, Some p) \<in> set (root_visits w) \<longleftrightarrow>
   (\<exists>zp \<in> set (zone_tree (ws_root_zone w)). z_id zp = p \<and> c \<in> z_id ` set (z_children zp))"
  by (auto simp: root_visits_set dest: tree_visits_linkD intro: tree_visits_link)

lemma child_ids:
  assumes "distinct (tree_ids w)" "z \<in> set (zone_tree (ws_root_zone w))"
  shows "mset (lookup_list (zl_children (zone_links_of w)) (z_id z)) = mset (map z_id (z_children z))"
proof -
  let ?ids = "lookup_list (zl_children (zone_links_of w)) (z_id z)"
  have ids: "?ids = map fst (filter (\<lambda>v. snd v = Some (z_id z)) (root_visits w))"
    by (simp add: zone_links_visits fold_link_children)
  have "distinct (map fst (root_visits w))"
    using assms(1) root_visits_ids [of w] by (metis mset_eq_imp_distinct_iff)
  then have "distinct ?ids" unfolding ids by (rule distinct_map_filter)
  moreover have "distinct (map z_id (z_children z))"
    using subtree_distinct [OF assms(2,1)] by (simp add: zone_tree_unfold [of z] children_distinct)
  moreover have "set ?ids = set (map z_id (z_children z))"
  proof -
    have "c \<in> set ?ids \<longleftrightarrow> (c, Some (z_id z)) \<in> set (root_visits w)" for c
      unfolding ids by force
    moreover have "(\<exists>zp \<in> set (zone_tree (ws_root_zone w)). z_id zp = z_id z \<and> c \<in> z_id ` set (z_children zp))
        \<longleftrightarrow> c \<in> z_id ` set (z_children z)" for c
      using tree_id_inj [OF assms(1) _ assms(2)] assms(2) by blast
    ultimately show ?thesis by (simp only: root_visits_iff set_eq_iff set_map) simp
  qed
  ultimately show ?thesis using set_eq_iff_mset_eq_distinct by blast
qed

lemma find_own:
  assumes "find_zone_ok w" "distinct (tree_ids w)" "z \<in> set (zone_tree (ws_root_zone w))"
  shows "ws_find_zone w (z_id z) = Some z"
  using assms tree_id_inj [OF assms(2) _ assms(3)] by (fastforce simp: find_zone_ok_def)

lemma mset_map_filter: "mset (List.map_filter f xs) = (\<Sum>x \<in># mset xs. case f x of None \<Rightarrow> {#} | Some y \<Rightarrow> {#y#})"
  by (induction xs) (simp_all add: List.map_filter_simps split: option.split)

lemma child_zones_children:
  assumes "find_zone_ok w" "distinct (tree_ids w)" "z \<in> set (zone_tree (ws_root_zone w))"
  shows "mset (child_zones (rebuild ho w) (z_id z)) = mset (z_children z)"
proof -
  have "child_zones (rebuild ho w) (z_id z) =
      List.map_filter (ws_find_zone w) (lookup_list (zl_children (zone_links_of w)) (z_id z))"
    by (simp add: child_zones_def lookup_list_def List.map_filter_simps split: option.split)
  then have "mset (child_zones (rebuild ho w) (z_id z)) =
      mset (List.map_filter (ws_find_zone w) (map z_id (z_children z)))"
    using child_ids [OF assms(2,3)] by (simp only: mset_map_filter)
  moreover have "List.map_filter (ws_find_zone w) (map z_id cs) = cs" if "set cs \<subseteq> set (zone_tree (ws_root_zone w))" for cs
    using that by (induction cs) (simp_all add: List.map_filter_simps find_own [OF assms(1,2)])
  moreover have "set (z_children z) \<subseteq> set (zone_tree (ws_root_zone w))"
    using assms(3) by (blast intro: zone_tree_child zone_tree_trans)
  ultimately show ?thesis by simp
qed

section \<open>The descent\<close>

definition below :: "zone \<Rightarrow> zone list" where
  "below z = concat (map zone_tree (z_children z))"

lemma mset_trees: "mset (concat (map zone_tree cs)) = mset cs + mset (concat (map below cs))"
  by (induction cs) (simp_all add: zone_tree_unfold below_def)

lemma mset_concat_map: "mset xs = mset ys \<Longrightarrow> mset (concat (map f xs)) = mset (concat (map f ys))"
  by (metis mset_concat mset_map sum_mset_sum_list)

lemma descent:
  assumes "find_zone_ok w" "distinct (tree_ids w)"
  shows "set zs \<subseteq> set (zone_tree (ws_root_zone w)) \<Longrightarrow>
    \<exists>ds. descendant_loop (rebuild ho w) (map z_id zs) out = Some (out @ ds) \<and> mset ds = mset (concat (map below zs))"
proof (induction "sum_list (map size zs)" arbitrary: zs out rule: less_induct)
  case less
  show ?case
  proof (cases zs)
    case Nil
    then show ?thesis by (simp add: descendant_loop.simps)
  next
    case (Cons z rest)
    let ?cs = "child_zones (rebuild ho w) (z_id z)"
    have z: "z \<in> set (zone_tree (ws_root_zone w))" using less.prems Cons by simp
    note cs = child_zones_children [OF assms z, of ho]
    have "sum_list (map size ?cs) = sum_list (map size (z_children z))"
      using cs by (metis mset_map sum_mset_sum_list)
    then have "sum_list (map size (rev ?cs @ rest)) < sum_list (map size zs)"
      using size_zone_children [of z] Cons by (simp add: rev_map [symmetric])
    moreover have "set (rev ?cs @ rest) \<subseteq> set (zone_tree (ws_root_zone w))"
      using less.prems Cons mset_eq_setD [OF cs] z by (auto intro: zone_tree_child zone_tree_trans)
    ultimately obtain ds where ds: "descendant_loop (rebuild ho w) (map z_id (rev ?cs @ rest)) (out @ ?cs) = Some ((out @ ?cs) @ ds)"
        "mset ds = mset (concat (map below (rev ?cs @ rest)))"
      using less.hyps by blast
    have "descendant_loop (rebuild ho w) (map z_id zs) out = Some (out @ (?cs @ ds))"
      using ds(1) Cons by (simp add: descendant_loop.simps [of _ "_ # _"] Let_def rev_map [symmetric])
    moreover have "mset (?cs @ ds) = mset (concat (map below zs))"
      using ds(2) cs mset_concat_map [OF cs, of below] mset_trees [of "z_children z"] Cons
      by (simp add: below_def [of z] mset_concat_map [of "rev ?cs" ?cs])
    ultimately show ?thesis by blast
  qed
qed

lemma descendants:
  assumes "find_zone_ok w" "distinct (tree_ids w)" "z \<in> set (zone_tree (ws_root_zone w))"
  shows "\<exists>ds. descendant_zones (rebuild ho w) (z_id z) = Some ds \<and> mset (z # ds) = mset (zone_tree z)"
  using descent [OF assms(1,2), of "[z]" ho "[]"] assms(3)
  by (auto simp: descendant_zones_def below_def zone_tree_unfold [of z])

text \<open>
  C34: on a workspace with distinct zone ids the walk down from any zone returns, and lists every zone
  strictly below it, each once, in whatever order the hash collections of the index are walked.
\<close>

theorem descendants_exact:
  assumes "find_zone_ok w" "distinct (tree_ids w)" "z \<in> set (zone_tree (ws_root_zone w))"
  shows "\<exists>ds. descendant_zones (rebuild ho w) (z_id z) = Some ds \<and> mset (z # ds) = mset (zone_tree z)"
  by (rule descendants [OF assms])

theorem descendants_exact_witness:
  "\<exists>ds. descendant_zones yard_ix 1 = Some ds \<and> mset (yard # ds) = mset (zone_tree yard)"
proof -
  have "z_id yard = 1" "yard \<in> set (zone_tree (ws_root_zone yard_ws))" by (simp_all add: yard_def yard_ws_def)
  with descendants_exact [OF yard_find_ok, of yard "\<lambda>xs. xs"] show ?thesis by simp
qed

end
