(* ===== verification/Serving.thy ===== *)
theory Serving
  imports Web Descend
begin

text \<open>
  What the running core keeps. The map it serves is one validation accepted, the claims are judged by
  that very map, and every request that comes over the bus is answered: the walks without a guard and
  the operations that could panic are all reached with arguments on which they return.
\<close>

section \<open>An accepted map\<close>

text \<open>
  The crates behind a site: the hash collections yield each of their elements once, and a workspace
  that loads finds its zones by their ids.
\<close>

definition site_ok :: "'w site \<Rightarrow> bool" where
  "site_ok si = (hash_order (si_ho si) \<and> (\<forall>wire w. si_from_wire si wire = Inr w \<longrightarrow> find_zone_ok w))"

definition accepted_map :: "index \<Rightarrow> bool" where
  "accepted_map ix =
     (\<exists>ho hm w. ix = rebuild ho w \<and> hash_order ho \<and> find_zone_ok w
        \<and> issue_messages Error (validation_issues ho hm ix) = [])"

lemma accepted_distinct:
  assumes "issue_messages Error (validation_issues ho hm (rebuild ho w)) = []"
  shows "distinct (tree_ids w)"
proof -
  have "issue_messages Error (map (\<lambda>i. vissue Error ''duplicate_id'' ''zone'' (Some i)
      (Lit ''multiple zones share the same UUID'')) (ix_duplicate_zone_ids (rebuild ho w))) = []"
    using assms by (simp add: issue_messages_def validation_issues_def duplicate_issues_def)
  then have "ix_duplicate_zone_ids (rebuild ho w) = []"
    by (cases "ix_duplicate_zone_ids (rebuild ho w)") (simp_all add: issue_messages_def vissue_def)
  then show ?thesis by (simp only: duplicates_iff)
qed

lemma accepted_index_ok: "accepted_map ix \<Longrightarrow> index_ok ix"
  unfolding accepted_map_def index_ok_def using accepted_distinct by blast

lemma walk_ends:
  assumes "index_ok ix"
  shows "\<exists>ds. descendant_zones ix (z_id (ws_root_zone (ix_workspace ix))) = Some ds"
proof -
  obtain ho w where w: "ix = rebuild ho w" "find_zone_ok w" "distinct (tree_ids w)"
    using assms by (auto simp: index_ok_def)
  from descendants [OF w(2,3) zone_tree_refl, of ho] w(1) show ?thesis by auto
qed

lemma zones_listed: "index_ok ix \<Longrightarrow> workspace_zones ix \<noteq> None"
  using walk_ends [of ix] by (auto simp: workspace_zones_def root_zone_id_def split: option.split)

lemma accepted_zones: "accepted_map ix \<Longrightarrow> workspace_zones ix \<noteq> None"
  by (rule zones_listed [OF accepted_index_ok])

definition served_ok :: "serve_state \<Rightarrow> bool" where
  "served_ok sv =
     (cm_index (co_claims (sv_coord sv)) = co_index (sv_coord sv)
      \<and> (case co_index (sv_coord sv) of None \<Rightarrow> True | Some ix \<Rightarrow> accepted_map ix))"

lemma served_okI: "served sv' = served sv \<Longrightarrow> served_ok sv \<Longrightarrow> served_ok sv'"
  by (simp add: served_ok_def served_def)

section \<open>Every request is answered\<close>

lemma expire_served: "served (sv\<lparr>sv_coord := snd (expire_claims (sv_coord sv) now)\<rparr>) = served sv"
  by (rule run_served [where cx = undefined and guard = undefined and es = "[]"]) (simp add: core_one core_step.expire)

lemma claim_returns:
  assumes "served_ok sv"
  shows "flat_claim_targets xt e requested key robot mode lease sv \<noteq> None"
proof -
  let ?c = "snd (expire_claims (sv_coord sv) (en_ms e 0))"
  have returns: "claim_evaluate e ix rid access w numeric targets (sv\<lparr>sv_coord := d\<rparr>) \<noteq> None"
    if "co_index d = Some ix" "key_ok xt (en_now e) ?c rid key = (b, d)" for ix rid access w numeric targets b d
  proof -
    have "served (sv\<lparr>sv_coord := d\<rparr>) = served (sv\<lparr>sv_coord := ?c\<rparr>)"
      by (rule run_served [where cx = "xt_crypto xt" and guard = undefined and es = "[]"]) (simp add: key_ok_then [OF that(2)])
    then have "served_ok (sv\<lparr>sv_coord := d\<rparr>)"
      using assms expire_served [of sv "en_ms e 0"] served_okI by metis
    with that(1) have "cm_index (co_claims d) = Some ix" "index_ok ix"
      by (simp_all add: served_ok_def accepted_index_ok)
    then have "evaluate_request (snd (next_request_id (co_claims d))) r \<noteq> None" for r
      using evaluate_returns [of "snd (next_request_id (co_claims d))" ix r] by (simp add: next_request_id_def Let_def)
    then show ?thesis
      by (cases "next_request_id (co_claims d)") (simp add: claim_evaluate_def Let_def del: not_None_eq)
  qed
  show ?thesis
    using returns by (auto simp: flat_claim_targets_def Let_def simp del: not_None_eq split: option.split sum.split prod.split)
qed

lemma push_keeps:
  assumes "set_workspace xt ho hm parse from_wire e document key sv = Some (result, sv')" "hash_order ho"
    and "\<And>wire w. from_wire wire = Inr w \<Longrightarrow> find_zone_ok w" "served_ok sv"
  shows "served_ok sv'"
  using assms(1)
proof (cases rule: push_cases)
  case (served name wire w accepted rid zones)
  then have "issue_messages Error (validation_issues ho hm (rebuild ho w)) = []"
    by (simp add: may_serve_def no_errors)
  then have "accepted_map (rebuild ho w)" unfolding accepted_map_def using assms(2,3) served(2) by blast
  with served(6) show ?thesis
    by (auto simp: accept_workspace_def co_bind_index_def bind_index_def served_ok_def Let_def)
qed (use assms(4) in simp)

lemma push_returns:
  assumes "hash_order ho" "\<And>wire w. from_wire wire = Inr w \<Longrightarrow> find_zone_ok w"
  shows "set_workspace xt ho hm parse from_wire e document key sv \<noteq> None"
proof -
  have "workspace_zones (rebuild ho w) \<noteq> None"
    if "from_wire wire = Inr w" "issue_messages Error (validation_issues ho hm (rebuild ho w)) = []" for wire w
  proof (rule zones_listed [OF accepted_index_ok])
    show "accepted_map (rebuild ho w)" unfolding accepted_map_def using that assms by blast
  qed
  then show ?thesis
    by (auto simp: set_workspace_def Let_def simp del: not_None_eq split: sum.split)
qed

section \<open>Every request is answered\<close>

lemma flat_returns:
  assumes "served_ok sv" "is_flat request"
  shows "handle_flat xt e sv request \<noteq> None"
  using assms
  by (cases "(xt, e, sv, request)" rule: handle_flat.cases)
    (auto simp: flat_claim_def flat_claim_route_def claim_returns [OF assms(1), simplified])

lemma plan_returns: "plan_request si m sv \<noteq> None"
proof -
  have "plan_route ho ix start goal pen \<noteq> None" for ho ix start goal pen
    using plan_route_answer [of ho ix start goal pen] by auto
  then show ?thesis by (simp add: plan_request_def plan_route_request_def split: sum.split option.split)
qed

lemma chunk_returns: "site_ok si \<Longrightarrow> workspace_request si xt e m (sv, a) \<noteq> None"
  using push_returns [of "si_ho si" "si_from_wire si"]
  by (auto simp: workspace_request_def site_ok_def simp del: not_None_eq split: sum.split option.split prod.split)

lemma read_returns:
  assumes "site_ok si" "served_ok sv" "\<not> is_flat request"
  shows "handle_read si xt e (sv, a) request \<noteq> Stuck"
proof -
  have "list_zones zone_datum sv \<noteq> None" for zone_datum
    using assms(2) by (auto simp: list_zones_def served_ok_def simp del: not_None_eq dest: accepted_zones split: option.split)
  then show ?thesis
    using assms(3) plan_returns [of si _ sv] chunk_returns [OF assms(1), of xt e _ sv a]
    by (cases "(si, xt, e, (sv, a), request)" rule: handle_read.cases)
      (auto simp: outcome_of_def outcome_of_run_def split: prod.split option.split run.split)
qed

lemma chunk_keeps:
  assumes "workspace_request si xt e m (sv, a) = Some (r, sv', a')" "site_ok si" "served_ok sv"
  shows "served_ok sv'"
  using assms push_keeps [of xt "si_ho si" "si_hm si" "si_parse si" "si_from_wire si" e]
  by (auto simp: workspace_request_def site_ok_def split: sum.splits option.splits prod.splits)

lemma request_answered:
  assumes "site_ok si" "served_ok sv"
  shows "\<exists>reply sv' a'. handle_request json shown si xt e (sv, a) request = Done (reply, sv', a') \<and> served_ok sv'"
proof (cases "is_flat request")
  case True
  then obtain r sv' where r: "handle_flat xt e sv request = Some (r, sv')"
    using flat_returns [OF assms(2) True, of xt e] by auto
  with True served_okI [OF flat_keeps_index [OF r] assms(2)] show ?thesis
    by (auto simp: handle_request_def outcome_of_def)
next
  case False
  then obtain q sv' a' where q: "handle_read si xt e (sv, a) request = Done (q, sv', a')"
    using read_returns [OF assms False, of xt e a] read_never_dies [of si xt e sv a request]
    by (cases "handle_read si xt e (sv, a) request") auto
  have "served_ok sv'"
  proof (cases "\<exists>m. request = OpWorkspaceSet m")
    case True
    then obtain m r where "workspace_request si xt e m (sv, a) = Some (r, sv', a')"
      using q by (auto simp: outcome_of_def map_outcome_Done_iff split: option.splits)
    then show ?thesis by (rule chunk_keeps [OF _ assms])
  next
    case False
    with read_keeps_index [OF q] assms(2) show ?thesis by (blast intro: served_okI)
  qed
  with q False show ?thesis by (auto simp: handle_request_def)
qed

section \<open>The life of a core\<close>

text \<open>Requests over the bus, one at a time, and the sweeps of the background task between them.\<close>

inductive core_life ::
  "'w site \<Rightarrow> crates \<Rightarrow> serve_state \<times> assembler \<Rightarrow> serve_state \<times> assembler \<Rightarrow> bool" for si xt sa where
  born: "core_life si xt sa sa"
| answered: "core_life si xt sa (sv, a)
    \<Longrightarrow> handle_request json shown si xt e (sv, a) request = Done (reply, sv', a') \<Longrightarrow> core_life si xt sa (sv', a')"
| swept: "core_life si xt sa (sv, a) \<Longrightarrow> wire_sweep e sv = (freed, sv') \<Longrightarrow> core_life si xt sa (sv', a)"

lemma life_served: "core_life si xt sa sa' \<Longrightarrow> site_ok si \<Longrightarrow> served_ok (fst sa) \<Longrightarrow> served_ok (fst sa')"
proof (induction rule: core_life.induct)
  case (answered sv a json shown e request reply sv' a')
  then show ?case using request_answered [of si sv json shown xt e a request] by simp
next
  case (swept sv a e freed sv')
  then show ?case using sweeping.keeps_served [of e sv] served_okI by simp
qed

text \<open>
  C12: whatever requests come and however the sweeps fall between them, a core that starts without a
  map, or with an accepted one, serves none or one that validation accepted without an error, with
  distinct zone ids, and judges its claims by that very map.
\<close>

theorem served_map_accepted:
  assumes "core_life si xt (sv, a) (sv', a')" and "site_ok si" and "served_ok sv"
  shows "cm_index (co_claims (sv_coord sv')) = co_index (sv_coord sv')
    \<and> (case co_index (sv_coord sv') of None \<Rightarrow> True | Some ix \<Rightarrow> accepted_map ix \<and> index_ok ix)"
  using life_served [OF assms(1,2)] assms(3) accepted_index_ok
  by (auto simp: served_ok_def split: option.split)

text \<open>
  C2: no request hangs the core or makes it panic. At any moment of its life every request over the
  bus, whatever its bytes, is answered; the walks that have no guard are over maps on which they end.
\<close>

theorem every_request_answered:
  assumes "core_life si xt (sv, a) (sv', a')" and "site_ok si" and "served_ok sv"
  shows "\<exists>reply sa. handle_request json shown si xt e (sv', a') request = Done (reply, sa)"
  using request_answered [OF assms(2), of sv'] life_served [OF assms(1,2)] assms(3) by fastforce

section \<open>A berth that is handed its map\<close>

lemma berth_site_ok: "site_ok berth_site"
  by (simp add: site_ok_def berth_site_def hash_order_id find_in_tree_ok berth_ws_def)

lemma open_berth_served: "served_ok open_berth"
  by (simp add: served_ok_def open_berth_def serve_new_def co_default_def cm_new_def)

lemma berth_life: "\<exists>sv'. core_life berth_site berth_crates (open_berth, []) (sv', []) \<and> co_index (sv_coord sv') = Some berth_ix"
proof -
  obtain accepted sv' where w: "workspace_request berth_site berth_crates (berth_env []) (Inr berth_chunk) (open_berth, []) =
      Some (Inr (Some accepted), sv', [])" "co_index (sv_coord sv') = Some berth_ix"
    using berth_chunk_served by blast
  then obtain reply where "handle_request (\<lambda>v. Inr []) (\<lambda>m. []) berth_site berth_crates (berth_env []) (open_berth, [])
      (OpWorkspaceSet (Inr berth_chunk)) = Done (reply, sv', [])"
    by (simp add: handle_request_def outcome_of_def)
  from core_life.answered [OF core_life.born this] w(2) show ?thesis by blast
qed

theorem served_map_accepted_witness:
  "\<exists>sv'. core_life berth_site berth_crates (open_berth, []) (sv', []) \<and> co_index (sv_coord sv') = Some berth_ix \<and> accepted_map berth_ix
     \<and> cm_index (co_claims (sv_coord sv')) = Some berth_ix"
proof -
  obtain sv' where l: "core_life berth_site berth_crates (open_berth, []) (sv', [])" "co_index (sv_coord sv') = Some berth_ix"
    using berth_life by blast
  from served_map_accepted [OF l(1) berth_site_ok open_berth_served] l show ?thesis by auto
qed

theorem every_request_answered_witness:
  "\<exists>sv'. core_life berth_site berth_crates (open_berth, []) (sv', []) \<and>
     (\<exists>reply sa. handle_request (\<lambda>v. Inr []) (\<lambda>m. []) berth_site berth_crates (berth_env []) (sv', [])
        (OpZonesList (Inr ())) = Done (reply, sa))"
proof -
  obtain sv' where l: "core_life berth_site berth_crates (open_berth, []) (sv', [])" using berth_life by blast
  from every_request_answered [OF l berth_site_ok open_berth_served] l show ?thesis by blast
qed

end
