(* ===== verification/Vda.thy ===== *)
theory Vda
  imports Plan Manager Robot Wire
begin

text \<open>
  The VDA 5050 adapter (\<open>vda/\<close>): orders made of route plans, states made of robots. \<open>shown\<close> is
  the text of a UUID (crate \<open>uuid\<close>), \<open>hint\<close> the text of a node's position.
\<close>

section \<open>Decimal numbers\<close>

definition digit_char :: "nat \<Rightarrow> char" where
  "digit_char d = char_of (48 + d)"

fun nat_string :: "nat \<Rightarrow> string" where
  \<comment> \<open>\<open>to_string\<close> of an unsigned integer\<close>
  "nat_string n = (if n < 10 then [digit_char n] else nat_string (n div 10) @ [digit_char (n mod 10)])"

declare nat_string.simps [simp del]

section \<open>Orders\<close>

record action_reference =
  ar_action_id :: string
  ar_action_type :: string
  ar_blocking :: bool

record resource_reservation =
  rr_target_id :: string
  rr_target_kind :: string
  rr_requires_claim :: bool
  rr_access_group :: "string option"
  rr_schedule_window :: "string option"

record order_node =
  on_node_id :: string
  on_sequence_id :: string
  on_released :: bool
  on_zone_id :: "string option"
  on_node_position_hint :: "string option"
  on_reservations :: "resource_reservation list"
  on_actions :: "action_reference list"

record order_edge =
  oe_edge_id :: string
  oe_start_node_id :: string
  oe_end_node_id :: string
  oe_released :: bool
  oe_zone_id :: "string option"
  oe_max_speed :: "f64 option"
  oe_bidirectional :: bool
  oe_reservations :: "resource_reservation list"
  oe_actions :: "action_reference list"

record vda_order =
  od_header_id :: string
  od_order_id :: string
  od_order_update_id :: "32 word"
  od_version :: string
  od_timestamp_ms :: "u64 option"
  od_nodes :: "order_node list"
  od_edges :: "order_edge list"

definition reservation_default :: resource_reservation where
  "reservation_default =
     \<lparr>rr_target_id = [], rr_target_kind = [], rr_requires_claim = False, rr_access_group = None,
      rr_schedule_window = None\<rparr>"

definition order_node_default :: order_node where
  "order_node_default =
     \<lparr>on_node_id = [], on_sequence_id = [], on_released = False, on_zone_id = None,
      on_node_position_hint = None, on_reservations = [], on_actions = []\<rparr>"

definition order_edge_default :: order_edge where
  "order_edge_default =
     \<lparr>oe_edge_id = [], oe_start_node_id = [], oe_end_node_id = [], oe_released = False, oe_zone_id = None,
      oe_max_speed = None, oe_bidirectional = True, oe_reservations = [], oe_actions = []\<rparr>"

definition order_default :: vda_order where
  "order_default =
     \<lparr>od_header_id = [], od_order_id = [], od_order_update_id = 0, od_version = ''3.0.0'',
      od_timestamp_ms = None, od_nodes = [], od_edges = []\<rparr>"

definition zone_reservation :: "(uuid \<Rightarrow> string) \<Rightarrow> uuid \<Rightarrow> resource_reservation" where
  "zone_reservation shown zid =
     reservation_default\<lparr>rr_target_id := shown zid, rr_target_kind := ''zone''\<rparr>"

definition covering :: "(uuid \<Rightarrow> string) \<Rightarrow> uuid list list \<Rightarrow> nat \<Rightarrow> resource_reservation list" where
  \<comment> \<open>the zones of the plan at a position, when it carries them\<close>
  "covering shown zones i = (if i < length zones then map (zone_reservation shown) (zones ! i) else [])"

fun node_loop :: "(uuid \<Rightarrow> string) \<Rightarrow> route_plan \<Rightarrow> nat \<Rightarrow> uuid list \<Rightarrow> order_node list" where
  "node_loop shown plan i [] = []"
| "node_loop shown plan i (n # ns) =
     order_node_default\<lparr>on_node_id := shown n, on_sequence_id := nat_string i,
        on_node_position_hint := Some (nat_string i),
        on_reservations := covering shown (rp_node_zone_ids plan) i\<rparr>
     # node_loop shown plan (Suc i) ns"

text \<open>The edge loop indexes the nodes at \<open>i\<close> and \<open>i + 1\<close>, which panics past their end.\<close>

fun edge_loop :: "(uuid \<Rightarrow> string) \<Rightarrow> route_plan \<Rightarrow> nat \<Rightarrow> uuid list \<Rightarrow> order_edge list run" where
  "edge_loop shown plan i [] = Returns []"
| "edge_loop shown plan i (e # es) =
     (if length (rp_node_ids plan) \<le> i + 1 then Panics
      else case edge_loop shown plan (Suc i) es of
        Panics \<Rightarrow> Panics
      | Returns rest \<Rightarrow>
          Returns (order_edge_default\<lparr>oe_edge_id := shown e,
              oe_start_node_id := shown (rp_node_ids plan ! i),
              oe_end_node_id := shown (rp_node_ids plan ! (i + 1)),
              oe_reservations := covering shown (rp_edge_zone_ids plan) i\<rparr> # rest))"

definition try_map_route_plan :: "(uuid \<Rightarrow> string) \<Rightarrow> route_plan \<Rightarrow> (error + vda_order) run" where
  "try_map_route_plan shown plan =
     (case validate_route_plan_shape plan of
        Inl err \<Rightarrow> Returns (Inl err)
      | Inr n \<Rightarrow>
          (case edge_loop shown plan 0 (rp_edge_ids plan) of
             Panics \<Rightarrow> Panics
           | Returns edges \<Rightarrow>
               Returns (Inr (order_default
                 \<lparr>od_header_id := shown (rp_start_node_id plan), od_order_id := shown (rp_goal_node_id plan),
                  od_order_update_id := of_nat (length (rp_edge_ids plan)),
                  od_nodes := node_loop shown plan 0 (rp_node_ids plan), od_edges := edges\<rparr>))))"

text \<open>The loops over the order stop where the shorter list ends.\<close>

fun upd_each :: "('a \<Rightarrow> 'b \<Rightarrow> 'b) \<Rightarrow> 'a list \<Rightarrow> 'b list \<Rightarrow> 'b list" where
  "upd_each f (x # xs) (y # ys) = f x y # upd_each f xs ys"
| "upd_each f xs ys = ys"

definition annotate_node ::
  "(uuid \<Rightarrow> string) \<Rightarrow> (node_data \<Rightarrow> string) \<Rightarrow> index \<Rightarrow> uuid \<Rightarrow> order_node \<Rightarrow> order_node"
where
  "annotate_node shown hint ix nid n =
     (let n = (case zones_of_node ix nid of [] \<Rightarrow> n | z # _ \<Rightarrow> n\<lparr>on_zone_id := Some (shown (z_id z))\<rparr>)
      in case ix_node ix nid of
           None \<Rightarrow> n | Some node \<Rightarrow> n\<lparr>on_node_position_hint := Some (hint node)\<rparr>)"

definition set_last :: "('a \<Rightarrow> 'a) \<Rightarrow> 'a list \<Rightarrow> 'a list" where
  \<comment> \<open>\<open>if let Some(last) = xs.last_mut()\<close>\<close>
  "set_last f xs = (if xs = [] then [] else butlast xs @ [f (last xs)])"

definition edge_reservations ::
  "(uuid \<Rightarrow> string) \<Rightarrow> uuid \<Rightarrow> edge_semantics \<Rightarrow> resource_reservation list \<Rightarrow> resource_reservation list"
where
  "edge_reservations shown eid s rs =
     (let rs = (if unwrap_or (es_requires_claim s) False
                then rs @ [\<lparr>rr_target_id = shown eid, rr_target_kind = ''edge'', rr_requires_claim = True,
                            rr_access_group = es_access_group s, rr_schedule_window = es_schedule_window s\<rparr>]
                else rs);
          rs = (if es_access_group s \<noteq> None
                then set_last (\<lambda>r. r\<lparr>rr_access_group := es_access_group s\<rparr>) rs else rs)
      in if es_schedule_window s \<noteq> None
         then set_last (\<lambda>r. r\<lparr>rr_schedule_window := es_schedule_window s\<rparr>) rs else rs)"

definition edge_semantics_for :: "index \<Rightarrow> uuid \<Rightarrow> edge_data \<Rightarrow> edge_semantics" where
  "edge_semantics_for ix eid edge =
     derive_effective_edge_semantics (ed_properties edge) False
       (map (\<lambda>z. parse_zone_policy (z_properties z)) (zones_of_edge ix eid))"

definition annotate_edge :: "(uuid \<Rightarrow> string) \<Rightarrow> index \<Rightarrow> uuid \<Rightarrow> order_edge \<Rightarrow> order_edge" where
  "annotate_edge shown ix eid e =
     (let e = (case zones_of_edge ix eid of [] \<Rightarrow> e | z # _ \<Rightarrow> e\<lparr>oe_zone_id := Some (shown (z_id z))\<rparr>)
      in case ix_edge ix eid of
           None \<Rightarrow> e
         | Some edge \<Rightarrow>
             (let s = edge_semantics_for ix eid edge in
              e\<lparr>oe_max_speed := (case es_speed_limit s of None \<Rightarrow> oe_max_speed e | Some v \<Rightarrow> Some v),
                oe_bidirectional := (\<not> es_directed s \<or> unwrap_or (es_reversible s) False),
                oe_reservations := edge_reservations shown (ed_id edge) s (oe_reservations e)\<rparr>))"

definition policy_reservation :: "(uuid \<Rightarrow> string) \<Rightarrow> zone \<Rightarrow> resource_reservation list" where
  "policy_reservation shown z =
     (let p = parse_zone_policy (z_properties z) in
      if zp_requires_claim p \<or> zp_access_group p \<noteq> None \<or> zp_schedule_window p \<noteq> None
      then [\<lparr>rr_target_id = shown (z_id z), rr_target_kind = ''zone'', rr_requires_claim = zp_requires_claim p,
             rr_access_group = zp_access_group p, rr_schedule_window = zp_schedule_window p\<rparr>]
      else [])"

definition reserve_node :: "(uuid \<Rightarrow> string) \<Rightarrow> index \<Rightarrow> uuid \<Rightarrow> order_node \<Rightarrow> order_node" where
  "reserve_node shown ix nid n =
     n\<lparr>on_reservations := on_reservations n @ concat (map (policy_reservation shown) (zones_of_node ix nid))\<rparr>"

definition index_order ::
  "(uuid \<Rightarrow> string) \<Rightarrow> (node_data \<Rightarrow> string) \<Rightarrow> index \<Rightarrow> route_plan \<Rightarrow> vda_order \<Rightarrow> vda_order"
where
  \<comment> \<open>the three loops of \<open>try_map_route_plan_with_index\<close>\<close>
  "index_order shown hint ix plan od =
     (let nodes = upd_each (annotate_node shown hint ix) (rp_node_ids plan) (od_nodes od);
          edges = upd_each (annotate_edge shown ix) (rp_edge_ids plan) (od_edges od)
      in od\<lparr>od_nodes := upd_each (reserve_node shown ix) (rp_node_ids plan) nodes, od_edges := edges\<rparr>)"

fun map_run :: "('a \<Rightarrow> 'b) \<Rightarrow> 'a run \<Rightarrow> 'b run" where
  "map_run f Panics = Panics"
| "map_run f (Returns x) = Returns (f x)"

definition try_map_route_plan_with_index ::
  "(uuid \<Rightarrow> string) \<Rightarrow> (node_data \<Rightarrow> string) \<Rightarrow> index \<Rightarrow> route_plan \<Rightarrow> (error + vda_order) run"
where
  "try_map_route_plan_with_index shown hint ix plan =
     map_run (map_sum id (index_order shown hint ix plan)) (try_map_route_plan shown plan)"

definition or_default_order :: "error + vda_order \<Rightarrow> vda_order" where
  "or_default_order r = (case r of Inl err \<Rightarrow> order_default | Inr od \<Rightarrow> od)"

definition map_route_plan :: "(uuid \<Rightarrow> string) \<Rightarrow> route_plan \<Rightarrow> vda_order run" where
  "map_route_plan shown plan = map_run or_default_order (try_map_route_plan shown plan)"

definition map_route_plan_with_index ::
  "(uuid \<Rightarrow> string) \<Rightarrow> (node_data \<Rightarrow> string) \<Rightarrow> index \<Rightarrow> route_plan \<Rightarrow> vda_order run"
where
  "map_route_plan_with_index shown hint ix plan =
     map_run or_default_order (try_map_route_plan_with_index shown hint ix plan)"

section \<open>States\<close>

datatype operating_mode = Manual | Automatic | Semiautomatic
datatype connection_state = Online | Offline | ConnectionBroken

record reservation_state =
  re_target_id :: string
  re_target_kind :: string
  re_state :: string

record battery_state =
  ba_charge :: "f64 option"
  ba_charging :: bool

record vda_state =
  vs_agv_id :: string
  vs_operating_mode :: operating_mode
  vs_connection_state :: connection_state
  vs_order_update_id :: "32 word"
  vs_last_node_id :: "string option"
  vs_last_edge_id :: "string option"
  vs_order_id :: "string option"
  vs_driving_state :: "string option"
  vs_paused :: bool
  vs_battery_state :: battery_state
  vs_reservation_states :: "reservation_state list"
  vs_action_states :: "string list"
  vs_errors :: "string list"
  vs_information :: "string list"

definition claim_target_kind_string :: "target_kind \<Rightarrow> string" where
  "claim_target_kind_string k = (case k of TZone \<Rightarrow> ''zone'' | TNode \<Rightarrow> ''node'' | TEdge \<Rightarrow> ''edge'')"

definition map_robot_state :: "(uuid \<Rightarrow> string) \<Rightarrow> robot_state \<Rightarrow> vda_state" where
  "map_robot_state shown st =
     \<lparr>vs_agv_id = nat_string (unat (rs_robot_id st)),
      vs_operating_mode = (if rs_route_plan st \<noteq> None then Automatic else Manual),
      vs_connection_state = Online,
      vs_order_update_id = (case rs_route_plan st of None \<Rightarrow> 0 | Some p \<Rightarrow> of_nat (length (rp_edge_ids p))),
      vs_last_node_id = map_option shown (rs_current_node_id st),
      vs_last_edge_id = map_option shown (rs_current_edge_id st),
      vs_order_id = map_option (\<lambda>p. shown (rp_goal_node_id p)) (rs_route_plan st),
      vs_driving_state = Some (if rs_progress_state st = FollowingRoute then ''DRIVING'' else ''STOPPED''),
      vs_paused = (rs_progress_state st = Waiting \<or> rs_progress_state st = Blocked),
      vs_battery_state = \<lparr>ba_charge = None, ba_charging = False\<rparr>,
      vs_reservation_states = [], vs_action_states = [],
      vs_errors = (if rs_pending_claim_ids st \<noteq> [] then [''pending_claims''] else []),
      vs_information = (if rs_pending_claim_ids st \<noteq> [] then [''claims awaiting arbitration''] else [])\<rparr>"

definition target_state :: "(uuid \<Rightarrow> string) \<Rightarrow> string \<Rightarrow> claim_target \<Rightarrow> reservation_state" where
  "target_state shown state t =
     \<lparr>re_target_id = shown (ct_resource_id t), re_target_kind = claim_target_kind_string (ct_kind t), re_state = state\<rparr>"

definition lease_step :: "(uuid \<Rightarrow> string) \<Rightarrow> claim_manager \<Rightarrow> vda_state \<Rightarrow> lease_id \<Rightarrow> vda_state" where
  "lease_step shown m s i =
     (case find_lease m i of
        None \<Rightarrow> s\<lparr>vs_errors := vs_errors s @ [''missing_lease'']\<rparr>
      | Some l \<Rightarrow>
          s\<lparr>vs_reservation_states := vs_reservation_states s @ map (target_state shown ''ACTIVE'') (le_targets l)\<rparr>)"

definition pending_step :: "(uuid \<Rightarrow> string) \<Rightarrow> claim_manager \<Rightarrow> vda_state \<Rightarrow> claim_id \<Rightarrow> vda_state" where
  "pending_step shown m s i =
     (case find_request m i of
        None \<Rightarrow> s
      | Some r \<Rightarrow>
          s\<lparr>vs_reservation_states := vs_reservation_states s @ map (target_state shown ''PENDING'') (cr_targets r)\<rparr>)"

definition map_robot_state_with_claims ::
  "(uuid \<Rightarrow> string) \<Rightarrow> robot_state \<Rightarrow> claim_manager \<Rightarrow> vda_state"
where
  "map_robot_state_with_claims shown st m =
     (let s = map_robot_state shown st;
          s = (if rs_active_lease_ids st \<noteq> []
               then s\<lparr>vs_action_states := vs_action_states s @ [''holding_leases'']\<rparr> else s);
          s = foldl (lease_step shown m) s (rs_active_lease_ids st);
          s = foldl (pending_step shown m) s (rs_pending_claim_ids st)
      in case rs_hold_reason st of
           None \<Rightarrow> s | Some reason \<Rightarrow> s\<lparr>vs_action_states := vs_action_states s @ [reason]\<rparr>)"

section \<open>Connections, factsheets, actions\<close>

record vda_connection =
  cn_interface_name :: string
  cn_manufacturer :: string
  cn_serial_number :: string
  cn_version :: string
  cn_connection_id :: "string option"
  cn_status :: connection_state
  cn_timestamp_ms :: "u64 option"

record type_specification =
  ty_max_speed :: "f64 option"
  ty_max_payload :: "f64 option"

record factsheet =
  fa_manufacturer :: string
  fa_serial_number :: string
  fa_protocol_version :: string
  fa_agv_class :: "string option"
  fa_software_version :: "string option"
  fa_type_specification :: type_specification
  fa_supported_actions :: "string list"

definition factsheet_new :: factsheet where
  "factsheet_new =
     \<lparr>fa_manufacturer = [], fa_serial_number = [], fa_protocol_version = ''3.0.0'', fa_agv_class = None,
      fa_software_version = None, fa_type_specification = \<lparr>ty_max_speed = None, ty_max_payload = None\<rparr>,
      fa_supported_actions = []\<rparr>"

datatype action_blocking_type = NoBlocking | Soft | Hard
datatype action_status = Accepted | Rejected | Running | Finished | ActionFailed

record instant_action =
  ia_action_id :: string
  ia_action_type :: string
  ia_blocking_type :: action_blocking_type
  ia_description :: "string option"
  ia_parameters :: "(string \<times> string) list"

record vda_response =
  vr_action_id :: string
  vr_status :: action_status
  vr_description :: "string option"
  vr_result_code :: "string option"

definition connection_from_factsheet :: "factsheet \<Rightarrow> vda_connection" where
  "connection_from_factsheet f =
     \<lparr>cn_interface_name = [], cn_manufacturer = fa_manufacturer f, cn_serial_number = fa_serial_number f,
      cn_version = fa_protocol_version f, cn_connection_id = None, cn_status = Online, cn_timestamp_ms = None\<rparr>"

definition response_for_action ::
  "instant_action \<Rightarrow> action_status \<Rightarrow> string option \<Rightarrow> string option \<Rightarrow> vda_response"
where
  "response_for_action action status description result_code =
     \<lparr>vr_action_id = ia_action_id action, vr_status = status, vr_description = description,
      vr_result_code = result_code\<rparr>"

end
