(* ===== verification/Store.thy ===== *)
theory Store
  imports Identity Vda
begin

text \<open>
  The state file (\<open>persist.rs\<close>): paths as the standard library takes them apart, a file system of
  located files with their permission bits, and \<open>load\<close>, \<open>write_atomic\<close> and \<open>flush\<close> on it. An operation
  yields every state the disk passes through, so that a crash at any moment is covered. What the
  operating system answers is a parameter; directories, links and other writers are not modelled.
\<close>

section \<open>Paths\<close>

datatype component = RootDir | CurDir | ParentDir | Normal string

type_synonym path = "component list"

fun split_slash :: "string \<Rightarrow> string list" where
  "split_slash [] = [[]]"
| "split_slash (c # cs) =
     (if c = CHR ''/'' then [] # split_slash cs else (c # hd (split_slash cs)) # tl (split_slash cs))"

definition segment_part :: "string \<Rightarrow> component option" where
  "segment_part s =
     (if s = [] \<or> s = ''.'' then None else Some (if s = ''..'' then ParentDir else Normal s))"

text \<open>\<open>Path::components\<close>: a dot counts in front only, empty segments never.\<close>

definition components :: "string \<Rightarrow> path" where
  "components p =
     (if p \<noteq> [] \<and> hd p = CHR ''/'' then [RootDir] else if hd (split_slash p) = ''.'' then [CurDir] else [])
     @ List.map_filter segment_part (split_slash p)"

definition parent :: "path \<Rightarrow> path option" where
  "parent p = (if p = [] \<or> last p = RootDir then None else Some (butlast p))"

definition file_name :: "path \<Rightarrow> string option" where
  "file_name p = (if p = [] then None else case last p of Normal s \<Rightarrow> Some s | _ \<Rightarrow> None)"

text \<open>Where a path leads: the working directory named by a dot adds nothing.\<close>

definition locate :: "path \<Rightarrow> path" where
  "locate p = filter (\<lambda>c. c \<noteq> CurDir) p"

section \<open>Files\<close>

record disk_file =
  fl_bytes :: string
  fl_mode :: nat

type_synonym fs = "path \<Rightarrow> disk_file option"

datatype io_error = NotFoundIo | InvalidData string | InvalidInput msg | OtherIo string

text \<open>
  What the system does to one call: the error an operation meets, how much of a write arrives before
  its error, the bits a new file gets, and whether permission bits exist at all.
\<close>

record io_env =
  io_read :: "io_error option"
  io_open :: "io_error option"
  io_write :: "io_error option"
  io_written :: nat
  io_chmod :: "io_error option"
  io_rename :: "io_error option"
  io_unlink :: "io_error option"
  io_new_mode :: nat
  io_unix :: bool
  io_pid :: nat

text \<open>An operation yields the states it passes through, in order, and its result.\<close>

type_synonym io_op = "fs \<Rightarrow> fs list \<times> (io_error + unit)"

definition on_disk :: "io_error option \<Rightarrow> io_op \<Rightarrow> io_op" where
  "on_disk failure f fs = (case failure of Some e \<Rightarrow> ([], Inl e) | None \<Rightarrow> f fs)"

definition at_file :: "path \<Rightarrow> (disk_file \<Rightarrow> fs) \<Rightarrow> io_op" where
  "at_file p f fs = (case fs p of None \<Rightarrow> ([], Inl NotFoundIo) | Some x \<Rightarrow> ([f x], Inr ()))"

definition io_then :: "io_op \<Rightarrow> io_op \<Rightarrow> io_op" where
  \<comment> \<open>the operator \<open>?\<close>\<close>
  "io_then f g fs =
     (case f fs of
        (ts, Inl e) \<Rightarrow> (ts, Inl e)
      | (ts, Inr u) \<Rightarrow> (case g (last (fs # ts)) of (us, r) \<Rightarrow> (ts @ us, r)))"

definition fs_read :: "io_env \<Rightarrow> fs \<Rightarrow> path \<Rightarrow> io_error + string" where
  "fs_read io fs p =
     (case io_read io of
        Some e \<Rightarrow> Inl e
      | None \<Rightarrow> (case fs p of None \<Rightarrow> Inl NotFoundIo | Some x \<Rightarrow> Inr (fl_bytes x)))"

text \<open>\<open>fs::write\<close> creates the file or empties it, keeping its bits, and then fills it.\<close>

definition emptied :: "io_env \<Rightarrow> disk_file option \<Rightarrow> disk_file" where
  "emptied io x =
     (case x of None \<Rightarrow> \<lparr>fl_bytes = [], fl_mode = io_new_mode io\<rparr> | Some x \<Rightarrow> x\<lparr>fl_bytes := []\<rparr>)"

definition fs_write :: "io_env \<Rightarrow> path \<Rightarrow> string \<Rightarrow> io_op" where
  "fs_write io p bytes =
     on_disk (io_open io) (\<lambda>fs.
       let n = (case io_write io of None \<Rightarrow> length bytes | Some e \<Rightarrow> min (io_written io) (length bytes)) in
       (map (\<lambda>k. fs(p \<mapsto> (emptied io (fs p))\<lparr>fl_bytes := take k bytes\<rparr>)) [0..<Suc n],
        case io_write io of None \<Rightarrow> Inr () | Some e \<Rightarrow> Inl e))"

definition owner_only :: nat where "owner_only = 8 * 8 * 6"

definition set_permissions :: "io_env \<Rightarrow> path \<Rightarrow> nat \<Rightarrow> io_op" where
  "set_permissions io p bits = on_disk (io_chmod io) (\<lambda>fs. at_file p (\<lambda>x. fs(p \<mapsto> x\<lparr>fl_mode := bits\<rparr>)) fs)"

definition fs_rename :: "io_env \<Rightarrow> path \<Rightarrow> path \<Rightarrow> io_op" where
  "fs_rename io p q = on_disk (io_rename io) (\<lambda>fs. at_file p (\<lambda>x. (fs(p := None))(q \<mapsto> x)) fs)"

definition fs_remove :: "io_env \<Rightarrow> path \<Rightarrow> io_op" where
  "fs_remove io p = on_disk (io_unlink io) (\<lambda>fs. at_file p (\<lambda>x. fs(p := None)) fs)"

section \<open>Loading and saving\<close>

definition load ::
  "io_env \<Rightarrow> (string \<Rightarrow> string + co_snapshot) \<Rightarrow> path \<Rightarrow> fs \<Rightarrow> io_error + co_snapshot option"
where
  "load io decode p fs =
     (case fs_read io fs (locate p) of
        Inr bytes \<Rightarrow> (case decode bytes of Inl e \<Rightarrow> Inl (InvalidData e) | Inr s \<Rightarrow> Inr (Some s))
      | Inl NotFoundIo \<Rightarrow> Inr None
      | Inl e \<Rightarrow> Inl e)"

definition restrict_permissions :: "io_env \<Rightarrow> path \<Rightarrow> io_op" where
  "restrict_permissions io p fs = (if io_unix io then set_permissions io p owner_only fs else ([], Inr ()))"

definition state_dir :: "path \<Rightarrow> path" where
  "state_dir p = (case parent p of None \<Rightarrow> [CurDir] | Some d \<Rightarrow> if d = [] then [CurDir] else d)"

definition tmp_path :: "io_env \<Rightarrow> path \<Rightarrow> string \<Rightarrow> path" where
  "tmp_path io p name = state_dir p @ [Normal (''.'' @ name @ ''.tmp.'' @ nat_string (io_pid io))]"

definition rename_or_clean :: "io_env \<Rightarrow> path \<Rightarrow> path \<Rightarrow> io_op" where
  "rename_or_clean io tmp p fs =
     (case fs_rename io tmp p fs of
        (ts, Inr u) \<Rightarrow> (ts, Inr u)
      | (ts, Inl e) \<Rightarrow> (ts @ fst (fs_remove io tmp (last (fs # ts))), Inl e))"

definition write_atomic ::
  "io_env \<Rightarrow> (co_snapshot \<Rightarrow> string + string) \<Rightarrow> path \<Rightarrow> co_snapshot \<Rightarrow> io_op"
where
  "write_atomic io encode p s fs =
     (case encode s of
        Inl e \<Rightarrow> ([], Inl (InvalidData e))
      | Inr json \<Rightarrow>
     (case file_name p of
        None \<Rightarrow> ([], Inl (InvalidInput (Lit ''state path has no file name'')))
      | Some name \<Rightarrow>
          (let tmp = locate (tmp_path io p name) in
           io_then (fs_write io tmp json)
             (io_then (restrict_permissions io tmp) (rename_or_clean io tmp (locate p))) fs)))"

definition flush ::
  "io_env \<Rightarrow> (co_snapshot \<Rightarrow> string + string) \<Rightarrow> coordinator \<Rightarrow> path \<Rightarrow> io_op"
where
  "flush io encode c p = write_atomic io encode p (snapshot c)"

section \<open>The temporary file stands beside the target\<close>

lemma last_locate: "p \<noteq> [] \<Longrightarrow> last p \<noteq> CurDir \<Longrightarrow> locate p \<noteq> [] \<and> last (locate p) = last p"
  by (induction p rule: rev_induct) (simp_all add: locate_def)

lemma file_nameD: "file_name p = Some n \<Longrightarrow> p \<noteq> [] \<and> last p = Normal n"
  by (auto simp: file_name_def split: if_splits component.splits)

lemma tmp_apart:
  assumes "file_name p = Some n"
  shows "locate (tmp_path io p n) \<noteq> locate p"
proof -
  let ?t = "''.'' @ n @ ''.tmp.'' @ nat_string (io_pid io)"
  have "last (locate p) = Normal n" using last_locate [of p] file_nameD [OF assms] by simp
  moreover have "last (locate (tmp_path io p n)) = Normal ?t" by (simp add: tmp_path_def locate_def)
  moreover have "?t \<noteq> n" using arg_cong [of ?t n length] by auto
  ultimately show ?thesis by (metis component.inject)
qed

section \<open>What a save passes through\<close>

text \<open>
  A state on the way differs from the first at the temporary file only; at the end the target holds
  the whole text and the temporary file is gone.
\<close>

definition beside :: "fs \<Rightarrow> path \<Rightarrow> fs \<Rightarrow> bool" where
  "beside fs tmp t = (\<exists>x. t = fs(tmp := x))"

definition replaced :: "io_env \<Rightarrow> fs \<Rightarrow> path \<Rightarrow> path \<Rightarrow> string \<Rightarrow> fs \<Rightarrow> bool" where
  "replaced io fs tmp p json t =
     (\<exists>x. t = fs(tmp := None, p \<mapsto> x) \<and> fl_bytes x = json \<and> (io_unix io \<longrightarrow> fl_mode x = owner_only))"

lemma beside_refl: "beside fs tmp fs"
  unfolding beside_def by (metis fun_upd_triv)

lemma write_passes:
  assumes "fs_write io tmp json fs = (ts, r)"
  shows "\<forall>t \<in> set ts. beside fs tmp t"
    and "r = Inr u \<Longrightarrow> \<exists>x. last (fs # ts) = fs(tmp \<mapsto> x) \<and> fl_bytes x = json"
  using assms
  by (auto simp: fs_write_def on_disk_def beside_def Let_def split: option.splits)

lemma restrict_passes:
  assumes "restrict_permissions io tmp (fs(tmp \<mapsto> x)) = (ts, r)"
  shows "\<forall>t \<in> set ts. beside fs tmp t"
    and "r = Inr u \<Longrightarrow> \<exists>y. last (fs(tmp \<mapsto> x) # ts) = fs(tmp \<mapsto> y) \<and> fl_bytes y = fl_bytes x
      \<and> (io_unix io \<longrightarrow> fl_mode y = owner_only)"
  using assms
  by (auto simp: restrict_permissions_def set_permissions_def at_file_def on_disk_def beside_def
      split: option.splits if_splits)

lemma rename_passes:
  assumes "rename_or_clean io tmp p (fs(tmp \<mapsto> x)) = (ts, r)"
  shows "r = Inl e \<Longrightarrow> \<forall>t \<in> set ts. beside fs tmp t"
    and "r = Inr u \<Longrightarrow> ts = [fs(tmp := None, p \<mapsto> x)]"
  using assms
  by (auto simp: rename_or_clean_def fs_rename_def fs_remove_def at_file_def on_disk_def beside_def
      split: option.splits)

lemma io_then_Inl: "f fs = (ts, Inl e) \<Longrightarrow> io_then f g fs = (ts, Inl e)"
  by (simp add: io_then_def)

lemma io_then_Inr:
  "f fs = (ts, Inr u) \<Longrightarrow> last (fs # ts) = fs' \<Longrightarrow> g fs' = (us, r) \<Longrightarrow> io_then f g fs = (ts @ us, r)"
  by (simp only: io_then_def prod.case sum.case)

lemma saved:
  assumes "file_name p = Some n" "encode s = Inr json" "tmp = locate (tmp_path io p n)"
    and "write_atomic io encode p s fs = (ts, r)"
  shows "case r of
      Inl e \<Rightarrow> \<forall>t \<in> set ts. beside fs tmp t
    | Inr u \<Rightarrow> \<exists>us t. ts = us @ [t] \<and> (\<forall>u \<in> set us. beside fs tmp u) \<and> replaced io fs tmp (locate p) json t"
proof -
  let ?fill = "fs_write io tmp json" and ?narrow = "restrict_permissions io tmp"
  obtain ts1 r1 where 1: "fs_write io tmp json fs = (ts1, r1)" by fastforce
  note w = write_passes [OF 1]
  show ?thesis
  proof (cases r1)
    case (Inl e)
    with 1 have "io_then (fs_write io tmp json) g fs = (ts1, Inl e)" for g by (simp add: io_then_Inl)
    with assms have "ts = ts1" "r = Inl e" by (simp_all add: write_atomic_def)
    with w(1) show ?thesis by simp
  next
    case (Inr u)
    from w(2) [OF Inr] obtain x where x: "last (fs # ts1) = fs(tmp \<mapsto> x)" "fl_bytes x = json" by blast
    obtain ts2 r2 where 2: "restrict_permissions io tmp (fs(tmp \<mapsto> x)) = (ts2, r2)" by fastforce
    note c = restrict_passes [OF 2]
    show ?thesis
    proof (cases r2)
      case (Inl e)
      have "io_then ?narrow g (fs(tmp \<mapsto> x)) = (ts2, Inl e)" for g
        by (rule io_then_Inl [where f = ?narrow]) (simp add: 2 Inl)
      then have "io_then ?fill (io_then ?narrow g) fs = (ts1 @ ts2, Inl e)" for g
        using 1 \<open>r1 = Inr u\<close> x(1) by (intro io_then_Inr [where f = ?fill]) simp_all
      with assms have "ts = ts1 @ ts2" "r = Inl e" by (simp_all add: write_atomic_def)
      with w(1) c(1) show ?thesis by auto
    next
      case (Inr u')
      from c(2) [OF Inr] obtain y where y: "last (fs(tmp \<mapsto> x) # ts2) = fs(tmp \<mapsto> y)" "fl_bytes y = json"
          "io_unix io \<longrightarrow> fl_mode y = owner_only" using x(2) by auto
      obtain ts3 r3 where 3: "rename_or_clean io tmp (locate p) (fs(tmp \<mapsto> y)) = (ts3, r3)" by fastforce
      have "io_then ?narrow (rename_or_clean io tmp (locate p)) (fs(tmp \<mapsto> x)) = (ts2 @ ts3, r3)"
        using 2 Inr y(1) 3 by (intro io_then_Inr [where f = ?narrow]) simp_all
      then have "io_then ?fill (io_then ?narrow (rename_or_clean io tmp (locate p))) fs = (ts1 @ ts2 @ ts3, r3)"
        using 1 \<open>r1 = Inr u\<close> x(1) by (intro io_then_Inr [where f = ?fill]) simp_all
      with assms have all: "ts = ts1 @ ts2 @ ts3" "r = r3" by (simp_all add: write_atomic_def)
      show ?thesis
      proof (cases r3)
        case (Inl e)
        with all w(1) c(1) rename_passes(1) [OF 3] show ?thesis by auto
      next
        case (Inr u'')
        from rename_passes(2) [OF 3 Inr] have "ts3 = [fs(tmp := None, locate p \<mapsto> y)]" .
        moreover from y have "replaced io fs tmp (locate p) json (fs(tmp := None, locate p \<mapsto> y))"
          unfolding replaced_def by blast
        ultimately show ?thesis using all Inr w(1) c(1) by auto
      qed
    qed
  qed
qed

lemma save_refused:
  "file_name p = None \<or> isl (encode s) \<Longrightarrow> write_atomic io encode p s fs = (ts, r) \<Longrightarrow> ts = [] \<and> isl r"
  by (auto simp: write_atomic_def split: sum.splits option.splits)

definition save_temp :: "io_env \<Rightarrow> path \<Rightarrow> path" where
  "save_temp io p = locate (tmp_path io p (unwrap_or (file_name p) []))"

lemma save_states:
  assumes "write_atomic io encode p s fs = (ts, r)" "t \<in> set (fs # ts)"
  shows "beside fs (save_temp io p) t
    \<or> (\<exists>json. encode s = Inr json \<and> r = Inr () \<and> t = last (fs # ts) \<and> file_name p \<noteq> None
         \<and> replaced io fs (save_temp io p) (locate p) json t)"
proof (cases "file_name p = None \<or> isl (encode s)")
  case True
  from save_refused [OF this assms(1)] assms(2) show ?thesis by (simp add: beside_refl)
next
  case False
  then obtain n json where n: "file_name p = Some n" "encode s = Inr json" by (cases "encode s") auto
  from saved [OF n refl assms(1)] assms(2) n show ?thesis
    by (cases r) (auto simp: save_temp_def beside_refl)
qed

lemma save_done:
  assumes "write_atomic io encode p s fs = (ts, Inr u)"
  shows "\<exists>json. encode s = Inr json \<and> file_name p \<noteq> None
    \<and> replaced io fs (save_temp io p) (locate p) json (last (fs # ts))"
proof (cases "file_name p = None \<or> isl (encode s)")
  case True
  from save_refused [OF this assms] show ?thesis by simp
next
  case False
  then obtain n json where n: "file_name p = Some n" "encode s = Inr json" by (cases "encode s") auto
  from saved [OF n refl assms] n show ?thesis by (auto simp: save_temp_def)
qed

lemma save_atomic:
  assumes "write_atomic io encode p s fs = (ts, r)" and "t \<in> set (fs # ts)"
  shows "(t (locate p) = fs (locate p)
          \<or> r = Inr () \<and> t = last ts
            \<and> (\<exists>x. t (locate p) = Some x \<and> encode s = Inr (fl_bytes x) \<and> (io_unix io \<longrightarrow> fl_mode x = owner_only)))
    \<and> (\<forall>q. q \<noteq> locate p \<and> q \<noteq> save_temp io p \<longrightarrow> t q = fs q)
    \<and> (r = Inr () \<longrightarrow>
         (\<exists>x. last ts (locate p) = Some x \<and> encode s = Inr (fl_bytes x)) \<and> last ts (save_temp io p) = None)"
    (is "?old_or_new \<and> ?others \<and> ?done")
proof (cases "file_name p")
  case None
  with save_refused [OF _ assms(1)] assms(2) show ?thesis by auto
next
  case (Some n)
  then have apart: "save_temp io p \<noteq> locate p" by (simp add: save_temp_def tmp_apart)
  have made: "\<exists>json. encode s = Inr json \<and> replaced io fs (save_temp io p) (locate p) json (last ts)" if "r = Inr ()"
    using save_done [of io encode p s fs ts "()"] assms(1) that apart saved [OF Some _ refl assms(1)]
    by (auto simp: save_temp_def split: if_splits)
  have ?done using made apart by (auto simp: replaced_def)
  moreover have "?old_or_new \<and> ?others"
    using save_states [OF assms]
  proof
    assume "beside fs (save_temp io p) t"
    with apart show ?thesis by (auto simp: beside_def)
  next
    assume "\<exists>json. encode s = Inr json \<and> r = Inr () \<and> t = last (fs # ts) \<and> file_name p \<noteq> None
      \<and> replaced io fs (save_temp io p) (locate p) json t"
    then obtain json where j: "encode s = Inr json" "r = Inr ()" "t = last (fs # ts)"
      "replaced io fs (save_temp io p) (locate p) json t" by blast
    moreover from saved [OF Some j(1) refl assms(1)] j(2) have "ts \<noteq> []" by auto
    ultimately show ?thesis using apart by (auto simp: replaced_def)
  qed
  ultimately show ?thesis by blast
qed

text \<open>
  C18: a save is never seen half done. At every moment of it, whatever fails, the state file is what
  it was or the whole new text, readable by its owner alone; no other file than the temporary one
  beside it is touched; and it is new exactly when the save succeeds, the temporary file then gone.
\<close>

theorem never_half_written:
  assumes "write_atomic io encode p s fs = (ts, r)" and "t \<in> set (fs # ts)"
  shows "(t (locate p) = fs (locate p)
          \<or> r = Inr () \<and> t = last ts
            \<and> (\<exists>x. t (locate p) = Some x \<and> encode s = Inr (fl_bytes x) \<and> (io_unix io \<longrightarrow> fl_mode x = owner_only)))
    \<and> (\<forall>q. q \<noteq> locate p \<and> q \<noteq> save_temp io p \<longrightarrow> t q = fs q)
    \<and> (r = Inr () \<longrightarrow>
         (\<exists>x. last ts (locate p) = Some x \<and> encode s = Inr (fl_bytes x)) \<and> last ts (save_temp io p) = None)"
  by (rule save_atomic [OF assms])

section \<open>A restart\<close>

lemma load_cong: "fs (locate p) = fs' (locate p) \<Longrightarrow> load io decode p fs = load io decode p fs'"
  unfolding load_def by (cases "io_read io") (simp_all add: fs_read_def)

text \<open>
  What a flush writes a restart reads back. Killed at any moment of the flush, the next start
  loads the state saved before it or the state flushed; a flush that succeeds is loaded, and the core
  restored from it has the same snapshot, its counter of claim ids at least one, and lets in exactly
  the keys the stored verifiers accept. That the JSON text of this snapshot decodes back is assumed.
\<close>

theorem flush_restart:
  assumes "flush io encode c p fs = (ts, r)" and "t \<in> set (fs # ts)"
    and "\<And>json. encode (snapshot c) = Inr json \<Longrightarrow> decode json = Inr (snapshot c)"
    and "io_read io' = None"
  shows "(load io' decode p t = load io' decode p fs \<or> load io' decode p t = Inr (Some (snapshot c)))
    \<and> (r = Inr () \<longrightarrow> load io' decode p (last ts) = Inr (Some (snapshot c)))
    \<and> snapshot (restore pepper cfg (snapshot c) oix) =
        (snapshot c)\<lparr>cs_claims := (cm_snapshot (co_claims c))\<lparr>sn_next_id := max (cm_next_id (co_claims c)) 1\<rparr>\<rparr>
    \<and> fst (validate_key cx now (restore pepper cfg (snapshot c) oix) rid k) =
        (case map_of (co_keys c) rid of None \<Rightarrow> False | Some stored \<Rightarrow> verify_key (cx_pw_verify cx) stored k)"
proof -
  have read: "load io' decode p u = Inr (Some (snapshot c))"
    if "u (locate p) = Some x" "encode (snapshot c) = Inr (fl_bytes x)" for u x
    using that assms(3,4) by (simp add: load_def fs_read_def)
  note saved = save_atomic [OF assms(1,2) [unfolded flush_def]]
  from saved have "t (locate p) = fs (locate p) \<or> load io' decode p t = Inr (Some (snapshot c))" using read by blast
  then have "load io' decode p t = load io' decode p fs \<or> load io' decode p t = Inr (Some (snapshot c))"
    using load_cong [of t p fs] by blast
  moreover from saved have "r = Inr () \<longrightarrow> load io' decode p (last ts) = Inr (Some (snapshot c))" using read by blast
  ultimately show ?thesis using restart_exact by blast
qed

section \<open>One flush\<close>

text \<open>The working directory holds an older state file; the rename fails, and the next flush succeeds.\<close>

definition calm :: io_env where
  "calm = \<lparr>io_read = None, io_open = None, io_write = None, io_written = 0, io_chmod = None, io_rename = None,
     io_unlink = None, io_new_mode = 8 * 8 * 6 + 8 * 4 + 4, io_unix = True, io_pid = 7\<rparr>"

definition shelf :: fs where
  "shelf = [[Normal ''state''] \<mapsto> \<lparr>fl_bytes = ''old'', fl_mode = owner_only\<rparr>]"

definition shelf_tmp :: path where "shelf_tmp = [Normal ''.state.tmp.7'']"

lemma shelf_paths:
  "locate (components ''state'') = [Normal ''state'']" "save_temp calm (components ''state'') = shelf_tmp"
  "file_name (components ''state'') = Some ''state''"
  by (simp_all add: components_def segment_part_def List.map_filter_simps locate_def save_temp_def tmp_path_def
      state_dir_def parent_def file_name_def calm_def shelf_tmp_def nat_string.simps digit_char_def char_of_def bit_0)

lemma shelf_save:
  "encode s = Inr ''new'' \<Longrightarrow> \<exists>ts. write_atomic calm encode (components ''state'') s shelf = (ts, Inr ()) \<and> ts \<noteq> []"
  by (simp add: write_atomic_def shelf_paths io_then_def fs_write_def on_disk_def restrict_permissions_def
      set_permissions_def at_file_def rename_or_clean_def fs_rename_def calm_def upt_rec Let_def)

theorem never_half_written_witness:
  "\<exists>ts x. write_atomic calm (\<lambda>_. Inr ''new'') (components ''state'')
       (snapshot (co_default [] insecure_test_cost)) shelf = (ts, Inr ()) \<and> last ts [Normal ''state''] = Some x \<and> fl_bytes x = ''new'' \<and> last ts shelf_tmp = None"
proof -
  obtain ts where ts: "write_atomic calm (\<lambda>_. Inr ''new'') (components ''state'')
      (snapshot (co_default [] insecure_test_cost)) shelf = (ts, Inr ())"
    using shelf_save [of "\<lambda>_. Inr ''new''"] by blast
  from never_half_written [OF ts, of shelf] ts show ?thesis by (auto simp: shelf_paths)
qed

theorem flush_restart_witness:
  "\<exists>ts. flush calm (\<lambda>_. Inr ''new'') (co_default [] insecure_test_cost) (components ''state'') shelf = (ts, Inr ())
     \<and> load calm (\<lambda>_. Inr (snapshot (co_default [] insecure_test_cost))) (components ''state'') (last ts) =
         Inr (Some (snapshot (co_default [] insecure_test_cost)))"
proof -
  obtain ts where ts: "flush calm (\<lambda>_. Inr ''new'') (co_default [] insecure_test_cost) (components ''state'') shelf =
      (ts, Inr ())"
    unfolding flush_def using shelf_save [of "\<lambda>_. Inr ''new''"] by blast
  from flush_restart [OF ts, of shelf "\<lambda>_. Inr (snapshot (co_default [] insecure_test_cost))" calm] ts
  show ?thesis by (simp add: calm_def)
qed

end
