(* ===== verification/Daemon.thy ===== *)
theory Daemon
  imports Serving Store
begin

text \<open>
  The server (\<open>bin/syncbot.rs\<close>): the command line, the directory it loads, the environment it reads,
  the state file it restores from and flushes to. Logging, signals and the REST listener itself are
  not modelled; what the system and the crates answer is the record of the host.
\<close>

section \<open>The host\<close>

datatype bus_start = BusUp | BusFails string | BusPanics

record host =
  hs_args :: "string list"
  hs_var :: "string \<Rightarrow> string option"
  hs_load :: "string \<Rightarrow> string + workspace"
  hs_ho :: "uuid list \<Rightarrow> uuid list"
  hs_hm :: "(uuid \<times> nat) list \<Rightarrow> (uuid \<times> nat) list"
  hs_io :: io_env
  hs_decode :: "string \<Rightarrow> string + co_snapshot"
  hs_pepper :: string
  hs_kdf :: kdf_config
  hs_bus :: "string \<Rightarrow> bus_start"
  hs_bind :: "string \<Rightarrow> string option"

text \<open>The arguments after the program's name: \<open>[--no-map | workspace_dir] [bind_addr]\<close>.\<close>

definition parse_args :: "string list \<Rightarrow> string option \<times> string" where
  "parse_args args =
     (let no_map = (args \<noteq> [] \<and> hd args = ''--no-map'');
          args = (if no_map then tl args else args);
          (dir, args) =
            (if no_map then (None, args)
             else case args of [] \<Rightarrow> (Some ''examples/fixed'', []) | dir # rest \<Rightarrow> (Some dir, rest))
      in (dir, case args of [] \<Rightarrow> ''0.0.0.0:8080'' | addr # rest \<Rightarrow> addr))"

definition load_index :: "host \<Rightarrow> string \<Rightarrow> unit + index" where
  "load_index hs dir =
     (case hs_load hs dir of
        Inl e \<Rightarrow> Inl ()
      | Inr w \<Rightarrow>
          (let ix = rebuild (hs_ho hs) w;
               issues = validation_issues (hs_ho hs) (hs_hm hs) ix;
               errors = length (filter (\<lambda>i. vi_severity i = Error) issues)
           in if issues \<noteq> [] \<and> 0 < errors then Inl () else Inr ix))"

definition new_coordinator :: "host \<Rightarrow> index option \<Rightarrow> coordinator" where
  "new_coordinator hs oix =
     (case oix of
        Some ix \<Rightarrow> co_with_index (hs_pepper hs) (hs_kdf hs) ix | None \<Rightarrow> co_default (hs_pepper hs) (hs_kdf hs))"

text \<open>\<open>print_zones\<close>: the lines it prints, \<open>None\<close> when the walk down does not end.\<close>

definition zone_line :: "zone \<Rightarrow> msg" where
  "zone_line z =
     (let policy = unwrap_or (map_of (z_properties z) ''traffic.policy'') ''-'' in
      case map_of (z_properties z) numeric_id_property of
        Some n \<Rightarrow> Format ''  {:<20} numeric_id={:<6} policy={:<10} uuid={}''
                    [AStr (z_name z), AStr n, AStr policy, AUuid (z_id z)]
      | None \<Rightarrow> Format ''  {:<20} (no numeric id)  policy={:<10} uuid={}''
                  [AStr (z_name z), AStr policy, AUuid (z_id z)])"

definition print_zones :: "index \<Rightarrow> msg list option" where
  "print_zones ix =
     (case root_zone_id ix of
        None \<Rightarrow> Some [Lit ''(workspace has no root zone)'']
      | Some rid \<Rightarrow>
          map_option (\<lambda>below.
            let zones = rid # map z_id below in
            Format ''zones ({}):'' [AU64 (of_nat (length zones))]
            # map zone_line (List.map_filter (ix_zone ix) zones))
          (descendant_zones ix rid))"

section \<open>Starting\<close>

definition state_file :: "host \<Rightarrow> string option" where
  "state_file hs = (case hs_var hs ''SYNCBOT_STATE'' of Some s \<Rightarrow> if s = [] then None else Some s | None \<Rightarrow> None)"

definition operator_key_var :: "host \<Rightarrow> string option" where
  "operator_key_var hs =
     (case hs_var hs ''SYNCBOT_ADMIN_KEY'' of Some s \<Rightarrow> if s = [] then None else Some s | None \<Rightarrow> None)"

definition default_key_var :: "host \<Rightarrow> bool" where
  "default_key_var hs =
     (case hs_var hs ''SYNCBOT_ALLOW_DEFAULT_KEY'' of
        None \<Rightarrow> False | Some v \<Rightarrow> to_ascii_lowercase (str_trim v) \<in> {''1'', ''true'', ''yes''})"

definition core_identity :: string where "core_identity = ''ares-core''"

definition restored :: "host \<Rightarrow> fs \<Rightarrow> index option \<Rightarrow> coordinator" where
  "restored hs fs oix =
     (case state_file hs of
        None \<Rightarrow> new_coordinator hs oix
      | Some p \<Rightarrow>
     (case load (hs_io hs) (hs_decode hs) (components p) fs of
        Inr (Some s) \<Rightarrow> restore (hs_pepper hs) (hs_kdf hs) s oix
      | Inr None \<Rightarrow> new_coordinator hs oix
      | Inl e \<Rightarrow> new_coordinator hs oix))"

datatype boot_failure = MapRefused | BadOperatorKey | BusDown msg | NoListener string

record daemon =
  dm_state :: serve_state
  dm_file :: "string option"
  dm_dir :: "string option"
  dm_addr :: string

datatype booted = Failed boot_failure | Serving daemon

definition start_bus :: "host \<Rightarrow> boot_failure option" where
  "start_bus hs =
     (case hs_bus hs (unwrap_or (hs_var hs ''SYNCBOT_PEERBUS_IDENTITY'') core_identity) of
        BusUp \<Rightarrow> None
      | BusFails err \<Rightarrow> Some (BusDown (Lit err))
      | BusPanics \<Rightarrow> Some (BusDown (Lit ''peerbus startup thread panicked'')))"

definition open_map :: "host \<Rightarrow> string option \<Rightarrow> unit + index option" where
  "open_map hs dir = (case dir of None \<Rightarrow> Inr None | Some d \<Rightarrow> map_sum id Some (load_index hs d))"

definition start_lines :: "index option \<Rightarrow> msg list option" where
  "start_lines oix =
     (case oix of
        None \<Rightarrow> Some [Lit ''no workspace loaded; waiting for one to be pushed''] | Some ix \<Rightarrow> print_zones ix)"

definition configured :: "host \<Rightarrow> crates \<Rightarrow> coordinator \<Rightarrow> key_error + serve_state" where
  "configured hs xt c =
     with_admin_key xt (with_default_key_allowed (serve_new c) (default_key_var hs)) (operator_key_var hs)"

text \<open>\<open>main\<close> up to the listener: the lines printed, and how it ends.\<close>

definition boot :: "host \<Rightarrow> crates \<Rightarrow> fs \<Rightarrow> (msg list \<times> booted) option" where
  "boot hs xt fs =
     (let (dir, addr) = parse_args (hs_args hs) in
      case open_map hs dir of
        Inl u \<Rightarrow> Some ([], Failed MapRefused)
      | Inr oix \<Rightarrow>
     (case start_lines oix of
        None \<Rightarrow> None
      | Some lines \<Rightarrow>
          Some (lines,
            case configured hs xt (restored hs fs oix) of
              Inl e \<Rightarrow> Failed BadOperatorKey
            | Inr sv \<Rightarrow>
           (case start_bus hs of
              Some failure \<Rightarrow> Failed failure
            | None \<Rightarrow>
           (case hs_bind hs addr of
              Some err \<Rightarrow> Failed (NoListener err)
            | None \<Rightarrow> Serving \<lparr>dm_state = sv, dm_file = state_file hs, dm_dir = dir, dm_addr = addr\<rparr>)))))"

section \<open>What a started server is\<close>

definition host_ok :: "host \<Rightarrow> bool" where
  "host_ok hs = (hash_order (hs_ho hs) \<and> (\<forall>dir w. hs_load hs dir = Inr w \<longrightarrow> find_zone_ok w))"

lemma loaded_accepted:
  assumes "load_index hs dir = Inr ix" "host_ok hs"
  shows "accepted_map ix"
proof -
  obtain w where w: "hs_load hs dir = Inr w" "ix = rebuild (hs_ho hs) w"
      "filter (\<lambda>i. vi_severity i = Error) (validation_issues (hs_ho hs) (hs_hm hs) ix) = []"
    using assms(1) by (auto simp: load_index_def Let_def split: sum.splits if_splits)
  then have "issue_messages Error (validation_issues (hs_ho hs) (hs_hm hs) ix) = []" by (simp add: issue_messages_def)
  with w(1,2) assms(2) show ?thesis unfolding accepted_map_def host_ok_def by blast
qed

lemma zones_printed: "accepted_map ix \<Longrightarrow> print_zones ix \<noteq> None"
  using walk_ends [OF accepted_index_ok, of ix] by (auto simp: print_zones_def root_zone_id_def)

lemma restored_index:
  "co_index (restored hs fs oix) = oix" "cm_index (co_claims (restored hs fs oix)) = oix"
  by (auto simp: restored_def new_coordinator_def restore_def cm_restore_def co_default_def co_with_index_def cm_new_def
      cm_with_index_def split: option.split sum.split)

lemma configured_fields:
  assumes "configured hs xt c = Inr sv"
  shows "sv_coord sv = c" "sv_allow_default_key sv = default_key_var hs" "sv_events sv = []"
    and "sv_admin_key sv = None \<longleftrightarrow> operator_key_var hs = None"
  using assms
  by (auto simp: configured_def with_admin_key_def with_default_key_allowed_def serve_new_def
      split: option.splits sum.splits)

lemma open_map_cases:
  assumes "open_map hs dir = Inr oix" "host_ok hs"
  shows "oix = None \<longleftrightarrow> dir = None" and "case oix of None \<Rightarrow> True | Some ix \<Rightarrow> accepted_map ix"
proof -
  show "oix = None \<longleftrightarrow> dir = None"
    using assms(1) by (cases dir; cases "load_index hs (the dir)") (auto simp: open_map_def)
  show "case oix of None \<Rightarrow> True | Some ix \<Rightarrow> accepted_map ix"
    using assms loaded_accepted [of hs "the dir"]
    by (cases dir; cases "load_index hs (the dir)") (auto simp: open_map_def)
qed

text \<open>What the operator asked for: the command line read as its usage line, and the environment.\<close>

definition command :: "string list \<Rightarrow> string option \<Rightarrow> string \<Rightarrow> bool" where
  "command args dir addr =
     (\<exists>named. (dir = None \<and> args = ''--no-map'' # named
               \<or> dir = Some ''examples/fixed'' \<and> args = [] \<and> named = []
               \<or> (\<exists>d. d \<noteq> ''--no-map'' \<and> dir = Some d \<and> args = d # named))
        \<and> (named = [] \<and> addr = ''0.0.0.0:8080'' \<or> (\<exists>more. named = addr # more)))"

definition names_map :: "host \<Rightarrow> string option \<Rightarrow> index option \<Rightarrow> bool" where
  "names_map hs dir oix =
     (case dir of
        None \<Rightarrow> oix = None
      | Some d \<Rightarrow>
          \<exists>w. hs_load hs d = Inr w \<and> oix = Some (rebuild (hs_ho hs) w)
            \<and> (\<forall>i \<in> set (validation_issues (hs_ho hs) (hs_hm hs) (rebuild (hs_ho hs) w)). vi_severity i \<noteq> Error))"

definition names_operator :: "host \<Rightarrow> crates \<Rightarrow> key option \<Rightarrow> bool" where
  "names_operator hs xt k =
     (if hs_var hs ''SYNCBOT_ADMIN_KEY'' \<in> {None, Some []} then k = None
      else \<exists>key. parse_key xt (the (hs_var hs ''SYNCBOT_ADMIN_KEY'')) = Inr key \<and> k = Some key)"

definition names_bus :: "host \<Rightarrow> string" where
  "names_bus hs = (case hs_var hs ''SYNCBOT_PEERBUS_IDENTITY'' of None \<Rightarrow> ''ares-core'' | Some i \<Rightarrow> i)"

text \<open>A state file is remembered when it is named, there, and decodes; otherwise the core starts empty.\<close>

definition remembers :: "host \<Rightarrow> fs \<Rightarrow> coordinator \<Rightarrow> bool" where
  "remembers hs fs c =
     (case (case hs_var hs ''SYNCBOT_STATE'' of
              None \<Rightarrow> Inr None
            | Some p \<Rightarrow> if p = [] then Inr None else load (hs_io hs) (hs_decode hs) (components p) fs) of
        Inr (Some s) \<Rightarrow>
          co_robots c = cs_robot_states s \<and> co_keys c = cs_robot_keys s \<and> co_uuids c = cs_robot_id_by_uuid s
          \<and> co_alive c = cs_robot_alive s \<and> cm_requests (co_claims c) = sn_active_requests (cs_claims s)
          \<and> cm_leases (co_claims c) = sn_active_leases (cs_claims s)
          \<and> cm_released (co_claims c) = sn_released_leases (cs_claims s)
      | _ \<Rightarrow>
          co_robots c = [] \<and> co_keys c = [] \<and> co_uuids c = [] \<and> co_alive c = [] \<and> cm_requests (co_claims c) = []
          \<and> cm_leases (co_claims c) = [] \<and> cm_released (co_claims c) = [])"

lemma parse_command:
  assumes "command args dir addr"
  shows "parse_args args = (dir, addr)"
  using assms by (auto simp: command_def parse_args_def)

lemma named_map: "open_map hs dir = Inr oix \<longleftrightarrow> names_map hs dir oix"
  by (cases dir; cases "hs_load hs (the dir)")
    (auto simp: open_map_def load_index_def names_map_def Let_def filter_empty_conv)

lemma configured_operator:
  "configured hs xt c = Inr sv \<Longrightarrow> names_operator hs xt (sv_admin_key sv)"
  "(\<exists>sv. configured hs xt c = Inr sv) \<longleftrightarrow> (\<exists>k. names_operator hs xt k)"
  by (auto simp: configured_def with_admin_key_def operator_key_var_def names_operator_def
      split: option.splits sum.splits if_splits)

lemma bus_named: "start_bus hs = None \<longleftrightarrow> hs_bus hs (names_bus hs) = BusUp"
  by (auto simp: start_bus_def names_bus_def core_identity_def unwrap_or_def split: bus_start.splits option.splits)

lemma restored_remembers: "remembers hs fs (restored hs fs oix)"
  by (auto simp: remembers_def restored_def state_file_def restore_def cm_restore_def new_coordinator_def
      co_default_def co_with_index_def cm_new_def cm_with_index_def split: option.splits sum.splits)

text \<open>
  C19: the server always gets past its start or stops with a reason. It serves exactly when the
  directory the command line names loads and validates without an error, or none is named; the operator's
  key, where one is set, parses; the bus starts under the name asked for; and the address binds. Then the
  map is that directory's, the operator's key and the default-key switch are the environment's, no event
  is on record, and its robots, keys and claims are those of the state file named, none otherwise.
\<close>

theorem boot_serves:
  assumes "host_ok hs" "command (hs_args hs) dir addr"
  shows "\<exists>lines r. boot hs xt fs = Some (lines, r)
    \<and> ((\<exists>d. r = Serving d) \<longleftrightarrow>
         (\<exists>oix. names_map hs dir oix) \<and> (\<exists>k. names_operator hs xt k)
         \<and> hs_bus hs (names_bus hs) = BusUp \<and> hs_bind hs addr = None)
    \<and> (\<forall>d. r = Serving d \<longrightarrow>
        names_map hs dir (co_index (sv_coord (dm_state d))) \<and> served_ok (dm_state d)
        \<and> names_operator hs xt (sv_admin_key (dm_state d))
        \<and> (sv_allow_default_key (dm_state d) \<longleftrightarrow>
            (\<exists>v. hs_var hs ''SYNCBOT_ALLOW_DEFAULT_KEY'' = Some v
               \<and> to_ascii_lowercase (str_trim v) \<in> {''1'', ''true'', ''yes''}))
        \<and> sv_events (dm_state d) = [] \<and> remembers hs fs (sv_coord (dm_state d)) \<and> dm_addr d = addr)"
proof (cases "open_map hs dir")
  case (Inl u)
  then have "\<nexists>oix. names_map hs dir oix" using named_map [of hs dir] by auto
  with Inl show ?thesis by (simp add: boot_def parse_command [OF assms(2)])
next
  case (Inr oix)
  note ok = open_map_cases [OF Inr assms(1)]
  have named: "names_map hs dir oix" using Inr named_map by blast
  obtain lines where lines: "start_lines oix = Some lines"
    using ok(2) zones_printed by (cases oix) (auto simp: start_lines_def)
  have b: "boot hs xt fs = Some (lines,
      case configured hs xt (restored hs fs oix) of
        Inl e \<Rightarrow> Failed BadOperatorKey
      | Inr sv \<Rightarrow>
     (case start_bus hs of
        Some failure \<Rightarrow> Failed failure
      | None \<Rightarrow>
     (case hs_bind hs addr of
        Some err \<Rightarrow> Failed (NoListener err)
      | None \<Rightarrow> Serving \<lparr>dm_state = sv, dm_file = state_file hs, dm_dir = dir, dm_addr = addr\<rparr>)))"
    using Inr lines by (simp add: boot_def parse_command [OF assms(2)])
  show ?thesis
  proof (cases "configured hs xt (restored hs fs oix)")
    case (Inl e)
    with b configured_operator(2) [of hs xt "restored hs fs oix"] show ?thesis by auto
  next
    case (Inr sv)
    note f = configured_fields [OF Inr] configured_operator(1) [OF Inr]
    have op: "\<exists>k. names_operator hs xt k" using f(5) by blast
    have "co_index (sv_coord sv) = oix" by (simp add: f(1) restored_index)
    moreover have "served_ok sv" using ok(2) by (simp add: served_ok_def f(1) restored_index)
    moreover have "remembers hs fs (sv_coord sv)" by (simp add: f(1) restored_remembers)
    moreover have "sv_allow_default_key sv \<longleftrightarrow> (\<exists>v. hs_var hs ''SYNCBOT_ALLOW_DEFAULT_KEY'' = Some v
        \<and> to_ascii_lowercase (str_trim v) \<in> {''1'', ''true'', ''yes''})"
      unfolding f(2) by (simp add: default_key_var_def split: option.split)
    ultimately show ?thesis
      unfolding b Inr using f(3,5) named op bus_named [of hs]
      by (cases "start_bus hs"; cases "hs_bind hs addr") auto
  qed
qed

section \<open>The state file over the life of a server\<close>

text \<open>
  The core goes on while a flush writes the snapshot it took; a crash may stop the flush at any of the
  states it passes through, and a flush that fails leaves the last of them.
\<close>

inductive daemon_life ::
  "'w site \<Rightarrow> crates \<Rightarrow> (co_snapshot \<Rightarrow> string + string) \<Rightarrow> path \<Rightarrow> serve_state \<Rightarrow> fs
   \<Rightarrow> serve_state \<times> assembler \<Rightarrow> fs \<Rightarrow> bool"
for si xt encode p sv fs where
  starts: "daemon_life si xt encode p sv fs (sv, []) fs"
| serves: "daemon_life si xt encode p sv fs sa t \<Longrightarrow> core_life si xt sa sa' \<Longrightarrow> daemon_life si xt encode p sv fs sa' t"
| flushes: "daemon_life si xt encode p sv fs sa t \<Longrightarrow> core_life si xt sa sa'
    \<Longrightarrow> flush io encode (sv_coord (fst sa)) p t = (ts, r) \<Longrightarrow> u \<in> set (t # ts)
    \<Longrightarrow> daemon_life si xt encode p sv fs sa' u"

lemma life_trans: "core_life si xt sb sc \<Longrightarrow> core_life si xt sa sb \<Longrightarrow> core_life si xt sa sc"
  by (induction rule: core_life.induct) (auto intro: core_life.intros)

definition holds_past :: "'w site \<Rightarrow> crates \<Rightarrow> (co_snapshot \<Rightarrow> string + string) \<Rightarrow> serve_state
  \<Rightarrow> serve_state \<times> assembler \<Rightarrow> disk_file option \<Rightarrow> bool"
where
  "holds_past si xt encode sv sa f =
     (\<exists>past b x. core_life si xt (sv, []) (past, b) \<and> core_life si xt (past, b) sa
        \<and> f = Some x \<and> encode (snapshot (sv_coord past)) = Inr (fl_bytes x))"

lemma holds_past_later: "holds_past si xt encode sv sa f \<Longrightarrow> core_life si xt sa sa' \<Longrightarrow> holds_past si xt encode sv sa' f"
  unfolding holds_past_def using life_trans by blast

lemma disk_holds:
  "daemon_life si xt encode p sv fs sa t \<Longrightarrow>
   core_life si xt (sv, []) sa \<and> (t (locate p) = fs (locate p) \<or> holds_past si xt encode sv sa (t (locate p)))"
proof (induction rule: daemon_life.induct)
  case starts
  show ?case by (simp add: core_life.born)
next
  case (serves sa t sa')
  then show ?case using life_trans holds_past_later by blast
next
  case (flushes sa t sa' io ts r u)
  obtain now b where sa: "sa = (now, b)" by force
  have life: "core_life si xt (sv, []) sa'" using flushes life_trans by blast
  from save_atomic [OF flushes(3) [unfolded flush_def] flushes(4)]
  have "u (locate p) = t (locate p)
      \<or> (\<exists>x. u (locate p) = Some x \<and> encode (snapshot (sv_coord (fst sa))) = Inr (fl_bytes x))" by blast
  then have "u (locate p) = t (locate p) \<or> holds_past si xt encode sv sa' (u (locate p))"
    unfolding holds_past_def using flushes(1,2,5) sa by auto
  then show ?case using flushes(2,5) life holds_past_later by metis
qed

text \<open>
  C17: a restart loses what happened since the last flush and nothing more. Whenever the server is
  stopped, mid-flush or not, its next start reads the state file as it was before this server ran, or
  the text of the snapshot of a state this server was in; where that text decodes to the snapshot it
  was made of, the core starts from it, and where it does not (JSON has no NaN) from nothing.
\<close>

theorem restart_finds_past:
  assumes "daemon_life si xt encode p sv fs sa t" and "io_read io = None"
  shows "load io decode p t = load io decode p fs
    \<or> (\<exists>past b json. core_life si xt (sv, []) (past, b) \<and> core_life si xt (past, b) sa
         \<and> encode (snapshot (sv_coord past)) = Inr json
         \<and> load io decode p t =
             (if decode json = Inr (snapshot (sv_coord past)) then Inr (Some (snapshot (sv_coord past)))
              else map_sum InvalidData Some (decode json)))"
proof -
  from disk_holds [OF assms(1)]
  have "t (locate p) = fs (locate p) \<or> holds_past si xt encode sv sa (t (locate p))" by blast
  then show ?thesis
  proof
    assume "t (locate p) = fs (locate p)"
    then show ?thesis using load_cong by blast
  next
    assume "holds_past si xt encode sv sa (t (locate p))"
    then obtain past b x where past: "core_life si xt (sv, []) (past, b)" "core_life si xt (past, b) sa"
        "t (locate p) = Some x" "encode (snapshot (sv_coord past)) = Inr (fl_bytes x)"
      unfolding holds_past_def by blast
    then have "load io decode p t =
        (if decode (fl_bytes x) = Inr (snapshot (sv_coord past)) then Inr (Some (snapshot (sv_coord past)))
         else map_sum InvalidData Some (decode (fl_bytes x)))"
      using assms(2) by (cases "decode (fl_bytes x)") (simp_all add: load_def fs_read_def)
    with past show ?thesis by blast
  qed
qed

text \<open>
  A state file that cannot be read, or does not decode, is taken for none, and the first flush of the
  new server replaces it by an empty snapshot: what it held is lost.
\<close>

lemma unreadable_state_lost:
  assumes "state_file hs = Some p" "load (hs_io hs) (hs_decode hs) (components p) fs = Inl e"
    and "flush io encode (restored hs fs oix) (components p) fs = (ts, Inr u)"
  shows "\<exists>x. last ts (locate (components p)) = Some x
    \<and> encode (snapshot (new_coordinator hs oix)) = Inr (fl_bytes x)"
  using save_atomic [OF assms(3) [unfolded flush_def], of fs] assms(1,2)
  by (auto simp: restored_def)

section \<open>A server on the berth\<close>

definition pier :: host where
  "pier =
     \<lparr>hs_args = [''berth''], hs_var = (\<lambda>v. if v = ''SYNCBOT_STATE'' then Some ''state'' else None),
      hs_load = (\<lambda>_. Inr berth_ws), hs_ho = (\<lambda>xs. xs), hs_hm = (\<lambda>xs. xs), hs_io = calm, hs_decode = (\<lambda>_. Inl []),
      hs_pepper = [], hs_kdf = insecure_test_cost, hs_bus = (\<lambda>_. BusUp), hs_bind = (\<lambda>_. None)\<rparr>"

lemma pier_ok: "host_ok pier"
  by (simp add: host_ok_def pier_def hash_order_id find_in_tree_ok berth_ws_def)

lemma pier_map: "load_index pier d = Inr berth_ix"
  by (simp add: load_index_def pier_def berth_valid)

lemma pier_lines: "\<exists>lines. print_zones berth_ix = Some lines"
  by (simp add: print_zones_def root_zone_id_def berth_top berth_below)

lemma pier_boot: "\<exists>lines d. boot pier berth_crates fs = Some (lines, Serving d)
    \<and> dm_state d = serve_new (restored pier fs (Some berth_ix)) \<and> dm_file d = Some ''state''"
proof -
  obtain lines where "print_zones berth_ix = Some lines" using pier_lines by blast
  moreover have "configured pier berth_crates c = Inr (serve_new c)" for c
    by (simp add: configured_def with_admin_key_def with_default_key_allowed_def operator_key_var_def default_key_var_def
        serve_new_def pier_def)
  moreover have "parse_args (hs_args pier) = (Some ''berth'', ''0.0.0.0:8080'')" "start_bus pier = None"
      "hs_bind pier addr = None" "state_file pier = Some ''state''" for addr
    by (simp_all add: parse_args_def start_bus_def state_file_def pier_def)
  ultimately show ?thesis by (simp add: boot_def open_map_def start_lines_def pier_map)
qed

theorem boot_serves_witness:
  "\<exists>lines d. boot pier berth_crates (\<lambda>_. None) = Some (lines, Serving d)
     \<and> names_map pier (Some ''berth'') (co_index (sv_coord (dm_state d))) \<and> sv_admin_key (dm_state d) = None
     \<and> co_robots (sv_coord (dm_state d)) = []"
proof -
  obtain lines d where d: "boot pier berth_crates (\<lambda>_. None) = Some (lines, Serving d)" "dm_file d = Some ''state''"
    using pier_boot by blast
  have c: "command (hs_args pier) (Some ''berth'') ''0.0.0.0:8080''" by (simp add: command_def pier_def)
  from boot_serves [OF pier_ok c, of berth_crates "\<lambda>_. None"] d show ?thesis
    by (auto simp: names_operator_def remembers_def pier_def load_def fs_read_def calm_def)
qed

definition open_text :: "co_snapshot \<Rightarrow> string + string" where
  "open_text s = (if s = snapshot (sv_coord open_berth) then Inr ''new'' else Inl ''not this one'')"

theorem restart_finds_past_witness:
  "\<exists>t. daemon_life berth_site berth_crates open_text (components ''state'') open_berth shelf (open_berth, []) t
     \<and> t \<noteq> shelf
     \<and> load calm (\<lambda>_. Inr (snapshot (sv_coord open_berth))) (components ''state'') t =
          Inr (Some (snapshot (sv_coord open_berth)))"
proof -
  obtain ts where ts: "flush calm open_text (sv_coord open_berth) (components ''state'') shelf = (ts, Inr ())" "ts \<noteq> []"
    unfolding flush_def using shelf_save [of open_text "snapshot (sv_coord open_berth)"] by (simp add: open_text_def) blast
  note saved = save_atomic [OF ts(1) [unfolded flush_def], of shelf]
  then obtain x where x: "last ts (locate (components ''state'')) = Some x"
      "open_text (snapshot (sv_coord open_berth)) = Inr (fl_bytes x)" by auto
  then have "last ts \<noteq> shelf" by (auto simp: shelf_paths shelf_def open_text_def)
  moreover have "last ts \<in> set (shelf # ts)" using ts(2) by simp
  then have life: "daemon_life berth_site berth_crates open_text (components ''state'') open_berth shelf (open_berth, []) (last ts)"
    using ts(1)
    by (intro daemon_life.flushes [OF daemon_life.starts core_life.born, where io = calm and ts = ts and r = "Inr ()"])
      simp_all
  have old: "load calm (\<lambda>_. Inr (snapshot (sv_coord open_berth))) (components ''state'') shelf =
      Inr (Some (snapshot (sv_coord open_berth)))"
    by (simp add: load_def fs_read_def calm_def shelf_paths shelf_def)
  have "io_read calm = None" by (simp add: calm_def)
  from restart_finds_past [OF life this, of "\<lambda>_. Inr (snapshot (sv_coord open_berth))"]
  have "load calm (\<lambda>_. Inr (snapshot (sv_coord open_berth))) (components ''state'') (last ts) =
      Inr (Some (snapshot (sv_coord open_berth)))"
    unfolding old by (auto split: if_splits)
  with life \<open>last ts \<noteq> shelf\<close> show ?thesis by blast
qed

end
