(* ===== verification/Ffi.thy ===== *)
theory Ffi
  imports Peer Vda "HOL-Library.AList"
begin

text \<open>
  The C interface (\<open>ffi.rs\<close>): opaque handles on the heap, the shared index behind a counted pointer,
  the last error of the thread. A handle that is not live is undefined behaviour. The JSON codecs, the
  texts of errors and UUIDs and the loader of workspaces are parameters, given anew with every call.
\<close>

section \<open>State\<close>

datatype ptr = Null | Ptr nat

text \<open>
  \<open>ff_arcs\<close> are the counted allocations of \<open>Arc<WorkspaceIndex>\<close>. An index handle holds one of them, a
  manager may hold one, and a coordinator two: its own and its claim manager's.
\<close>

record ffi =
  ff_error :: "string option"
  ff_arcs :: "(nat \<times> index) list"
  ff_workspaces :: "(nat \<times> workspace) list"
  ff_indexes :: "(nat \<times> nat) list"
  ff_managers :: "(nat \<times> nat option \<times> claim_manager) list"
  ff_coordinators :: "(nat \<times> nat option \<times> coordinator) list"
  ff_fresh :: nat

definition ffi_start :: ffi where
  "ffi_start =
     \<lparr>ff_error = None, ff_arcs = [], ff_workspaces = [], ff_indexes = [], ff_managers = [], ff_coordinators = [],
      ff_fresh = 0\<rparr>"

definition strong_count :: "ffi \<Rightarrow> nat \<Rightarrow> nat" where
  "strong_count s a =
     length (filter (\<lambda>(h, b). b = a) (ff_indexes s))
     + length (filter (\<lambda>(h, b, m). b = Some a) (ff_managers s))
     + 2 * length (filter (\<lambda>(h, b, c). b = Some a) (ff_coordinators s))"

definition drop_arcs :: "ffi \<Rightarrow> ffi" where
  \<comment> \<open>an allocation without an owner is freed\<close>
  "drop_arcs s = s\<lparr>ff_arcs := filter (\<lambda>(a, ix). strong_count s a \<noteq> 0) (ff_arcs s)\<rparr>"

datatype 'r ret = Ret 'r ffi | Undefined | Diverges | Aborts

text \<open>A C string the callee may read: null, or its bytes.\<close>

datatype cstr = NullStr | CStr string

datatype json_value =
  JPolicy zone_policy
| JIssues "issue list"
| JValidation "validation_issue list"
| JRoute bool "route_plan option" "route_failure option" f64
| JEvaluation evaluation
| JRequests "claim_request list"
| JLeases "lease list"
| JRobot robot_state
| JSchedule schedule_decision
| JOrder vda_order
| JState vda_state

record ffi_env =
  fx_shown :: "msg \<Rightarrow> string"
  fx_uuid :: "string \<Rightarrow> string + uuid"
  fx_uuid_text :: "uuid \<Rightarrow> string"
  fx_json :: "json_value \<Rightarrow> string + string"
  fx_props :: "string \<Rightarrow> string + props"
  fx_request :: "string \<Rightarrow> string + claim_request"
  fx_lease :: "string \<Rightarrow> string + lease"
  fx_robot :: "string \<Rightarrow> string + robot_state"
  fx_plan :: "string \<Rightarrow> string + route_plan"
  fx_load :: "string \<Rightarrow> string + workspace"
  fx_ho :: "uuid list \<Rightarrow> uuid list"
  fx_hm :: "(uuid \<times> nat) list \<Rightarrow> (uuid \<times> nat) list"
  fx_pepper :: string
  fx_kdf :: kdf_config

section \<open>Errors and strings\<close>

text \<open>\<open>CString::new\<close> takes no text with a zero byte.\<close>

definition c_string :: "string \<Rightarrow> string option" where
  "c_string s = (if CHR 0x00 \<in> set s then None else Some s)"

definition set_last_error :: "ffi_env \<Rightarrow> msg \<Rightarrow> ffi \<Rightarrow> ffi" where
  "set_last_error fx m s = s\<lparr>ff_error := Some (unwrap_or (c_string (fx_shown fx m)) ''invalid utf8 in error'')\<rparr>"

definition clear_last_error :: "ffi \<Rightarrow> ffi" where
  "clear_last_error s = s\<lparr>ff_error := None\<rparr>"

definition sb_last_error :: "ffi \<Rightarrow> string option" where
  "sb_last_error s = ff_error s"

definition cstr_to_str :: "cstr \<Rightarrow> string option" where
  "cstr_to_str p =
     (case p of NullStr \<Rightarrow> None | CStr bs \<Rightarrow> (case utf8 bs of Inl err \<Rightarrow> None | Inr s \<Rightarrow> Some s))"

definition to_c_string :: "ffi_env \<Rightarrow> string \<Rightarrow> ffi \<Rightarrow> string option \<times> ffi" where
  "to_c_string fx t s =
     (case c_string t of
        Some t \<Rightarrow> (Some t, s)
      | None \<Rightarrow> (None, set_last_error fx (Lit ''internal: nul byte in returned string'') s))"

definition json_out :: "ffi_env \<Rightarrow> json_value \<Rightarrow> ffi \<Rightarrow> string option \<times> ffi" where
  "json_out fx v s =
     (case fx_json fx v of
        Inr t \<Rightarrow> to_c_string fx t s
      | Inl err \<Rightarrow> (None, set_last_error fx (Format ''json serialize failed: {e}'' [AStr err]) s))"

definition json_in :: "ffi_env \<Rightarrow> (string \<Rightarrow> string + 'a) \<Rightarrow> cstr \<Rightarrow> ffi \<Rightarrow> 'a option \<times> ffi" where
  "json_in fx decode p s =
     (case cstr_to_str p of
        None \<Rightarrow> (None, s)
      | Some t \<Rightarrow>
     (case decode t of
        Inr v \<Rightarrow> (Some v, s)
      | Inl err \<Rightarrow> (None, set_last_error fx (Format ''json parse failed: {e}'' [AStr err]) s)))"

definition ffi_parse_uuid :: "ffi_env \<Rightarrow> cstr \<Rightarrow> ffi \<Rightarrow> uuid option \<times> ffi" where
  "ffi_parse_uuid fx p s =
     (case cstr_to_str p of
        None \<Rightarrow> (None, s)
      | Some t \<Rightarrow>
     (case fx_uuid fx t of
        Inr u \<Rightarrow> (Some u, s)
      | Inl err \<Rightarrow> (None, set_last_error fx (Format ''invalid uuid: {e}'' [AStr err]) s)))"

definition returned :: "'r \<times> ffi \<Rightarrow> 'r ret" where
  "returned r = (case r of (x, s) \<Rightarrow> Ret x s)"

section \<open>Values\<close>

definition bad_input :: msg where "bad_input = Lit ''null or non-utf8 input''"

definition sb_parse_traffic_bool :: "ffi_env \<Rightarrow> cstr \<Rightarrow> ffi \<Rightarrow> int ret" where
  "sb_parse_traffic_bool fx v s =
     (let s = clear_last_error s in
      case cstr_to_str v of
        None \<Rightarrow> Ret (- 1) (set_last_error fx bad_input s)
      | Some t \<Rightarrow>
     (case parse_traffic_bool t of
        Inr b \<Rightarrow> Ret (if b then 1 else 0) s
      | Inl e \<Rightarrow> Ret (- 1) (set_last_error fx (error_display e) s)))"

text \<open>What is written through the out pointer, when something is; \<open>null\<close> says the pointer is null.\<close>

definition parse_through ::
  "ffi_env \<Rightarrow> (string \<Rightarrow> error + 'a) \<Rightarrow> cstr \<Rightarrow> bool \<Rightarrow> ffi \<Rightarrow> (int \<times> 'a option) ret"
where
  "parse_through fx parse v null s =
     (let s = clear_last_error s in
      if null then Ret (- 1, None) (set_last_error fx (Lit ''null out pointer'') s)
      else case cstr_to_str v of
        None \<Rightarrow> Ret (- 1, None) (set_last_error fx bad_input s)
      | Some t \<Rightarrow>
     (case parse t of
        Inr x \<Rightarrow> Ret (0, Some x) s
      | Inl e \<Rightarrow> Ret (- 1, None) (set_last_error fx (error_display e) s)))"

definition sb_parse_traffic_u64 :: "ffi_env \<Rightarrow> cstr \<Rightarrow> bool \<Rightarrow> ffi \<Rightarrow> (int \<times> u64 option) ret" where
  "sb_parse_traffic_u64 fx = parse_through fx parse_traffic_u64"

definition sb_parse_traffic_f64 :: "ffi_env \<Rightarrow> cstr \<Rightarrow> bool \<Rightarrow> ffi \<Rightarrow> (int \<times> f64 option) ret" where
  "sb_parse_traffic_f64 fx = parse_through fx parse_traffic_f64"

definition json_through ::
  "ffi_env \<Rightarrow> (string \<Rightarrow> string + 'a) \<Rightarrow> ('a \<Rightarrow> json_value) \<Rightarrow> cstr \<Rightarrow> ffi \<Rightarrow> string option ret"
where
  "json_through fx decode f p s =
     (case json_in fx decode p (clear_last_error s) of
        (None, s) \<Rightarrow> Ret None s | (Some v, s) \<Rightarrow> returned (json_out fx (f v) s))"

definition sb_parse_zone_policy :: "ffi_env \<Rightarrow> cstr \<Rightarrow> ffi \<Rightarrow> string option ret" where
  "sb_parse_zone_policy fx = json_through fx (fx_props fx) (\<lambda>p. JPolicy (parse_zone_policy p))"

definition sb_validate_zone_traffic :: "ffi_env \<Rightarrow> cstr \<Rightarrow> ffi \<Rightarrow> string option ret" where
  "sb_validate_zone_traffic fx = json_through fx (fx_props fx) (\<lambda>p. JIssues (validate_zone_traffic_properties p))"

definition sb_validate_edge_traffic :: "ffi_env \<Rightarrow> cstr \<Rightarrow> ffi \<Rightarrow> string option ret" where
  "sb_validate_edge_traffic fx = json_through fx (fx_props fx) (\<lambda>p. JIssues (validate_edge_traffic_properties p))"

definition sb_vda_order_from_route :: "ffi_env \<Rightarrow> cstr \<Rightarrow> ffi \<Rightarrow> string option ret" where
  "sb_vda_order_from_route fx p s =
     (case json_in fx (fx_plan fx) p (clear_last_error s) of
        (None, s) \<Rightarrow> Ret None s
      | (Some plan, s) \<Rightarrow>
     (case map_route_plan (fx_uuid_text fx) plan of
        Panics \<Rightarrow> Aborts
      | Returns order \<Rightarrow> returned (json_out fx (JOrder order) s)))"

definition sb_vda_state_from_robot :: "ffi_env \<Rightarrow> cstr \<Rightarrow> ffi \<Rightarrow> string option ret" where
  "sb_vda_state_from_robot fx = json_through fx (fx_robot fx) (\<lambda>r. JState (map_robot_state (fx_uuid_text fx) r))"

fun progress_state_from_u8 :: "u8 \<Rightarrow> progress_state" where
  "progress_state_from_u8 n =
     (if n = 0 then Idle else if n = 1 then FollowingRoute else if n = 2 then Waiting
      else if n = 3 then Queued else if n = 4 then Blocked else if n = 5 then MustReplan else Idle)"

record sb_context =
  sb_self_priority :: f64
  sb_other_priority :: f64
  sb_self_holds_lease :: u8
  sb_other_holds_lease :: u8
  sb_self_is_emergency :: u8
  sb_other_is_emergency :: u8
  sb_self_state :: u8
  sb_other_state :: u8
  sb_self_wait_ticks :: u64
  sb_other_wait_ticks :: u64
  sb_self_remaining_steps :: u64
  sb_other_remaining_steps :: u64

fun sb_decision :: "arbitration \<Rightarrow> int" where
  "sb_decision GoAhead = 0"
| "sb_decision Yield = 1"
| "sb_decision BothReplan = 2"

definition sb_arbitrate_right_of_way :: "sb_context option \<Rightarrow> int" where
  "sb_arbitrate_right_of_way p =
     (case p of
        None \<Rightarrow> sb_decision BothReplan
      | Some c \<Rightarrow> sb_decision (arbitrate_right_of_way
          \<lparr>ac_self_priority = sb_self_priority c, ac_other_priority = sb_other_priority c,
           ac_self_holds_lease = (sb_self_holds_lease c \<noteq> 0), ac_other_holds_lease = (sb_other_holds_lease c \<noteq> 0),
           ac_self_is_emergency = (sb_self_is_emergency c \<noteq> 0), ac_other_is_emergency = (sb_other_is_emergency c \<noteq> 0),
           ac_self_state = progress_state_from_u8 (sb_self_state c),
           ac_other_state = progress_state_from_u8 (sb_other_state c),
           ac_self_wait_ticks = sb_self_wait_ticks c, ac_other_wait_ticks = sb_other_wait_ticks c,
           ac_self_remaining_steps = sb_self_remaining_steps c,
           ac_other_remaining_steps = sb_other_remaining_steps c\<rparr>))"

section \<open>Workspaces and indexes\<close>

fun at_handle :: "(nat \<times> 'h) list \<Rightarrow> ptr \<Rightarrow> 'r ret \<Rightarrow> (nat \<Rightarrow> 'h \<Rightarrow> 'r ret) \<Rightarrow> 'r ret" where
  "at_handle table Null r k = r"
| "at_handle table (Ptr h) r k = (case map_of table h of None \<Rightarrow> Undefined | Some x \<Rightarrow> k h x)"

definition sb_workspace_load :: "ffi_env \<Rightarrow> cstr \<Rightarrow> ffi \<Rightarrow> ptr ret" where
  "sb_workspace_load fx path s =
     (let s = clear_last_error s in
      case cstr_to_str path of
        None \<Rightarrow> Ret Null (set_last_error fx (Lit ''null or non-utf8 path'') s)
      | Some p \<Rightarrow>
     (case fx_load fx p of
        Inl err \<Rightarrow> Ret Null (set_last_error fx (Format ''workspace load: {e}'' [AStr err]) s)
      | Inr w \<Rightarrow>
          Ret (Ptr (ff_fresh s)) (s\<lparr>ff_workspaces := (ff_fresh s, w) # ff_workspaces s, ff_fresh := ff_fresh s + 1\<rparr>)))"

definition sb_workspace_free :: "ptr \<Rightarrow> ffi \<Rightarrow> unit ret" where
  \<comment> \<open>an index keeps the workspace alive\<close>
  "sb_workspace_free p s =
     at_handle (ff_workspaces s) p (Ret () s)
       (\<lambda>h w. Ret () (s\<lparr>ff_workspaces := AList.delete h (ff_workspaces s)\<rparr>))"

definition sb_workspace_index_new :: "ffi_env \<Rightarrow> ptr \<Rightarrow> ffi \<Rightarrow> ptr ret" where
  "sb_workspace_index_new fx p s =
     (let s = clear_last_error s in
      at_handle (ff_workspaces s) p (Ret Null (set_last_error fx (Lit ''null workspace'') s))
        (\<lambda>h w. let a = ff_fresh s in
           Ret (Ptr (a + 1))
             (s\<lparr>ff_arcs := (a, rebuild (fx_ho fx) w) # ff_arcs s, ff_indexes := (a + 1, a) # ff_indexes s,
                ff_fresh := a + 2\<rparr>)))"

definition sb_workspace_index_free :: "ptr \<Rightarrow> ffi \<Rightarrow> unit ret" where
  "sb_workspace_index_free p s =
     at_handle (ff_indexes s) p (Ret () s)
       (\<lambda>h a. Ret () (drop_arcs (s\<lparr>ff_indexes := AList.delete h (ff_indexes s)\<rparr>)))"

definition null_index :: msg where "null_index = Lit ''null index''"

text \<open>Reading an index: from the handle to the allocation, from the allocation to the index.\<close>

definition at_index :: "ffi_env \<Rightarrow> ptr \<Rightarrow> 'r \<Rightarrow> (nat \<Rightarrow> index \<Rightarrow> ffi \<Rightarrow> 'r ret) \<Rightarrow> ffi \<Rightarrow> 'r ret" where
  "at_index fx p r k s =
     (let s = clear_last_error s in
      at_handle (ff_indexes s) p (Ret r (set_last_error fx null_index s))
        (\<lambda>h a. case map_of (ff_arcs s) a of None \<Rightarrow> Undefined | Some ix \<Rightarrow> k a ix s))"

definition sb_workspace_index_refresh :: "ffi_env \<Rightarrow> ptr \<Rightarrow> ffi \<Rightarrow> int ret" where
  "sb_workspace_index_refresh fx p =
     at_index fx p (- 1) (\<lambda>a ix s.
       if strong_count s a = 1
       then Ret 0 (s\<lparr>ff_arcs := AList.update a (rebuild (fx_ho fx) (ix_workspace ix)) (ff_arcs s)\<rparr>)
       else Ret (- 1) (set_last_error fx (Lit ''workspace index has outstanding shared owners'') s))"

definition sb_workspace_index_validation_issues :: "ffi_env \<Rightarrow> ptr \<Rightarrow> ffi \<Rightarrow> string option ret" where
  "sb_workspace_index_validation_issues fx p =
     at_index fx p None (\<lambda>a ix s. returned (json_out fx (JValidation (validation_issues (fx_ho fx) (fx_hm fx) ix)) s))"

definition sb_workspace_index_is_valid :: "ffi_env \<Rightarrow> ptr \<Rightarrow> ffi \<Rightarrow> int ret" where
  "sb_workspace_index_is_valid fx p =
     at_index fx p (- 1) (\<lambda>a ix s. Ret (if ix_is_valid (fx_ho fx) (fx_hm fx) ix then 1 else 0) s)"

definition sb_workspace_index_root_zone_id :: "ffi_env \<Rightarrow> ptr \<Rightarrow> ffi \<Rightarrow> string option ret" where
  "sb_workspace_index_root_zone_id fx p =
     at_index fx p None (\<lambda>a ix s.
       case root_zone_id ix of
         Some u \<Rightarrow> returned (to_c_string fx (fx_uuid_text fx u) s)
       | None \<Rightarrow> Ret None (set_last_error fx (Lit ''workspace has no root zone'') s))"

definition sb_plan_route :: "ffi_env \<Rightarrow> ptr \<Rightarrow> cstr \<Rightarrow> cstr \<Rightarrow> int \<Rightarrow> ffi \<Rightarrow> string option ret" where
  "sb_plan_route fx p start goal use_penalties =
     at_index fx p None (\<lambda>a ix s.
       case ffi_parse_uuid fx start s of
         (None, s) \<Rightarrow> Ret None s
       | (Some start, s) \<Rightarrow>
       (case ffi_parse_uuid fx goal s of
         (None, s) \<Rightarrow> Ret None s
       | (Some goal, s) \<Rightarrow>
       (case plan_route (fx_ho fx) ix start goal (use_penalties \<noteq> 0) of
          None \<Rightarrow> Diverges
        | Some r \<Rightarrow>
            returned (json_out fx (JRoute (sr_found (pr_search r)) (pr_plan r) (pr_failure r) (sr_distance (pr_search r))) s))))"

section \<open>Claim managers\<close>

definition null_manager :: msg where "null_manager = Lit ''null manager''"

definition new_manager :: "nat option \<Rightarrow> claim_manager \<Rightarrow> ffi \<Rightarrow> ptr ret" where
  "new_manager a m s =
     Ret (Ptr (ff_fresh s)) (s\<lparr>ff_managers := (ff_fresh s, a, m) # ff_managers s, ff_fresh := ff_fresh s + 1\<rparr>)"

definition sb_claim_manager_new :: "ffi \<Rightarrow> ptr ret" where
  "sb_claim_manager_new s = new_manager None cm_new s"

definition sb_claim_manager_with_index :: "ffi_env \<Rightarrow> ptr \<Rightarrow> ffi \<Rightarrow> ptr ret" where
  "sb_claim_manager_with_index fx p = at_index fx p Null (\<lambda>a ix s. new_manager (Some a) (cm_with_index ix) s)"

definition sb_claim_manager_free :: "ptr \<Rightarrow> ffi \<Rightarrow> unit ret" where
  "sb_claim_manager_free p s =
     at_handle (ff_managers s) p (Ret () s)
       (\<lambda>h m. Ret () (drop_arcs (s\<lparr>ff_managers := AList.delete h (ff_managers s)\<rparr>)))"

text \<open>A count, and the expiry of leases, touch no error; a null handle counts nothing.\<close>

definition sb_claim_manager_request_count :: "ptr \<Rightarrow> ffi \<Rightarrow> u64 ret" where
  "sb_claim_manager_request_count p s =
     at_handle (ff_managers s) p (Ret 0 s) (\<lambda>h (a, m). Ret (of_nat (length (cm_requests m))) s)"

definition sb_claim_manager_lease_count :: "ptr \<Rightarrow> ffi \<Rightarrow> u64 ret" where
  "sb_claim_manager_lease_count p s =
     at_handle (ff_managers s) p (Ret 0 s) (\<lambda>h (a, m). Ret (of_nat (length (cm_leases m))) s)"

definition put_manager :: "nat \<Rightarrow> nat option \<Rightarrow> claim_manager \<Rightarrow> ffi \<Rightarrow> ffi" where
  "put_manager h a m s = s\<lparr>ff_managers := AList.update h (a, m) (ff_managers s)\<rparr>"

definition sb_claim_manager_expire_leases :: "ptr \<Rightarrow> u64 \<Rightarrow> ffi \<Rightarrow> u64 ret" where
  "sb_claim_manager_expire_leases p now s =
     at_handle (ff_managers s) p (Ret 0 s)
       (\<lambda>h (a, m). case expire_leases m now of (n, m) \<Rightarrow> Ret n (put_manager h a m s))"

definition at_manager ::
  "ffi_env \<Rightarrow> ptr \<Rightarrow> 'r \<Rightarrow> (claim_manager \<Rightarrow> ffi \<Rightarrow> 'r \<times> claim_manager \<times> ffi) \<Rightarrow> ffi \<Rightarrow> 'r ret"
where
  "at_manager fx p r k s =
     (let s = clear_last_error s in
      at_handle (ff_managers s) p (Ret r (set_last_error fx null_manager s))
        (\<lambda>h (a, m). case k m s of (x, m, s) \<Rightarrow> Ret x (put_manager h a m s)))"

definition sb_claim_manager_add_request :: "ffi_env \<Rightarrow> ptr \<Rightarrow> cstr \<Rightarrow> ffi \<Rightarrow> int ret" where
  "sb_claim_manager_add_request fx p json =
     at_manager fx p (- 1) (\<lambda>m s.
       case json_in fx (fx_request fx) json s of
         (None, s) \<Rightarrow> (- 1, m, s) | (Some r, s) \<Rightarrow> (0, add_request m r, s))"

definition sb_claim_manager_add_lease :: "ffi_env \<Rightarrow> ptr \<Rightarrow> cstr \<Rightarrow> ffi \<Rightarrow> int ret" where
  "sb_claim_manager_add_lease fx p json =
     at_manager fx p (- 1) (\<lambda>m s.
       case json_in fx (fx_lease fx) json s of
         (None, s) \<Rightarrow> (- 1, m, s) | (Some l, s) \<Rightarrow> (0, add_lease m l, s))"

definition found_or_minus_one :: "bool \<times> 's \<Rightarrow> ffi \<Rightarrow> int \<times> 's \<times> ffi" where
  "found_or_minus_one r s = (case r of (ok, m) \<Rightarrow> (if ok then 0 else - 1, m, s))"

definition sb_claim_manager_remove_request :: "ffi_env \<Rightarrow> ptr \<Rightarrow> u64 \<Rightarrow> ffi \<Rightarrow> int ret" where
  "sb_claim_manager_remove_request fx p i =
     at_manager fx p (- 1) (\<lambda>m. found_or_minus_one (remove_request m i))"

text \<open>A tick as a signed integer: a negative one is none.\<close>

definition tick_or_none :: "64 word \<Rightarrow> u64 option" where
  "tick_or_none t = (if sint t < 0 then None else Some t)"

definition sb_claim_manager_release_lease :: "ffi_env \<Rightarrow> ptr \<Rightarrow> u64 \<Rightarrow> 64 word \<Rightarrow> ffi \<Rightarrow> int ret" where
  "sb_claim_manager_release_lease fx p i tick =
     at_manager fx p (- 1) (\<lambda>m. found_or_minus_one (release_lease m i (tick_or_none tick)))"

definition sb_claim_manager_refresh_lease :: "ffi_env \<Rightarrow> ptr \<Rightarrow> u64 \<Rightarrow> u64 \<Rightarrow> 64 word \<Rightarrow> ffi \<Rightarrow> int ret" where
  "sb_claim_manager_refresh_lease fx p i tick expires =
     at_manager fx p (- 1) (\<lambda>m. found_or_minus_one (refresh_lease m i tick (tick_or_none expires)))"

definition sb_claim_manager_revoke_lease :: "ffi_env \<Rightarrow> ptr \<Rightarrow> u64 \<Rightarrow> cstr \<Rightarrow> u64 \<Rightarrow> ffi \<Rightarrow> int ret" where
  "sb_claim_manager_revoke_lease fx p i reason tick =
     at_manager fx p (- 1) (\<lambda>m. found_or_minus_one (revoke_lease m i (unwrap_or (cstr_to_str reason) []) tick))"

definition sb_claim_manager_evaluate :: "ffi_env \<Rightarrow> ptr \<Rightarrow> cstr \<Rightarrow> ffi \<Rightarrow> string option ret" where
  "sb_claim_manager_evaluate fx p json s =
     (let s = clear_last_error s in
      at_handle (ff_managers s) p (Ret None (set_last_error fx null_manager s))
        (\<lambda>h (a, m).
           case json_in fx (fx_request fx) json s of
             (None, s) \<Rightarrow> Ret None s
           | (Some r, s) \<Rightarrow>
          (case evaluate_request m r of
             None \<Rightarrow> Diverges | Some ev \<Rightarrow> returned (json_out fx (JEvaluation ev) s))))"

definition sb_claim_manager_requests :: "ffi_env \<Rightarrow> ptr \<Rightarrow> ffi \<Rightarrow> string option ret" where
  "sb_claim_manager_requests fx p s =
     (let s = clear_last_error s in
      at_handle (ff_managers s) p (Ret None (set_last_error fx null_manager s))
        (\<lambda>h (a, m). returned (json_out fx (JRequests (cm_requests m)) s)))"

definition sb_claim_manager_leases :: "ffi_env \<Rightarrow> ptr \<Rightarrow> ffi \<Rightarrow> string option ret" where
  "sb_claim_manager_leases fx p s =
     (let s = clear_last_error s in
      at_handle (ff_managers s) p (Ret None (set_last_error fx null_manager s))
        (\<lambda>h (a, m). returned (json_out fx (JLeases (cm_leases m)) s)))"

section \<open>Coordinators\<close>

definition null_coordinator :: msg where "null_coordinator = Lit ''null coordinator''"

definition new_coordinator_handle :: "nat option \<Rightarrow> coordinator \<Rightarrow> ffi \<Rightarrow> ptr ret" where
  "new_coordinator_handle a c s =
     Ret (Ptr (ff_fresh s)) (s\<lparr>ff_coordinators := (ff_fresh s, a, c) # ff_coordinators s, ff_fresh := ff_fresh s + 1\<rparr>)"

definition sb_coordinator_new :: "ffi_env \<Rightarrow> ffi \<Rightarrow> ptr ret" where
  "sb_coordinator_new fx s = new_coordinator_handle None (co_default (fx_pepper fx) (fx_kdf fx)) s"

definition sb_coordinator_with_index :: "ffi_env \<Rightarrow> ptr \<Rightarrow> ffi \<Rightarrow> ptr ret" where
  "sb_coordinator_with_index fx p =
     at_index fx p Null (\<lambda>a ix s. new_coordinator_handle (Some a) (co_with_index (fx_pepper fx) (fx_kdf fx) ix) s)"

definition sb_coordinator_free :: "ptr \<Rightarrow> ffi \<Rightarrow> unit ret" where
  "sb_coordinator_free p s =
     at_handle (ff_coordinators s) p (Ret () s)
       (\<lambda>h c. Ret () (drop_arcs (s\<lparr>ff_coordinators := AList.delete h (ff_coordinators s)\<rparr>)))"

definition sb_coordinator_robot_count :: "ptr \<Rightarrow> ffi \<Rightarrow> u64 ret" where
  "sb_coordinator_robot_count p s =
     at_handle (ff_coordinators s) p (Ret 0 s) (\<lambda>h (a, c). Ret (of_nat (length (co_robots c))) s)"

definition put_coordinator :: "nat \<Rightarrow> nat option \<Rightarrow> coordinator \<Rightarrow> ffi \<Rightarrow> ffi" where
  "put_coordinator h a c s = s\<lparr>ff_coordinators := AList.update h (a, c) (ff_coordinators s)\<rparr>"

definition at_coordinator ::
  "ffi_env \<Rightarrow> ptr \<Rightarrow> 'r \<Rightarrow> (coordinator \<Rightarrow> ffi \<Rightarrow> ('r \<times> coordinator \<times> ffi) option) \<Rightarrow> ffi \<Rightarrow> 'r ret"
where
  "at_coordinator fx p r k s =
     (let s = clear_last_error s in
      at_handle (ff_coordinators s) p (Ret r (set_last_error fx null_coordinator s))
        (\<lambda>h (a, c). case k c s of None \<Rightarrow> Diverges | Some (x, c, s) \<Rightarrow> Ret x (put_coordinator h a c s)))"

definition sb_coordinator_register_robot :: "ffi_env \<Rightarrow> ptr \<Rightarrow> cstr \<Rightarrow> ffi \<Rightarrow> int ret" where
  "sb_coordinator_register_robot fx p json =
     at_coordinator fx p (- 1) (\<lambda>c s.
       case json_in fx (fx_robot fx) json s of
         (None, s) \<Rightarrow> Some (- 1, c, s) | (Some r, s) \<Rightarrow> Some (0, register_robot c r, s))"

definition sb_coordinator_unregister_robot :: "ffi_env \<Rightarrow> ptr \<Rightarrow> u64 \<Rightarrow> ffi \<Rightarrow> int ret" where
  "sb_coordinator_unregister_robot fx p rid =
     at_coordinator fx p (- 1) (\<lambda>c s. Some (found_or_minus_one (unregister_robot c rid) s))"

definition sb_coordinator_robot_state :: "ffi_env \<Rightarrow> ptr \<Rightarrow> u64 \<Rightarrow> ffi \<Rightarrow> string option ret" where
  "sb_coordinator_robot_state fx p rid =
     at_coordinator fx p None (\<lambda>c s.
       case find_robot_state c rid of
         None \<Rightarrow> Some (None, c, set_last_error fx (Lit ''robot not registered'') s)
       | Some r \<Rightarrow> (case json_out fx (JRobot r) s of (x, s) \<Rightarrow> Some (x, c, s)))"

definition sb_coordinator_assign_route_plan ::
  "ffi_env \<Rightarrow> ptr \<Rightarrow> u64 \<Rightarrow> cstr \<Rightarrow> u64 \<Rightarrow> u64 \<Rightarrow> ffi \<Rightarrow> int ret"
where
  "sb_coordinator_assign_route_plan fx p rid json horizon tick =
     at_coordinator fx p (- 1) (\<lambda>c s.
       case json_in fx (fx_plan fx) json s of
         (None, s) \<Rightarrow> Some (- 1, c, s)
       | (Some plan, s) \<Rightarrow> Some (found_or_minus_one (assign_route_plan c rid plan horizon tick) s))"

definition sb_coordinator_schedule_robot_route ::
  "ffi_env \<Rightarrow> ptr \<Rightarrow> u64 \<Rightarrow> u64 \<Rightarrow> u64 \<Rightarrow> f64 \<Rightarrow> int \<Rightarrow> ffi \<Rightarrow> string option ret"
where
  "sb_coordinator_schedule_robot_route fx p rid cid start unit_ticks shared =
     at_coordinator fx p None (\<lambda>c s.
       case schedule_robot_route c rid cid start unit_ticks (if shared \<noteq> 0 then Shared else Exclusive) of
         None \<Rightarrow> None
       | Some (d, c) \<Rightarrow> (case json_out fx (JSchedule d) s of (x, s) \<Rightarrow> Some (x, c, s)))"

definition sb_coordinator_handle_missed_schedule_slot ::
  "ffi_env \<Rightarrow> ptr \<Rightarrow> u64 \<Rightarrow> u64 \<Rightarrow> u64 \<Rightarrow> ffi \<Rightarrow> int ret"
where
  "sb_coordinator_handle_missed_schedule_slot fx p rid now grace =
     at_coordinator fx p (- 1) (\<lambda>c s.
       case handle_missed_schedule_slot c rid now grace of (b, c) \<Rightarrow> Some (if b then 1 else 0, c, s))"

end
