(* ===== verification/Orders.thy ===== *)
theory Orders
  imports Vda Protocol
begin

text \<open>
  What the VDA 5050 adapter makes of plans and robots: an order follows its plan and reserves the
  zones that want a claim, a state names its robot and what it holds.
\<close>

section \<open>Numbers\<close>

lemma digit_code: "d < 10 \<Longrightarrow> (of_char (digit_char d) :: nat) = 48 + d"
  by (simp add: digit_char_def of_char_of)

lemma digits_snoc: "digits_val (ds @ [c]) = 10 * digits_val ds + (of_char c - 48)"
  by (simp add: digits_val_def)

lemma nat_string_digits:
  "nat_string n \<noteq> [] \<and> list_all is_digit (nat_string n) \<and> digits_val (nat_string n) = n"
proof (induction n rule: nat_string.induct)
  case (1 n)
  show ?case
  proof (cases "n < 10")
    case True
    then show ?thesis
      by (simp add: nat_string.simps [of n] is_digit_def digits_val_def digit_code)
  next
    case False
    with 1 show ?thesis
      by (simp add: nat_string.simps [of n] is_digit_def digits_snoc digit_code)
  qed
qed

lemma nat_string_plain:
  "list_all (\<lambda>c. of_char c < (128 :: nat) \<and> 32 < (of_char c :: nat)) (nat_string n)"
  using nat_string_digits [of n] by (auto simp: list_all_iff is_digit_def Let_def)

lemma parse_nat_string: "parse_u64_str (nat_string (unat i)) = Some i"
proof -
  obtain c cs where s: "nat_string (unat i) = c # cs"
    using nat_string_digits [of "unat i"] by (cases "nat_string (unat i)") auto
  then have "is_digit c" using nat_string_digits [of "unat i"] by simp
  then have "c \<noteq> CHR ''+''" by (auto simp: is_digit_def)
  then show ?thesis
    using nat_string_digits [of "unat i"] s unat_u64_lt [of i] by (simp add: parse_u64_str_def)
qed

lemma lease_step_agv: "vs_agv_id (lease_step shown m s i) = vs_agv_id s"
  by (simp add: lease_step_def split: option.split)

lemma pending_step_agv: "vs_agv_id (pending_step shown m s i) = vs_agv_id s"
  by (simp add: pending_step_def split: option.split)

lemma state_agv: "vs_agv_id (map_robot_state_with_claims shown st m) = nat_string (unat (rs_robot_id st))"
proof -
  have f: "vs_agv_id (foldl (lease_step shown m) s is) = vs_agv_id s" for s "is"
    by (induction "is" arbitrary: s) (simp_all add: lease_step_agv)
  have g: "vs_agv_id (foldl (pending_step shown m) s is) = vs_agv_id s" for s "is"
    by (induction "is" arbitrary: s) (simp_all add: pending_step_agv)
  show ?thesis
    by (simp add: map_robot_state_with_claims_def f g map_robot_state_def Let_def split: option.split)
qed

text \<open>
  The vehicle id of a state is read back, on every endpoint that takes a robot id, as the robot
  the state was made of.
\<close>

theorem state_names_robot:
  "resolve_robot_id cx c (vs_agv_id (map_robot_state_with_claims shown st m)) = Some (rs_robot_id st)"
  by (simp add: state_agv resolve_robot_id_def str_trim_ascii [OF nat_string_plain] parse_nat_string)

section \<open>Reservations of a state\<close>

definition held_by :: "(uuid \<Rightarrow> string) \<Rightarrow> claim_manager \<Rightarrow> lease_id \<Rightarrow> reservation_state list" where
  "held_by shown m i =
     (case find_lease m i of None \<Rightarrow> [] | Some l \<Rightarrow> map (target_state shown ''ACTIVE'') (le_targets l))"

definition asked_by :: "(uuid \<Rightarrow> string) \<Rightarrow> claim_manager \<Rightarrow> claim_id \<Rightarrow> reservation_state list" where
  "asked_by shown m i =
     (case find_request m i of None \<Rightarrow> [] | Some r \<Rightarrow> map (target_state shown ''PENDING'') (cr_targets r))"

lemma lease_fold:
  "vs_reservation_states (foldl (lease_step shown m) s is) =
     vs_reservation_states s @ concat (map (held_by shown m) is)
   \<and> vs_errors (foldl (lease_step shown m) s is) =
       vs_errors s @ map (\<lambda>_. ''missing_lease'') (filter (\<lambda>i. find_lease m i = None) is)"
  by (induction "is" arbitrary: s) (auto simp: lease_step_def held_by_def split: option.splits)

lemma pending_fold:
  "vs_reservation_states (foldl (pending_step shown m) s is) =
     vs_reservation_states s @ concat (map (asked_by shown m) is)
   \<and> vs_errors (foldl (pending_step shown m) s is) = vs_errors s"
  by (induction "is" arbitrary: s) (auto simp: pending_step_def asked_by_def split: option.splits)

text \<open>
  A state lists as active exactly the targets of the leases its robot holds, as pending exactly
  those of the claims it waits for, in their order, and one error for every lease that is gone.
\<close>

theorem state_reservations_exact:
  "vs_reservation_states (map_robot_state_with_claims shown st m) =
     concat (map (held_by shown m) (rs_active_lease_ids st)) @ concat (map (asked_by shown m) (rs_pending_claim_ids st))
   \<and> vs_errors (map_robot_state_with_claims shown st m) =
       (if rs_pending_claim_ids st \<noteq> [] then [''pending_claims''] else [])
       @ map (\<lambda>_. ''missing_lease'') (filter (\<lambda>i. find_lease m i = None) (rs_active_lease_ids st))"
  by (simp add: map_robot_state_with_claims_def lease_fold pending_fold Let_def split: option.split)
    (simp add: map_robot_state_def)

section \<open>Orders\<close>

definition order_follows :: "(uuid \<Rightarrow> string) \<Rightarrow> route_plan \<Rightarrow> vda_order \<Rightarrow> bool" where
  "order_follows shown p od =
     (od_order_id od = shown (rp_goal_node_id p)
      \<and> map on_node_id (od_nodes od) = map shown (rp_node_ids p)
      \<and> map on_sequence_id (od_nodes od) = map nat_string [0..<length (rp_node_ids p)]
      \<and> map oe_edge_id (od_edges od) = map shown (rp_edge_ids p)
      \<and> map oe_start_node_id (od_edges od) = map on_node_id (butlast (od_nodes od))
      \<and> map oe_end_node_id (od_edges od) = map on_node_id (tl (od_nodes od)))"

lemma node_loop_map:
  "map on_node_id (node_loop shown p i ns) = map shown ns
   \<and> map on_sequence_id (node_loop shown p i ns) = map nat_string [i..<i + length ns]"
  by (induction ns arbitrary: i) (simp_all add: upt_rec)

lemma edge_loop_returns:
  "i + length es < length (rp_node_ids p) \<or> es = [] \<Longrightarrow> \<exists>edges. edge_loop shown p i es = Returns edges
     \<and> map oe_edge_id edges = map shown es
     \<and> map oe_start_node_id edges = map (\<lambda>j. shown (rp_node_ids p ! j)) [i..<i + length es]
     \<and> map oe_end_node_id edges = map (\<lambda>j. shown (rp_node_ids p ! Suc j)) [i..<i + length es]"
proof (induction es arbitrary: i)
  case (Cons e es)
  then have "Suc i + length es < length (rp_node_ids p) \<or> es = []" by auto
  from Cons.IH [OF this] obtain edges where
    "edge_loop shown p (Suc i) es = Returns edges" "map oe_edge_id edges = map shown es"
    "map oe_start_node_id edges = map (\<lambda>j. shown (rp_node_ids p ! j)) [Suc i..<Suc i + length es]"
    "map oe_end_node_id edges = map (\<lambda>j. shown (rp_node_ids p ! Suc j)) [Suc i..<Suc i + length es]"
    by blast
  moreover have "[i..<i + length (e # es)] = i # [Suc i..<Suc i + length es]"
    by (simp add: upt_conv_Cons del: upt_Suc)
  ultimately show ?case using Cons.prems by (simp del: upt_Suc)
qed simp

lemma map_order:
  "case try_map_route_plan shown p of
     Panics \<Rightarrow> False
   | Returns (Inl err) \<Rightarrow> \<not> plan_shape p
   | Returns (Inr od) \<Rightarrow> plan_shape p \<and> order_follows shown p od"
proof (cases "validate_route_plan_shape p")
  case (Inl err)
  then have "\<not> plan_shape p" using validate_iff [of p] by auto
  with Inl show ?thesis by (simp add: try_map_route_plan_def)
next
  case (Inr n)
  then have shape: "plan_shape p" using validate_iff [of p] by auto
  let ?ns = "rp_node_ids p" and ?es = "rp_edge_ids p"
  have len: "?ns = [] \<and> ?es = [] \<or> length ?ns = Suc (length ?es)"
    using shape by (auto simp: plan_shape_def Let_def split: if_splits)
  then obtain edges where e: "edge_loop shown p 0 ?es = Returns edges" "map oe_edge_id edges = map shown ?es"
      "map oe_start_node_id edges = map (\<lambda>j. shown (?ns ! j)) [0..<length ?es]"
      "map oe_end_node_id edges = map (\<lambda>j. shown (?ns ! Suc j)) [0..<length ?es]"
    using edge_loop_returns [where i = 0 and es = "?es" and p = p and shown = shown] by auto
  have ns: "map on_node_id (node_loop shown p 0 ?ns) = map shown ?ns" by (simp add: node_loop_map)
  have first: "map (\<lambda>j. shown (?ns ! j)) [0..<length ?es] = map shown (butlast ?ns)"
    using len by (auto intro!: nth_equalityI simp: nth_butlast)
  have second: "map (\<lambda>j. shown (?ns ! Suc j)) [0..<length ?es] = map shown (tl ?ns)"
    using len by (auto intro!: nth_equalityI simp: nth_tl)
  have "map on_node_id (butlast (node_loop shown p 0 ?ns)) = map shown (butlast ?ns)"
    "map on_node_id (tl (node_loop shown p 0 ?ns)) = map shown (tl ?ns)"
    using ns by (simp_all add: map_butlast map_tl)
  with Inr shape e first second show ?thesis
    by (simp add: try_map_route_plan_def order_follows_def node_loop_map)
qed

text \<open>
  Turning a plan into an order never panics; it fails exactly on a plan that is not well shaped,
  and otherwise the order has the plan's nodes in sequence and its edges, each from one node to the
  next.
\<close>

theorem order_exact:
  "case try_map_route_plan shown p of
     Panics \<Rightarrow> False
   | Returns (Inl err) \<Rightarrow> \<not> plan_shape p
   | Returns (Inr od) \<Rightarrow> plan_shape p \<and> order_follows shown p od"
  by (rule map_order)

section \<open>Orders over an index\<close>

lemma upd_each_map:
  "(\<And>x y. g (f x y) = g y) \<Longrightarrow> map g (upd_each f xs ys) = map g ys"
  by (induction f xs ys rule: upd_each.induct) auto

lemma upd_each_nth:
  "i < length xs \<Longrightarrow> i < length ys \<Longrightarrow> upd_each f xs ys ! i = f (xs ! i) (ys ! i)"
  by (induction f xs ys arbitrary: i rule: upd_each.induct) (auto simp: nth_Cons split: nat.split)

lemma length_upd_each [simp]: "length (upd_each f xs ys) = length ys"
  by (induction f xs ys rule: upd_each.induct) auto

lemma annotate_ids:
  "on_node_id (annotate_node shown hint ix nid n) = on_node_id n"
  "on_sequence_id (annotate_node shown hint ix nid n) = on_sequence_id n"
  "on_node_id (reserve_node shown ix nid n) = on_node_id n"
  "on_sequence_id (reserve_node shown ix nid n) = on_sequence_id n"
  "oe_edge_id (annotate_edge shown ix eid e) = oe_edge_id e"
  "oe_start_node_id (annotate_edge shown ix eid e) = oe_start_node_id e"
  "oe_end_node_id (annotate_edge shown ix eid e) = oe_end_node_id e"
  by (simp_all add: annotate_node_def reserve_node_def annotate_edge_def Let_def split: option.split list.split)

lemma index_order_follows: "order_follows shown p (index_order shown hint ix p od) = order_follows shown p od"
  by (simp add: order_follows_def index_order_def Let_def map_butlast map_tl upd_each_map annotate_ids)

text \<open>Every zone of a node of the plan that wants a claim is reserved at that node.\<close>

definition order_reserves :: "(uuid \<Rightarrow> string) \<Rightarrow> index \<Rightarrow> route_plan \<Rightarrow> vda_order \<Rightarrow> bool" where
  "order_reserves shown ix p od =
     (\<forall>i < length (rp_node_ids p). \<forall>z \<in> set (zones_of_node ix (rp_node_ids p ! i)).
        zp_requires_claim (parse_zone_policy (z_properties z)) \<longrightarrow>
        (\<exists>r \<in> set (on_reservations (od_nodes od ! i)). rr_target_id r = shown (z_id z)
           \<and> rr_target_kind r = ''zone'' \<and> rr_requires_claim r))"

lemma index_order_reserves:
  assumes "order_follows shown p od"
  shows "order_reserves shown ix p (index_order shown hint ix p od)"
  unfolding order_reserves_def
proof (intro allI ballI impI)
  fix i z
  assume i: "i < length (rp_node_ids p)" and z: "z \<in> set (zones_of_node ix (rp_node_ids p ! i))"
    "zp_requires_claim (parse_zone_policy (z_properties z))"
  have "length (od_nodes od) = length (rp_node_ids p)"
    using assms by (metis order_follows_def length_map)
  with i have n: "od_nodes (index_order shown hint ix p od) ! i =
      reserve_node shown ix (rp_node_ids p ! i)
        (upd_each (annotate_node shown hint ix) (rp_node_ids p) (od_nodes od) ! i)"
    by (simp add: index_order_def Let_def upd_each_nth)
  let ?r = "\<lparr>rr_target_id = shown (z_id z), rr_target_kind = ''zone'', rr_requires_claim = True,
      rr_access_group = zp_access_group (parse_zone_policy (z_properties z)),
      rr_schedule_window = zp_schedule_window (parse_zone_policy (z_properties z))\<rparr>"
  have "?r \<in> set (policy_reservation shown z)" using z(2) by (simp add: policy_reservation_def Let_def)
  with z(1) have "?r \<in> set (on_reservations (od_nodes (index_order shown hint ix p od) ! i))"
    unfolding n by (auto simp: reserve_node_def)
  then show "\<exists>r \<in> set (on_reservations (od_nodes (index_order shown hint ix p od) ! i)).
      rr_target_id r = shown (z_id z) \<and> rr_target_kind r = ''zone'' \<and> rr_requires_claim r"
    by (rule rev_bexI) simp
qed

text \<open>
  C22: every plan the planner makes becomes an order that follows it, and in which each zone of a
  node on the way that wants a claim is reserved.
\<close>

theorem planned_order:
  "case plan_route ho ix start goal pen of
     None \<Rightarrow> False
   | Some r \<Rightarrow>
       (case pr_plan r of
          None \<Rightarrow> True
        | Some p \<Rightarrow>
            \<exists>od. try_map_route_plan_with_index shown hint ix p = Returns (Inr od)
              \<and> order_follows shown p od \<and> order_reserves shown ix p od)"
proof -
  obtain r where r: "plan_route ho ix start goal pen = Some r" "result_ok ix start goal r"
    using plan_route_answer [of ho ix start goal pen] by blast
  show ?thesis
  proof (cases "pr_plan r")
    case (Some p)
    then have "plan_shape p" using r(2) by (auto simp: result_ok_def)
    with map_order [where shown = shown and p = p] obtain od where
      "try_map_route_plan shown p = Returns (Inr od)" "order_follows shown p od"
      by (auto split: run.splits sum.splits)
    with r(1) Some show ?thesis
      by (simp add: try_map_route_plan_with_index_def index_order_follows index_order_reserves)
  qed (simp add: r(1))
qed

text \<open>
  The semantics of an edge is derived with \<open>directed\<close> off, so every edge of an order that the index
  knows is bidirectional, whatever its properties say.
\<close>

lemma derived_undirected: "\<not> es_directed (edge_semantics_for ix eid edge)"
proof -
  have step: "es_directed (derive_step s z) = es_directed s" for s z
    by (simp add: derive_step_def derive_speed_def derive_capacity_def derive_inherit_def derive_closed_def
        derive_bias_def Let_def split: option.split)
  have "es_directed (foldl derive_step s zs) = es_directed s" for s zs
    by (induction zs arbitrary: s) (simp_all add: step)
  then show ?thesis by (simp add: edge_semantics_for_def derive_effective_edge_semantics_def)
qed

lemma always_bidirectional: "ix_edge ix eid \<noteq> None \<Longrightarrow> oe_bidirectional (annotate_edge shown ix eid e)"
  using derived_undirected by (auto simp: annotate_edge_def Let_def)

end
