(* ===== verification/Abi.thy ===== *)
theory Abi
  imports Ffi Orders Berth
begin

text \<open>
  What the C interface guarantees: handles stay sound whatever is called in whatever order, an index
  is refreshed only while nothing else can see it, calls on live handles are defined, and which
  failures leave a reason.
\<close>

section \<open>Every call\<close>

datatype c_call =
  ParseBool cstr | ParseU64 cstr bool | ParseF64 cstr bool
| ParseZonePolicy cstr | ValidateZone cstr | ValidateEdge cstr | VdaOrder cstr | VdaState cstr
| LoadWorkspace cstr | FreeWorkspace ptr
| NewIndex ptr | FreeIndex ptr | RefreshIndex ptr | IndexIssues ptr | IndexValid ptr | IndexRoot ptr
| PlanRoute ptr cstr cstr int
| NewManager | NewManagerOn ptr | FreeManager ptr | RequestCount ptr | LeaseCount ptr
| AddRequest ptr cstr | RemoveRequest ptr u64 | AddLease ptr cstr | ReleaseLease ptr u64 "64 word"
| ExpireLeases ptr u64 | RefreshLease ptr u64 u64 "64 word" | RevokeLease ptr u64 cstr u64
| Evaluate ptr cstr | Requests ptr | Leases ptr
| NewCoordinator | NewCoordinatorOn ptr | FreeCoordinator ptr | RobotCount ptr
| RegisterRobot ptr cstr | UnregisterRobot ptr u64 | RobotState ptr u64 | AssignPlan ptr u64 cstr u64 u64
| ScheduleRoute ptr u64 u64 u64 f64 int | MissedSlot ptr u64 u64 u64

datatype c_value =
  IntV int | U64V u64 | StrV "string option" | PtrV ptr | VoidV | U64Out int "u64 option" | F64Out int "f64 option"

fun map_ret :: "('a \<Rightarrow> 'b) \<Rightarrow> 'a ret \<Rightarrow> 'b ret" where
  "map_ret f (Ret x s) = Ret (f x) s"
| "map_ret f Undefined = Undefined"
| "map_ret f Diverges = Diverges"
| "map_ret f Aborts = Aborts"

fun c_step :: "ffi_env \<Rightarrow> c_call \<Rightarrow> ffi \<Rightarrow> c_value ret" where
  "c_step fx (ParseBool v) s = map_ret IntV (sb_parse_traffic_bool fx v s)"
| "c_step fx (ParseU64 v null) s = map_ret (\<lambda>(i, x). U64Out i x) (sb_parse_traffic_u64 fx v null s)"
| "c_step fx (ParseF64 v null) s = map_ret (\<lambda>(i, x). F64Out i x) (sb_parse_traffic_f64 fx v null s)"
| "c_step fx (ParseZonePolicy j) s = map_ret StrV (sb_parse_zone_policy fx j s)"
| "c_step fx (ValidateZone j) s = map_ret StrV (sb_validate_zone_traffic fx j s)"
| "c_step fx (ValidateEdge j) s = map_ret StrV (sb_validate_edge_traffic fx j s)"
| "c_step fx (VdaOrder j) s = map_ret StrV (sb_vda_order_from_route fx j s)"
| "c_step fx (VdaState j) s = map_ret StrV (sb_vda_state_from_robot fx j s)"
| "c_step fx (LoadWorkspace path) s = map_ret PtrV (sb_workspace_load fx path s)"
| "c_step fx (FreeWorkspace p) s = map_ret (\<lambda>_. VoidV) (sb_workspace_free p s)"
| "c_step fx (NewIndex p) s = map_ret PtrV (sb_workspace_index_new fx p s)"
| "c_step fx (FreeIndex p) s = map_ret (\<lambda>_. VoidV) (sb_workspace_index_free p s)"
| "c_step fx (RefreshIndex p) s = map_ret IntV (sb_workspace_index_refresh fx p s)"
| "c_step fx (IndexIssues p) s = map_ret StrV (sb_workspace_index_validation_issues fx p s)"
| "c_step fx (IndexValid p) s = map_ret IntV (sb_workspace_index_is_valid fx p s)"
| "c_step fx (IndexRoot p) s = map_ret StrV (sb_workspace_index_root_zone_id fx p s)"
| "c_step fx (PlanRoute p start goal penalties) s = map_ret StrV (sb_plan_route fx p start goal penalties s)"
| "c_step fx NewManager s = map_ret PtrV (sb_claim_manager_new s)"
| "c_step fx (NewManagerOn p) s = map_ret PtrV (sb_claim_manager_with_index fx p s)"
| "c_step fx (FreeManager p) s = map_ret (\<lambda>_. VoidV) (sb_claim_manager_free p s)"
| "c_step fx (RequestCount p) s = map_ret U64V (sb_claim_manager_request_count p s)"
| "c_step fx (LeaseCount p) s = map_ret U64V (sb_claim_manager_lease_count p s)"
| "c_step fx (AddRequest p j) s = map_ret IntV (sb_claim_manager_add_request fx p j s)"
| "c_step fx (RemoveRequest p i) s = map_ret IntV (sb_claim_manager_remove_request fx p i s)"
| "c_step fx (AddLease p j) s = map_ret IntV (sb_claim_manager_add_lease fx p j s)"
| "c_step fx (ReleaseLease p i t) s = map_ret IntV (sb_claim_manager_release_lease fx p i t s)"
| "c_step fx (ExpireLeases p now) s = map_ret U64V (sb_claim_manager_expire_leases p now s)"
| "c_step fx (RefreshLease p i t x) s = map_ret IntV (sb_claim_manager_refresh_lease fx p i t x s)"
| "c_step fx (RevokeLease p i why t) s = map_ret IntV (sb_claim_manager_revoke_lease fx p i why t s)"
| "c_step fx (Evaluate p j) s = map_ret StrV (sb_claim_manager_evaluate fx p j s)"
| "c_step fx (Requests p) s = map_ret StrV (sb_claim_manager_requests fx p s)"
| "c_step fx (Leases p) s = map_ret StrV (sb_claim_manager_leases fx p s)"
| "c_step fx NewCoordinator s = map_ret PtrV (sb_coordinator_new fx s)"
| "c_step fx (NewCoordinatorOn p) s = map_ret PtrV (sb_coordinator_with_index fx p s)"
| "c_step fx (FreeCoordinator p) s = map_ret (\<lambda>_. VoidV) (sb_coordinator_free p s)"
| "c_step fx (RobotCount p) s = map_ret U64V (sb_coordinator_robot_count p s)"
| "c_step fx (RegisterRobot p j) s = map_ret IntV (sb_coordinator_register_robot fx p j s)"
| "c_step fx (UnregisterRobot p rid) s = map_ret IntV (sb_coordinator_unregister_robot fx p rid s)"
| "c_step fx (RobotState p rid) s = map_ret StrV (sb_coordinator_robot_state fx p rid s)"
| "c_step fx (AssignPlan p rid j horizon t) s =
     map_ret IntV (sb_coordinator_assign_route_plan fx p rid j horizon t s)"
| "c_step fx (ScheduleRoute p rid cid start unit_ticks shared) s =
     map_ret StrV (sb_coordinator_schedule_robot_route fx p rid cid start unit_ticks shared s)"
| "c_step fx (MissedSlot p rid now grace) s =
     map_ret IntV (sb_coordinator_handle_missed_schedule_slot fx p rid now grace s)"

text \<open>A client of the interface: calls in any order, each with its own environment.\<close>

inductive c_run :: "ffi \<Rightarrow> bool" where
  start: "c_run ffi_start"
| call: "c_run s \<Longrightarrow> c_step fx call s = Ret v s' \<Longrightarrow> c_run s'"

section \<open>Sound handles\<close>

text \<open>
  What a manager or coordinator sees is what its counted pointer points at: with none, no index; with
  one, the index that is in that allocation now.
\<close>

definition seen_through :: "(nat \<times> index) list \<Rightarrow> nat option \<Rightarrow> index option \<Rightarrow> bool" where
  "seen_through arcs a oix = (case a of None \<Rightarrow> oix = None | Some a \<Rightarrow> oix \<noteq> None \<and> map_of arcs a = oix)"

definition handles_fresh :: "ffi \<Rightarrow> bool" where
  "handles_fresh s =
     ((\<forall>h \<in> fst ` set (ff_workspaces s). h < ff_fresh s) \<and> (\<forall>h \<in> fst ` set (ff_indexes s). h < ff_fresh s)
      \<and> (\<forall>h \<in> fst ` set (ff_managers s). h < ff_fresh s) \<and> (\<forall>h \<in> fst ` set (ff_coordinators s). h < ff_fresh s)
      \<and> (\<forall>h \<in> fst ` set (ff_arcs s). h < ff_fresh s)
      \<and> distinct (map fst (ff_workspaces s)) \<and> distinct (map fst (ff_indexes s)) \<and> distinct (map fst (ff_managers s))
      \<and> distinct (map fst (ff_coordinators s)) \<and> distinct (map fst (ff_arcs s)))"

definition handles_linked :: "ffi \<Rightarrow> bool" where
  "handles_linked s =
     ((\<forall>(h, a) \<in> set (ff_indexes s). map_of (ff_arcs s) a \<noteq> None)
      \<and> (\<forall>(h, a, m) \<in> set (ff_managers s). seen_through (ff_arcs s) a (cm_index m))
      \<and> (\<forall>(h, a, c) \<in> set (ff_coordinators s).
           seen_through (ff_arcs s) a (co_index c) \<and> seen_through (ff_arcs s) a (cm_index (co_claims c))))"

definition ffi_ok :: "ffi \<Rightarrow> bool" where
  "ffi_ok s = (handles_fresh s \<and> handles_linked s \<and> (\<forall>a \<in> fst ` set (ff_arcs s). strong_count s a \<noteq> 0))"

lemma strong_count_frame [simp]:
  "strong_count (s\<lparr>ff_error := e\<rparr>) = strong_count s" "strong_count (s\<lparr>ff_arcs := arcs\<rparr>) = strong_count s"
  "strong_count (s\<lparr>ff_workspaces := ws\<rparr>) = strong_count s" "strong_count (s\<lparr>ff_fresh := n\<rparr>) = strong_count s"
  by (simp_all add: strong_count_def fun_eq_iff)

lemma ffi_ok_error [simp]: "ffi_ok (s\<lparr>ff_error := e\<rparr>) = ffi_ok s"
  by (simp add: ffi_ok_def handles_fresh_def handles_linked_def)

text \<open>A step that leaves everything but the error alone.\<close>

definition quiet :: "ffi \<Rightarrow> ffi \<Rightarrow> bool" where
  "quiet s s' = (\<exists>e. s' = s\<lparr>ff_error := e\<rparr>)"

lemma quiet_ok: "quiet s s' \<Longrightarrow> ffi_ok s' = ffi_ok s"
  by (auto simp: quiet_def)

lemma quiet_refl [simp]: "quiet s s"
  unfolding quiet_def by (rule exI [of _ "ff_error s"]) simp

lemma quiet_error [simp]: "quiet s (s\<lparr>ff_error := e\<rparr>)"
  by (auto simp: quiet_def)

lemma quiet_trans: "quiet s t \<Longrightarrow> quiet t u \<Longrightarrow> quiet s u"
  by (auto simp: quiet_def)

lemma quiet_clear [simp]: "quiet s (clear_last_error s)"
  by (simp add: clear_last_error_def)

lemma quiet_fail [simp]: "quiet s (set_last_error fx m s)"
  by (simp add: set_last_error_def)

lemma quiet_json_out: "json_out fx v s = (x, s') \<Longrightarrow> quiet s s'"
  by (auto simp: json_out_def to_c_string_def split: sum.splits option.splits)

lemma quiet_json_in: "json_in fx decode p s = (x, s') \<Longrightarrow> quiet s s'"
  by (auto simp: json_in_def split: sum.splits option.splits)

lemma quiet_uuid: "ffi_parse_uuid fx p s = (x, s') \<Longrightarrow> quiet s s'"
  by (auto simp: ffi_parse_uuid_def split: sum.splits option.splits)

lemma quiet_to_c_string: "to_c_string fx t s = (x, s') \<Longrightarrow> quiet s s'"
  by (auto simp: to_c_string_def split: option.splits)

lemmas quiet_dests = quiet_json_out quiet_json_in quiet_uuid quiet_to_c_string

section \<open>Association lists of handles\<close>

lemma update_entries: "(k, w) \<in> set (AList.update h v table) \<Longrightarrow> (k, w) = (h, v) \<or> (k, w) \<in> set table"
  by (induction table) (auto split: if_splits)

lemma count_update:
  "map_of table h = Some (a, x) \<Longrightarrow>
   length (filter (\<lambda>(k, b, y). P b) (AList.update h (a, x') table)) = length (filter (\<lambda>(k, b, y). P b) table)"
  by (induction table) (auto split: if_splits)

lemma map_of_filter_keys: "map_of (filter (\<lambda>(a, x). P a) table) a = (if P a then map_of table a else None)"
  by (induction table) auto

lemma delete_filter: "AList.delete h table = filter (\<lambda>(k, w). k \<noteq> h) table"
  by (auto simp: AList.delete_eq intro: filter_cong)

section \<open>The invariant, kind by kind\<close>

lemma seen_through_other:
  "seen_through arcs a oix \<Longrightarrow> (\<And>x. a = Some x \<Longrightarrow> map_of arcs' x = map_of arcs x) \<Longrightarrow> seen_through arcs' a oix"
  by (auto simp: seen_through_def split: option.splits)

lemma handles_linkedI:
  assumes "\<And>h a. (h, a) \<in> set (ff_indexes s) \<Longrightarrow> map_of (ff_arcs s) a \<noteq> None"
    and "\<And>h a m. (h, a, m) \<in> set (ff_managers s) \<Longrightarrow> seen_through (ff_arcs s) a (cm_index m)"
    and "\<And>h a c. (h, a, c) \<in> set (ff_coordinators s) \<Longrightarrow>
           seen_through (ff_arcs s) a (co_index c) \<and> seen_through (ff_arcs s) a (cm_index (co_claims c))"
  shows "handles_linked s"
  using assms by (auto simp: handles_linked_def)

lemma handles_linkedD:
  assumes "handles_linked s"
  shows "(h, a) \<in> set (ff_indexes s) \<Longrightarrow> map_of (ff_arcs s) a \<noteq> None"
    and "(h, b, m) \<in> set (ff_managers s) \<Longrightarrow> seen_through (ff_arcs s) b (cm_index m)"
    and "(h, b, c) \<in> set (ff_coordinators s) \<Longrightarrow>
           seen_through (ff_arcs s) b (co_index c) \<and> seen_through (ff_arcs s) b (cm_index (co_claims c))"
  using assms by (auto simp: handles_linked_def)

lemma put_manager_ok:
  assumes "ffi_ok s" "map_of (ff_managers s) h = Some (a, m)" "cm_index m' = cm_index m"
  shows "ffi_ok (put_manager h a m' s)"
proof -
  have h: "(h, a, m) \<in> set (ff_managers s)" using assms(2) by (rule map_of_SomeD)
  have ok: "handles_fresh s" "handles_linked s" "\<forall>x \<in> fst ` set (ff_arcs s). strong_count s x \<noteq> 0"
    using assms(1) by (simp_all add: ffi_ok_def)
  have c: "strong_count (put_manager h a m' s) x = strong_count s x" for x
    using count_update [OF assms(2), of "\<lambda>b. b = Some x" m'] by (simp add: strong_count_def put_manager_def)
  have "h < ff_fresh s" using ok(1) h by (force simp: handles_fresh_def)
  then have fresh: "handles_fresh (put_manager h a m' s)"
    using ok(1) by (simp add: handles_fresh_def put_manager_def AList.dom_update AList.distinct_update)
  note links = handles_linkedD [OF ok(2)]
  have linked: "handles_linked (put_manager h a m' s)"
  proof (rule handles_linkedI)
    show "seen_through (ff_arcs (put_manager h a m' s)) b (cm_index n)"
      if "(k, b, n) \<in> set (ff_managers (put_manager h a m' s))" for k b n
      using links(2) h assms(3) update_entries [of k "(b, n)" h "(a, m')" "ff_managers s"] that
      by (auto simp: put_manager_def)
  qed (use links in \<open>simp_all add: put_manager_def\<close>)
  show ?thesis using fresh linked ok(3) c by (simp add: ffi_ok_def) (simp add: put_manager_def)
qed

lemma put_coordinator_ok:
  assumes "ffi_ok s" "map_of (ff_coordinators s) h = Some (a, c)" "co_index c' = co_index c"
    and "cm_index (co_claims c') = cm_index (co_claims c)"
  shows "ffi_ok (put_coordinator h a c' s)"
proof -
  have h: "(h, a, c) \<in> set (ff_coordinators s)" using assms(2) by (rule map_of_SomeD)
  have ok: "handles_fresh s" "handles_linked s" "\<forall>x \<in> fst ` set (ff_arcs s). strong_count s x \<noteq> 0"
    using assms(1) by (simp_all add: ffi_ok_def)
  have n: "strong_count (put_coordinator h a c' s) x = strong_count s x" for x
    using count_update [OF assms(2), of "\<lambda>b. b = Some x" c'] by (simp add: strong_count_def put_coordinator_def)
  have "h < ff_fresh s" using ok(1) h by (force simp: handles_fresh_def)
  then have fresh: "handles_fresh (put_coordinator h a c' s)"
    using ok(1) by (simp add: handles_fresh_def put_coordinator_def AList.dom_update AList.distinct_update)
  note links = handles_linkedD [OF ok(2)]
  have linked: "handles_linked (put_coordinator h a c' s)"
  proof (rule handles_linkedI)
    show "seen_through (ff_arcs (put_coordinator h a c' s)) b (co_index d)
        \<and> seen_through (ff_arcs (put_coordinator h a c' s)) b (cm_index (co_claims d))"
      if "(k, b, d) \<in> set (ff_coordinators (put_coordinator h a c' s))" for k b d
      using links(3) h assms(3,4) update_entries [of k "(b, d)" h "(a, c')" "ff_coordinators s"] that
      by (auto simp: put_coordinator_def)
  qed (use links in \<open>simp_all add: put_coordinator_def\<close>)
  show ?thesis using fresh linked ok(3) n by (simp add: ffi_ok_def) (simp add: put_coordinator_def)
qed

text \<open>Whoever holds a counted pointer keeps its allocation.\<close>

lemma owner_counts:
  "(h, a) \<in> set (ff_indexes s) \<Longrightarrow> strong_count s a \<noteq> 0"
  "(h, Some a, m) \<in> set (ff_managers s) \<Longrightarrow> strong_count s a \<noteq> 0"
  "(h, Some a, c) \<in> set (ff_coordinators s) \<Longrightarrow> strong_count s a \<noteq> 0"
  by (auto simp: strong_count_def filter_empty_conv)

lemma drop_arcs_ok:
  assumes "handles_fresh s" "handles_linked s"
  shows "ffi_ok (drop_arcs s)"
proof -
  let ?arcs = "filter (\<lambda>(a, ix). strong_count s a \<noteq> 0) (ff_arcs s)"
  have m: "map_of ?arcs a = (if strong_count s a \<noteq> 0 then map_of (ff_arcs s) a else None)" for a
    by (rule map_of_filter_keys)
  have "distinct (map fst ?arcs)"
    using assms(1) unfolding handles_fresh_def by (simp add: distinct_map_filter)
  then have fresh: "handles_fresh (drop_arcs s)"
    using assms(1) unfolding handles_fresh_def drop_arcs_def by auto
  note links = handles_linkedD [OF assms(2)] and counts = owner_counts [where s = s]
  have linked: "handles_linked (drop_arcs s)"
  proof (rule handles_linkedI)
    show "map_of (ff_arcs (drop_arcs s)) a \<noteq> None" if "(h, a) \<in> set (ff_indexes (drop_arcs s))" for h a
      using links(1) counts(1) that m by (simp add: drop_arcs_def)
    show "seen_through (ff_arcs (drop_arcs s)) a (cm_index c)" if "(h, a, c) \<in> set (ff_managers (drop_arcs s))" for h a c
      using links(2) [of h a c] counts(2) [of h _ c] that m by (auto simp: drop_arcs_def intro: seen_through_other)
    show "seen_through (ff_arcs (drop_arcs s)) a (co_index c) \<and> seen_through (ff_arcs (drop_arcs s)) a (cm_index (co_claims c))"
      if "(h, a, c) \<in> set (ff_coordinators (drop_arcs s))" for h a c
      using links(3) [of h a c] counts(3) [of h _ c] that m by (auto simp: drop_arcs_def intro: seen_through_other)
  qed
  show ?thesis using fresh linked by (auto simp: ffi_ok_def drop_arcs_def)
qed

lemma refresh_ok:
  assumes "ffi_ok s" "(h, a) \<in> set (ff_indexes s)" "map_of (ff_arcs s) a = Some ix" "strong_count s a = 1"
  shows "ffi_ok (s\<lparr>ff_arcs := AList.update a ix' (ff_arcs s)\<rparr>)"
proof -
  let ?arcs = "AList.update a ix' (ff_arcs s)"
  have "0 < length (filter (\<lambda>(h, b). b = a) (ff_indexes s))"
    unfolding length_greater_0_conv using assms(2) by (auto simp: filter_empty_conv)
  then have alone: "filter (\<lambda>(h, b, m). b = Some a) (ff_managers s) = []" "filter (\<lambda>(h, b, c). b = Some a) (ff_coordinators s) = []"
    using assms(4) unfolding strong_count_def length_0_conv [symmetric] by linarith+
  have others: "b \<noteq> Some a" if "(k, b, x) \<in> set (ff_managers s)" for k b x
    using alone(1) that by (auto simp: filter_empty_conv)
  have others': "b \<noteq> Some a" if "(k, b, x) \<in> set (ff_coordinators s)" for k b x
    using alone(2) that by (auto simp: filter_empty_conv)
  have m: "map_of ?arcs b = (if b = a then Some ix' else map_of (ff_arcs s) b)" for b
    by (simp add: AList.update_conv')
  have keep: "seen_through (ff_arcs s) b oix \<Longrightarrow> b \<noteq> Some a \<Longrightarrow> seen_through ?arcs b oix" for b oix
    by (cases b) (simp_all add: seen_through_def m)
  have "handles_linked s" using assms(1) by (simp add: ffi_ok_def)
  note links = handles_linkedD [OF this]
  have linked: "handles_linked (s\<lparr>ff_arcs := ?arcs\<rparr>)"
  proof (rule handles_linkedI)
    show "map_of (ff_arcs (s\<lparr>ff_arcs := ?arcs\<rparr>)) b \<noteq> None" if "(h, b) \<in> set (ff_indexes (s\<lparr>ff_arcs := ?arcs\<rparr>))" for h b
      using links(1) that m by simp
    show "seen_through (ff_arcs (s\<lparr>ff_arcs := ?arcs\<rparr>)) b (cm_index c)" if "(h, b, c) \<in> set (ff_managers (s\<lparr>ff_arcs := ?arcs\<rparr>))" for h b c
      using keep [OF links(2) [of h b c]] others [of h b c] that by simp
    show "seen_through (ff_arcs (s\<lparr>ff_arcs := ?arcs\<rparr>)) b (co_index c) \<and> seen_through (ff_arcs (s\<lparr>ff_arcs := ?arcs\<rparr>)) b (cm_index (co_claims c))"
      if "(h, b, c) \<in> set (ff_coordinators (s\<lparr>ff_arcs := ?arcs\<rparr>))" for h b c
      using links(3) [of h b c] keep [of b "co_index c"] keep [of b "cm_index (co_claims c)"] others' [of h b c] that by simp
  qed
  have k: "fst ` set ?arcs = fst ` set (ff_arcs s)"
    using assms(3) by (auto simp flip: dom_map_of_conv_image_fst simp: m dom_def)
  then have fresh: "handles_fresh (s\<lparr>ff_arcs := ?arcs\<rparr>)"
    using assms(1) unfolding ffi_ok_def handles_fresh_def by (simp add: AList.distinct_update)
  show ?thesis using fresh linked assms(1) k by (simp add: ffi_ok_def)
qed

section \<open>Every call keeps the handles sound\<close>

lemma quiet_tables:
  assumes "quiet s t"
  shows "ff_arcs t = ff_arcs s" "ff_workspaces t = ff_workspaces s" "ff_indexes t = ff_indexes s"
    "ff_managers t = ff_managers s" "ff_coordinators t = ff_coordinators s" "ff_fresh t = ff_fresh s"
  using assms by (auto simp: quiet_def)

lemma at_index_cases:
  assumes "at_index fx p r k s = Ret x s'"
  shows "quiet s s' \<or> (\<exists>h a ix. (h, a) \<in> set (ff_indexes s) \<and> map_of (ff_arcs s) a = Some ix
           \<and> k a ix (clear_last_error s) = Ret x s')"
  using assms
  by (cases p) (auto simp: at_index_def Let_def quiet_tables [OF quiet_clear] dest: map_of_SomeD
      split: option.splits intro: quiet_trans [OF quiet_clear quiet_fail])

lemma at_index_quiet:
  assumes "at_index fx p r k s = Ret x s'" "\<And>a ix t x t'. k a ix t = Ret x t' \<Longrightarrow> quiet t t'"
  shows "quiet s s'"
  using at_index_cases [OF assms(1)] assms(2) quiet_trans [OF quiet_clear] by blast

lemma at_manager_ok:
  assumes "at_manager fx p r k s = Ret x s'" "ffi_ok s"
    and "\<And>m t y m' t'. k m t = (y, m', t') \<Longrightarrow> cm_index m' = cm_index m \<and> quiet t t'"
  shows "ffi_ok s'"
proof (cases p)
  case Null
  with assms(1,2) quiet_ok [OF quiet_trans [OF quiet_clear quiet_fail]] show ?thesis by (auto simp: at_manager_def Let_def)
next
  case (Ptr h)
  with assms(1) obtain a m m' t where m: "map_of (ff_managers s) h = Some (a, m)"
    "k m (clear_last_error s) = (x, m', t)" "s' = put_manager h a m' t"
    by (auto simp: at_manager_def Let_def quiet_tables [OF quiet_clear] split: option.splits prod.splits)
  with assms(3) have q: "cm_index m' = cm_index m" "quiet s t" using quiet_trans [OF quiet_clear] by blast+
  show ?thesis
    unfolding m(3)
    by (rule put_manager_ok [OF _ _ q(1)]) (use assms(2) m(1) q(2) in \<open>simp_all add: quiet_ok quiet_tables\<close>)
qed

lemma at_coordinator_ok:
  assumes "at_coordinator fx p r k s = Ret x s'" "ffi_ok s"
    and "\<And>c t y c' t'. k c t = Some (y, c', t') \<Longrightarrow>
           co_index c' = co_index c \<and> cm_index (co_claims c') = cm_index (co_claims c) \<and> quiet t t'"
  shows "ffi_ok s'"
proof (cases p)
  case Null
  with assms(1,2) quiet_ok [OF quiet_trans [OF quiet_clear quiet_fail]] show ?thesis by (auto simp: at_coordinator_def Let_def)
next
  case (Ptr h)
  with assms(1) obtain a c c' t where c: "map_of (ff_coordinators s) h = Some (a, c)"
    "k c (clear_last_error s) = Some (x, c', t)" "s' = put_coordinator h a c' t"
    by (auto simp: at_coordinator_def Let_def quiet_tables [OF quiet_clear] split: option.splits prod.splits)
  with assms(3) have q: "co_index c' = co_index c" "cm_index (co_claims c') = cm_index (co_claims c)" "quiet s t"
    using quiet_trans [OF quiet_clear] by blast+
  show ?thesis
    unfolding c(3)
    by (rule put_coordinator_ok [OF _ _ q(1,2)]) (use assms(2) c(1) q(3) in \<open>simp_all add: quiet_ok quiet_tables\<close>)
qed

text \<open>New handles.\<close>

lemma fresh_handle:
  assumes "handles_fresh s"
  shows "ff_fresh s \<notin> fst ` set (ff_workspaces s)" "ff_fresh s \<notin> fst ` set (ff_indexes s)"
    "ff_fresh s \<notin> fst ` set (ff_managers s)" "ff_fresh s \<notin> fst ` set (ff_coordinators s)"
    "ff_fresh s \<notin> fst ` set (ff_arcs s)"
  using assms by (auto simp: handles_fresh_def)

lemma new_manager_ok:
  assumes "new_manager a m s = Ret p s'" "ffi_ok s" "seen_through (ff_arcs s) a (cm_index m)"
  shows "ffi_ok s'"
proof -
  have ok: "handles_fresh s" "handles_linked s" "\<forall>x \<in> fst ` set (ff_arcs s). strong_count s x \<noteq> 0"
    using assms(2) by (simp_all add: ffi_ok_def)
  have s': "s' = s\<lparr>ff_managers := (ff_fresh s, a, m) # ff_managers s, ff_fresh := ff_fresh s + 1\<rparr>"
    using assms(1) by (simp add: new_manager_def)
  have "handles_fresh s'" using ok(1) fresh_handle [OF ok(1)] unfolding s' handles_fresh_def by (auto simp: less_SucI)
  moreover have "handles_linked s'" using ok(2) assms(3) unfolding s' handles_linked_def by auto
  moreover have "strong_count s x \<noteq> 0 \<Longrightarrow> strong_count s' x \<noteq> 0" for x by (auto simp: strong_count_def s')
  ultimately show ?thesis using ok(3) by (auto simp: ffi_ok_def s')
qed

lemma new_coordinator_ok:
  assumes "new_coordinator_handle a c s = Ret p s'" "ffi_ok s"
    and "seen_through (ff_arcs s) a (co_index c)" "seen_through (ff_arcs s) a (cm_index (co_claims c))"
  shows "ffi_ok s'"
proof -
  have ok: "handles_fresh s" "handles_linked s" "\<forall>x \<in> fst ` set (ff_arcs s). strong_count s x \<noteq> 0"
    using assms(2) by (simp_all add: ffi_ok_def)
  have s': "s' = s\<lparr>ff_coordinators := (ff_fresh s, a, c) # ff_coordinators s, ff_fresh := ff_fresh s + 1\<rparr>"
    using assms(1) by (simp add: new_coordinator_handle_def)
  have "handles_fresh s'" using ok(1) fresh_handle [OF ok(1)] unfolding s' handles_fresh_def by (auto simp: less_SucI)
  moreover have "handles_linked s'" using ok(2) assms(3,4) unfolding s' handles_linked_def by auto
  moreover have "strong_count s x \<noteq> 0 \<Longrightarrow> strong_count s' x \<noteq> 0" for x by (auto simp: strong_count_def s')
  ultimately show ?thesis using ok(3) by (auto simp: ffi_ok_def s')
qed

lemma new_index_ok:
  assumes "ffi_ok s" "a = ff_fresh s"
  shows "ffi_ok (s\<lparr>ff_arcs := (a, ix) # ff_arcs s, ff_indexes := (a + 1, a) # ff_indexes s, ff_fresh := a + 2\<rparr>)"
    (is "ffi_ok ?s")
proof -
  have ok: "handles_fresh s" "handles_linked s" "\<forall>x \<in> fst ` set (ff_arcs s). strong_count s x \<noteq> 0"
    using assms(1) by (simp_all add: ffi_ok_def)
  have n: "a \<notin> fst ` set (ff_arcs s)" using fresh_handle(5) [OF ok(1)] assms(2) by simp
  have "handles_fresh ?s"
    using ok(1) fresh_handle [OF ok(1)] unfolding handles_fresh_def assms(2)
    by (auto simp: less_SucI dest: bspec [of "fst ` set (ff_indexes s)"])
  moreover have "seen_through ((a, ix) # ff_arcs s) b oix" if "seen_through (ff_arcs s) b oix" for b oix
    using that n map_of_SomeD [of "ff_arcs s" a]
    by (auto simp: seen_through_def image_iff split: option.splits if_splits) force+
  then have "handles_linked ?s" using ok(2) unfolding handles_linked_def by auto
  moreover have "strong_count s x \<noteq> 0 \<Longrightarrow> strong_count ?s x \<noteq> 0" "strong_count ?s a \<noteq> 0" for x
    by (auto simp: strong_count_def)
  ultimately show ?thesis using ok(3) by (auto simp: ffi_ok_def)
qed

text \<open>Freed handles.\<close>

lemma freed_fresh:
  assumes "handles_fresh s"
  shows "handles_fresh (s\<lparr>ff_indexes := AList.delete h (ff_indexes s)\<rparr>)"
    "handles_fresh (s\<lparr>ff_managers := AList.delete h (ff_managers s)\<rparr>)"
    "handles_fresh (s\<lparr>ff_coordinators := AList.delete h (ff_coordinators s)\<rparr>)"
    "handles_fresh (s\<lparr>ff_workspaces := AList.delete h (ff_workspaces s)\<rparr>)"
  using assms by (auto simp: handles_fresh_def delete_filter distinct_map_filter)

lemma freed_linked:
  assumes "handles_linked s"
  shows "handles_linked (s\<lparr>ff_indexes := AList.delete h (ff_indexes s)\<rparr>)"
    "handles_linked (s\<lparr>ff_managers := AList.delete h (ff_managers s)\<rparr>)"
    "handles_linked (s\<lparr>ff_coordinators := AList.delete h (ff_coordinators s)\<rparr>)"
    "handles_linked (s\<lparr>ff_workspaces := AList.delete h (ff_workspaces s)\<rparr>)"
  using assms by (auto simp: handles_linked_def delete_filter)

lemma free_ok:
  assumes "ffi_ok s"
  shows "ffi_ok (drop_arcs (s\<lparr>ff_indexes := AList.delete h (ff_indexes s)\<rparr>))"
    "ffi_ok (drop_arcs (s\<lparr>ff_managers := AList.delete h (ff_managers s)\<rparr>))"
    "ffi_ok (drop_arcs (s\<lparr>ff_coordinators := AList.delete h (ff_coordinators s)\<rparr>))"
    "ffi_ok (s\<lparr>ff_workspaces := AList.delete h (ff_workspaces s)\<rparr>)"
proof -
  have ok: "handles_fresh s" "handles_linked s" using assms by (simp_all add: ffi_ok_def)
  note kept = freed_fresh [OF ok(1), of h] freed_linked [OF ok(2), of h]
  show "ffi_ok (drop_arcs (s\<lparr>ff_indexes := AList.delete h (ff_indexes s)\<rparr>))"
    "ffi_ok (drop_arcs (s\<lparr>ff_managers := AList.delete h (ff_managers s)\<rparr>))"
    "ffi_ok (drop_arcs (s\<lparr>ff_coordinators := AList.delete h (ff_coordinators s)\<rparr>))"
    using kept by (simp_all add: drop_arcs_ok)
  show "ffi_ok (s\<lparr>ff_workspaces := AList.delete h (ff_workspaces s)\<rparr>)"
    using assms kept by (simp add: ffi_ok_def)
qed

text \<open>What a call leaves of the index of a manager and of a coordinator.\<close>

lemma manager_index_kept:
  "cm_index (add_request m r) = cm_index m" "cm_index (add_lease m l) = cm_index m"
  "cm_index (snd (remove_request m i)) = cm_index m" "cm_index (snd (release_lease m i t)) = cm_index m"
  "cm_index (snd (refresh_lease m i n x)) = cm_index m" "cm_index (snd (revoke_lease m i why n)) = cm_index m"
  "cm_index (snd (expire_leases m n)) = cm_index m"
  by (simp_all add: add_request_def upsert_request_def add_lease_def upsert_lease_def remove_request_def
      release_lease_def archive_at_def refresh_lease_def revoke_lease_def expire_leases_def Let_def
      split: option.split prod.split)

lemma coordinator_index_kept:
  "co_index (register_robot c r) = co_index c" "co_claims (register_robot c r) = co_claims c"
  "co_index (snd (unregister_robot c rid)) = co_index c"
  "cm_index (co_claims (snd (unregister_robot c rid))) = cm_index (co_claims c)"
  "co_index (snd (assign_route_plan c rid plan n t)) = co_index c"
  "co_claims (snd (assign_route_plan c rid plan n t)) = co_claims c"
  "co_index (snd (handle_missed_schedule_slot c rid t n)) = co_index c"
  "cm_index (co_claims (snd (handle_missed_schedule_slot c rid t n))) = cm_index (co_claims c)"
  "schedule_robot_route c rid cid t u mode = Some (d, c') \<Longrightarrow> co_index c' = co_index c"
  "schedule_robot_route c rid cid t u mode = Some (d, c') \<Longrightarrow> co_claims c' = co_claims c"
  by (auto simp: register_robot_def unregister_robot_def assign_route_plan_def handle_missed_schedule_slot_def
      schedule_robot_route_def update_robot_def remove_requests_for_robot_def release_leases_for_robot_def Let_def
      split: option.splits prod.splits)

text \<open>Calls that change nothing but the last error.\<close>

lemma quiet_cleared: "quiet (clear_last_error s) t \<Longrightarrow> quiet s t"
  by (rule quiet_trans [OF quiet_clear])

lemma quiet_json_answer: "returned (json_out fx v s) = Ret x t \<Longrightarrow> quiet s t"
  by (cases "json_out fx v s") (auto simp: returned_def dest: quiet_json_out)

lemma quiet_text_answer: "returned (to_c_string fx r s) = Ret x t \<Longrightarrow> quiet s t"
  by (cases "to_c_string fx r s") (auto simp: returned_def dest: quiet_to_c_string)

lemmas quiet_answers = quiet_json_answer quiet_text_answer

lemma quiet_through:
  "parse_through fx parse v null s = Ret x t \<Longrightarrow> quiet s t"
  by (auto simp: parse_through_def Let_def intro: quiet_cleared split: option.splits sum.splits if_splits)

lemma quiet_json_through: "json_through fx decode f p s = Ret x t \<Longrightarrow> quiet s t"
  by (auto simp: json_through_def split: prod.splits option.splits
      dest!: quiet_json_in quiet_answers intro: quiet_cleared quiet_trans)

lemma quiet_order: "sb_vda_order_from_route fx p s = Ret x t \<Longrightarrow> quiet s t"
  by (auto simp: sb_vda_order_from_route_def split: prod.splits option.splits run.splits
      dest!: quiet_json_in quiet_answers intro: quiet_cleared quiet_trans)

lemma quiet_bool: "sb_parse_traffic_bool fx v s = Ret x t \<Longrightarrow> quiet s t"
  by (auto simp: sb_parse_traffic_bool_def Let_def split: option.splits sum.splits intro: quiet_cleared)

lemma quiet_plan: "sb_plan_route fx p start goal pen s = Ret x t \<Longrightarrow> quiet s t"
  unfolding sb_plan_route_def
  by (erule at_index_quiet)
    (auto split: prod.splits option.splits dest!: quiet_uuid quiet_answers intro: quiet_trans)

lemma quiet_index_reads:
  "sb_workspace_index_validation_issues fx p s = Ret x t \<Longrightarrow> quiet s t"
  "sb_workspace_index_is_valid fx p s = Ret i t \<Longrightarrow> quiet s t"
  "sb_workspace_index_root_zone_id fx p s = Ret x t \<Longrightarrow> quiet s t"
  unfolding sb_workspace_index_validation_issues_def sb_workspace_index_is_valid_def sb_workspace_index_root_zone_id_def
  by (erule at_index_quiet, auto split: option.splits dest: quiet_answers)+

lemma quiet_manager_reads:
  "sb_claim_manager_request_count p s = Ret n t \<Longrightarrow> quiet s t"
  "sb_claim_manager_lease_count p s = Ret n t \<Longrightarrow> quiet s t"
  "sb_coordinator_robot_count p s = Ret n t \<Longrightarrow> quiet s t"
  "sb_claim_manager_requests fx p s = Ret x t \<Longrightarrow> quiet s t"
  "sb_claim_manager_leases fx p s = Ret x t \<Longrightarrow> quiet s t"
  "sb_claim_manager_evaluate fx p j s = Ret x t \<Longrightarrow> quiet s t"
  by (cases p; auto simp: sb_claim_manager_request_count_def sb_claim_manager_lease_count_def sb_coordinator_robot_count_def
        sb_claim_manager_requests_def sb_claim_manager_leases_def sb_claim_manager_evaluate_def Let_def
        split: option.splits prod.splits dest!: quiet_json_in quiet_answers intro: quiet_cleared quiet_trans)+

text \<open>The calls that change a manager or a coordinator.\<close>

lemma found_pair: "found_or_minus_one r t = (y, m, t') \<Longrightarrow> m = snd r \<and> t' = t"
  by (auto simp: found_or_minus_one_def split: prod.splits)

lemma manager_calls_ok:
  assumes "ffi_ok s"
  shows "sb_claim_manager_add_request fx p j s = Ret i t \<Longrightarrow> ffi_ok t"
    "sb_claim_manager_add_lease fx p j s = Ret i t \<Longrightarrow> ffi_ok t"
    "sb_claim_manager_remove_request fx p c s = Ret i t \<Longrightarrow> ffi_ok t"
    "sb_claim_manager_release_lease fx p c tick s = Ret i t \<Longrightarrow> ffi_ok t"
    "sb_claim_manager_refresh_lease fx p c n tick s = Ret i t \<Longrightarrow> ffi_ok t"
    "sb_claim_manager_revoke_lease fx p c why n s = Ret i t \<Longrightarrow> ffi_ok t"
  unfolding sb_claim_manager_add_request_def sb_claim_manager_add_lease_def sb_claim_manager_remove_request_def
    sb_claim_manager_release_lease_def sb_claim_manager_refresh_lease_def sb_claim_manager_revoke_lease_def
  by (erule at_manager_ok [OF _ assms];
      auto simp: manager_index_kept dest: found_pair quiet_json_in split: prod.splits option.splits)+

lemma expire_ok:
  assumes "ffi_ok s" "sb_claim_manager_expire_leases p now s = Ret n t"
  shows "ffi_ok t"
proof (cases p)
  case (Ptr h)
  with assms(2) obtain a m where "map_of (ff_managers s) h = Some (a, m)" "t = put_manager h a (snd (expire_leases m now)) s"
    by (auto simp: sb_claim_manager_expire_leases_def split: option.splits prod.splits)
  with put_manager_ok [OF assms(1)] show ?thesis by (simp add: manager_index_kept)
qed (use assms in \<open>simp add: sb_claim_manager_expire_leases_def\<close>)

lemma missed_slot_kept:
  "handle_missed_schedule_slot c rid t n = (b, c') \<Longrightarrow>
   co_index c' = co_index c \<and> cm_index (co_claims c') = cm_index (co_claims c)"
  using coordinator_index_kept(7,8) [of c rid t n] by simp

lemma coordinator_calls_ok:
  assumes "ffi_ok s"
  shows "sb_coordinator_register_robot fx p j s = Ret i t \<Longrightarrow> ffi_ok t"
    "sb_coordinator_unregister_robot fx p rid s = Ret i t \<Longrightarrow> ffi_ok t"
    "sb_coordinator_robot_state fx p rid s = Ret x t \<Longrightarrow> ffi_ok t"
    "sb_coordinator_assign_route_plan fx p rid j n tick s = Ret i t \<Longrightarrow> ffi_ok t"
    "sb_coordinator_schedule_robot_route fx p rid cid start u shared s = Ret x t \<Longrightarrow> ffi_ok t"
    "sb_coordinator_handle_missed_schedule_slot fx p rid now n s = Ret i t \<Longrightarrow> ffi_ok t"
  unfolding sb_coordinator_register_robot_def sb_coordinator_unregister_robot_def sb_coordinator_robot_state_def
    sb_coordinator_assign_route_plan_def sb_coordinator_schedule_robot_route_def sb_coordinator_handle_missed_schedule_slot_def
  by (erule at_coordinator_ok [OF _ assms];
      auto simp: coordinator_index_kept dest!: found_pair missed_slot_kept dest: quiet_dests
        split: prod.splits option.splits)+

text \<open>New handles and freed ones.\<close>

lemma alloc_ok:
  assumes "ffi_ok s"
  shows "sb_workspace_load fx path s = Ret p t \<Longrightarrow> ffi_ok t"
    "sb_workspace_index_new fx q s = Ret p t \<Longrightarrow> ffi_ok t"
    "sb_claim_manager_new s = Ret p t \<Longrightarrow> ffi_ok t"
    "sb_claim_manager_with_index fx q s = Ret p t \<Longrightarrow> ffi_ok t"
    "sb_coordinator_new fx s = Ret p t \<Longrightarrow> ffi_ok t"
    "sb_coordinator_with_index fx q s = Ret p t \<Longrightarrow> ffi_ok t"
proof -
  have cleared: "ffi_ok (clear_last_error s)" using assms by (simp add: clear_last_error_def)
  show "ffi_ok t" if "sb_workspace_load fx path s = Ret p t"
  proof -
    have "ffi_ok (u\<lparr>ff_workspaces := (ff_fresh u, w) # ff_workspaces u, ff_fresh := ff_fresh u + 1\<rparr>)"
      if "ffi_ok u" for u w
      using that fresh_handle(1) [of u] unfolding ffi_ok_def handles_fresh_def handles_linked_def
      by (auto simp: less_SucI)
    with that cleared show ?thesis
      by (auto simp: sb_workspace_load_def Let_def set_last_error_def split: option.splits sum.splits)
  qed
  show "ffi_ok t" if "sb_workspace_index_new fx q s = Ret p t"
    using that cleared new_index_ok [OF cleared refl]
    by (cases q) (auto simp: sb_workspace_index_new_def Let_def set_last_error_def split: option.splits)
  show "ffi_ok t" if "sb_claim_manager_new s = Ret p t"
    using that assms by (auto simp: sb_claim_manager_new_def seen_through_def cm_new_def intro: new_manager_ok)
  show "ffi_ok t" if "sb_coordinator_new fx s = Ret p t"
    using that assms by (auto simp: sb_coordinator_new_def seen_through_def co_default_def cm_new_def intro: new_coordinator_ok)
  show "ffi_ok t" if "sb_claim_manager_with_index fx q s = Ret p t"
    using at_index_cases [OF that [unfolded sb_claim_manager_with_index_def]] assms quiet_ok cleared
    by (auto simp: seen_through_def cm_with_index_def quiet_tables [OF quiet_clear] intro: new_manager_ok)
  show "ffi_ok t" if "sb_coordinator_with_index fx q s = Ret p t"
    using at_index_cases [OF that [unfolded sb_coordinator_with_index_def]] assms quiet_ok cleared
    by (auto simp: seen_through_def co_with_index_def cm_with_index_def quiet_tables [OF quiet_clear] intro: new_coordinator_ok)
qed

lemma frees_ok:
  assumes "ffi_ok s"
  shows "sb_workspace_free p s = Ret () t \<Longrightarrow> ffi_ok t" "sb_workspace_index_free p s = Ret () t \<Longrightarrow> ffi_ok t"
    "sb_claim_manager_free p s = Ret () t \<Longrightarrow> ffi_ok t" "sb_coordinator_free p s = Ret () t \<Longrightarrow> ffi_ok t"
  using assms free_ok [OF assms]
  by (cases p; auto simp: sb_workspace_free_def sb_workspace_index_free_def sb_claim_manager_free_def
      sb_coordinator_free_def split: option.splits)+

lemma refresh_call_ok:
  assumes "ffi_ok s" "sb_workspace_index_refresh fx p s = Ret i t"
  shows "ffi_ok t"
proof -
  have cleared: "ffi_ok (clear_last_error s)" using assms(1) by (simp add: clear_last_error_def)
  from at_index_cases [OF assms(2) [unfolded sb_workspace_index_refresh_def]] show ?thesis
  proof (elim disjE exE conjE)
    fix h a ix
    assume "(h, a) \<in> set (ff_indexes s)" "map_of (ff_arcs s) a = Some ix"
      "(if strong_count (clear_last_error s) a = 1
        then Ret 0 (clear_last_error s\<lparr>ff_arcs := AList.update a (rebuild (fx_ho fx) (ix_workspace ix)) (ff_arcs (clear_last_error s))\<rparr>)
        else Ret (- 1) (set_last_error fx (Lit ''workspace index has outstanding shared owners'') (clear_last_error s))) = Ret i t"
    then show ?thesis
      using refresh_ok [OF cleared, of h a] cleared
      by (auto simp: quiet_tables [OF quiet_clear] set_last_error_def split: if_splits)
  qed (use assms(1) quiet_ok in blast)
qed

lemma map_ret_Ret: "map_ret f r = Ret v t \<longleftrightarrow> (\<exists>x. r = Ret x t \<and> f x = v)"
  by (cases r) auto

lemmas quiet_calls = quiet_through quiet_json_through quiet_order quiet_bool quiet_plan quiet_index_reads quiet_manager_reads

lemmas sb_values = sb_parse_traffic_u64_def sb_parse_traffic_f64_def sb_parse_zone_policy_def
  sb_validate_zone_traffic_def sb_validate_edge_traffic_def sb_vda_state_from_robot_def

lemma c_step_ok:
  assumes "c_step fx call s = Ret v t" "ffi_ok s"
  shows "ffi_ok t"
  using assms(1)
  by (cases call)
    (auto simp: map_ret_Ret sb_values quiet_ok assms(2) alloc_ok [OF assms(2)]
      dest: quiet_calls [THEN quiet_ok] alloc_ok [OF assms(2)] frees_ok [OF assms(2)] refresh_call_ok [OF assms(2)]
        manager_calls_ok [OF assms(2)] expire_ok [OF assms(2)] coordinator_calls_ok [OF assms(2)])

lemma c_run_ok: "c_run s \<Longrightarrow> ffi_ok s"
proof (induction rule: c_run.induct)
  case start
  show ?case by (simp add: ffi_start_def ffi_ok_def handles_fresh_def handles_linked_def)
qed (rule c_step_ok)

text \<open>
  C20: whatever is called in whatever order, every index handle points at a live index, every manager
  and coordinator works on exactly the index its counted pointer points at (a refresh never changes
  it under them), and no index outlives its last owner.
\<close>

theorem handles_sound:
  assumes "c_run s"
  shows "(\<forall>(h, a) \<in> set (ff_indexes s). map_of (ff_arcs s) a \<noteq> None)
    \<and> (\<forall>(h, a, m) \<in> set (ff_managers s). cm_index m = opt_bind a (map_of (ff_arcs s)))
    \<and> (\<forall>(h, a, c) \<in> set (ff_coordinators s).
         co_index c = opt_bind a (map_of (ff_arcs s)) \<and> cm_index (co_claims c) = opt_bind a (map_of (ff_arcs s)))
    \<and> (\<forall>(a, ix) \<in> set (ff_arcs s). strong_count s a \<noteq> 0)"
proof -
  have ok: "handles_linked s" "\<forall>a \<in> fst ` set (ff_arcs s). strong_count s a \<noteq> 0"
    using c_run_ok [OF assms] by (simp_all add: ffi_ok_def)
  have "oix = opt_bind a (map_of (ff_arcs s))" if "seen_through (ff_arcs s) a oix" for a oix
    using that by (cases a) (auto simp: seen_through_def opt_bind_def)
  note seen = this
  note links = handles_linkedD [OF ok(1)]
  show ?thesis
  proof (intro conjI)
    show "\<forall>(h, a) \<in> set (ff_indexes s). map_of (ff_arcs s) a \<noteq> None" using links(1) by blast
    show "\<forall>(h, a, m) \<in> set (ff_managers s). cm_index m = opt_bind a (map_of (ff_arcs s))"
      using seen [OF links(2)] by blast
    show "\<forall>(h, a, c) \<in> set (ff_coordinators s).
        co_index c = opt_bind a (map_of (ff_arcs s)) \<and> cm_index (co_claims c) = opt_bind a (map_of (ff_arcs s))"
      using seen [OF conjunct1 [OF links(3)]] seen [OF conjunct2 [OF links(3)]] by blast
    show "\<forall>(a, ix) \<in> set (ff_arcs s). strong_count s a \<noteq> 0" using ok(2) by force
  qed
qed

section \<open>Calls on live handles\<close>

definition live_in :: "(nat \<times> 'h) list \<Rightarrow> ptr \<Rightarrow> bool" where
  "live_in table p = (case p of Null \<Rightarrow> True | Ptr h \<Rightarrow> h \<in> fst ` set table)"

fun live :: "ffi \<Rightarrow> c_call \<Rightarrow> bool" where
  "live s (FreeWorkspace p) = live_in (ff_workspaces s) p"
| "live s (NewIndex p) = live_in (ff_workspaces s) p"
| "live s (FreeIndex p) = live_in (ff_indexes s) p"
| "live s (RefreshIndex p) = live_in (ff_indexes s) p"
| "live s (IndexIssues p) = live_in (ff_indexes s) p"
| "live s (IndexValid p) = live_in (ff_indexes s) p"
| "live s (IndexRoot p) = live_in (ff_indexes s) p"
| "live s (PlanRoute p a b n) = live_in (ff_indexes s) p"
| "live s (NewManagerOn p) = live_in (ff_indexes s) p"
| "live s (NewCoordinatorOn p) = live_in (ff_indexes s) p"
| "live s (FreeManager p) = live_in (ff_managers s) p"
| "live s (RequestCount p) = live_in (ff_managers s) p"
| "live s (LeaseCount p) = live_in (ff_managers s) p"
| "live s (AddRequest p j) = live_in (ff_managers s) p"
| "live s (RemoveRequest p i) = live_in (ff_managers s) p"
| "live s (AddLease p j) = live_in (ff_managers s) p"
| "live s (ReleaseLease p i t) = live_in (ff_managers s) p"
| "live s (ExpireLeases p now) = live_in (ff_managers s) p"
| "live s (RefreshLease p i t x) = live_in (ff_managers s) p"
| "live s (RevokeLease p i why t) = live_in (ff_managers s) p"
| "live s (Evaluate p j) = live_in (ff_managers s) p"
| "live s (Requests p) = live_in (ff_managers s) p"
| "live s (Leases p) = live_in (ff_managers s) p"
| "live s (FreeCoordinator p) = live_in (ff_coordinators s) p"
| "live s (RobotCount p) = live_in (ff_coordinators s) p"
| "live s (RegisterRobot p j) = live_in (ff_coordinators s) p"
| "live s (UnregisterRobot p rid) = live_in (ff_coordinators s) p"
| "live s (RobotState p rid) = live_in (ff_coordinators s) p"
| "live s (AssignPlan p rid j n t) = live_in (ff_coordinators s) p"
| "live s (ScheduleRoute p rid cid t u m) = live_in (ff_coordinators s) p"
| "live s (MissedSlot p rid t g) = live_in (ff_coordinators s) p"
| "live s _ = True"

definition defined_ret :: "'r ret \<Rightarrow> bool" where
  "defined_ret r = (r \<noteq> Undefined \<and> r \<noteq> Aborts)"

lemma defined_ret_simps [simp]:
  "defined_ret (Ret x s)" "defined_ret Diverges" "\<not> defined_ret Undefined" "\<not> defined_ret Aborts"
  "defined_ret (map_ret f r) = defined_ret r" "defined_ret (returned p)"
  by (cases r; simp add: defined_ret_def returned_def split: prod.split)+

lemma live_in_some: "live_in table (Ptr h) \<Longrightarrow> \<exists>x. map_of table h = Some x"
  using map_of_eq_None_iff [of table h] by (cases "map_of table h") (auto simp: live_in_def)

lemma at_handle_defined:
  assumes "live_in table p" "defined_ret r" "\<And>h x. (h, x) \<in> set table \<Longrightarrow> defined_ret (k h x)"
  shows "defined_ret (at_handle table p r k)"
proof (cases p)
  case (Ptr h)
  with assms(1) obtain x where "map_of table h = Some x" using live_in_some by blast
  with assms(3) [OF map_of_SomeD [OF this]] Ptr show ?thesis by simp
qed (simp add: assms(2))

lemma at_index_defined:
  assumes "ffi_ok s" "live_in (ff_indexes s) p" "\<And>a ix t. defined_ret (k a ix t)"
  shows "defined_ret (at_index fx p r k s)"
proof -
  have "map_of (ff_arcs s) a \<noteq> None" if "(h, a) \<in> set (ff_indexes s)" for h a
    using assms(1) handles_linkedD(1) [of s h a] that by (simp add: ffi_ok_def)
  then show ?thesis
    unfolding at_index_def Let_def
    by (intro at_handle_defined) (use assms(2,3) in \<open>auto simp: quiet_tables [OF quiet_clear] split: option.split\<close>)
qed

lemma at_manager_defined: "live_in (ff_managers s) p \<Longrightarrow> defined_ret (at_manager fx p r k s)"
  unfolding at_manager_def Let_def
  by (intro at_handle_defined) (auto simp: quiet_tables [OF quiet_clear] split: prod.split)

lemma at_coordinator_defined: "live_in (ff_coordinators s) p \<Longrightarrow> defined_ret (at_coordinator fx p r k s)"
  unfolding at_coordinator_def Let_def
  by (intro at_handle_defined) (auto simp: quiet_tables [OF quiet_clear] split: prod.split option.split)

lemma json_through_defined: "defined_ret (json_through fx decode f p s)"
  by (auto simp: json_through_def split: prod.split option.split)

lemma parse_through_defined: "defined_ret (parse_through fx parse v null s)"
  by (auto simp: parse_through_def Let_def split: option.split sum.split)

lemma order_defined: "defined_ret (sb_vda_order_from_route fx j s)"
proof -
  have "map_route_plan shown plan \<noteq> Panics" for shown plan
    using map_order [where shown = shown and p = plan] by (cases "try_map_route_plan shown plan") (auto simp: map_route_plan_def)
  then show ?thesis
    by (auto simp: sb_vda_order_from_route_def split: prod.split option.split run.split)
qed

lemma index_calls_defined:
  assumes "ffi_ok s" "live_in (ff_indexes s) p"
  shows "defined_ret (sb_workspace_index_refresh fx p s)" "defined_ret (sb_workspace_index_validation_issues fx p s)"
    "defined_ret (sb_workspace_index_is_valid fx p s)" "defined_ret (sb_workspace_index_root_zone_id fx p s)"
    "defined_ret (sb_plan_route fx p start goal pen s)" "defined_ret (sb_claim_manager_with_index fx p s)"
    "defined_ret (sb_coordinator_with_index fx p s)"
  unfolding sb_workspace_index_refresh_def sb_workspace_index_validation_issues_def sb_workspace_index_is_valid_def
    sb_workspace_index_root_zone_id_def sb_plan_route_def sb_claim_manager_with_index_def sb_coordinator_with_index_def
    new_manager_def new_coordinator_handle_def
  by (rule at_index_defined [OF assms]; auto split: option.split prod.split)+

lemma handle_calls_defined:
  "live_in (ff_workspaces s) p \<Longrightarrow> defined_ret (sb_workspace_free p s)"
  "live_in (ff_workspaces s) p \<Longrightarrow> defined_ret (sb_workspace_index_new fx p s)"
  "live_in (ff_indexes s) p \<Longrightarrow> defined_ret (sb_workspace_index_free p s)"
  "live_in (ff_managers s) p \<Longrightarrow> defined_ret (sb_claim_manager_free p s)"
  "live_in (ff_managers s) p \<Longrightarrow> defined_ret (sb_claim_manager_request_count p s)"
  "live_in (ff_managers s) p \<Longrightarrow> defined_ret (sb_claim_manager_lease_count p s)"
  "live_in (ff_managers s) p \<Longrightarrow> defined_ret (sb_claim_manager_expire_leases p now s)"
  "live_in (ff_managers s) p \<Longrightarrow> defined_ret (sb_claim_manager_evaluate fx p j s)"
  "live_in (ff_managers s) p \<Longrightarrow> defined_ret (sb_claim_manager_requests fx p s)"
  "live_in (ff_managers s) p \<Longrightarrow> defined_ret (sb_claim_manager_leases fx p s)"
  "live_in (ff_coordinators s) p \<Longrightarrow> defined_ret (sb_coordinator_free p s)"
  "live_in (ff_coordinators s) p \<Longrightarrow> defined_ret (sb_coordinator_robot_count p s)"
  unfolding sb_workspace_free_def sb_workspace_index_new_def sb_workspace_index_free_def sb_claim_manager_free_def
    sb_claim_manager_request_count_def sb_claim_manager_lease_count_def sb_claim_manager_expire_leases_def
    sb_claim_manager_evaluate_def sb_claim_manager_requests_def sb_claim_manager_leases_def sb_coordinator_free_def
    sb_coordinator_robot_count_def Let_def quiet_tables [OF quiet_clear]
  by (rule at_handle_defined; auto split: prod.split option.split)+

lemma value_calls_defined:
  "defined_ret (sb_parse_traffic_bool fx v s)" "defined_ret (sb_workspace_load fx path s)"
  "defined_ret (sb_claim_manager_new s)" "defined_ret (sb_coordinator_new fx s)"
  by (auto simp: sb_parse_traffic_bool_def sb_workspace_load_def sb_claim_manager_new_def new_manager_def
      sb_coordinator_new_def new_coordinator_handle_def Let_def split: option.split sum.split)

lemmas locked_defs = sb_claim_manager_add_request_def sb_claim_manager_add_lease_def sb_claim_manager_remove_request_def
  sb_claim_manager_release_lease_def sb_claim_manager_refresh_lease_def sb_claim_manager_revoke_lease_def
  sb_coordinator_register_robot_def sb_coordinator_unregister_robot_def sb_coordinator_robot_state_def
  sb_coordinator_assign_route_plan_def sb_coordinator_schedule_robot_route_def
  sb_coordinator_handle_missed_schedule_slot_def

text \<open>
  C21: a call whose handles are live or null is never undefined behaviour and never aborts.
\<close>

theorem calls_defined:
  assumes "c_run s" "live s call"
  shows "c_step fx call s \<noteq> Undefined \<and> c_step fx call s \<noteq> Aborts"
proof -
  have "defined_ret (c_step fx call s)"
    using assms(2) index_calls_defined [OF c_run_ok [OF assms(1)]]
    by (cases call)
      (simp_all add: locked_defs sb_values at_manager_defined at_coordinator_defined json_through_defined
        parse_through_defined order_defined handle_calls_defined value_calls_defined)
  then show ?thesis by (simp add: defined_ret_def)
qed

section \<open>Failures and their reasons\<close>

text \<open>A call says it failed by \<open>-1\<close> or a null pointer.\<close>

fun failed :: "c_value \<Rightarrow> bool" where
  "failed (IntV i) = (i = - 1)"
| "failed (StrV r) = (r = None)"
| "failed (PtrV p) = (p = Null)"
| "failed (U64Out i x) = (i = - 1)"
| "failed (F64Out i x) = (i = - 1)"
| "failed _ = False"

definition unreadable :: "cstr \<Rightarrow> bool" where
  "unreadable p = (cstr_to_str p = None)"

definition text_decodes :: "(string \<Rightarrow> string + 'a) \<Rightarrow> cstr \<Rightarrow> bool" where
  "text_decodes decode p = (\<exists>text x. cstr_to_str p = Some text \<and> decode text = Inr x)"

text \<open>
  The calls whose failure leaves no reason: on a handle that is not null, those that answer whether
  there was an entry, and those that stop at a text they cannot read.
\<close>

fun unexplained :: "ffi_env \<Rightarrow> c_call \<Rightarrow> bool" where
  "unexplained fx (ParseZonePolicy j) = unreadable j"
| "unexplained fx (ValidateZone j) = unreadable j"
| "unexplained fx (ValidateEdge j) = unreadable j"
| "unexplained fx (VdaOrder j) = unreadable j"
| "unexplained fx (VdaState j) = unreadable j"
| "unexplained fx (PlanRoute p a b n) = (p \<noteq> Null \<and> (unreadable a \<or> text_decodes (fx_uuid fx) a \<and> unreadable b))"
| "unexplained fx (AddRequest p j) = (p \<noteq> Null \<and> unreadable j)"
| "unexplained fx (AddLease p j) = (p \<noteq> Null \<and> unreadable j)"
| "unexplained fx (Evaluate p j) = (p \<noteq> Null \<and> unreadable j)"
| "unexplained fx (RegisterRobot p j) = (p \<noteq> Null \<and> unreadable j)"
| "unexplained fx (AssignPlan p rid j n t) = (p \<noteq> Null \<and> (unreadable j \<or> text_decodes (fx_plan fx) j))"
| "unexplained fx (RemoveRequest p i) = (p \<noteq> Null)"
| "unexplained fx (ReleaseLease p i t) = (p \<noteq> Null)"
| "unexplained fx (RefreshLease p i t x) = (p \<noteq> Null)"
| "unexplained fx (RevokeLease p i why t) = (p \<noteq> Null)"
| "unexplained fx (UnregisterRobot p rid) = (p \<noteq> Null)"
| "unexplained fx _ = False"

text \<open>The calls that cannot fail. They leave the last error as it was.\<close>

fun infallible :: "c_call \<Rightarrow> bool" where
  "infallible (FreeWorkspace p) = True"
| "infallible (FreeIndex p) = True"
| "infallible (FreeManager p) = True"
| "infallible (FreeCoordinator p) = True"
| "infallible (RequestCount p) = True"
| "infallible (LeaseCount p) = True"
| "infallible (ExpireLeases p now) = True"
| "infallible (RobotCount p) = True"
| "infallible NewManager = True"
| "infallible NewCoordinator = True"
| "infallible _ = False"

lemma error_set [simp]: "\<exists>e. ff_error (set_last_error fx m s) = Some e" "ff_error (clear_last_error s) = None"
  by (simp_all add: set_last_error_def clear_last_error_def)

lemma error_put [simp]: "ff_error (put_manager h a m s) = ff_error s" "ff_error (put_coordinator h a c s) = ff_error s"
  by (simp_all add: put_manager_def put_coordinator_def)

text \<open>A success leaves no error; a failure leaves none exactly when it is excused.\<close>

definition reasoned :: "bool \<Rightarrow> bool \<Rightarrow> ffi \<Rightarrow> bool" where
  "reasoned excuse fails t = (ff_error t = None \<longleftrightarrow> \<not> fails \<or> excuse)"

lemma reasoned_set [simp]: "reasoned False True (set_last_error fx m s)"
  by (simp add: reasoned_def)

lemma reasoned_none [simp]: "ff_error t = None \<Longrightarrow> reasoned u False t"
  by (simp add: reasoned_def)

lemma reasoned_excused [simp]: "ff_error t = None \<Longrightarrow> reasoned True f t"
  by (simp add: reasoned_def)

lemma text_reasoned: "to_c_string fx r s = (x, t) \<Longrightarrow> ff_error s = None \<Longrightarrow> reasoned False (x = None) t"
proof (cases "c_string r")
  case (Some a)
  assume "to_c_string fx r s = (x, t)" "ff_error s = None"
  with Some have "x = Some a" "ff_error t = None" by (simp_all add: to_c_string_def)
  then show ?thesis by simp
qed (auto simp: to_c_string_def)

lemma json_out_reasoned: "json_out fx v s = (x, t) \<Longrightarrow> ff_error s = None \<Longrightarrow> reasoned False (x = None) t"
  by (cases "fx_json fx v") (auto simp: json_out_def text_reasoned)

lemma answer_reasoned:
  "returned (json_out fx v s) = Ret x t \<Longrightarrow> ff_error s = None \<Longrightarrow> reasoned False (x = None) t"
  "returned (to_c_string fx r s) = Ret x t \<Longrightarrow> ff_error s = None \<Longrightarrow> reasoned False (x = None) t"
  by (auto simp: returned_def intro: json_out_reasoned text_reasoned split: prod.splits)

lemma json_in_cases:
  assumes "json_in fx decode p s = (r, t)" "ff_error s = None"
  shows "r = None \<and> \<not> text_decodes decode p \<and> reasoned (unreadable p) True t
    \<or> r \<noteq> None \<and> text_decodes decode p \<and> \<not> unreadable p \<and> ff_error t = None"
  using assms by (auto simp: json_in_def unreadable_def text_decodes_def reasoned_def split: sum.splits option.splits)

lemma uuid_cases:
  assumes "ffi_parse_uuid fx p s = (r, t)" "ff_error s = None"
  shows "r = None \<and> \<not> text_decodes (fx_uuid fx) p \<and> reasoned (unreadable p) True t
    \<or> r \<noteq> None \<and> text_decodes (fx_uuid fx) p \<and> \<not> unreadable p \<and> ff_error t = None"
  using assms by (auto simp: ffi_parse_uuid_def unreadable_def text_decodes_def reasoned_def split: sum.splits option.splits)

lemma value_reasons:
  "sb_parse_traffic_bool fx v s = Ret i t \<Longrightarrow> reasoned False (i = - 1) t"
  "parse_through fx parse v null s = Ret (i, x) t \<Longrightarrow> reasoned False (i = - 1) t"
  "sb_workspace_load fx path s = Ret p t \<Longrightarrow> reasoned False (p = Null) t"
  by (auto simp: sb_parse_traffic_bool_def parse_through_def sb_workspace_load_def Let_def
      split: option.splits sum.splits if_splits)

lemma json_through_reasons:
  assumes "json_through fx decode f p s = Ret x t"
  shows "reasoned (unreadable p) (x = None) t"
proof -
  obtain r u where r: "json_in fx decode p (clear_last_error s) = (r, u)" by force
  from json_in_cases [OF r] assms r show ?thesis
    by (auto simp: json_through_def intro: answer_reasoned split: option.splits)
qed

lemma order_reasons:
  assumes "sb_vda_order_from_route fx p s = Ret x t"
  shows "reasoned (unreadable p) (x = None) t"
proof -
  obtain r u where r: "json_in fx (fx_plan fx) p (clear_last_error s) = (r, u)" by force
  from json_in_cases [OF r] assms r show ?thesis
    by (auto simp: sb_vda_order_from_route_def intro: answer_reasoned split: option.splits run.splits)
qed

text \<open>Calls on a handle.\<close>

lemma at_index_reasons:
  assumes "at_index fx p r k s = Ret x t" "fails r"
    and "\<And>a ix u. ff_error u = None \<Longrightarrow> k a ix u = Ret x t \<Longrightarrow> reasoned e (fails x) t"
  shows "reasoned (p \<noteq> Null \<and> e) (fails x) t"
proof (cases p)
  case (Ptr h)
  with assms(1) obtain a ix where "k a ix (clear_last_error s) = Ret x t"
    by (auto simp: at_index_def Let_def split: option.splits)
  from assms(3) [OF error_set(2) this] Ptr show ?thesis by simp
qed (use assms(1,2) in \<open>auto simp: at_index_def Let_def\<close>)

lemma index_reasons:
  "sb_workspace_index_refresh fx p s = Ret i t \<Longrightarrow> reasoned False (i = - 1) t"
  "sb_workspace_index_is_valid fx p s = Ret i t \<Longrightarrow> reasoned False (i = - 1) t"
  "sb_workspace_index_validation_issues fx p s = Ret x t \<Longrightarrow> reasoned False (x = None) t"
  "sb_workspace_index_root_zone_id fx p s = Ret x t \<Longrightarrow> reasoned False (x = None) t"
  "sb_claim_manager_with_index fx p s = Ret q t \<Longrightarrow> reasoned False (q = Null) t"
  "sb_coordinator_with_index fx p s = Ret q t \<Longrightarrow> reasoned False (q = Null) t"
  unfolding sb_workspace_index_refresh_def sb_workspace_index_is_valid_def sb_workspace_index_validation_issues_def
    sb_workspace_index_root_zone_id_def sb_claim_manager_with_index_def sb_coordinator_with_index_def
  by (rule at_index_reasons [where e = False, unfolded simp_thms], assumption, simp,
      auto simp: new_manager_def new_coordinator_handle_def intro: answer_reasoned split: if_splits option.splits)+

lemma plan_reasons:
  assumes "sb_plan_route fx p a b pen s = Ret x t"
  shows "reasoned (p \<noteq> Null \<and> (unreadable a \<or> text_decodes (fx_uuid fx) a \<and> unreadable b)) (x = None) t"
proof (rule at_index_reasons [OF assms [unfolded sb_plan_route_def]])
  let ?e = "unreadable a \<or> text_decodes (fx_uuid fx) a \<and> unreadable b"
  fix arc ix u
  assume u: "ff_error u = None" and r: "(case ffi_parse_uuid fx a u of (None, s) \<Rightarrow> Ret None s
     | (Some start, s) \<Rightarrow> (case ffi_parse_uuid fx b s of (None, s) \<Rightarrow> Ret None s
     | (Some goal, s) \<Rightarrow> (case plan_route (fx_ho fx) ix start goal (pen \<noteq> 0) of None \<Rightarrow> Diverges
        | Some r \<Rightarrow> returned (json_out fx (JRoute (sr_found (pr_search r)) (pr_plan r) (pr_failure r)
              (sr_distance (pr_search r))) s)))) = Ret x t"
  obtain start v where v: "ffi_parse_uuid fx a u = (start, v)" by force
  obtain goal w where w: "ffi_parse_uuid fx b v = (goal, w)" by force
  from uuid_cases [OF v u] show "reasoned ?e (x = None) t"
  proof (elim disjE conjE)
    assume "start = None" "\<not> text_decodes (fx_uuid fx) a" "reasoned (unreadable a) True v"
    with r v show ?thesis by auto
  next
    assume a: "start \<noteq> None" "text_decodes (fx_uuid fx) a" "\<not> unreadable a" "ff_error v = None"
    from uuid_cases [OF w a(4)] r v w a show ?thesis
      by (auto intro: answer_reasoned split: option.splits)
  qed
qed simp

lemma handle_reasons:
  "sb_workspace_index_new fx p s = Ret q t \<Longrightarrow> reasoned False (q = Null) t"
  "sb_claim_manager_requests fx p s = Ret x t \<Longrightarrow> reasoned False (x = None) t"
  "sb_claim_manager_leases fx p s = Ret x t \<Longrightarrow> reasoned False (x = None) t"
  by (cases p; auto simp: sb_workspace_index_new_def sb_claim_manager_requests_def sb_claim_manager_leases_def Let_def
      intro: answer_reasoned split: option.splits)+

lemma evaluate_reasons:
  assumes "sb_claim_manager_evaluate fx p j s = Ret x t"
  shows "reasoned (p \<noteq> Null \<and> unreadable j) (x = None) t"
proof -
  obtain r u where r: "json_in fx (fx_request fx) j (clear_last_error s) = (r, u)" by force
  from json_in_cases [OF r] assms r show ?thesis
    by (cases p) (auto simp: sb_claim_manager_evaluate_def Let_def intro: answer_reasoned split: option.splits prod.splits)
qed

lemma at_manager_reasons:
  assumes "at_manager fx p r k s = Ret x t" "fails r"
    and "\<And>m y m' u v. ff_error u = None \<Longrightarrow> k m u = (y, m', v) \<Longrightarrow> reasoned e (fails y) v"
  shows "reasoned (p \<noteq> Null \<and> e) (fails x) t"
proof (cases p)
  case (Ptr h)
  with assms(1) obtain a m m' v where "k m (clear_last_error s) = (x, m', v)" "t = put_manager h a m' v"
    by (auto simp: at_manager_def Let_def split: option.splits prod.splits)
  with assms(3) [OF _ this(1)] Ptr show ?thesis by (simp add: reasoned_def)
qed (use assms(1,2) in \<open>auto simp: at_manager_def Let_def\<close>)

lemma at_coordinator_reasons:
  assumes "at_coordinator fx p r k s = Ret x t" "fails r"
    and "\<And>c y c' u v. ff_error u = None \<Longrightarrow> k c u = Some (y, c', v) \<Longrightarrow> reasoned e (fails y) v"
  shows "reasoned (p \<noteq> Null \<and> e) (fails x) t"
proof (cases p)
  case (Ptr h)
  with assms(1) obtain a c c' v where "k c (clear_last_error s) = Some (x, c', v)" "t = put_coordinator h a c' v"
    by (auto simp: at_coordinator_def Let_def split: option.splits prod.splits)
  with assms(3) [OF _ this(1)] Ptr show ?thesis by (simp add: reasoned_def)
qed (use assms(1,2) in \<open>auto simp: at_coordinator_def Let_def\<close>)

lemma found_reasons: "ff_error u = None \<Longrightarrow> found_or_minus_one r u = (y, m, v) \<Longrightarrow> reasoned True (y = - 1) v"
  by (auto simp: found_or_minus_one_def split: prod.splits)

lemma json_entry_reasons:
  assumes "ff_error u = None" "(case json_in fx decode j u of (None, s) \<Rightarrow> (- 1, m, s) | (Some r, s) \<Rightarrow> (0, f r, s)) = (y :: int, m', v)"
  shows "reasoned (unreadable j) (y = - 1) v"
proof -
  obtain r w where r: "json_in fx decode j u = (r, w)" by force
  from json_in_cases [OF r assms(1)] assms(2) r show ?thesis by (auto split: option.splits)
qed

lemma manager_reasons:
  "sb_claim_manager_add_request fx p j s = Ret i t \<Longrightarrow> reasoned (p \<noteq> Null \<and> unreadable j) (i = - 1) t"
  "sb_claim_manager_add_lease fx p j s = Ret i t \<Longrightarrow> reasoned (p \<noteq> Null \<and> unreadable j) (i = - 1) t"
  unfolding sb_claim_manager_add_request_def sb_claim_manager_add_lease_def
  by (erule at_manager_reasons, simp, erule (1) json_entry_reasons)+

lemma coordinator_reasons:
  "sb_coordinator_register_robot fx p j s = Ret i t \<Longrightarrow> reasoned (p \<noteq> Null \<and> unreadable j) (i = - 1) t"
  "sb_coordinator_assign_route_plan fx p rid j n tick s = Ret i t
     \<Longrightarrow> reasoned (p \<noteq> Null \<and> (unreadable j \<or> text_decodes (fx_plan fx) j)) (i = - 1) t"
  "sb_coordinator_robot_state fx p rid s = Ret x t \<Longrightarrow> reasoned False (x = None) t"
  "sb_coordinator_schedule_robot_route fx p rid cid start u shared s = Ret x t \<Longrightarrow> reasoned False (x = None) t"
  "sb_coordinator_handle_missed_schedule_slot fx p rid now grace s = Ret i t \<Longrightarrow> reasoned False (i = - 1) t"
proof -
  show "reasoned (p \<noteq> Null \<and> unreadable j) (i = - 1) t" if "sb_coordinator_register_robot fx p j s = Ret i t"
  proof (rule at_coordinator_reasons [OF that [unfolded sb_coordinator_register_robot_def]])
    fix c and y :: int and c' u v
    assume u: "ff_error u = None" and "(case json_in fx (fx_robot fx) j u of (None, s) \<Rightarrow> Some (- 1, c, s)
      | (Some r, s) \<Rightarrow> Some (0, register_robot c r, s)) = Some (y, c', v)"
    then show "reasoned (unreadable j) (y = - 1) v"
      using json_entry_reasons [OF u, where fx = fx and decode = "fx_robot fx" and j = j and m = c and f = "register_robot c"]
      by (auto split: prod.splits option.splits)
  qed simp
  show "reasoned (p \<noteq> Null \<and> (unreadable j \<or> text_decodes (fx_plan fx) j)) (i = - 1) t"
    if "sb_coordinator_assign_route_plan fx p rid j n tick s = Ret i t"
  proof (rule at_coordinator_reasons [OF that [unfolded sb_coordinator_assign_route_plan_def]])
    fix c and y :: int and c' u v
    assume u: "ff_error u = None" and k: "(case json_in fx (fx_plan fx) j u of (None, s) \<Rightarrow> Some (- 1, c, s)
      | (Some plan, s) \<Rightarrow> Some (found_or_minus_one (assign_route_plan c rid plan n tick) s)) = Some (y, c', v)"
    obtain r w where r: "json_in fx (fx_plan fx) j u = (r, w)" by force
    from json_in_cases [OF r u] k r show "reasoned (unreadable j \<or> text_decodes (fx_plan fx) j) (y = - 1) v"
      by (auto dest: found_reasons split: option.splits)
  qed simp
  show "reasoned False (x = None) t" if "sb_coordinator_robot_state fx p rid s = Ret x t"
    by (rule at_coordinator_reasons [OF that [unfolded sb_coordinator_robot_state_def], where e = False, unfolded simp_thms])
      (auto intro: json_out_reasoned split: option.splits prod.splits)
  show "reasoned False (x = None) t" if "sb_coordinator_schedule_robot_route fx p rid cid start u shared s = Ret x t"
    by (rule at_coordinator_reasons [OF that [unfolded sb_coordinator_schedule_robot_route_def], where e = False, unfolded simp_thms])
      (auto intro: json_out_reasoned split: option.splits prod.splits)
  show "reasoned False (i = - 1) t" if "sb_coordinator_handle_missed_schedule_slot fx p rid now grace s = Ret i t"
    by (rule at_coordinator_reasons [OF that [unfolded sb_coordinator_handle_missed_schedule_slot_def], where e = False, unfolded simp_thms])
      (auto split: prod.splits)
qed

text \<open>Whether an entry was found is the whole answer.\<close>

lemma entry_reasons:
  "at_manager fx p (- 1) (\<lambda>m. found_or_minus_one (f m)) s = Ret i t \<Longrightarrow> reasoned (p \<noteq> Null) (i = - 1) t"
  "at_coordinator fx p (- 1) (\<lambda>c s. Some (found_or_minus_one (g c) s)) s = Ret i t \<Longrightarrow> reasoned (p \<noteq> Null) (i = - 1) t"
  by (rule at_manager_reasons [where e = True and fails = "\<lambda>i. i = - 1", unfolded simp_thms], auto intro: found_reasons)
    (rule at_coordinator_reasons [where e = True and fails = "\<lambda>i. i = - 1", unfolded simp_thms], auto intro: found_reasons)

lemma answers_reasons:
  "sb_claim_manager_remove_request fx p c s = Ret i t \<Longrightarrow> reasoned (p \<noteq> Null) (i = - 1) t"
  "sb_claim_manager_release_lease fx p c tick s = Ret i t \<Longrightarrow> reasoned (p \<noteq> Null) (i = - 1) t"
  "sb_claim_manager_refresh_lease fx p c n tick s = Ret i t \<Longrightarrow> reasoned (p \<noteq> Null) (i = - 1) t"
  "sb_claim_manager_revoke_lease fx p c why n s = Ret i t \<Longrightarrow> reasoned (p \<noteq> Null) (i = - 1) t"
  "sb_coordinator_unregister_robot fx p rid s = Ret i t \<Longrightarrow> reasoned (p \<noteq> Null) (i = - 1) t"
  unfolding sb_claim_manager_remove_request_def sb_claim_manager_release_lease_def sb_claim_manager_refresh_lease_def
    sb_claim_manager_revoke_lease_def sb_coordinator_unregister_robot_def
  by (erule entry_reasons)+

lemmas step_reasons = value_reasons json_through_reasons order_reasons index_reasons plan_reasons handle_reasons
  evaluate_reasons manager_reasons coordinator_reasons answers_reasons

lemma c_step_reasons: "c_step fx call s = Ret v t \<Longrightarrow> \<not> infallible call \<Longrightarrow> reasoned (unexplained fx call) (failed v) t"
  by (cases call) (auto simp: map_ret_Ret sb_values intro: step_reasons)

lemma at_handle_quiet:
  "at_handle table p (Ret x s) k = Ret y t \<Longrightarrow> (\<And>h v. k h v = Ret y t \<Longrightarrow> ff_error t = ff_error s)
   \<Longrightarrow> ff_error t = ff_error s"
  by (cases p) (auto split: option.splits)

lemma c_step_quiet: "c_step fx call s = Ret v t \<Longrightarrow> infallible call \<Longrightarrow> \<not> failed v \<and> ff_error t = ff_error s"
  by (cases call rule: infallible.cases)
    (auto simp: map_ret_Ret sb_workspace_free_def sb_workspace_index_free_def sb_claim_manager_free_def
      sb_coordinator_free_def sb_claim_manager_request_count_def sb_claim_manager_lease_count_def
      sb_claim_manager_expire_leases_def sb_coordinator_robot_count_def sb_claim_manager_new_def sb_coordinator_new_def
      new_manager_def new_coordinator_handle_def drop_arcs_def dest!: at_handle_quiet split: prod.splits)

text \<open>
  C39: the last error after a call. The ten calls that cannot fail leave it as it was. After any
  other it is empty if the call succeeded and holds the reason if it failed, save in two cases that
  leave none: on a handle that is not null no entry was found, and a text could not be read.
\<close>

theorem failure_reasons:
  assumes "c_step fx call s = Ret v t"
  shows "if infallible call then \<not> failed v \<and> ff_error t = ff_error s
    else ff_error t = None \<longleftrightarrow> \<not> failed v \<or> unexplained fx call"
  using c_step_reasons [OF assms] c_step_quiet [OF assms] by (simp add: reasoned_def)

section \<open>A manager on the berth\<close>

definition quay :: ffi_env where
  "quay =
     \<lparr>fx_shown = (\<lambda>_. ''e''), fx_uuid = (\<lambda>_. Inl []), fx_uuid_text = (\<lambda>_. ''u''), fx_json = (\<lambda>_. Inr ''{}''),
      fx_props = (\<lambda>_. Inl []), fx_request = (\<lambda>_. Inl []), fx_lease = (\<lambda>_. Inl []), fx_robot = (\<lambda>_. Inl []),
      fx_plan = (\<lambda>_. Inl []), fx_load = (\<lambda>_. Inr berth_ws), fx_ho = (\<lambda>xs. xs), fx_hm = (\<lambda>xs. xs), fx_pepper = [],
      fx_kdf = insecure_test_cost\<rparr>"

definition quay_state :: ffi where
  "quay_state =
     \<lparr>ff_error = None, ff_arcs = [(1, berth_ix)], ff_workspaces = [(0, berth_ws)], ff_indexes = [(2, 1)],
      ff_managers = [(3, Some 1, cm_with_index berth_ix)], ff_coordinators = [], ff_fresh = 4\<rparr>"

lemma quay_run: "c_run quay_state"
proof -
  let ?s1 = "ffi_start\<lparr>ff_workspaces := [(0, berth_ws)], ff_fresh := 1\<rparr>"
  let ?s2 = "?s1\<lparr>ff_arcs := [(1, berth_ix)], ff_indexes := [(2, 1)], ff_fresh := 3\<rparr>"
  have "c_step quay (LoadWorkspace (CStr [])) ffi_start = Ret (PtrV (Ptr 0)) ?s1"
    by (simp add: sb_workspace_load_def cstr_to_str_def utf8_def clear_last_error_def ffi_start_def Let_def)
      (simp add: quay_def)
  with c_run.start have 1: "c_run ?s1" by (rule c_run.call)
  have "c_step quay (NewIndex (Ptr 0)) ?s1 = Ret (PtrV (Ptr 2)) ?s2"
    by (simp add: sb_workspace_index_new_def clear_last_error_def ffi_start_def Let_def) (simp add: quay_def)
  with 1 have 2: "c_run ?s2" by (rule c_run.call)
  have "c_step quay (NewManagerOn (Ptr 2)) ?s2 = Ret (PtrV (Ptr 3)) quay_state"
    by (simp add: sb_claim_manager_with_index_def at_index_def new_manager_def clear_last_error_def ffi_start_def
        quay_state_def Let_def)
  with 2 show ?thesis by (rule c_run.call)
qed

theorem handles_sound_witness:
  "cm_index (cm_with_index berth_ix) = opt_bind (Some 1) (map_of (ff_arcs quay_state)) \<and> strong_count quay_state 1 \<noteq> 0"
  using handles_sound [OF quay_run] by (simp add: quay_state_def)

theorem calls_defined_witness: "c_step quay (FreeIndex (Ptr 2)) quay_state \<noteq> Undefined"
  using calls_defined [OF quay_run, of "FreeIndex (Ptr 2)" quay] by (simp add: quay_state_def live_in_def)

text \<open>While a manager holds it, an index is not refreshed.\<close>

theorem failure_reasons_witness:
  "\<exists>t. c_step quay (RefreshIndex (Ptr 2)) quay_state = Ret (IntV (- 1)) t \<and> ff_error t \<noteq> None"
proof -
  obtain t where t: "c_step quay (RefreshIndex (Ptr 2)) quay_state = Ret (IntV (- 1)) t"
    by (simp add: sb_workspace_index_refresh_def at_index_def clear_last_error_def quay_state_def strong_count_def Let_def)
  from failure_reasons [OF t] t show ?thesis by simp
qed

end
