(* ===== verification/Granting.thy ===== *)
theory Granting
  imports Safety
begin

text \<open>
  When a claim is granted, said without the evaluator: as facts about pairs of claims, and about how
  many robots there would be on an edge or inside a zone. \<open>evaluate_request\<close> of
  \<open>claim/manager.rs\<close>, with its five passes over the pairs of targets, its two counting loops and
  its early ends, is shown to grant exactly then.
\<close>

section \<open>Claims that exclude one another\<close>

text \<open>A zone that admits one robot at a time to the nodes and edges directly in it.\<close>

definition tight_zone :: "index \<Rightarrow> uuid \<Rightarrow> bool" where
  "tight_zone ix z =
     (\<exists>p. ix_zone_policy ix z = Some p
        \<and> (zp_kind p = ExclusiveAccess \<or> zp_capacity_is_explicit p \<and> zp_capacity p \<le> 1))"

definition home_zones :: "index \<Rightarrow> target_kind \<Rightarrow> uuid \<Rightarrow> uuid set" where
  "home_zones ix k r = z_id ` set (resource_zones ix k r)"

text \<open>
  Two targets that not even two shared claims may name at once: zones nested in each other of which
  the inner one (parent and child; or the zone itself) has no room for two, a zone without room for
  two and a node or edge inside it, two nodes or two edges of a tight zone.
\<close>

definition no_room_for_both :: "index \<Rightarrow> claim_target \<Rightarrow> claim_target \<Rightarrow> bool" where
  "no_room_for_both ix a b =
     (let i = ct_resource_id a; j = ct_resource_id b in
      case (ct_kind a, ct_kind b) of
        (TZone, TZone) \<Rightarrow> zones_overlap ix i j \<and> zp_capacity (overlapping_zone_policy ix i j) \<le> 1
      | (TZone, k) \<Rightarrow> resource_in_zone ix k j i \<and> zp_capacity (policy_or_default ix i) \<le> 1
      | (k, TZone) \<Rightarrow> resource_in_zone ix k i j \<and> zp_capacity (policy_or_default ix j) \<le> 1
      | (k, k') \<Rightarrow> k = k' \<and> i \<noteq> j \<and> (\<exists>z \<in> home_zones ix k i \<inter> home_zones ix k j. tight_zone ix z))"

text \<open>
  Two claims clash when their windows overlap and they name two targets of which one touches the
  other, unless both are shared and there is room for two.
\<close>

definition clash :: "index \<Rightarrow> claim_request \<Rightarrow> claim_request \<Rightarrow> bool" where
  "clash ix r r' =
     (claim_windows_overlap (cr_window r) (cr_window r')
      \<and> (\<exists>t \<in> set (cr_targets r). \<exists>t' \<in> set (cr_targets r').
           (grounds_meet ix t t' \<and> \<not> both_shared r r') \<or> no_room_for_both ix t t'))"

lemma tight_pair:
  "(case ix_zone_policy ix a of
      None \<Rightarrow> False
    | Some p \<Rightarrow> list_ex (\<lambda>y. a = z_id y \<and> (case ix_zone_policy ix (z_id y) of
         None \<Rightarrow> False
       | Some q \<Rightarrow> zp_kind p = ExclusiveAccess \<or> zp_kind q = ExclusiveAccess
           \<or> ((zp_capacity_is_explicit p \<or> zp_capacity_is_explicit q) \<and> min (zp_capacity p) (zp_capacity q) \<le> 1))) ys)
   \<longleftrightarrow> tight_zone ix a \<and> a \<in> z_id ` set ys"
  by (cases "ix_zone_policy ix a") (auto simp: tight_zone_def list_ex_iff)

lemma shared_constrained_iff:
  "shared_constrained_zone ix k i j \<longleftrightarrow> (\<exists>z \<in> home_zones ix k i \<inter> home_zones ix k j. tight_zone ix z)"
  unfolding shared_constrained_zone_def tight_pair by (auto simp: home_zones_def list_ex_iff)

text \<open>One pair of targets, in each of the five passes of the code.\<close>

definition touches :: "index \<Rightarrow> bool \<Rightarrow> claim_target \<Rightarrow> claim_target \<Rightarrow> bool" where
  "touches ix shared t t' = (grounds_meet ix t t' \<and> \<not> shared \<or> no_room_for_both ix t t')"

lemma touches_zones:
  "ct_kind t = TZone \<Longrightarrow> ct_kind t' = TZone \<Longrightarrow>
   touches ix shared t t' \<longleftrightarrow> zones_overlap ix (ct_resource_id t) (ct_resource_id t')
     \<and> \<not> (shared \<and> 1 < zp_capacity (overlapping_zone_policy ix (ct_resource_id t) (ct_resource_id t')))"
  by (simp add: touches_def grounds_meet_def no_room_for_both_def Let_def not_less) blast

lemma touches_spatial:
  "ct_kind t = k \<Longrightarrow> ct_kind t' = k \<Longrightarrow> k \<noteq> TZone \<Longrightarrow>
   touches ix shared t t' \<longleftrightarrow>
     (if ct_resource_id t = ct_resource_id t' then \<not> shared
      else shared_constrained_zone ix k (ct_resource_id t) (ct_resource_id t'))"
  by (cases k) (simp_all add: touches_def grounds_meet_def no_room_for_both_def shared_constrained_iff Let_def)

lemma touches_mixed:
  "ct_kind t = TZone \<Longrightarrow> ct_kind t' \<noteq> TZone \<Longrightarrow>
   touches ix shared t t' \<longleftrightarrow> resource_in_zone ix (ct_kind t') (ct_resource_id t') (ct_resource_id t)
     \<and> \<not> (shared \<and> 1 < zp_capacity (policy_or_default ix (ct_resource_id t)))"
  by (cases "ct_kind t'") (simp_all add: touches_def grounds_meet_def no_room_for_both_def Let_def not_less, blast+)

lemma zone_pairs:
  "zone_claims_compatible ix r r' \<longleftrightarrow>
     (\<forall>t \<in> set (cr_targets r). \<forall>t' \<in> set (cr_targets r'). ct_kind t = TZone \<and> ct_kind t' = TZone
        \<and> claim_windows_overlap (cr_window r) (cr_window r') \<longrightarrow> \<not> touches ix (both_shared r r') t t')"
  unfolding zone_claims_compatible_def list_all_iff using touches_zones by blast

lemma spatial_pairs:
  assumes "k \<noteq> TZone"
  shows "spatial_claims_compatible ix r r' k \<longleftrightarrow>
     (\<forall>t \<in> set (cr_targets r). \<forall>t' \<in> set (cr_targets r'). ct_kind t = k \<and> ct_kind t' = k
        \<and> claim_windows_overlap (cr_window r) (cr_window r') \<longrightarrow> \<not> touches ix (both_shared r r') t t')"
proof -
  have ex: "(cr_access_mode r = Exclusive \<or> cr_access_mode r' = Exclusive) = (\<not> both_shared r r')"
    using access_not_shared by (auto simp: both_shared_def)
  have pair: "(if ct_resource_id t = ct_resource_id t' then \<not> \<not> both_shared r r'
      else \<not> shared_constrained_zone ix k (ct_resource_id t) (ct_resource_id t')) \<longleftrightarrow> \<not> touches ix (both_shared r r') t t'"
    if "ct_kind t = k" "ct_kind t' = k" for t t'
    by (simp add: touches_spatial [OF that assms])
  show ?thesis
    unfolding spatial_claims_compatible_def list_all_iff ex using pair by blast
qed

lemma zone_side_pairs:
  "zone_vs_spatial_compatible ix r r' \<longleftrightarrow>
     (\<forall>t \<in> set (cr_targets r). \<forall>t' \<in> set (cr_targets r'). ct_kind t = TZone \<and> ct_kind t' \<noteq> TZone
        \<and> claim_windows_overlap (cr_window r) (cr_window r') \<longrightarrow> \<not> touches ix (both_shared r r') t t')"
  unfolding zone_vs_spatial_compatible_def list_all_iff using touches_mixed by blast

lemma both_shared_sym: "both_shared r r' = both_shared r' r"
  by (auto simp: both_shared_def)

lemma touches_sym:
  "ct_kind t \<noteq> ct_kind t' \<Longrightarrow> touches ix shared t t' = touches ix shared t' t"
  by (cases "ct_kind t"; cases "ct_kind t'")
    (simp_all add: touches_def grounds_meet_def no_room_for_both_def Let_def)

lemma touches_kinds:
  "touches ix shared t t' \<Longrightarrow> ct_kind t = TZone \<or> ct_kind t' = TZone \<or> ct_kind t = ct_kind t'"
  by (cases "ct_kind t"; cases "ct_kind t'") (simp_all add: touches_def grounds_meet_def no_room_for_both_def)

lemma compatible_iff: "claims_compatible_for_index (Some ix) r r' \<longleftrightarrow> \<not> clash ix r r'"
proof -
  let ?w = "claim_windows_overlap (cr_window r) (cr_window r')"
  let ?c = "touches ix (both_shared r r')"
  have flipped: "zone_vs_spatial_compatible ix r' r \<longleftrightarrow>
      (\<forall>t \<in> set (cr_targets r). \<forall>t' \<in> set (cr_targets r').
         ct_kind t \<noteq> TZone \<and> ct_kind t' = TZone \<and> ?w \<longrightarrow> \<not> ?c t t')"
    unfolding zone_side_pairs [of ix r' r] windows_overlap_sym [of "cr_window r'"] both_shared_sym [of r']
    using touches_sym [of _ _ ix "both_shared r r'"] by metis
  have pointwise: "\<not> (?w \<and> ?c t t') \<longleftrightarrow>
      (ct_kind t = TZone \<and> ct_kind t' = TZone \<and> ?w \<longrightarrow> \<not> ?c t t')
      \<and> (ct_kind t = TNode \<and> ct_kind t' = TNode \<and> ?w \<longrightarrow> \<not> ?c t t')
      \<and> (ct_kind t = TEdge \<and> ct_kind t' = TEdge \<and> ?w \<longrightarrow> \<not> ?c t t')
      \<and> (ct_kind t = TZone \<and> ct_kind t' \<noteq> TZone \<and> ?w \<longrightarrow> \<not> ?c t t')
      \<and> (ct_kind t \<noteq> TZone \<and> ct_kind t' = TZone \<and> ?w \<longrightarrow> \<not> ?c t t')" for t t'
    using touches_kinds [of ix "both_shared r r'" t t'] by (cases "ct_kind t"; cases "ct_kind t'") auto
  have "\<not> clash ix r r' \<longleftrightarrow>
      (\<forall>t \<in> set (cr_targets r). \<forall>t' \<in> set (cr_targets r'). \<not> (?w \<and> ?c t t'))"
    unfolding clash_def touches_def by blast
  then show ?thesis
    unfolding claims_compatible_for_index_def option.case zone_pairs flipped zone_side_pairs [of ix r r']
      spatial_pairs [OF target_kind.distinct(2)] spatial_pairs [OF target_kind.distinct(4)]
    by (simp only: pointwise ball_conj_distrib)
qed

section \<open>Robots on an edge, robots in a zone\<close>

text \<open>
  The claims a request is held against: the active requests under another id and of another robot,
  and the active leases of other robots. An entry that carries the request's own id is passed over,
  whoever holds it.
\<close>

definition rivals :: "claim_manager \<Rightarrow> claim_request \<Rightarrow> claim_request set" where
  "rivals m r = {a \<in> set (cm_requests m). cr_id a \<noteq> cr_id r \<and> cr_robot_id a \<noteq> cr_robot_id r}"

definition rival_leases :: "claim_manager \<Rightarrow> claim_request \<Rightarrow> lease set" where
  "rival_leases m r = {l \<in> set (cm_leases m). le_active l \<and> le_robot_id l \<noteq> cr_robot_id r}"

text \<open>The robots there would be inside a zone, and sharing an edge, at some time of the window.\<close>

definition robots_inside :: "index \<Rightarrow> claim_manager \<Rightarrow> claim_request \<Rightarrow> uuid \<Rightarrow> robot_id set" where
  "robots_inside ix m r z =
     {cr_robot_id r}
     \<union> cr_robot_id ` {a \<in> rivals m r. claim_windows_overlap (cr_window r) (cr_window a)
         \<and> targets_occupy_zone ix (cr_targets a) z}
     \<union> le_robot_id ` {l \<in> rival_leases m r. claim_windows_overlap (cr_window r) (lease_window l)
         \<and> targets_occupy_zone ix (le_targets l) z}"

definition robots_sharing :: "claim_manager \<Rightarrow> claim_request \<Rightarrow> uuid \<Rightarrow> robot_id set" where
  "robots_sharing m r i =
     {cr_robot_id r}
     \<union> cr_robot_id ` {a \<in> rivals m r. cr_access_mode a = Shared
         \<and> claim_windows_overlap (cr_window r) (cr_window a)
         \<and> \<lparr>ct_kind = TEdge, ct_resource_id = i\<rparr> \<in> set (cr_targets a)}
     \<union> le_robot_id ` {l \<in> rival_leases m r. le_access_mode l = Shared
         \<and> claim_windows_overlap (cr_window r) (lease_window l)
         \<and> \<lparr>ct_kind = TEdge, ct_resource_id = i\<rparr> \<in> set (le_targets l)}"

text \<open>How many robots may share an edge: its explicit capacity, when that is more than one.\<close>

definition sharing_limit :: "index \<Rightarrow> uuid \<Rightarrow> u64 option" where
  "sharing_limit ix i =
     (case ix_edge_traffic ix i of
        None \<Rightarrow> None
      | Some s \<Rightarrow>
          if es_capacity_is_explicit s \<and> (\<exists>n. es_capacity s = Some n \<and> 1 < n) then es_capacity s else None)"

lemma violation_count:
  fixes skip_r :: "claim_request \<Rightarrow> bool" and skip_l :: "lease \<Rightarrow> bool"
  assumes "length (cm_requests m) + length (cm_leases m) < 2 ^ 63"
    and "count_occupants skip_r cr_robot_id cr_id (cm_requests m) ([robot], None) = (occ1, claim)"
    and "count_occupants skip_l le_robot_id le_id (cm_leases m) (occ1, None) = (occ, lease)"
  shows "(of_nat (length occ) > (limit :: u64)) =
     (unat limit < card ({robot} \<union> cr_robot_id ` {a \<in> set (cm_requests m). \<not> skip_r a}
        \<union> le_robot_id ` {l \<in> set (cm_leases m). \<not> skip_l l}))"
proof -
  have "distinct occ1" "set occ1 = {robot} \<union> cr_robot_id ` {a \<in> set (cm_requests m). \<not> skip_r a}"
    "length occ1 \<le> 1 + length (cm_requests m)"
    using count_occupants_distinct [of "([robot], None)" skip_r cr_robot_id cr_id "cm_requests m"]
      count_occupants_set [of skip_r cr_robot_id cr_id "cm_requests m" "([robot], None)"]
      count_occupants_length [of skip_r cr_robot_id cr_id "cm_requests m" "([robot], None)"]
    by (simp_all add: assms(2))
  then have occ: "distinct occ" "length occ \<le> 1 + length (cm_requests m) + length (cm_leases m)"
    "set occ = {robot} \<union> cr_robot_id ` {a \<in> set (cm_requests m). \<not> skip_r a}
        \<union> le_robot_id ` {l \<in> set (cm_leases m). \<not> skip_l l}"
    using count_occupants_distinct [of "(occ1, None)" skip_l le_robot_id le_id "cm_leases m"]
      count_occupants_set [of skip_l le_robot_id le_id "cm_leases m" "(occ1, None)"]
      count_occupants_length [of skip_l le_robot_id le_id "cm_leases m" "(occ1, None)"]
    by (simp_all add: assms(3))
  have "(of_nat (length occ) > limit) = (unat limit < length occ)"
    using assms(1) occ(2) by (simp add: word_less_nat_alt unat_of_nat)
  then show ?thesis using distinct_card [OF occ(1)] unfolding occ(3) by simp
qed

lemma zone_violation_iff:
  assumes "length (cm_requests m) + length (cm_leases m) < 2 ^ 63"
  shows "zone_occupancy_violation m ix r z limit = None \<longleftrightarrow> card (robots_inside ix m r z) \<le> unat limit"
proof -
  obtain occ1 claim where 1: "count_occupants (skip_request_zone ix r z) cr_robot_id cr_id (cm_requests m)
      ([cr_robot_id r], None) = (occ1, claim)" by force
  obtain occ lease where 2: "count_occupants (skip_lease_zone ix r z) le_robot_id le_id (cm_leases m)
      (occ1, None) = (occ, lease)" by force
  have "robots_inside ix m r z = {cr_robot_id r}
      \<union> cr_robot_id ` {a \<in> set (cm_requests m). \<not> skip_request_zone ix r z a}
      \<union> le_robot_id ` {l \<in> set (cm_leases m). \<not> skip_lease_zone ix r z l}"
    unfolding robots_inside_def rivals_def rival_leases_def skip_request_zone_def skip_lease_zone_def
    by (intro arg_cong2 [where f = "(\<union>)"] arg_cong2 [where f = image] refl) auto
  with violation_count [OF assms 1 2, of limit] show ?thesis
    by (simp add: zone_occupancy_violation_def 1 2 Let_def not_less)
qed

lemma names_target_edge:
  "ct_kind t = TEdge \<Longrightarrow> names_target ts t \<longleftrightarrow> \<lparr>ct_kind = TEdge, ct_resource_id = ct_resource_id t\<rparr> \<in> set ts"
  by (auto simp: names_target_def list_ex_iff intro!: bexI [of _ "\<lparr>ct_kind = TEdge, ct_resource_id = ct_resource_id t\<rparr>"])
    (metis (full_types) claim_target.surjective unit.exhaust)

lemma edge_violation_iff:
  assumes "length (cm_requests m) + length (cm_leases m) < 2 ^ 63" "ct_kind t = TEdge"
  shows "edge_capacity_violation m r t cap = None \<longleftrightarrow> card (robots_sharing m r (ct_resource_id t)) \<le> unat cap"
proof -
  obtain occ1 claim where 1: "count_occupants (skip_request_edge r t) cr_robot_id cr_id (cm_requests m)
      ([cr_robot_id r], None) = (occ1, claim)" by force
  obtain occ lease where 2: "count_occupants (skip_lease_edge r t) le_robot_id le_id (cm_leases m)
      (occ1, None) = (occ, lease)" by force
  have "robots_sharing m r (ct_resource_id t) = {cr_robot_id r}
      \<union> cr_robot_id ` {a \<in> set (cm_requests m). \<not> skip_request_edge r t a}
      \<union> le_robot_id ` {l \<in> set (cm_leases m). \<not> skip_lease_edge r t l}"
    unfolding robots_sharing_def rivals_def rival_leases_def skip_request_edge_def skip_lease_edge_def
      names_target_edge [OF assms(2)]
    by (intro arg_cong2 [where f = "(\<union>)"] arg_cong2 [where f = image] refl) auto
  with violation_count [OF assms(1) 1 2, of cap] show ?thesis
    by (simp add: edge_capacity_violation_def 1 2 Let_def not_less)
qed

section \<open>When a request is granted\<close>

definition target_known :: "index \<Rightarrow> claim_target \<Rightarrow> bool" where
  "target_known ix t =
     (case ct_kind t of
        TZone \<Rightarrow> ix_zone ix (ct_resource_id t) \<noteq> None
      | TNode \<Rightarrow> ix_node ix (ct_resource_id t) \<noteq> None
      | TEdge \<Rightarrow> ix_edge ix (ct_resource_id t) \<noteq> None)"

definition may_hold :: "index \<Rightarrow> claim_manager \<Rightarrow> claim_request \<Rightarrow> bool" where
  "may_hold ix m r =
     (cr_targets r \<noteq> []
      \<and> (\<forall>t \<in> set (cr_targets r). target_known ix t)
      \<and> (\<forall>a \<in> rivals m r. \<not> clash ix r a)
      \<and> (\<forall>l \<in> rival_leases m r. \<not> clash ix r (lease_as_request_view l))
      \<and> (cr_access_mode r = Shared \<longrightarrow>
           (\<forall>t \<in> set (cr_targets r). \<forall>n. ct_kind t = TEdge \<and> sharing_limit ix (ct_resource_id t) = Some n
              \<longrightarrow> card (robots_sharing m r (ct_resource_id t)) \<le> unat n))
      \<and> (\<forall>z \<in> ground_zones ix (cr_targets r). \<forall>n. zone_limit ix z = Some n
           \<longrightarrow> card (robots_inside ix m r z) \<le> unat n))"

lemma known_edge_traffic:
  assumes "index_ok ix" "ct_kind t = TEdge" "target_known ix t"
  shows "\<exists>s. ix_edge_traffic ix (ct_resource_id t) = Some s"
proof -
  from assms(1) obtain ho w where ix: "ix = rebuild ho w" by (auto simp: index_ok_def)
  with assms(2,3) show ?thesis by (auto simp: target_known_def edge_traffic_rebuild)
qed

lemma limit_cases:
  "ix_edge_traffic ix i = Some s \<Longrightarrow>
   sharing_limit ix i =
     (if \<not> es_capacity_is_explicit s \<or> unwrap_or (es_capacity s) 0 \<le> 1 then None
      else Some (unwrap_or (es_capacity s) 0))"
  by (cases "es_capacity s") (auto simp: sharing_limit_def not_le)

lemma edge_loop_iff:
  assumes "index_ok ix" "\<forall>t \<in> set ts. target_known ix t"
    and "length (cm_requests m) + length (cm_leases m) < 2 ^ 63"
  shows "edge_capacity_loop m ix r ts = None \<longleftrightarrow>
    (\<forall>t \<in> set ts. \<forall>n. ct_kind t = TEdge \<and> sharing_limit ix (ct_resource_id t) = Some n
       \<longrightarrow> card (robots_sharing m r (ct_resource_id t)) \<le> unat n)"
  using assms(2)
proof (induction ts)
  case (Cons t ts)
  then have ih: "edge_capacity_loop m ix r ts = None \<longleftrightarrow>
    (\<forall>t \<in> set ts. \<forall>n. ct_kind t = TEdge \<and> sharing_limit ix (ct_resource_id t) = Some n
       \<longrightarrow> card (robots_sharing m r (ct_resource_id t)) \<le> unat n)" by simp
  show ?case
  proof (cases "ct_kind t = TEdge")
    case True
    with Cons.prems obtain s where s: "ix_edge_traffic ix (ct_resource_id t) = Some s"
      using known_edge_traffic [OF assms(1) True] by auto
    show ?thesis
    proof (cases "\<not> es_capacity_is_explicit s \<or> unwrap_or (es_capacity s) 0 \<le> 1")
      case tight: True
      then have "sharing_limit ix (ct_resource_id t) = None" by (simp only: limit_cases [OF s] if_True)
      with True s tight ih show ?thesis by auto
    next
      case False
      let ?n = "unwrap_or (es_capacity s) 0"
      have l: "sharing_limit ix (ct_resource_id t) = Some ?n"
        using False by (simp only: limit_cases [OF s] if_False)
      have "edge_capacity_loop m ix r (t # ts) = None \<longleftrightarrow>
          edge_capacity_violation m r t ?n = None \<and> edge_capacity_loop m ix r ts = None"
        using True s False by (auto split: option.split)
      then show ?thesis
        using True l ih edge_violation_iff [OF assms(3) True, of r ?n] by auto
    qed
  qed (use ih in simp)
qed simp

lemma occupancy_loop_iff:
  assumes "length (cm_requests m) + length (cm_leases m) < 2 ^ 63"
  shows "occupancy_loop m ix r zs = None \<longleftrightarrow>
    (\<forall>z \<in> set zs. \<forall>n. zone_limit ix z = Some n \<longrightarrow> card (robots_inside ix m r z) \<le> unat n)"
proof (induction zs)
  case (Cons z zs)
  have "occupancy_loop m ix r (z # zs) = None \<longleftrightarrow>
      (\<forall>n. zone_limit ix z = Some n \<longrightarrow> zone_occupancy_violation m ix r z n = None) \<and> occupancy_loop m ix r zs = None"
    by (simp add: zone_limit_def split: option.split)
  then show ?case by (simp add: zone_violation_iff [OF assms] Cons)
qed simp

text \<open>
  C32: on an index built from a lawful workspace a request is granted exactly when it may hold what
  it asks for. It names at least one target and every one exists; it clashes with no active claim
  under another id and no active lease of another robot; if it is shared, no edge it names with an
  explicit capacity above one would be shared by more robots than that; and no zone it puts its robot
  inside would hold more robots than it admits.
\<close>

theorem evaluate_grants_iff:
  assumes "cm_index m = Some ix" "index_ok ix"
    and "length (cm_requests m) + length (cm_leases m) < 2 ^ 63"
  shows "grants m r = may_hold ix m r"
proof (cases "\<forall>t \<in> set (cr_targets r). target_known ix t")
  case known: True
  then have inv: "first_invalid_target m r = None"
    using assms(1) by (auto simp: first_invalid_target_def find_None_iff target_missing_def target_known_def
        split: target_kind.splits)
  have req: "list_all (\<lambda>a. \<not> request_blocks m r a) (cm_requests m) \<longleftrightarrow> (\<forall>a \<in> rivals m r. \<not> clash ix r a)"
    by (auto simp: list_all_iff request_blocks_def assms(1) compatible_iff rivals_def)
  have lse: "list_all (\<lambda>l. \<not> lease_blocks m r l) (cm_leases m) \<longleftrightarrow>
      (\<forall>l \<in> rival_leases m r. \<not> clash ix r (lease_as_request_view l))"
    by (auto simp: list_all_iff lease_blocks_def assms(1) compatible_iff rival_leases_def)
  have edge: "first_edge_capacity_violation m r = None \<longleftrightarrow>
      (cr_access_mode r = Shared \<longrightarrow>
           (\<forall>t \<in> set (cr_targets r). \<forall>n. ct_kind t = TEdge \<and> sharing_limit ix (ct_resource_id t) = Some n
              \<longrightarrow> card (robots_sharing m r (ct_resource_id t)) \<le> unat n))"
    by (simp add: first_edge_capacity_violation_def assms(1) edge_loop_iff [OF assms(2) known assms(3)])
  obtain zs where zs: "occupied_zones m r = Some zs" "set zs = ground_zones ix (cr_targets r)"
    using occupied_zones_set [OF assms(1,2)] by blast
  have zone: "first_occupancy_violation m r = Some None \<longleftrightarrow>
      (\<forall>z \<in> ground_zones ix (cr_targets r). \<forall>n. zone_limit ix z = Some n
           \<longrightarrow> card (robots_inside ix m r z) \<le> unat n)"
    by (simp add: first_occupancy_violation_def assms(1) zs occupancy_loop_iff [OF assms(3)])
  show ?thesis
    unfolding grant_iff grant_conditions_def may_hold_def req lse edge zone using inv known by simp
next
  case False
  then have "first_invalid_target m r \<noteq> None"
    using assms(1) by (auto simp: first_invalid_target_def find_None_iff target_missing_def target_known_def
        simp del: not_None_eq split: target_kind.splits)
  then have "\<not> grant_conditions m r" by (auto simp: grant_conditions_def)
  with False show ?thesis by (auto simp: grant_iff may_hold_def)
qed

theorem evaluate_grants_iff_witness: "may_hold yard_ix (yard_manager 1) (yard_claim 7)"
proof -
  have "grants (yard_manager 1) (yard_claim 7)"
    using yard_grant by (simp add: grant_iff)
  then show ?thesis
    using evaluate_grants_iff [of "yard_manager 1" yard_ix "yard_claim 7"] yard_index_ok by simp
qed

end
