(* ===== verification/Python.thy ===== *)
theory Python
  imports Vda Serving
begin

text \<open>
  The Python bindings (\<open>python/mod.rs\<close>): values of Python and of JSON and the two conversions between
  them, the workspace builder, what an index shows, and the calls a script makes on a claim manager
  and on a coordinator. Serialisation of the crate's own types, the crates \<open>zoneout\<close> and \<open>graphix\<close>
  and the texts of errors are parameters, given anew with every call.
\<close>

section \<open>Values\<close>

text \<open>
  \<open>serde_json::Number\<close>: an unsigned integer, a negative integer or a finite double. An object is a
  map ordered by key.
\<close>

datatype number = PosInt u64 | NegInt int | Double f64

datatype json =
  JNull
| JBool bool
| JNumber number
| JText string
| JArray "json list"
| JObject "(string \<times> json) list"

text \<open>
  Objects of Python by what the conversions see of them. A key of a dict is a string or something that
  is not; \<open>PyOther\<close> is an object none of the conversions takes (a tuple, a set, a text that is no UTF-8).
\<close>

datatype py_key = KeyStr string | KeyOther string

datatype pyobj =
  PyNone
| PyBool bool
| PyInt int
| PyFloat f64
| PyStr string
| PyList "pyobj list"
| PyDict "(py_key \<times> pyobj) list"
| PyOther string

datatype py_err = TypeErr | ValueErr string | RuntimeErr string

text \<open>What a call gives: a value, an exception, no return, or a panic.\<close>

datatype 'a py_out = Gives 'a | Raises py_err | Loops | Panicked

datatype py_data =
  DPolicy zone_policy
| DSemantics edge_semantics
| DIssues "issue list"
| DValidation "validation_issue list"
| DPlan route_plan
| DFailure route_failure
| DEvaluation evaluation
| DRequest claim_request
| DRequests "claim_request list"
| DLeases "lease list"
| DRobot robot_state
| DRobots "robot_state list"
| DSchedule schedule_decision
| DOrder vda_order
| DState vda_state
| DSnapshot co_snapshot

record py_env =
  pe_shown :: "msg \<Rightarrow> string"
  pe_repr :: "pyobj \<Rightarrow> string"
  pe_uuid :: "string \<Rightarrow> string + uuid"
  pe_uuid_text :: "uuid \<Rightarrow> string"
  pe_json :: "py_data \<Rightarrow> string + json"
  pe_request :: "json \<Rightarrow> string + claim_request"
  pe_lease :: "json \<Rightarrow> string + lease"
  pe_robot :: "json \<Rightarrow> string + robot_state"
  pe_plan :: "json \<Rightarrow> string + route_plan"
  pe_node_name :: "vid \<Rightarrow> string"
  pe_position :: "vid \<Rightarrow> point"
  pe_boundary :: "uuid \<Rightarrow> (f64 \<times> f64) list option"
  pe_to_wgs :: "point \<Rightarrow> geo \<Rightarrow> geo"
  pe_to_enu :: "geo \<Rightarrow> geo \<Rightarrow> point"
  pe_ho :: "uuid list \<Rightarrow> uuid list"
  pe_hm :: "(uuid \<times> nat) list \<Rightarrow> (uuid \<times> nat) list"
  pe_pepper :: string
  pe_kdf :: kdf_config

section \<open>The two conversions\<close>

definition as_i64 :: "number \<Rightarrow> int option" where
  "as_i64 n =
     (case n of
        PosInt u \<Rightarrow> if uint u < 2 ^ 63 then Some (uint u) else None
      | NegInt i \<Rightarrow> Some i
      | Double f \<Rightarrow> None)"

definition as_u64 :: "number \<Rightarrow> u64 option" where
  "as_u64 n = (case n of PosInt u \<Rightarrow> Some u | _ \<Rightarrow> None)"

definition as_f64 :: "number \<Rightarrow> f64" where
  \<comment> \<open>never \<open>None\<close> for a number of these three kinds\<close>
  "as_f64 n = (case n of PosInt u \<Rightarrow> f64_of_u64 u | NegInt i \<Rightarrow> rnd (of_int i) | Double f \<Rightarrow> f)"

definition number_to_py :: "number \<Rightarrow> pyobj" where
  "number_to_py n =
     (case as_i64 n of
        Some i \<Rightarrow> PyInt i
      | None \<Rightarrow> (case as_u64 n of Some u \<Rightarrow> PyInt (uint u) | None \<Rightarrow> PyFloat (as_f64 n)))"

definition set_item :: "py_key \<Rightarrow> pyobj \<Rightarrow> (py_key \<times> pyobj) list \<Rightarrow> (py_key \<times> pyobj) list" where
  \<comment> \<open>a dict keeps the place of a key that was there\<close>
  "set_item k v d = AList.update k v d"

primrec json_to_py :: "json \<Rightarrow> pyobj" where
  "json_to_py JNull = PyNone"
| "json_to_py (JBool b) = PyBool b"
| "json_to_py (JNumber n) = number_to_py n"
| "json_to_py (JText s) = PyStr s"
| "json_to_py (JArray vs) = PyList (map json_to_py vs)"
| "json_to_py (JObject kvs) =
     PyDict (foldl (\<lambda>d (k, v). set_item (KeyStr k) v d) [] (map (map_prod id json_to_py) kvs))"

definition from_i64 :: "int \<Rightarrow> number" where
  "from_i64 i = (if i < 0 then NegInt i else PosInt (word_of_int i))"

definition from_f64 :: "f64 \<Rightarrow> number option" where
  "from_f64 f = (case f of Fin q \<Rightarrow> Some (Double f) | _ \<Rightarrow> None)"

definition extract_i64 :: "int \<Rightarrow> int option" where
  "extract_i64 i = (if - (2 ^ 63) \<le> i \<and> i < 2 ^ 63 then Some i else None)"

definition extract_u64 :: "int \<Rightarrow> u64 option" where
  "extract_u64 i = (if 0 \<le> i \<and> i < 2 ^ 64 then Some (word_of_int i) else None)"

definition int_to_f64 :: "int \<Rightarrow> f64 option" where
  \<comment> \<open>an integer past the doubles is an \<open>OverflowError\<close>\<close>
  "int_to_f64 i = (case rnd (of_int i) of Fin q \<Rightarrow> Some (Fin q) | _ \<Rightarrow> None)"

definition float_to_json :: "f64 \<Rightarrow> json" where
  "float_to_json f = (case from_f64 f of Some n \<Rightarrow> JNumber n | None \<Rightarrow> JNull)"

definition unsupported :: "py_env \<Rightarrow> pyobj \<Rightarrow> py_err" where
  "unsupported pe v = ValueErr (''unsupported python value for JSON conversion: '' @ pe_repr pe v)"

definition int_to_json :: "py_env \<Rightarrow> int \<Rightarrow> py_err + json" where
  "int_to_json pe i =
     (case extract_i64 i of
        Some i \<Rightarrow> Inr (JNumber (from_i64 i))
      | None \<Rightarrow>
     (case extract_u64 i of
        Some u \<Rightarrow> Inr (JNumber (PosInt u))
      | None \<Rightarrow>
     (case int_to_f64 i of
        Some f \<Rightarrow> Inr (float_to_json f)
      | None \<Rightarrow> Inl (unsupported pe (PyInt i)))))"

fun all_ok :: "('e + 'a) list \<Rightarrow> 'e + 'a list" where
  \<comment> \<open>a loop left by \<open>?\<close> at the first error\<close>
  "all_ok [] = Inr []"
| "all_ok (Inl e # xs) = Inl e"
| "all_ok (Inr x # xs) = (case all_ok xs of Inl e \<Rightarrow> Inl e | Inr ys \<Rightarrow> Inr (x # ys))"

definition key_then :: "py_key \<times> (py_err + json) \<Rightarrow> py_err + string \<times> json" where
  "key_then e =
     (case e of
        (KeyOther r, v) \<Rightarrow> Inl TypeErr
      | (KeyStr k, Inl err) \<Rightarrow> Inl err
      | (KeyStr k, Inr v) \<Rightarrow> Inr (k, v))"

definition collected :: "(string \<times> 'v) list \<Rightarrow> (string \<times> 'v) list" where
  "collected kvs = foldl (\<lambda>m (k, v). bt_insert k v m) [] kvs"

primrec py_to_json :: "py_env \<Rightarrow> pyobj \<Rightarrow> py_err + json" where
  "py_to_json pe PyNone = Inr JNull"
| "py_to_json pe (PyBool b) = Inr (JBool b)"
| "py_to_json pe (PyInt i) = int_to_json pe i"
| "py_to_json pe (PyFloat f) = Inr (float_to_json f)"
| "py_to_json pe (PyStr s) = Inr (JText s)"
| "py_to_json pe (PyList vs) = map_sum id JArray (all_ok (map (py_to_json pe) vs))"
| "py_to_json pe (PyDict kvs) =
     map_sum id (\<lambda>m. JObject (collected m)) (all_ok (map key_then (map (map_prod id (py_to_json pe)) kvs)))"
| "py_to_json pe (PyOther r) = Inl (unsupported pe (PyOther r))"

definition obj_to :: "py_env \<Rightarrow> (json \<Rightarrow> string + 'a) \<Rightarrow> pyobj \<Rightarrow> py_err + 'a" where
  "obj_to pe decode v =
     (case py_to_json pe v of Inl e \<Rightarrow> Inl e | Inr j \<Rightarrow> map_sum ValueErr id (decode j))"

definition obj_from :: "(string + json) \<Rightarrow> pyobj py_out" where
  "obj_from v = (case v of Inl e \<Rightarrow> Raises (ValueErr e) | Inr j \<Rightarrow> Gives (json_to_py j))"

section \<open>Free functions\<close>

definition of_result :: "py_env \<Rightarrow> (error + 'a) \<Rightarrow> ('a \<Rightarrow> pyobj) \<Rightarrow> pyobj py_out" where
  "of_result pe r f =
     (case r of Inl e \<Rightarrow> Raises (ValueErr (pe_shown pe (error_display e))) | Inr v \<Rightarrow> Gives (f v))"

definition py_parse_traffic_bool :: "py_env \<Rightarrow> string \<Rightarrow> pyobj py_out" where
  "py_parse_traffic_bool pe s = of_result pe (parse_traffic_bool s) PyBool"

definition py_parse_traffic_u64 :: "py_env \<Rightarrow> string \<Rightarrow> pyobj py_out" where
  "py_parse_traffic_u64 pe s = of_result pe (parse_traffic_u64 s) (\<lambda>n. PyInt (uint n))"

definition py_parse_traffic_f64 :: "py_env \<Rightarrow> string \<Rightarrow> pyobj py_out" where
  "py_parse_traffic_f64 pe s = of_result pe (parse_traffic_f64 s) PyFloat"

definition py_parse_traffic_string :: "py_env \<Rightarrow> string \<Rightarrow> pyobj py_out" where
  "py_parse_traffic_string pe s = of_result pe (parse_traffic_string s) PyStr"

definition py_parse_zone_policy :: "py_env \<Rightarrow> props \<Rightarrow> pyobj py_out" where
  "py_parse_zone_policy pe p = obj_from (pe_json pe (DPolicy (parse_zone_policy p)))"

definition py_parse_edge_traffic_semantics :: "py_env \<Rightarrow> props \<Rightarrow> bool \<Rightarrow> pyobj py_out" where
  "py_parse_edge_traffic_semantics pe p directed =
     obj_from (pe_json pe (DSemantics (parse_edge_traffic_semantics p directed)))"

definition py_validate_zone_traffic :: "py_env \<Rightarrow> props \<Rightarrow> pyobj py_out" where
  "py_validate_zone_traffic pe p = obj_from (pe_json pe (DIssues (validate_zone_traffic_properties p)))"

definition py_validate_edge_traffic :: "py_env \<Rightarrow> props \<Rightarrow> pyobj py_out" where
  "py_validate_edge_traffic pe p = obj_from (pe_json pe (DIssues (validate_edge_traffic_properties p)))"

definition progress_names :: "(string \<times> progress_state) list" where
  "progress_names =
     [(''idle'', Idle), (''following_route'', FollowingRoute), (''waiting'', Waiting), (''queued'', Queued),
      (''blocked'', Blocked), (''replanning'', MustReplan)]"

definition parse_progress_state :: "string \<Rightarrow> progress_state" where
  \<comment> \<open>any other name is idle\<close>
  "parse_progress_state s = unwrap_or (match_key s progress_names) Idle"

definition parse_access_mode :: "string \<Rightarrow> access_mode" where
  \<comment> \<open>any name but \<open>shared\<close> is exclusive\<close>
  "parse_access_mode s = (if s = ''shared'' then Shared else Exclusive)"

fun arbitration_text :: "arbitration \<Rightarrow> string" where
  "arbitration_text GoAhead = ''proceed''"
| "arbitration_text Yield = ''yield''"
| "arbitration_text BothReplan = ''replan''"

text \<open>The two robots of an arbitration, each as its keyword arguments give it.\<close>

record py_side =
  ps_priority :: f64
  ps_holds_lease :: bool
  ps_is_emergency :: bool
  ps_state :: string
  ps_wait_ticks :: u64
  ps_remaining_steps :: u64

definition py_arbitrate_right_of_way :: "py_side \<Rightarrow> py_side \<Rightarrow> string" where
  "py_arbitrate_right_of_way me it =
     arbitration_text (arbitrate_right_of_way
       \<lparr>ac_self_priority = ps_priority me, ac_other_priority = ps_priority it,
        ac_self_holds_lease = ps_holds_lease me, ac_other_holds_lease = ps_holds_lease it,
        ac_self_is_emergency = ps_is_emergency me, ac_other_is_emergency = ps_is_emergency it,
        ac_self_state = parse_progress_state (ps_state me), ac_other_state = parse_progress_state (ps_state it),
        ac_self_wait_ticks = ps_wait_ticks me, ac_other_wait_ticks = ps_wait_ticks it,
        ac_self_remaining_steps = ps_remaining_steps me, ac_other_remaining_steps = ps_remaining_steps it\<rparr>)"

text \<open>
  A struct written out by hand, as its derived serialisation makes it: the fields in order, the first
  failure given up on; a map keeps them by key.
\<close>

definition json_struct :: "(string \<times> (string + json)) list \<Rightarrow> string + json" where
  "json_struct fs = map_sum id (\<lambda>vs. JObject (collected (zip (map fst fs) vs))) (all_ok (map snd fs))"

definition json_opt :: "('a \<Rightarrow> string + json) \<Rightarrow> 'a option \<Rightarrow> string + json" where
  "json_opt f v = (case v of None \<Rightarrow> Inr JNull | Some v \<Rightarrow> f v)"

definition json_u64 :: "u64 option \<Rightarrow> string + json" where
  "json_u64 = json_opt (\<lambda>n. Inr (JNumber (PosInt n)))"

definition json_props :: "props \<Rightarrow> json" where
  "json_props p = JObject (map (map_prod id JText) p)"

definition py_plan_route :: "py_env \<Rightarrow> index \<Rightarrow> string \<Rightarrow> string \<Rightarrow> bool \<Rightarrow> pyobj py_out" where
  "py_plan_route pe ix start goal use_penalties =
     (case pe_uuid pe start of
        Inl e \<Rightarrow> Raises (ValueErr e)
      | Inr start \<Rightarrow>
     (case pe_uuid pe goal of
        Inl e \<Rightarrow> Raises (ValueErr e)
      | Inr goal \<Rightarrow>
     (case plan_route (pe_ho pe) ix start goal use_penalties of
        None \<Rightarrow> Loops
      | Some r \<Rightarrow>
          obj_from (json_struct
            [(''found'', Inr (JBool (sr_found (pr_search r)))),
             (''plan'', json_opt (\<lambda>p. pe_json pe (DPlan p)) (pr_plan r)),
             (''failure'', json_opt (\<lambda>f. pe_json pe (DFailure f)) (pr_failure r)),
             (''distance'', Inr (float_to_json (sr_distance (pr_search r))))]))))"

definition of_run :: "'a run \<Rightarrow> ('a \<Rightarrow> pyobj py_out) \<Rightarrow> pyobj py_out" where
  "of_run r f = (case r of Panics \<Rightarrow> Panicked | Returns v \<Rightarrow> f v)"

definition py_vda_order_from_route :: "py_env \<Rightarrow> pyobj \<Rightarrow> pyobj py_out" where
  "py_vda_order_from_route pe v =
     (case obj_to pe (pe_plan pe) v of
        Inl e \<Rightarrow> Raises e
      | Inr plan \<Rightarrow> of_run (map_route_plan (pe_uuid_text pe) plan) (\<lambda>order. obj_from (pe_json pe (DOrder order))))"

definition py_vda_state_from_robot :: "py_env \<Rightarrow> pyobj \<Rightarrow> pyobj py_out" where
  "py_vda_state_from_robot pe v =
     (case obj_to pe (pe_robot pe) v of
        Inl e \<Rightarrow> Raises e
      | Inr r \<Rightarrow> obj_from (pe_json pe (DState (map_robot_state (pe_uuid_text pe) r))))"

section \<open>Building a workspace\<close>

text \<open>
  What the builder calls of \<open>zoneout\<close>: a zone built from a name, a kind, a boundary, a datum and its
  properties in the order they are given (its id drawn there), and the growing of trees and graphs.
\<close>

record zoneout =
  zo_zone :: "string \<Rightarrow> string \<Rightarrow> (f64 \<times> f64) list \<Rightarrow> geo \<Rightarrow> props \<Rightarrow> string + zone"
  zo_add_child :: "zone \<Rightarrow> zone \<Rightarrow> string + zone"
  zo_workspace :: "zone \<Rightarrow> workspace"
  zo_add_node :: "string \<Rightarrow> point \<Rightarrow> props \<Rightarrow> workspace \<Rightarrow> vid \<times> workspace"
  zo_add_edge :: "vid \<Rightarrow> vid \<Rightarrow> f64 \<Rightarrow> bool \<Rightarrow> edge_data \<Rightarrow> workspace \<Rightarrow> workspace"
  zo_refresh :: "workspace \<Rightarrow> workspace"
  zo_new_id :: "nat \<Rightarrow> uuid"

record builder =
  bu_root :: "zone option"
  bu_datum :: geo
  bu_zones :: "zone list"
  bu_nodes :: "(string \<times> point \<times> props) list"
  bu_edges :: "(string \<times> string \<times> f64 \<times> props) list"

fun properties_loop :: "(py_key \<times> pyobj) list \<Rightarrow> props \<Rightarrow> py_err + props" where
  "properties_loop [] out = Inr out"
| "properties_loop ((KeyStr k, PyStr v) # kvs) out = properties_loop kvs (bt_insert k v out)"
| "properties_loop (kv # kvs) out = Inl TypeErr"

definition properties_from :: "pyobj option \<Rightarrow> py_err + props" where
  "properties_from arg =
     (case arg of
        None \<Rightarrow> Inr []
      | Some PyNone \<Rightarrow> Inr []
      | Some (PyDict kvs) \<Rightarrow> properties_loop kvs []
      | Some other \<Rightarrow> Inl (ValueErr ''properties must be a dict of str -> str''))"

function u64_text :: "nat \<Rightarrow> string" where
  \<comment> \<open>\<open>u64::to_string\<close>\<close>
  "u64_text n = (if n < 10 then [char_of (48 + n)] else u64_text (n div 10) @ [char_of (48 + n mod 10)])"
  by pat_completeness auto
termination by (relation "measure id") auto

definition numbered :: "u64 option \<Rightarrow> props" where
  "numbered n = (case n of None \<Rightarrow> [] | Some n \<Rightarrow> [(numeric_id_property, u64_text (unat n))])"

definition builder_new ::
  "zoneout \<Rightarrow> string \<Rightarrow> (f64 \<times> f64) list \<Rightarrow> geo \<Rightarrow> string \<Rightarrow> pyobj option \<Rightarrow> py_err + builder"
where
  "builder_new zo name boundary datum kind properties =
     (case properties_from properties of
        Inl e \<Rightarrow> Inl e
      | Inr props \<Rightarrow>
     (case zo_zone zo name kind boundary datum props of
        Inl e \<Rightarrow> Inl (RuntimeErr e)
      | Inr whole \<Rightarrow>
          Inr \<lparr>bu_root = Some whole, bu_datum = datum, bu_zones = [], bu_nodes = [], bu_edges = []\<rparr>))"

text \<open>The alias is set before the properties here, and after them on a node and on an edge.\<close>

definition builder_add_zone ::
  "zoneout \<Rightarrow> string \<Rightarrow> (f64 \<times> f64) list \<Rightarrow> u64 option \<Rightarrow> string \<Rightarrow> pyobj option \<Rightarrow> builder
   \<Rightarrow> (py_err + uuid) \<times> builder"
where
  "builder_add_zone zo name boundary n kind properties b =
     (case properties_from properties of
        Inl e \<Rightarrow> (Inl e, b)
      | Inr props \<Rightarrow>
     (case zo_zone zo name kind boundary (bu_datum b) (numbered n @ props) of
        Inl e \<Rightarrow> (Inl (RuntimeErr e), b)
      | Inr z \<Rightarrow> (Inr (z_id z), b\<lparr>bu_zones := bu_zones b @ [z]\<rparr>)))"

definition alias_over :: "u64 option \<Rightarrow> props \<Rightarrow> props" where
  "alias_over n p = foldl (\<lambda>m (k, v). bt_insert k v m) p (numbered n)"

definition or_insert :: "string \<Rightarrow> string \<Rightarrow> props \<Rightarrow> props" where
  "or_insert k v p = (if map_of p k = None then bt_insert k v p else p)"

definition builder_add_node ::
  "string \<Rightarrow> point \<Rightarrow> u64 option \<Rightarrow> pyobj option \<Rightarrow> builder \<Rightarrow> (py_err + unit) \<times> builder"
where
  "builder_add_node name p n properties b =
     (case properties_from properties of
        Inl e \<Rightarrow> (Inl e, b)
      | Inr props \<Rightarrow>
          (Inr (), b\<lparr>bu_nodes := bu_nodes b @ [(name, p, or_insert ''label'' name (alias_over n props))]\<rparr>))"

definition directed_mark :: string where "directed_mark = ''__directed''"

definition builder_add_edge ::
  "string \<Rightarrow> string \<Rightarrow> f64 \<Rightarrow> u64 option \<Rightarrow> bool \<Rightarrow> pyobj option \<Rightarrow> builder \<Rightarrow> (py_err + unit) \<times> builder"
where
  "builder_add_edge source target weight n directed properties b =
     (case properties_from properties of
        Inl e \<Rightarrow> (Inl e, b)
      | Inr props \<Rightarrow>
          (let props = alias_over n props;
               props = (if directed then bt_insert directed_mark ''true'' props else props)
           in (Inr (), b\<lparr>bu_edges := bu_edges b @ [(source, target, weight, props)]\<rparr>)))"

fun add_children :: "zoneout \<Rightarrow> zone \<Rightarrow> zone list \<Rightarrow> string + zone" where
  "add_children zo whole [] = Inr whole"
| "add_children zo whole (z # zs) =
     (case zo_add_child zo whole z of Inl e \<Rightarrow> Inl e | Inr whole \<Rightarrow> add_children zo whole zs)"

fun add_nodes ::
  "zoneout \<Rightarrow> (string \<times> point \<times> props) list \<Rightarrow> (string \<times> vid) list \<Rightarrow> workspace \<Rightarrow> (string \<times> vid) list \<times> workspace"
where
  "add_nodes zo [] names w = (names, w)"
| "add_nodes zo ((name, p, props) # nodes) names w =
     (case zo_add_node zo name p props w of (v, w) \<Rightarrow> add_nodes zo nodes (bt_insert name v names) w)"

fun add_edges ::
  "py_env \<Rightarrow> zoneout \<Rightarrow> (string \<times> vid) list \<Rightarrow> (string \<times> string \<times> f64 \<times> props) list \<Rightarrow> nat \<Rightarrow> workspace
   \<Rightarrow> py_err + workspace"
where
  "add_edges pe zo names [] k w = Inr w"
| "add_edges pe zo names ((source, target, weight, props) # edges) k w =
     (let directed = map_of props directed_mark \<noteq> None;
          props = bt_remove directed_mark props
      in case (map_of names source, map_of names target) of
           (Some from, Some to) \<Rightarrow>
             add_edges pe zo names edges (k + 1)
               (zo_add_edge zo from to weight directed
                  \<lparr>ed_id = zo_new_id zo k, ed_zone_ids = [], ed_properties = props\<rparr> w)
         | _ \<Rightarrow>
             Inl (ValueErr (pe_shown pe
               (Format ''edge {source:?} -> {target:?} names a node that was never added''
                  [AStr source, AStr target]))))"

definition build :: "py_env \<Rightarrow> zoneout \<Rightarrow> builder \<Rightarrow> (py_err + workspace) \<times> builder" where
  "build pe zo b =
     (case bu_root b of
        None \<Rightarrow> (Inl (RuntimeErr ''workspace builder has already been built''), b)
      | Some whole \<Rightarrow>
     (case add_children zo whole (bu_zones b) of
        Inl e \<Rightarrow> (Inl (RuntimeErr e), b\<lparr>bu_root := None, bu_zones := []\<rparr>)
      | Inr whole \<Rightarrow>
          (let w = (zo_workspace zo whole)\<lparr>ws_coord_mode := Local, ws_datum := Some (bu_datum b)\<rparr>;
               (names, w) = add_nodes zo (bu_nodes b) [] w
           in (map_sum id (zo_refresh zo) (add_edges pe zo names (bu_edges b) 0 w),
               b\<lparr>bu_root := None, bu_zones := [], bu_nodes := [], bu_edges := []\<rparr>))))"

section \<open>What an index shows\<close>

definition numeric_of :: "props \<Rightarrow> u64 option" where
  "numeric_of p = parse_numeric_id (map_of p numeric_id_property)"

definition json_uuid :: "py_env \<Rightarrow> uuid \<Rightarrow> json" where
  "json_uuid pe u = JText (pe_uuid_text pe u)"

definition geo_dict :: "geo \<Rightarrow> string + json" where
  "geo_dict g =
     json_struct [(''lat'', Inr (float_to_json (geo_lat g))), (''lon'', Inr (float_to_json (geo_lon g))),
                  (''alt'', Inr (float_to_json (geo_alt g)))]"

definition point_dict :: "point \<Rightarrow> string + json" where
  "point_dict p =
     json_struct [(''x'', Inr (float_to_json (pt_x p))), (''y'', Inr (float_to_json (pt_y p))),
                  (''z'', Inr (float_to_json (pt_z p)))]"

text \<open>The alias of a zone is parsed as it stands, that of a node or an edge trimmed.\<close>

definition zone_numeric :: "index \<Rightarrow> uuid \<Rightarrow> u64 option" where
  "zone_numeric ix zid =
     (case ix_zone_property ix zid numeric_id_property of None \<Rightarrow> None | Some v \<Rightarrow> parse_u64_str v)"

definition corner :: "f64 \<times> f64 \<Rightarrow> json" where
  "corner c = JArray [float_to_json (fst c), float_to_json (snd c)]"

definition zone_json :: "py_env \<Rightarrow> index \<Rightarrow> uuid \<Rightarrow> (string + json) option" where
  "zone_json pe ix zid =
     map_option (\<lambda>z. json_struct
       [(''id'', Inr (json_uuid pe zid)), (''name'', Inr (JText (z_name z))), (''kind'', Inr (JText (z_kind z))),
        (''numeric_id'', json_u64 (zone_numeric ix zid)),
        (''boundary'', Inr (JArray (map corner (unwrap_or (pe_boundary pe zid) [])))),
        (''policy'', json_opt (\<lambda>p. pe_json pe (DPolicy p)) (ix_zone_policy ix zid))])
       (ix_zone ix zid)"

definition node_json :: "py_env \<Rightarrow> vid \<Rightarrow> node_data \<Rightarrow> string + json" where
  "node_json pe v n =
     json_struct
       [(''id'', Inr (json_uuid pe (nd_id n))), (''name'', Inr (JText (pe_node_name pe v))),
        (''numeric_id'', json_u64 (numeric_of (nd_properties n))),
        (''x'', Inr (float_to_json (pt_x (pe_position pe v)))), (''y'', Inr (float_to_json (pt_y (pe_position pe v)))),
        (''z'', Inr (float_to_json (pt_z (pe_position pe v)))), (''properties'', Inr (json_props (nd_properties n)))]"

definition edge_json :: "py_env \<Rightarrow> workspace \<Rightarrow> eid \<Rightarrow> (string + json) option" where
  \<comment> \<open>\<open>None\<close> is the \<open>continue\<close> of the loop\<close>
  "edge_json pe w e =
     (let ends = (\<lambda>v. map_option (\<lambda>n. json_uuid pe (nd_id n)) (ws_get_vertex w v)) in
      case ws_edge_property w e of
        None \<Rightarrow> None
      | Some prop \<Rightarrow>
     (case (opt_bind (ws_source w e) ends, opt_bind (ws_target w e) ends) of
        (Some source, Some target) \<Rightarrow>
          Some (json_struct
            [(''id'', Inr (json_uuid pe (ed_id prop))), (''numeric_id'', json_u64 (numeric_of (ed_properties prop))),
             (''source'', Inr source), (''target'', Inr target), (''properties'', Inr (json_props (ed_properties prop)))])
      | _ \<Rightarrow> None))"

definition json_array :: "(string + json) list \<Rightarrow> string + json" where
  "json_array vs = map_sum id JArray (all_ok vs)"

definition json_zones :: "py_env \<Rightarrow> zone list \<Rightarrow> string + json" where
  "json_zones pe zs = Inr (JArray (map (\<lambda>z. json_uuid pe (z_id z)) zs))"

definition or_none :: "('a \<Rightarrow> pyobj py_out) \<Rightarrow> 'a option \<Rightarrow> pyobj py_out" where
  "or_none f v = (case v of None \<Rightarrow> Gives PyNone | Some v \<Rightarrow> f v)"

definition py_uuid :: "py_env \<Rightarrow> uuid \<Rightarrow> pyobj py_out" where
  "py_uuid pe u = Gives (PyStr (pe_uuid_text pe u))"

definition with_uuid :: "py_env \<Rightarrow> string \<Rightarrow> (uuid \<Rightarrow> pyobj py_out) \<Rightarrow> pyobj py_out" where
  "with_uuid pe s k = (case pe_uuid pe s of Inl e \<Rightarrow> Raises (ValueErr e) | Inr u \<Rightarrow> k u)"

definition converted :: "py_env \<Rightarrow> (error + 'a) \<Rightarrow> ('a \<Rightarrow> string + json) \<Rightarrow> pyobj py_out" where
  "converted pe r f =
     (case r of Inl e \<Rightarrow> Raises (RuntimeErr (pe_shown pe (error_display e))) | Inr v \<Rightarrow> obj_from (f v))"

definition py_zones :: "py_env \<Rightarrow> index \<Rightarrow> pyobj py_out" where
  "py_zones pe ix =
     (case root_zone_id ix of
        None \<Rightarrow> obj_from (json_array [])
      | Some zid \<Rightarrow>
     (case descendant_zones ix zid of
        None \<Rightarrow> Loops
      | Some zs \<Rightarrow> obj_from (json_array (List.map_filter (zone_json pe ix) (zid # map z_id zs)))))"

definition py_zone :: "py_env \<Rightarrow> index \<Rightarrow> string \<Rightarrow> pyobj py_out" where
  "py_zone pe ix s = with_uuid pe s (\<lambda>u. or_none obj_from (zone_json pe ix u))"

definition py_nodes :: "py_env \<Rightarrow> index \<Rightarrow> pyobj py_out" where
  "py_nodes pe ix =
     (let w = ix_workspace ix in
      obj_from (json_array (List.map_filter (\<lambda>v. map_option (node_json pe v) (ws_get_vertex w v)) (ws_vertices w))))"

definition py_node :: "py_env \<Rightarrow> index \<Rightarrow> string \<Rightarrow> pyobj py_out" where
  "py_node pe ix s =
     with_uuid pe s (\<lambda>u.
       case map_of (ix_nodes ix) u of
         None \<Rightarrow> Gives PyNone
       | Some v \<Rightarrow> or_none (\<lambda>n. obj_from (node_json pe v n)) (ws_get_vertex (ix_workspace ix) v))"

definition py_edges :: "py_env \<Rightarrow> index \<Rightarrow> pyobj py_out" where
  "py_edges pe ix =
     (let w = ix_workspace ix in obj_from (json_array (List.map_filter (edge_json pe w) (ws_edges w))))"

datatype index_call =
  IRootZoneId | IValidationIssues | IIsValid
| IZonesOfNode string | IZonesOfEdge string | IDatum | IZones | IZone string | INodes | INode string | IEdges
| IZonePolicy string | IEdgeSemantics string
| IZoneByNumericId u64 | INodeByNumericId u64 | IEdgeByNumericId u64
| ILocalToGlobal point | IGlobalToLocal geo | IEdgeBetween string string

fun index_method :: "py_env \<Rightarrow> index \<Rightarrow> index_call \<Rightarrow> pyobj py_out" where
  "index_method pe ix IRootZoneId = or_none (py_uuid pe) (root_zone_id ix)"
| "index_method pe ix IValidationIssues =
     obj_from (pe_json pe (DValidation (validation_issues (pe_ho pe) (pe_hm pe) ix)))"
| "index_method pe ix IIsValid = Gives (PyBool (ix_is_valid (pe_ho pe) (pe_hm pe) ix))"
| "index_method pe ix (IZonesOfNode s) = with_uuid pe s (\<lambda>u. obj_from (json_zones pe (zones_of_node ix u)))"
| "index_method pe ix (IZonesOfEdge s) = with_uuid pe s (\<lambda>u. obj_from (json_zones pe (zones_of_edge ix u)))"
| "index_method pe ix IDatum = or_none (\<lambda>g. obj_from (geo_dict g)) (ws_datum (ix_workspace ix))"
| "index_method pe ix IZones = py_zones pe ix"
| "index_method pe ix (IZone s) = py_zone pe ix s"
| "index_method pe ix INodes = py_nodes pe ix"
| "index_method pe ix (INode s) = py_node pe ix s"
| "index_method pe ix IEdges = py_edges pe ix"
| "index_method pe ix (IZonePolicy s) =
     with_uuid pe s (\<lambda>u. or_none (\<lambda>p. obj_from (pe_json pe (DPolicy p))) (ix_zone_policy ix u))"
| "index_method pe ix (IEdgeSemantics s) =
     with_uuid pe s (\<lambda>u. or_none (\<lambda>t. obj_from (pe_json pe (DSemantics t))) (ix_edge_traffic ix u))"
| "index_method pe ix (IZoneByNumericId n) = or_none (py_uuid pe) (zone_uuid_by_numeric_id ix n)"
| "index_method pe ix (INodeByNumericId n) = or_none (py_uuid pe) (node_uuid_by_numeric_id ix n)"
| "index_method pe ix (IEdgeByNumericId n) = or_none (py_uuid pe) (edge_uuid_by_numeric_id ix n)"
| "index_method pe ix (ILocalToGlobal p) = converted pe (local_to_global (pe_to_wgs pe) ix p) geo_dict"
| "index_method pe ix (IGlobalToLocal g) = converted pe (global_to_local (pe_to_enu pe) ix g) point_dict"
| "index_method pe ix (IEdgeBetween a b) =
     with_uuid pe a (\<lambda>a. with_uuid pe b (\<lambda>b. or_none (\<lambda>e. py_uuid pe (ed_id e)) (edge_between ix a b)))"

text \<open>\<open>refresh\<close> rebuilds only an index nothing else owns.\<close>

definition index_refresh :: "py_env \<Rightarrow> nat \<Rightarrow> index \<Rightarrow> (py_err + unit) \<times> index" where
  "index_refresh pe owners ix =
     (if owners = 1 then (Inr (), rebuild (pe_ho pe) (ix_workspace ix))
      else (Inl (RuntimeErr ''workspace index has outstanding shared owners''), ix))"

section \<open>The claim manager from a script\<close>

definition py_manager_new :: "index option \<Rightarrow> claim_manager" where
  "py_manager_new oix = (case oix of None \<Rightarrow> cm_new | Some ix \<Rightarrow> cm_with_index ix)"

definition py_evaluate :: "py_env \<Rightarrow> claim_manager \<Rightarrow> pyobj \<Rightarrow> pyobj py_out" where
  "py_evaluate pe m v =
     (case obj_to pe (pe_request pe) v of
        Inl e \<Rightarrow> Raises e
      | Inr r \<Rightarrow>
     (case evaluate_request m r of
        None \<Rightarrow> Loops | Some ev \<Rightarrow> obj_from (pe_json pe (DEvaluation ev))))"

definition py_count :: "'a list \<Rightarrow> pyobj py_out" where
  "py_count xs = Gives (PyInt (int (length xs)))"

definition with_object :: "py_env \<Rightarrow> (json \<Rightarrow> string + 'a) \<Rightarrow> pyobj \<Rightarrow> ('a \<Rightarrow> pyobj py_out \<times> 's) \<Rightarrow> 's \<Rightarrow> pyobj py_out \<times> 's" where
  "with_object pe decode v k s = (case obj_to pe decode v of Inl e \<Rightarrow> (Raises e, s) | Inr x \<Rightarrow> k x)"

definition flagged :: "bool \<times> 's \<Rightarrow> pyobj py_out \<times> 's" where
  "flagged r = (Gives (PyBool (fst r)), snd r)"

definition tallied :: "u64 \<times> 's \<Rightarrow> pyobj py_out \<times> 's" where
  "tallied r = (Gives (PyInt (uint (fst r))), snd r)"

definition nothing :: "'s \<Rightarrow> pyobj py_out \<times> 's" where
  "nothing s = (Gives PyNone, s)"

datatype manager_call =
  MRequestCount | MLeaseCount | MEmpty | MRequests | MLeases | MReleasedLeases | MLeasesForRobot robot_id
| MEvaluate pyobj
| MAddRequest pyobj | MUpsertRequest pyobj | MUpsertRequestForRobot pyobj | MRemoveRequestsForRobot robot_id
| MExpireRequests u64 | MReleaseLeasesForRobot robot_id "u64 option" | MNextRequestId | MRemoveRequest claim_id
| MAddLease pyobj | MUpsertLease pyobj | MRemoveLease lease_id | MReleaseLease lease_id "u64 option"
| MExpireLeases u64 | MRefreshLease lease_id u64 "u64 option" | MRevokeLease lease_id string u64 | MClear

fun manager_method :: "py_env \<Rightarrow> claim_manager \<Rightarrow> manager_call \<Rightarrow> pyobj py_out \<times> claim_manager" where
  "manager_method pe m MRequestCount = (py_count (cm_requests m), m)"
| "manager_method pe m MLeaseCount = (py_count (cm_leases m), m)"
| "manager_method pe m MEmpty = (Gives (PyBool (cm_empty m)), m)"
| "manager_method pe m (MAddRequest v) = with_object pe (pe_request pe) v (\<lambda>r. nothing (add_request m r)) m"
| "manager_method pe m (MUpsertRequest v) = with_object pe (pe_request pe) v (\<lambda>r. nothing (upsert_request m r)) m"
| "manager_method pe m (MUpsertRequestForRobot v) =
     with_object pe (pe_request pe) v (\<lambda>r. flagged (upsert_request_for_robot m r)) m"
| "manager_method pe m (MRemoveRequestsForRobot robot) = tallied (remove_requests_for_robot m robot)"
| "manager_method pe m (MExpireRequests now) = tallied (expire_requests m now)"
| "manager_method pe m (MReleaseLeasesForRobot robot tick) = tallied (release_leases_for_robot m robot tick)"
| "manager_method pe m (MLeasesForRobot robot) = (obj_from (pe_json pe (DLeases (leases_for_robot m robot))), m)"
| "manager_method pe m MNextRequestId = tallied (next_request_id m)"
| "manager_method pe m (MRemoveRequest i) = flagged (remove_request m i)"
| "manager_method pe m (MAddLease v) = with_object pe (pe_lease pe) v (\<lambda>l. nothing (add_lease m l)) m"
| "manager_method pe m (MUpsertLease v) = with_object pe (pe_lease pe) v (\<lambda>l. nothing (upsert_lease m l)) m"
| "manager_method pe m (MRemoveLease i) = flagged (remove_lease m i)"
| "manager_method pe m (MReleaseLease i tick) = flagged (release_lease m i tick)"
| "manager_method pe m (MExpireLeases now) = tallied (expire_leases m now)"
| "manager_method pe m (MRefreshLease i tick expires) = flagged (refresh_lease m i tick expires)"
| "manager_method pe m (MRevokeLease i why tick) = flagged (revoke_lease m i why tick)"
| "manager_method pe m (MEvaluate v) = (py_evaluate pe m v, m)"
| "manager_method pe m MRequests = (obj_from (pe_json pe (DRequests (cm_requests m))), m)"
| "manager_method pe m MLeases = (obj_from (pe_json pe (DLeases (cm_leases m))), m)"
| "manager_method pe m MReleasedLeases = (obj_from (pe_json pe (DLeases (cm_released m))), m)"
| "manager_method pe m MClear = nothing (cm_clear m)"

section \<open>The coordinator from a script\<close>

definition py_coordinator_new :: "py_env \<Rightarrow> index option \<Rightarrow> coordinator" where
  "py_coordinator_new pe oix =
     (case oix of
        None \<Rightarrow> co_default (pe_pepper pe) (pe_kdf pe)
      | Some ix \<Rightarrow> co_with_index (pe_pepper pe) (pe_kdf pe) ix)"

definition py_schedule ::
  "py_env \<Rightarrow> coordinator \<Rightarrow> robot_id \<Rightarrow> claim_id \<Rightarrow> u64 \<Rightarrow> f64 \<Rightarrow> string \<Rightarrow> pyobj py_out \<times> coordinator"
where
  "py_schedule pe c rid cid start unit_ticks mode =
     (case schedule_robot_route c rid cid start unit_ticks (parse_access_mode mode) of
        None \<Rightarrow> (Loops, c)
      | Some (d, c) \<Rightarrow> (obj_from (pe_json pe (DSchedule d)), c))"

text \<open>A pose needs both \<open>x\<close> and \<open>y\<close>; a heading needs the yaw.\<close>

definition py_position ::
  "py_env \<Rightarrow> index option \<Rightarrow> f64 option \<Rightarrow> f64 option \<Rightarrow> f64 option \<Rightarrow> string \<Rightarrow> robot_position option"
where
  "py_position pe oix x y z frame =
     (case (x, y) of
        (Some x, Some y) \<Rightarrow>
          Some (if frame = ''global'' then from_global (pe_to_enu pe) x y (unwrap_or z f64_zero) oix
                else from_local (pe_to_wgs pe) x y (unwrap_or z f64_zero) oix)
      | _ \<Rightarrow> None)"

record py_pose =
  pp_x :: "f64 option"
  pp_y :: "f64 option"
  pp_z :: "f64 option"
  pp_yaw :: "f64 option"
  pp_frame :: string
  pp_roll :: "f64 option"
  pp_pitch :: "f64 option"

definition py_update_pose :: "py_env \<Rightarrow> coordinator \<Rightarrow> robot_id \<Rightarrow> py_pose \<Rightarrow> u64 \<Rightarrow> bool \<times> coordinator" where
  "py_update_pose pe c rid p now =
     update_robot_pose c rid
       (py_position pe (co_index c) (pp_x p) (pp_y p) (pp_z p) (pp_frame p))
       (map_option (from_rpy (pp_roll p) (pp_pitch p)) (pp_yaw p)) now"

fun opt_uuid :: "py_env \<Rightarrow> string option \<Rightarrow> py_err + uuid option" where
  "opt_uuid pe None = Inr None"
| "opt_uuid pe (Some s) = (case pe_uuid pe s of Inl e \<Rightarrow> Inl (ValueErr e) | Inr u \<Rightarrow> Inr (Some u))"

definition py_update_progress ::
  "py_env \<Rightarrow> coordinator \<Rightarrow> robot_id \<Rightarrow> string option \<Rightarrow> string option \<Rightarrow> u64 \<Rightarrow> pyobj py_out \<times> coordinator"
where
  "py_update_progress pe c rid node edge tick =
     (case opt_uuid pe node of
        Inl e \<Rightarrow> (Raises e, c)
      | Inr node \<Rightarrow>
     (case opt_uuid pe edge of
        Inl e \<Rightarrow> (Raises e, c)
      | Inr edge \<Rightarrow> flagged (update_robot_progress c rid node edge tick)))"

definition in_claims :: "coordinator \<Rightarrow> pyobj py_out \<times> claim_manager \<Rightarrow> pyobj py_out \<times> coordinator" where
  \<comment> \<open>a call on \<open>claim_manager_mut()\<close>\<close>
  "in_claims c r = (fst r, c\<lparr>co_claims := snd r\<rparr>)"

definition py_ids :: "u64 list \<Rightarrow> pyobj" where
  "py_ids ns = PyList (map (\<lambda>n. PyInt (uint n)) ns)"

datatype coordinator_call =
  CRobotCount | CEmpty | CRobotState robot_id | CRobotStates | CActiveAt robot_id u64 | CInactiveAt u64 | CSnapshot
| CRequests | CLeases | CRequestCount | CLeaseCount
| CClaimRequest robot_id claim_id string | CEvaluate pyobj
| CRegister pyobj | CUnregister robot_id | CAssignPlan robot_id pyobj u64 u64
| CProgress robot_id "string option" "string option" u64 | CSchedule robot_id claim_id u64 f64 string
| CRefreshLeases robot_id u64 u64 | CRevokeLeases robot_id string u64 | CMissedSlot robot_id u64 u64
| CReleaseBehind robot_id | CUpsertClaim pyobj | CRemoveClaims robot_id
| CClaimState robot_id "claim_id list" "lease_id list" "u64 option" | CPose robot_id py_pose u64
| CExpireClaims u64 | CSetAlive robot_id u64 u64 | CTouch robot_id u64 | CSweep u64 | CClear

fun coordinator_read :: "py_env \<Rightarrow> coordinator \<Rightarrow> coordinator_call \<Rightarrow> pyobj py_out option" where
  "coordinator_read pe c CRobotCount = Some (py_count (co_robots c))"
| "coordinator_read pe c CEmpty = Some (Gives (PyBool (co_robots c = [])))"
| "coordinator_read pe c (CRobotState rid) =
     Some (or_none (\<lambda>s. obj_from (pe_json pe (DRobot s))) (find_robot_state c rid))"
| "coordinator_read pe c CRobotStates = Some (obj_from (pe_json pe (DRobots (co_robots c))))"
| "coordinator_read pe c (CActiveAt rid now) = Some (Gives (PyBool (robot_active_at c rid now)))"
| "coordinator_read pe c (CInactiveAt now) = Some (Gives (py_ids (inactive_robots_at c now)))"
| "coordinator_read pe c CSnapshot = Some (obj_from (pe_json pe (DSnapshot (snapshot c))))"
| "coordinator_read pe c CRequests = Some (obj_from (pe_json pe (DRequests (cm_requests (co_claims c)))))"
| "coordinator_read pe c CLeases = Some (obj_from (pe_json pe (DLeases (cm_leases (co_claims c)))))"
| "coordinator_read pe c CRequestCount = Some (py_count (cm_requests (co_claims c)))"
| "coordinator_read pe c CLeaseCount = Some (py_count (cm_leases (co_claims c)))"
| "coordinator_read pe c (CClaimRequest rid cid mode) =
     Some (obj_from (pe_json pe (DRequest (claim_request_for_robot c rid cid (parse_access_mode mode)))))"
| "coordinator_read pe c (CEvaluate v) = Some (py_evaluate pe (co_claims c) v)"
| "coordinator_read pe c call = None"

fun coordinator_write :: "py_env \<Rightarrow> coordinator \<Rightarrow> coordinator_call \<Rightarrow> pyobj py_out \<times> coordinator" where
  "coordinator_write pe c (CRegister v) = with_object pe (pe_robot pe) v (\<lambda>s. nothing (register_robot c s)) c"
| "coordinator_write pe c (CUnregister rid) = flagged (unregister_robot c rid)"
| "coordinator_write pe c (CAssignPlan rid v horizon tick) =
     with_object pe (pe_plan pe) v (\<lambda>p. flagged (assign_route_plan c rid p horizon tick)) c"
| "coordinator_write pe c (CProgress rid node edge tick) = py_update_progress pe c rid node edge tick"
| "coordinator_write pe c (CSchedule rid cid start unit_ticks mode) = py_schedule pe c rid cid start unit_ticks mode"
| "coordinator_write pe c (CRefreshLeases rid tick extension) = tallied (refresh_robot_leases c rid tick extension)"
| "coordinator_write pe c (CRevokeLeases rid why tick) = tallied (revoke_robot_leases c rid why tick)"
| "coordinator_write pe c (CMissedSlot rid now grace) = flagged (handle_missed_schedule_slot c rid now grace)"
| "coordinator_write pe c (CReleaseBehind rid) = tallied (release_behind_progress c rid)"
| "coordinator_write pe c (CUpsertClaim v) = in_claims c (manager_method pe (co_claims c) (MUpsertRequestForRobot v))"
| "coordinator_write pe c (CRemoveClaims rid) = in_claims c (manager_method pe (co_claims c) (MRemoveRequestsForRobot rid))"
| "coordinator_write pe c (CClaimState rid pending leases tick) =
     flagged (update_robot_claim_state c rid pending leases tick)"
| "coordinator_write pe c (CPose rid p now) = flagged (py_update_pose pe c rid p now)"
| "coordinator_write pe c (CExpireClaims now) = tallied (expire_claims c now)"
| "coordinator_write pe c (CSetAlive rid interval now) = nothing (set_alive c rid interval now)"
| "coordinator_write pe c (CTouch rid now) = nothing (touch_robot c rid now)"
| "coordinator_write pe c (CSweep now) = (case sweep_inactive c now of (ids, c) \<Rightarrow> (Gives (py_ids ids), c))"
| "coordinator_write pe c CClear = nothing (co_clear c)"
| "coordinator_write pe c call = (Gives PyNone, c)"

definition coordinator_method ::
  "py_env \<Rightarrow> coordinator \<Rightarrow> coordinator_call \<Rightarrow> pyobj py_out \<times> coordinator"
where
  "coordinator_method pe c call =
     (case coordinator_read pe c call of Some r \<Rightarrow> (r, c) | None \<Rightarrow> coordinator_write pe c call)"

end
