(* ===== verification/Script.thy ===== *)
theory Script
  imports Python Fleet
begin

text \<open>
  What the Python bindings promise a script: a value that goes through JSON in one direction comes
  back in the other as it was, and no call of a script breaks the roster of a coordinator.
\<close>

section \<open>Values there and back\<close>

text \<open>
  A JSON value as \<open>serde_json\<close> builds it: a negative integer is one of \<open>i64\<close>, a double is finite, and
  the keys of an object are in order, each once.
\<close>

definition number_ok :: "number \<Rightarrow> bool" where
  "number_ok n =
     (case n of PosInt u \<Rightarrow> True | NegInt i \<Rightarrow> - (2 ^ 63) \<le> i \<and> i < 0 | Double f \<Rightarrow> f64_is_finite f)"

primrec json_ok :: "json \<Rightarrow> bool" where
  "json_ok JNull = True"
| "json_ok (JBool b) = True"
| "json_ok (JNumber n) = number_ok n"
| "json_ok (JText s) = True"
| "json_ok (JArray vs) = list_all id (map json_ok vs)"
| "json_ok (JObject kvs) = (bt_ok kvs \<and> list_all (\<lambda>(k, ok). ok) (map (map_prod id json_ok) kvs))"

lemma number_back:
  assumes "number_ok n"
  shows "py_to_json pe (number_to_py n) = Inr (JNumber n)"
proof (cases n)
  case (PosInt u)
  have u: "0 \<le> uint u" "uint u < 2 ^ 64" using uint_lt2p [of u] by simp_all
  have low: "- (2 ^ 63) \<le> uint u" by (rule order_trans [OF _ u(1)]) simp
  show ?thesis
  proof (cases "uint u < 2 ^ 63")
    case True
    with PosInt u low show ?thesis
      by (simp add: number_to_py_def as_i64_def int_to_json_def extract_i64_def from_i64_def)
  next
    case False
    with PosInt u show ?thesis
      by (simp add: number_to_py_def as_i64_def as_u64_def int_to_json_def extract_i64_def extract_u64_def)
  qed
next
  case (NegInt i)
  with assms show ?thesis
    by (simp add: number_ok_def number_to_py_def as_i64_def int_to_json_def extract_i64_def from_i64_def)
next
  case (Double f)
  with assms show ?thesis
    by (cases f) (simp_all add: number_ok_def number_to_py_def as_i64_def as_u64_def as_f64_def
        float_to_json_def from_f64_def)
qed

lemma all_ok_map: "(\<And>x. x \<in> set xs \<Longrightarrow> f x = Inr (g x)) \<Longrightarrow> all_ok (map f xs) = Inr (map g xs)"
  by (induction xs) simp_all

lemma update_new: "k \<notin> fst ` set d \<Longrightarrow> AList.update k v d = d @ [(k, v)]"
  by (induction d) auto

text \<open>A dict filled from an object holds its entries, in their order.\<close>

lemma dict_filled:
  "distinct (map fst (acc @ kvs)) \<Longrightarrow>
   foldl (\<lambda>d (k, v). set_item (KeyStr k) v d) (map (\<lambda>(k, v). (KeyStr k, v)) acc) kvs
     = map (\<lambda>(k, v). (KeyStr k, v)) (acc @ kvs)"
proof (induction kvs arbitrary: acc)
  case (Cons kv kvs)
  obtain k v where kv: "kv = (k, v)" by force
  have "set_item (KeyStr k) v (map (\<lambda>(k, v). (KeyStr k, v)) acc) = map (\<lambda>(k, v). (KeyStr k, v)) (acc @ [(k, v)])"
    unfolding set_item_def using Cons.prems by (subst update_new) (force simp: kv)+
  with Cons.IH [of "acc @ [(k, v)]"] Cons.prems show ?case by (simp add: kv)
qed simp

lemma dict_of_object:
  assumes "bt_ok kvs"
  shows "json_to_py (JObject kvs) = PyDict (map (\<lambda>(k, v). (KeyStr k, json_to_py v)) kvs)"
proof -
  have "distinct (map fst ([] @ map (map_prod id json_to_py) kvs))"
    using bt_ok_distinct [OF assms] by (simp add: comp_def)
  from dict_filled [OF this] show ?thesis by (simp add: comp_def case_prod_unfold)
qed

lemma json_back: "json_ok j \<Longrightarrow> py_to_json pe (json_to_py j) = Inr j"
proof (induction j)
  case (JNumber n)
  then show ?case by (simp add: number_back)
next
  case (JArray vs)
  then have "all_ok (map (\<lambda>v. py_to_json pe (json_to_py v)) vs) = Inr (map id vs)"
    by (intro all_ok_map) (simp add: list_all_iff)
  then show ?case by (simp add: comp_def)
next
  case (JObject kvs)
  have "all_ok (map (\<lambda>(k, v). key_then (KeyStr k, py_to_json pe (json_to_py v))) kvs) = Inr (map id kvs)"
  proof (rule all_ok_map)
    fix kv assume kv: "kv \<in> set kvs"
    obtain k v where p: "kv = (k, v)" by force
    from kv JObject.prems have "json_ok v" by (fastforce simp: list_all_iff p)
    with JObject.IH [OF kv, of v] show "(case kv of (k, v) \<Rightarrow> key_then (KeyStr k, py_to_json pe (json_to_py v))) = Inr (id kv)"
      by (simp add: p key_then_def)
  qed
  moreover have "collected kvs = kvs"
    using JObject.prems bt_copy_nil [of kvs] by (simp add: collected_def)
  ultimately show ?case
    using JObject.prems by (simp add: dict_of_object comp_def case_prod_unfold del: json_to_py.simps(6))
qed simp_all

text \<open>
  C23: a JSON value that the bindings hand to a script and take back is the value it was, whatever
  its nesting, whichever of the three kinds its numbers are and whatever its keys; so an argument that
  came from another call means to the callee what it meant to the caller.
\<close>

theorem json_roundtrip:
  assumes "json_ok j"
  shows "py_to_json pe (json_to_py j) = Inr j
    \<and> obj_to pe decode (json_to_py j) = map_sum ValueErr id (decode j)"
  by (simp add: json_back [OF assms] obj_to_def)

definition demo_json :: json where
  "demo_json =
     JObject [(''a'', JArray [JNumber (PosInt (- 1)), JNumber (NegInt (- 5)), JNumber (Double (Fin 0)), JNull]),
              (''b'', JObject [])]"

theorem json_roundtrip_witness: "\<forall>pe. py_to_json pe (json_to_py demo_json) = Inr demo_json"
proof
  fix pe
  have "json_ok demo_json"
    by (simp add: demo_json_def bt_ok_def number_ok_def)
  then show "py_to_json pe (json_to_py demo_json) = Inr demo_json"
    using json_roundtrip by blast
qed

section \<open>A script and the roster\<close>

text \<open>
  Every call of a script on a coordinator is a call of the coordinator or none, and none of them hands
  out a robot's state to be written to.
\<close>

lemma with_object_step:
  "P s \<Longrightarrow> (\<And>x. P (snd (k x))) \<Longrightarrow> P (snd (with_object pe decode v k s))"
  by (simp add: with_object_def split: sum.split)

lemma script_step:
  assumes "fleet_reach cx c"
  shows "fleet_reach cx (snd (coordinator_method pe c call))"
proof (cases "coordinator_read pe c call")
  case (Some r)
  with assms show ?thesis by (simp add: coordinator_method_def)
next
  case None
  note steps = fleet_step.intros [THEN fleet_reach.call [OF assms]]
  have "fleet_reach cx (snd (coordinator_write pe c call))"
  proof (cases call)
    case (CProgress rid node edge tick)
    then show ?thesis
      by (simp add: steps(17) assms flagged_def py_update_progress_def split: sum.split)
  next
    case (CSchedule rid cid start unit_ticks mode)
    then show ?thesis
      using steps(21) by (auto simp: assms py_schedule_def split: option.split)
  next
    case (CSweep now)
    with steps(4) [of now] show ?thesis by (cases "sweep_inactive c now") simp
  qed (simp_all add: steps(1-20,22-25) assms with_object_step flagged_def tallied_def nothing_def in_claims_def
      py_update_pose_def)
  with None show ?thesis by (simp add: coordinator_method_def)
qed

lemma script_reach:
  "fleet_reach cx c \<Longrightarrow> fleet_reach cx (foldl (\<lambda>c call. snd (coordinator_method pe c call)) c calls)"
  by (induction calls arbitrary: c) (simp_all add: script_step)

text \<open>
  Whatever a script calls on a coordinator it made, no robot is listed twice, every key and every UUID
  belongs to a listed robot, and no two UUIDs stand for one.
\<close>

theorem script_roster:
  "roster_ok (foldl (\<lambda>c call. snd (coordinator_method pe c call)) (py_coordinator_new pe oix) calls)"
proof -
  have "fleet_reach cx (py_coordinator_new pe oix)" for cx
    by (auto simp: py_coordinator_new_def intro: fleet_reach.intros split: option.split)
  from reach_roster [OF script_reach [OF this]] show ?thesis .
qed

end
