(* ===== verification/Spec2Isabelle.thy ===== *)
theory Spec2Isabelle
  imports Daemon Abi Granting Script
begin

text \<open>
  A verification library for syncbot, the server that arbitrates a fleet of mobile robots over a shared
  workspace of zones, nodes and edges. File names are relative to \<open>src/src/\<close>.

  \<^bold>\<open>How the program is put together.\<close> A workspace (crates \<open>zoneout\<close> and \<open>graphix\<close>) is indexed by
  \<open>index.rs\<close>; \<open>policy.rs\<close> turns the string properties of its zones and edges into typed policies.
  \<open>route.rs\<close> plans over the index. \<open>claim/\<close> keeps who holds what and decides who may. \<open>coordinator.rs\<close>
  adds the robots: their states, keys, heartbeats, schedules and leases. \<open>wire/mod.rs\<close> is the protocol:
  flat calls that authenticate a robot and act on one coordinator behind a lock. \<open>wire/peerbus.rs\<close>
  carries those calls over a message bus, \<open>wire/rest.rs\<close> and \<open>wire/xmlt.rs\<close> carry them over HTTP as
  clients of that bus, \<open>ffi.rs\<close> and \<open>python/mod.rs\<close> hand the same structs to C and to Python, \<open>vda/\<close>
  writes plans as VDA 5050 orders, \<open>persist.rs\<close> saves the coordinator and \<open>bin/syncbot.rs\<close> is the daemon.

  \<^bold>\<open>Ground theories.\<close> \<open>Prelude\<close>: list searches, in-place removal, the archive loop, maps, and the
  collections of simplification rules. \<open>F64\<close>: IEEE doubles as NaN, infinities and rationals with
  round-half-even (the sign of zero is dropped). \<open>Text\<close>: strings as UTF-8 bytes, number parsing,
  messages, errors (\<open>core/error.rs\<close>), ordered maps (\<open>BTreeMap\<close>).

  \<^bold>\<open>Model and properties, part by part.\<close>
  \<^item> \<open>Policy\<close> is \<open>policy.rs\<close>: parsing, validation, merging, derivation; what a parsed policy satisfies.
  \<^item> \<open>Index\<close> is \<open>index.rs\<close>: \<open>rebuild\<close> with its five passes, lookups, validation; containment of zones is
    the subtree relation. \<open>Descend\<close>: the unguarded walk down from a zone ends. \<open>Sample\<close>: a small yard.
  \<^item> \<open>Frontier\<close> is the binary heap of the standard library as the search uses it; \<open>Route\<close> is \<open>route.rs\<close>;
    \<open>Search\<close>: the distance found is the least; \<open>Plan\<close>: what a plan and what a failure says.
  \<^item> \<open>Claim\<close> is \<open>claim/mod.rs\<close> and the free functions of \<open>claim/manager.rs\<close>; \<open>Ledger\<close> the contract of a
    keyed list; \<open>Manager\<close> the struct \<open>ClaimManager\<close>. \<open>Safety\<close>: the manager as a transition system, no
    reachable state of which holds conflicting claims or an overfull zone. \<open>Granting\<close>: a specification
    of when a request is granted, by pairs of claims and counts of robots, and the evaluator meets it.
  \<^item> \<open>Robot\<close> is \<open>robot.rs\<close>; \<open>Schedule\<close> the scheduling half of \<open>coordinator.rs\<close>, with \<open>Reserve\<close> its
    refinement of a specification; \<open>Key\<close> is \<open>core/key.rs\<close>; \<open>Coordinator\<close> the struct of \<open>coordinator.rs\<close>
    and its snapshot. \<open>Identity\<close>: runs of the identity calls, and who can be let in. \<open>Fleet\<close>: the roster,
    unregistering and sweeping, over every public call and over restored coordinators.
  \<^item> \<open>Wire\<close> is \<open>wire/mod.rs\<close>; \<open>Session\<close> the runs of its calls and how they refine \<open>Safety\<close>, \<open>Identity\<close>
    and \<open>Fleet\<close>; \<open>Protocol\<close> the properties of single calls and of sessions; \<open>Berth\<close> a worked session.
  \<^item> \<open>Peer\<close> is \<open>wire/peerbus.rs\<close>: messages, handlers, reassembly, the client; \<open>Bus\<close> its properties.
    \<open>Http\<close> is \<open>wire/rest.rs\<close> and \<open>wire/xmlt.rs\<close>; \<open>Web\<close> its properties. \<open>Serving\<close>: every request is
    answered, and what map a core serves over its life.
  \<^item> \<open>Vda\<close> is \<open>vda/\<close>, with \<open>Orders\<close>; \<open>Ffi\<close> is \<open>ffi.rs\<close>, with \<open>Abi\<close>; \<open>Python\<close> is \<open>python/mod.rs\<close>, with
    \<open>Script\<close>; \<open>Store\<close> is \<open>persist.rs\<close> over a file system; \<open>Daemon\<close> is \<open>bin/syncbot.rs\<close> up to its listener
    and the life of the state file.

  \<^bold>\<open>Contracts.\<close> Locales state what a client relies on, and each is interpreted on the model itself.
  \<open>frontier\<close> (a priority queue) on the heap: \<open>bh\<close>. \<open>ledger\<close> (lookup after insertion and removal) on the
  requests and the leases of the manager: \<open>requests\<close>, \<open>leases\<close>. \<open>containment\<close> (an order and a walk up
  that ends) on lawful indexes: \<open>zones\<close>. \<open>robot_op\<close> (an update that keeps the robot's id) on the nine
  updates of the coordinator, from \<open>pose\<close> to \<open>replanned\<close>. \<open>wire_call\<close> (a call is a run of coordinator
  calls with given identity events) on each call of the protocol: \<open>registering\<close>, \<open>deregistering\<close>,
  \<open>beating\<close>, \<open>releasing\<close>, \<open>claiming\<close>, \<open>challenging\<close>, \<open>proving\<close>, \<open>sweeping\<close>.

  \<^bold>\<open>Conventions.\<close> A struct is a record, an enum a datatype, a \<open>u64\<close> a word of its width; \<open>usize\<close> is a
  natural number. Unchecked arithmetic wraps, as in a release build. A function that may not return has
  an option result, \<open>None\<close> for no return; one that may panic returns \<open>Panics\<close> or \<open>Returns\<close>; a handler of
  the bus ends in \<open>Done\<close>, \<open>Died\<close> or \<open>Stuck\<close>; a call from C in \<open>Ret\<close>, \<open>Undefined\<close>, \<open>Diverges\<close> or
  \<open>Aborts\<close>; a call from Python in \<open>Gives\<close>, \<open>Raises\<close>, \<open>Loops\<close> or \<open>Panicked\<close>. Errors are the left of a
  sum. Code outside the repository is a parameter: the records \<open>crypto\<close> and \<open>crates\<close> (hashing, keys,
  coordinates), \<open>call_env\<close> (clock, random draws), \<open>site\<close> (loading a pushed document), \<open>http\<close>, \<open>ffi_env\<close>
  and \<open>py_env\<close> (codecs and texts), \<open>zoneout\<close>, \<open>io_env\<close> and \<open>host\<close> (the system). Iteration orders of hash
  maps are the parameters \<open>ho\<close> and \<open>hm\<close>. What is assumed of a parameter is a named predicate:
  \<open>crypto_ok\<close>, \<open>hash_order\<close>, \<open>find_zone_ok\<close>, \<open>index_ok\<close>, \<open>site_ok\<close>, \<open>host_ok\<close>, each shown to hold of a
  concrete instance.

  \<^bold>\<open>Steps, bounds and fuel.\<close> The coordinator's lock is held through a call, so one call is one step, and a
  session is any sequence of calls and sweeps with any clock. No loop is cut off by fuel: each is
  structural, has a proved measure, or is a partial function whose return is proved where the code
  guarantees it (searches, walks of the zone tree on distinct ids). The limits of the code are its own:
  64 targets in a claim, 64 levels of zones in a push, 256 events, chunks of 512 KiB and 256 MiB to a
  push, 2 MiB to a body. Sessions claim with room to spare: not under the id \<open>u64::MAX\<close>, in lists a \<open>Vec\<close>
  can hold; \<open>Safety\<close> shows what happens at the last id.

  \<^bold>\<open>Not modelled.\<close> The encodings (JSON, XML, datapod), the transport of the bus and of HTTP, threads and the
  background sweeper's timing, logging, signals, the fuzzing entry \<open>decode_any\<close>, and of the Python module
  the loading and saving of workspaces and the registration of names.
\<close>

end
